(* ===== verification/Prelude.thy ===== *)
theory Prelude
  imports Main "HOL-Library.Char_ord" "HOL-Library.List_Lexorder" "HOL-Library.AList"
begin

text \<open>
  Shared vocabulary of the development: the proof collections, JSON values as the program
  passes them around, JavaScript's truthiness, \<open>??\<close>, \<open>trim\<close>, template strings for
  numbers, and \<open>toSorted\<close>.

  Strings are \<^typ>\<open>string\<close>: a JavaScript string whose UTF-16 code units are all below
  256 is the list of those units, so \<open>length\<close>, \<open>slice\<close> and \<open><\<close> agree with the
  code. A number in a JSON value is an integer \<open>JNum n\<close>, or a number with a fraction
  \<open>JDec neg i z d\<close>, known by the decimal it prints as: a sign, the integer part \<open>i\<close>,
  and after the point \<open>z\<close> zeros followed by the digits of \<open>d\<close>. Numbers that print in
  exponent notation are not represented.
\<close>

section \<open>Proof collections\<close>

named_theorems js_simps \<open>JavaScript helpers: truthiness, nullish coalescing, object access\<close>
named_theorems monad_simps \<open>unfolding rules of the state-and-exception monad\<close>
named_theorems preserves_intros \<open>introduction rules for invariants of monadic programs\<close>

section \<open>JSON values and JavaScript idioms\<close>

datatype json =
    JNull
  | JBool bool
  | JNum int
  | JDec bool nat nat nat
  | JStr string
  | JArr "json list"
  | JObj "(string \<times> json) list"

type_synonym json_object = "(string \<times> json) list"

text \<open>\<open>obj[key]\<close>: \<open>None\<close> is \<open>undefined\<close>.\<close>

definition obj_get :: "json_object \<Rightarrow> string \<Rightarrow> json option" where
  "obj_get ob k = map_of ob k"

text \<open>\<open>value.key\<close> on an arbitrary value other than \<open>null\<close>/\<open>undefined\<close>
  (a property access on a primitive yields \<open>undefined\<close>).\<close>

fun json_field :: "json \<Rightarrow> string \<Rightarrow> json option" where
  "json_field (JObj ob) k = obj_get ob k"
| "json_field _ k = None"

text \<open>\<open>{...a, ...b}\<close>: later properties win, an overwritten property keeps its place.\<close>

definition obj_spread :: "json_object \<Rightarrow> json_object \<Rightarrow> json_object" where
  "obj_spread a b = fold (\<lambda>(k, v). AList.update k v) b a"

text \<open>Truthiness of an optional string: \<open>undefined\<close> and \<open>""\<close> are falsy.\<close>

fun truthy :: "string option \<Rightarrow> bool" where
  "truthy None = False"
| "truthy (Some s) = (s \<noteq> [])"

fun nullish :: "'a option \<Rightarrow> 'a \<Rightarrow> 'a" where
  "nullish None d = d"
| "nullish (Some x) d = x"

lemma obj_get_Nil [simp, js_simps]: "obj_get [] k = None"
  by (simp add: obj_get_def)

lemma obj_get_Cons [simp, js_simps]:
  "obj_get ((k', v) # ob) k = (if k = k' then Some v else obj_get ob k)"
  by (simp add: obj_get_def)

lemma truthy_iff [js_simps]: "truthy s \<longleftrightarrow> (\<exists>c cs. s = Some (c # cs))"
  by (cases s) (auto simp: neq_Nil_conv)

text \<open>A JSON value's own truthiness.\<close>

fun json_truthy :: "json \<Rightarrow> bool" where
  "json_truthy JNull = False"
| "json_truthy (JBool b) = b"
| "json_truthy (JNum n) = (n \<noteq> 0)"
| "json_truthy (JDec _ _ _ _) = True"
| "json_truthy (JStr s) = (s \<noteq> [])"
| "json_truthy (JArr _) = True"
| "json_truthy (JObj _) = True"

fun json_is_string :: "json option \<Rightarrow> bool" where
  "json_is_string (Some (JStr _)) = True"
| "json_is_string _ = False"

text \<open>\<open>typeof v === "string" ? v : d\<close>\<close>

fun string_or :: "json option \<Rightarrow> string \<Rightarrow> string" where
  "string_or (Some (JStr s)) d = s"
| "string_or _ d = d"

section \<open>Strings\<close>

text \<open>The white space \<open>String.prototype.trim\<close> removes, among the code units below 256.\<close>

definition js_whitespace :: "char \<Rightarrow> bool" where
  "js_whitespace c \<longleftrightarrow> of_char c \<in> {9, 10, 11, 12, 13, 32, 160 :: nat}"

definition js_trim :: "string \<Rightarrow> string" where
  "js_trim s = rev (dropWhile js_whitespace (rev (dropWhile js_whitespace s)))"

lemma js_trim_Nil [simp]: "js_trim [] = []"
  by (simp add: js_trim_def)

text \<open>\<open>text.split(",")\<close>, with the piece read so far, and the trimmed pieces that are not blank.\<close>

fun split_comma :: "string \<Rightarrow> string \<Rightarrow> string list" where
  "split_comma acc [] = [acc]"
| "split_comma acc (c # s) = (if c = CHR '','' then acc # split_comma [] s else split_comma (acc @ [c]) s)"

definition comma_items :: "string \<Rightarrow> string list" where
  "comma_items s = filter (\<lambda>t. t \<noteq> []) (map js_trim (split_comma [] s))"

text \<open>Decimal digits, for \<open>`${n}`\<close>.\<close>

fun digit_char :: "nat \<Rightarrow> char" where
  "digit_char d = char_of (48 + d)"

fun show_nat :: "nat \<Rightarrow> string" where
  "show_nat n = (if n < 10 then [digit_char n] else show_nat (n div 10) @ [digit_char (n mod 10)])"

declare show_nat.simps [simp del]

definition show_int :: "int \<Rightarrow> string" where
  "show_int i = (if i < 0 then CHR ''-'' # show_nat (nat (- i)) else show_nat (nat i))"

definition show_dec :: "bool \<Rightarrow> nat \<Rightarrow> nat \<Rightarrow> nat \<Rightarrow> string" where
  "show_dec neg i z d = (if neg then ''-'' else []) @ show_nat i @ ''.'' @ replicate z (CHR ''0'') @ show_nat d"

definition is_digit :: "char \<Rightarrow> bool" where
  "is_digit c \<longleftrightarrow> of_char c \<in> {48..57 :: nat}"

lemma digit_char_inject:
  assumes "a < 10" "b < 10" "digit_char a = digit_char b"
  shows "a = b"
proof -
  have "of_char (digit_char a) = (of_char (digit_char b) :: nat)"
    using assms(3) by simp
  then show ?thesis using assms(1,2) by simp
qed

lemma is_digit_digit_char: "d < 10 \<Longrightarrow> is_digit (digit_char d)"
  by (simp add: is_digit_def)

lemma show_nat_digits: "\<forall>c \<in> set (show_nat n). is_digit c"
proof (induction n rule: show_nat.induct)
  case (1 n)
  show ?case
  proof (cases "n < 10")
    case True
    then show ?thesis by (subst show_nat.simps) (simp add: is_digit_digit_char del: digit_char.simps)
  next
    case False
    with "1.IH" show ?thesis
      by (subst show_nat.simps) (simp add: is_digit_digit_char del: digit_char.simps)
  qed
qed

lemma show_nat_nonempty [simp]: "show_nat n \<noteq> []"
  by (subst show_nat.simps) simp

lemma show_nat_inject: "show_nat m = show_nat n \<longleftrightarrow> m = n"
proof
  show "show_nat m = show_nat n \<Longrightarrow> m = n"
  proof (induction m arbitrary: n rule: show_nat.induct)
    case (1 m)
    have len: "length (show_nat k) = 1 \<longleftrightarrow> k < 10" for k
      by (subst show_nat.simps) simp
    have step: "k \<ge> 10 \<Longrightarrow> show_nat k = show_nat (k div 10) @ [digit_char (k mod 10)]" for k
      by (subst show_nat.simps) simp
    have base: "k < 10 \<Longrightarrow> show_nat k = [digit_char k]" for k
      by (subst show_nat.simps) simp
    from "1.prems" have same: "m < 10 \<longleftrightarrow> n < 10"
      using len [of m] len [of n] by simp
    show ?case
    proof (cases "m < 10")
      case True
      with same have "digit_char m = digit_char n"
        using "1.prems" base [of m] base [of n] by (simp del: digit_char.simps)
      with True same show ?thesis by (blast intro: digit_char_inject)
    next
      case False
      with same have ge: "m \<ge> 10" "n \<ge> 10" by auto
      then have "show_nat (m div 10) = show_nat (n div 10)"
        and d: "digit_char (m mod 10) = digit_char (n mod 10)"
        using "1.prems" step by (simp_all del: digit_char.simps)
      then have "m div 10 = n div 10" using "1.IH" False by simp
      moreover have "m mod 10 = n mod 10" using digit_char_inject [OF _ _ d] by simp
      ultimately show ?thesis by (metis div_mult_mod_eq)
    qed
  qed
qed simp

lemma digit_char_0: "digit_char 0 = CHR ''0''"
  by code_simp

lemma show_nat_0: "show_nat 0 = ''0''"
  by (subst show_nat.simps) (simp add: digit_char_0 del: digit_char.simps)

lemma show_nat_first_nonzero: "0 < n \<Longrightarrow> hd (show_nat n) \<noteq> CHR ''0''"
proof (induction n rule: show_nat.induct)
  case (1 n)
  show ?case
  proof (cases "n < 10")
    case True
    have "digit_char n \<noteq> digit_char 0"
      using digit_char_inject [of n 0] True "1.prems" by (auto simp del: digit_char.simps)
    with True show ?thesis by (subst show_nat.simps) (simp add: digit_char_0 del: digit_char.simps)
  next
    case False
    then have "0 < n div 10" by (simp add: div_greater_zero_iff)
    with False "1.IH" show ?thesis by (subst show_nat.simps) (simp del: digit_char.simps)
  qed
qed

lemma zeros_inject:
  assumes eq: "replicate z (CHR ''0'') @ show_nat d = replicate z' (CHR ''0'') @ show_nat d'"
  shows "z = z' \<and> d = d'"
proof -
  have drop: "dropWhile (\<lambda>c. c = CHR ''0'') (replicate k (CHR ''0'') @ show_nat n) =
      (if n = 0 then [] else show_nat n)" for k n
  proof (cases "n = 0")
    case True
    then show ?thesis by (simp add: show_nat_0 dropWhile_append)
  next
    case False
    then obtain a s where "show_nat n = a # s" "a \<noteq> CHR ''0''"
      using show_nat_first_nonzero [of n] by (cases "show_nat n") auto
    with False show ?thesis by (simp add: dropWhile_append)
  qed
  have "(if d = 0 then [] else show_nat d) = (if d' = 0 then [] else show_nat d')"
    unfolding drop [of z d, symmetric] drop [of z' d', symmetric] eq ..
  then have "d = d'"
    using show_nat_nonempty [of d] show_nat_nonempty [of d'] by (metis show_nat_inject)
  with eq have "length (replicate z (CHR ''0'')) = length (replicate z' (CHR ''0''))" by simp
  with \<open>d = d'\<close> show ?thesis by simp
qed

section \<open>Lists\<close>

text \<open>
  \<open>toSorted(cmp)\<close> for a comparator that answers \<open>< 0\<close> exactly when \<open>lt a b\<close>:
  a stable insertion sort (an element moves left only past elements it is below).
\<close>

fun insert_by :: "('a \<Rightarrow> 'a \<Rightarrow> bool) \<Rightarrow> 'a \<Rightarrow> 'a list \<Rightarrow> 'a list" where
  "insert_by lt x [] = [x]"
| "insert_by lt x (y # ys) = (if lt y x then y # insert_by lt x ys else x # y # ys)"

definition to_sorted :: "('a \<Rightarrow> 'a \<Rightarrow> bool) \<Rightarrow> 'a list \<Rightarrow> 'a list" where
  "to_sorted lt xs = foldr (insert_by lt) xs []"

lemma set_insert_by [simp]: "set (insert_by lt x ys) = insert x (set ys)"
  by (induction ys) auto

lemma set_to_sorted [simp]: "set (to_sorted lt xs) = set xs"
  unfolding to_sorted_def by (induction xs) simp_all

lemma length_insert_by [simp]: "length (insert_by lt x ys) = Suc (length ys)"
  by (induction ys) simp_all

lemma length_to_sorted [simp]: "length (to_sorted lt xs) = length xs"
  unfolding to_sorted_def by (induction xs) simp_all

lemma to_sorted_eq_Nil [simp]: "to_sorted lt xs = [] \<longleftrightarrow> xs = []"
  by (metis length_0_conv length_to_sorted)

lemma to_sorted_Cons_nonempty: "to_sorted lt xs = y # ys \<Longrightarrow> xs \<noteq> []"
  by (auto simp: to_sorted_def)

text \<open>
  What a comparator must satisfy for \<open>toSorted\<close> to mean anything: being below is
  irreflexive and \<open>not below\<close> is transitive. The head of the sorted list is then the
  first of the least elements.
\<close>

locale strict_weak_order =
  fixes lt :: "'a \<Rightarrow> 'a \<Rightarrow> bool"
  assumes irrefl: "\<not> lt x x"
    and neg_trans: "\<not> lt x y \<Longrightarrow> \<not> lt y z \<Longrightarrow> \<not> lt x z"
    and trans: "lt x y \<Longrightarrow> lt y z \<Longrightarrow> lt x z"
begin

lemma asym: "lt x y \<Longrightarrow> \<not> lt y x"
  using irrefl trans by blast

lemma to_sorted_head:
  "to_sorted lt xs = y # ys \<Longrightarrow>
     \<exists>pre post. xs = pre @ y # post \<and> list_all (lt y) pre \<and> list_all (\<lambda>u. \<not> lt u y) post"
proof (induction xs arbitrary: y ys)
  case Nil
  then show ?case by (simp add: to_sorted_def)
next
  case (Cons x xs)
  have step: "to_sorted lt (x # xs) = insert_by lt x (to_sorted lt xs)" by (simp add: to_sorted_def)
  show ?case
  proof (cases "to_sorted lt xs")
    case Nil
    with step Cons.prems show ?thesis by (intro exI [of _ "[]"] exI [of _ xs]) simp
  next
    case (Cons z zs)
    from Cons.IH [OF Cons] obtain pre post where split:
      "xs = pre @ z # post" "list_all (lt z) pre" "list_all (\<lambda>u. \<not> lt u z) post" by blast
    show ?thesis
    proof (cases "lt z x")
      case True
      then have "y = z" using step Cons Cons.prems by simp
      with split True show ?thesis by (intro exI [of _ "x # pre"] exI [of _ post]) simp
    next
      case False
      then have "y = x" using step Cons Cons.prems by simp
      moreover have "list_all (\<lambda>u. \<not> lt u x) xs"
        using split False by (auto simp: list_all_iff dest: asym neg_trans)
      ultimately show ?thesis by (intro exI [of _ "[]"] exI [of _ xs]) simp
    qed
  qed
qed

end

end
