(* ===== verification/Run_State.thy ===== *)
theory Run_State
  imports Prelude Complex_Main
begin

text \<open>
  The orchestrator's data model (\<^verbatim>\<open>src/orchestrator/types.ts\<close>) and the pure state
  machine of a run (\<^verbatim>\<open>src/orchestrator/run-state.ts\<close>): creating a run from a workflow,
  choosing the next runnable task, the task transitions, and the derived run status.
  Optional fields are \<open>option\<close>s; clock readings are arguments.
\<close>

section \<open>Types\<close>

text \<open>A \<open>number\<close> of the language, as far as sign and finiteness tests see it.\<close>

datatype js_number = FiniteNum rat | NaN | PosInfinity | NegInfinity

datatype worker_role =
    Researcher
  | Writer
  | Editor
  | Publisher
  | EmailHandler
  | CapabilityBroker
  | SelfCoder
  | CapabilityRunner

definition role_name :: "worker_role \<Rightarrow> string" where
  "role_name r =
     (case r of Researcher \<Rightarrow> ''researcher'' | Writer \<Rightarrow> ''writer'' | Editor \<Rightarrow> ''editor''
      | Publisher \<Rightarrow> ''publisher'' | EmailHandler \<Rightarrow> ''email-handler''
      | CapabilityBroker \<Rightarrow> ''capability-broker'' | SelfCoder \<Rightarrow> ''self-coder''
      | CapabilityRunner \<Rightarrow> ''capability-runner'')"

datatype run_task_status = TPending | TRunning | TSucceeded | TFailed | TSkipped

record task_def =
  t_id :: string
  t_role :: worker_role
  t_summary :: string
  t_input :: json_object
  t_dependsOn :: "string list"

record run_task = task_def +
  rt_status :: run_task_status
  rt_startedAt :: "string option"
  rt_completedAt :: "string option"
  rt_output :: "json option"
  rt_error :: "string option"
  rt_attempts :: nat

record workflow =
  wf_id :: string
  wf_name :: string
  wf_tasks :: "task_def list"
  wf_metadata :: "json_object option"

datatype run_status = RunPending | RunRunning | RunSucceeded | RunFailed

record run =
  run_id :: string
  run_workflowId :: string
  run_createdAt :: string
  run_startedAt :: "string option"
  run_completedAt :: "string option"
  run_status :: run_status
  run_tasks :: "run_task list"
  run_metadata :: "json_object option"

section \<open>Operations\<close>

definition taskRecordFromDefinition :: "task_def \<Rightarrow> run_task" where
  "taskRecordFromDefinition t =
     \<lparr>t_id = t_id t, t_role = t_role t, t_summary = t_summary t, t_input = t_input t,
      t_dependsOn = t_dependsOn t, rt_status = TPending, rt_startedAt = None,
      rt_completedAt = None, rt_output = None, rt_error = None, rt_attempts = 0\<rparr>"

definition createRunFromWorkflow :: "string \<Rightarrow> workflow \<Rightarrow> string \<Rightarrow> run" where
  "createRunFromWorkflow runId flow now =
     \<lparr>run_id = runId, run_workflowId = wf_id flow, run_createdAt = now, run_startedAt = None,
      run_completedAt = None, run_status = RunPending,
      run_tasks = map taskRecordFromDefinition (wf_tasks flow), run_metadata = wf_metadata flow\<rparr>"

text \<open>\<open>tasks.find((t) => t.id === depId)?.status === "succeeded"\<close>\<close>

definition dep_succeeded :: "run_task list \<Rightarrow> string \<Rightarrow> bool" where
  "dep_succeeded tasks d =
     (case find (\<lambda>t. t_id t = d) tasks of None \<Rightarrow> False | Some t \<Rightarrow> rt_status t = TSucceeded)"

fun scan_runnable :: "run_task list \<Rightarrow> run_task list \<Rightarrow> run_task option" where
  "scan_runnable tasks [] = None"
| "scan_runnable tasks (t # ts) =
     (if rt_status t \<noteq> TPending then scan_runnable tasks ts
      else if t_dependsOn t = [] then Some t
      else if list_all (dep_succeeded tasks) (t_dependsOn t) then Some t
      else scan_runnable tasks ts)"

definition nextRunnableTask :: "run \<Rightarrow> run_task option" where
  "nextRunnableTask run = scan_runnable (run_tasks run) (run_tasks run)"

definition updateTask :: "run \<Rightarrow> string \<Rightarrow> (run_task \<Rightarrow> run_task) \<Rightarrow> run" where
  "updateTask run taskId transform =
     run\<lparr>run_tasks := map (\<lambda>t. if t_id t = taskId then transform t else t) (run_tasks run)\<rparr>"

definition markTaskRunning :: "run \<Rightarrow> string \<Rightarrow> string \<Rightarrow> run" where
  "markTaskRunning run taskId ts =
     updateTask run taskId (\<lambda>t. t\<lparr>rt_status := TRunning,
        rt_startedAt := Some (nullish (rt_startedAt t) ts), rt_attempts := rt_attempts t + 1\<rparr>)"

definition markTaskSucceeded :: "run \<Rightarrow> string \<Rightarrow> json option \<Rightarrow> string \<Rightarrow> run" where
  "markTaskSucceeded run taskId output ts =
     updateTask run taskId (\<lambda>t. t\<lparr>rt_status := TSucceeded, rt_output := output,
        rt_completedAt := Some ts\<rparr>)"

definition markTaskFailed :: "run \<Rightarrow> string \<Rightarrow> string \<Rightarrow> string \<Rightarrow> run" where
  "markTaskFailed run taskId error ts =
     updateTask run taskId (\<lambda>t. t\<lparr>rt_status := TFailed, rt_error := Some error,
        rt_completedAt := Some ts\<rparr>)"

definition resetTaskForRetry :: "run \<Rightarrow> string \<Rightarrow> run" where
  "resetTaskForRetry run taskId =
     updateTask run taskId (\<lambda>t. t\<lparr>rt_status := TPending, rt_startedAt := None,
        rt_completedAt := None, rt_error := None\<rparr>)"

definition computeRunStatus :: "run \<Rightarrow> run_status" where
  "computeRunStatus run =
     (let tasks = run_tasks run;
          hasFailed = list_ex (\<lambda>t. rt_status t = TFailed) tasks;
          hasRunning = list_ex (\<lambda>t. rt_status t = TRunning) tasks;
          allTerminal = list_all (\<lambda>t. rt_status t = TSucceeded \<or> rt_status t = TSkipped
                                      \<or> rt_status t = TFailed) tasks;
          hasStarted = list_ex (\<lambda>t. rt_status t \<noteq> TPending \<and> rt_status t \<noteq> TSkipped) tasks
      in if hasRunning then RunRunning
         else if allTerminal then (if hasFailed then RunFailed else RunSucceeded)
         else if \<not> hasStarted then RunPending
         else if nextRunnableTask run \<noteq> None then RunRunning
         else if hasFailed then RunFailed else RunRunning)"

definition withTransitionedStatus :: "run \<Rightarrow> string \<Rightarrow> run" where
  "withTransitionedStatus run ts =
     (let status = computeRunStatus run;
          next = run\<lparr>run_status := status\<rparr>;
          next = (if \<not> truthy (run_startedAt run) \<and> status \<noteq> RunPending
                  then next\<lparr>run_startedAt := Some ts\<rparr> else next)
      in if \<not> truthy (run_completedAt run) \<and> (status = RunSucceeded \<or> status = RunFailed)
         then next\<lparr>run_completedAt := Some ts\<rparr> else next)"

type_synonym dependency_outputs = "(string \<times> json option) list"

definition dependencyOutputsFor :: "run \<Rightarrow> string \<Rightarrow> dependency_outputs" where
  "dependencyOutputsFor run taskId =
     (case find (\<lambda>t. t_id t = taskId) (run_tasks run) of
        None \<Rightarrow> []
      | Some task \<Rightarrow>
          fold (\<lambda>depId out.
             case find (\<lambda>t. t_id t = depId) (run_tasks run) of
               None \<Rightarrow> out
             | Some dep \<Rightarrow> if rt_status dep = TSucceeded
                 then AList.update depId (rt_output dep) out else out)
            (t_dependsOn task) [])"

section \<open>Which task runs next\<close>

definition runnable :: "run_task list \<Rightarrow> run_task \<Rightarrow> bool" where
  "runnable tasks t \<longleftrightarrow> rt_status t = TPending \<and> list_all (dep_succeeded tasks) (t_dependsOn t)"

lemma scan_runnable_find: "scan_runnable tasks ts = find (runnable tasks) ts"
  by (induction ts) (auto simp: runnable_def)

lemma nextRunnable_find: "nextRunnableTask run = find (runnable (run_tasks run)) (run_tasks run)"
  by (simp add: nextRunnableTask_def scan_runnable_find)

lemma nextRunnable_Some:
  assumes "nextRunnableTask run = Some t"
  shows "t \<in> set (run_tasks run)" "runnable (run_tasks run) t" "rt_status t = TPending"
proof -
  show "t \<in> set (run_tasks run)" "runnable (run_tasks run) t"
    using assms by (auto simp: nextRunnable_find find_Some_iff in_set_conv_nth)
  then show "rt_status t = TPending" by (simp add: runnable_def)
qed

lemma nextRunnable_None_iff:
  "nextRunnableTask run = None \<longleftrightarrow> (\<forall>t \<in> set (run_tasks run). \<not> runnable (run_tasks run) t)"
  by (auto simp: nextRunnable_find find_None_iff)

section \<open>Frame facts of the transitions\<close>

named_theorems run_simps \<open>what the task transitions change and keep\<close>

lemma updateTask_frame [simp, run_simps]:
  "run_id (updateTask run i f) = run_id run"
  "run_workflowId (updateTask run i f) = run_workflowId run"
  "run_metadata (updateTask run i f) = run_metadata run"
  "run_startedAt (updateTask run i f) = run_startedAt run"
  "run_completedAt (updateTask run i f) = run_completedAt run"
  by (simp_all add: updateTask_def)

lemma run_tasks_updateTask:
  "run_tasks (updateTask run i f) = map (\<lambda>t. if t_id t = i then f t else t) (run_tasks run)"
  by (simp add: updateTask_def)

lemmas mark_defs = markTaskRunning_def markTaskSucceeded_def markTaskFailed_def

lemma withTransitioned_tasks [simp, run_simps]:
  "run_tasks (withTransitionedStatus run ts) = run_tasks run"
  "run_id (withTransitionedStatus run ts) = run_id run"
  "run_workflowId (withTransitionedStatus run ts) = run_workflowId run"
  "run_metadata (withTransitionedStatus run ts) = run_metadata run"
  "run_status (withTransitionedStatus run ts) = computeRunStatus run"
  by (simp_all add: withTransitionedStatus_def Let_def)

lemma nextRunnable_transitioned [simp]:
  "nextRunnableTask (withTransitionedStatus run ts) = nextRunnableTask run"
  by (simp add: nextRunnableTask_def)

lemma computeRunStatus_transitioned [simp]:
  "computeRunStatus (withTransitionedStatus run ts) = computeRunStatus run"
  unfolding computeRunStatus_def nextRunnable_transitioned withTransitioned_tasks ..

text \<open>The shape of the plan (ids, roles, inputs, dependencies) never changes.\<close>

definition plan_of :: "run_task list \<Rightarrow> (string \<times> worker_role \<times> json_object \<times> string list) list" where
  "plan_of ts = map (\<lambda>t. (t_id t, t_role t, t_input t, t_dependsOn t)) ts"

lemma plan_of_mark [simp, run_simps]:
  "plan_of (run_tasks (markTaskRunning run i ts)) = plan_of (run_tasks run)"
  "plan_of (run_tasks (markTaskSucceeded run i out ts)) = plan_of (run_tasks run)"
  "plan_of (run_tasks (markTaskFailed run i e ts)) = plan_of (run_tasks run)"
  by (auto simp: mark_defs run_tasks_updateTask plan_of_def)

section \<open>Pending tasks\<close>

definition pending_count :: "run \<Rightarrow> nat" where
  "pending_count run = length (filter (\<lambda>t. rt_status t = TPending) (run_tasks run))"

lemma filter_map_pending_le:
  assumes "\<And>t. rt_status (f t) \<noteq> TPending"
  shows "length (filter (\<lambda>t. rt_status t = TPending) (map (\<lambda>t. if t_id t = i then f t else t) ts))
    = length (filter (\<lambda>t. rt_status t = TPending \<and> t_id t \<noteq> i) ts)"
  using assms by (induction ts) auto

lemma pending_count_updateTask:
  assumes "\<And>t. rt_status (f t) \<noteq> TPending"
  shows "pending_count (updateTask run i f) =
    length (filter (\<lambda>t. rt_status t = TPending \<and> t_id t \<noteq> i) (run_tasks run))"
  unfolding pending_count_def run_tasks_updateTask using assms by (rule filter_map_pending_le)

lemma pending_count_marks:
  "pending_count (markTaskRunning run i ts) =
     length (filter (\<lambda>t. rt_status t = TPending \<and> t_id t \<noteq> i) (run_tasks run))"
  "pending_count (markTaskSucceeded run i out ts) =
     length (filter (\<lambda>t. rt_status t = TPending \<and> t_id t \<noteq> i) (run_tasks run))"
  "pending_count (markTaskFailed run i e ts) =
     length (filter (\<lambda>t. rt_status t = TPending \<and> t_id t \<noteq> i) (run_tasks run))"
  by (simp_all add: mark_defs pending_count_updateTask)

lemma markRunning_pending_less:
  assumes "nextRunnableTask run = Some t"
  shows "pending_count (markTaskRunning run (t_id t) ts) < pending_count run"
proof -
  have t: "t \<in> set (run_tasks run)" "rt_status t = TPending"
    using nextRunnable_Some [OF assms] by simp_all
  have "length (filter (\<lambda>u. rt_status u = TPending \<and> t_id u \<noteq> t_id t) us)
      < length (filter (\<lambda>u. rt_status u = TPending) us)" if "t \<in> set us" for us
    using that t(2)
  proof (induction us)
    case (Cons u us)
    have "length (filter (\<lambda>u. rt_status u = TPending \<and> t_id u \<noteq> t_id t) us)
      \<le> length (filter (\<lambda>u. rt_status u = TPending) us)"
      by (induction us) auto
    with Cons show ?case by auto
  qed simp
  from this [OF t(1)] show ?thesis unfolding pending_count_marks by (simp add: pending_count_def)
qed

lemma mark_after_running_pending:
  "pending_count (markTaskSucceeded (markTaskRunning run i ts) i out ts') =
     pending_count (markTaskRunning run i ts)"
  "pending_count (markTaskFailed (markTaskRunning run i ts) i e ts') =
     pending_count (markTaskRunning run i ts)"
  unfolding pending_count_marks
  by (simp_all add: markTaskRunning_def run_tasks_updateTask filter_map comp_def)
    (auto intro!: arg_cong [where f = length] filter_cong)

section \<open>The derived status\<close>

lemma status_succeeded_iff:
  "computeRunStatus run = RunSucceeded \<longleftrightarrow>
     (\<forall>t \<in> set (run_tasks run). rt_status t = TSucceeded \<or> rt_status t = TSkipped)"
  by (auto simp: computeRunStatus_def Let_def list_ex_iff list_all_iff) force+

lemma terminal_not_runnable:
  "\<forall>t \<in> set (run_tasks run). rt_status t \<noteq> TPending \<Longrightarrow> nextRunnableTask run = None"
  by (auto simp: nextRunnable_None_iff runnable_def)

lemma status_failed_iff:
  "computeRunStatus run = RunFailed \<longleftrightarrow>
     (\<exists>t \<in> set (run_tasks run). rt_status t = TFailed)
     \<and> (\<forall>t \<in> set (run_tasks run). rt_status t \<noteq> TRunning)
     \<and> nextRunnableTask run = None"
proof -
  have "nextRunnableTask run = None"
    if "list_all (\<lambda>t. rt_status t = TSucceeded \<or> rt_status t = TSkipped \<or> rt_status t = TFailed)
      (run_tasks run)"
    using that by (intro terminal_not_runnable) (auto simp: list_all_iff)
  then show ?thesis
    by (auto simp: computeRunStatus_def Let_def list_ex_iff list_all_iff)
qed

section \<open>Properties\<close>

lemma find_Some_split:
  "find P xs = Some x \<longleftrightarrow> (\<exists>pre post. xs = pre @ x # post \<and> P x \<and> list_all (\<lambda>u. \<not> P u) pre)"
proof
  assume "find P xs = Some x"
  then obtain i where i: "i < length xs" "P (xs ! i)" "x = xs ! i" "\<forall>j<i. \<not> P (xs ! j)"
    by (auto simp: find_Some_iff)
  then have "xs = take i xs @ x # drop (Suc i) xs" by (simp add: id_take_nth_drop)
  moreover have "list_all (\<lambda>u. \<not> P u) (take i xs)"
    using i(1,4) by (simp add: list_all_length)
  ultimately show "\<exists>pre post. xs = pre @ x # post \<and> P x \<and> list_all (\<lambda>u. \<not> P u) pre"
    using i(2,3) by blast
next
  assume "\<exists>pre post. xs = pre @ x # post \<and> P x \<and> list_all (\<lambda>u. \<not> P u) pre"
  then obtain pre post where "xs = pre @ x # post" "P x" "list_all (\<lambda>u. \<not> P u) pre" by blast
  moreover have "find P (pre @ x # post) = Some x" if "P x" "list_all (\<lambda>u. \<not> P u) pre" for pre
    using that by (induction pre) simp_all
  ultimately show "find P xs = Some x" by simp
qed

text \<open>The next task is the first, in declaration order, that is pending with every
  dependency succeeded; there is none exactly when no task is in that situation.\<close>

lemma next_task_is_first_runnable:
  "(nextRunnableTask run = Some t \<longleftrightarrow>
      (\<exists>pre post. run_tasks run = pre @ t # post \<and> runnable (run_tasks run) t
         \<and> list_all (\<lambda>u. \<not> runnable (run_tasks run) u) pre))
   \<and> (nextRunnableTask run = None \<longleftrightarrow> list_all (\<lambda>u. \<not> runnable (run_tasks run) u) (run_tasks run))"
proof -
  show ?thesis by (simp add: nextRunnable_find find_None_iff list_all_iff find_Some_split Ball_def)
qed

text \<open>The derived status: a run is succeeded exactly when every task succeeded or was
  skipped, and failed exactly when some task failed, none is running and none is runnable.\<close>

lemma derived_status:
  "(computeRunStatus run = RunSucceeded \<longleftrightarrow>
      list_all (\<lambda>t. rt_status t = TSucceeded \<or> rt_status t = TSkipped) (run_tasks run))
   \<and> (computeRunStatus run = RunFailed \<longleftrightarrow>
      list_ex (\<lambda>t. rt_status t = TFailed) (run_tasks run)
      \<and> \<not> list_ex (\<lambda>t. rt_status t = TRunning) (run_tasks run)
      \<and> nextRunnableTask run = None)"
  using status_succeeded_iff [of run] status_failed_iff [of run]
  by (simp add: list_all_iff list_ex_iff)

end
