(* ===== verification/Effects.thy ===== *)
theory Effects
  imports Prelude
begin

text \<open>
  The state-and-exception monad in which the file-touching and asynchronous code is
  written: a program maps a state to a result, \<open>Inl\<close> a thrown message, \<open>Inr\<close> a
  returned value, together with the state reached. A throw keeps the effects that happened
  before it, as in JavaScript. \<open>preserves P m\<close> says that \<open>m\<close> keeps the invariant
  \<open>P\<close> on every branch, also when it throws.
\<close>

type_synonym ('s, 'a) prog = "'s \<Rightarrow> (string + 'a) \<times> 's"

definition return_m :: "'a \<Rightarrow> ('s, 'a) prog" where
  "return_m x = (\<lambda>s. (Inr x, s))"

definition throw_m :: "string \<Rightarrow> ('s, 'a) prog" where
  "throw_m e = (\<lambda>s. (Inl e, s))"

definition bind_m :: "('s, 'a) prog \<Rightarrow> ('a \<Rightarrow> ('s, 'b) prog) \<Rightarrow> ('s, 'b) prog" where
  "bind_m m k = (\<lambda>s. case m s of (Inl e, s') \<Rightarrow> (Inl e, s') | (Inr x, s') \<Rightarrow> k x s')"

definition seq_m :: "('s, 'a) prog \<Rightarrow> ('s, 'b) prog \<Rightarrow> ('s, 'b) prog" where
  "seq_m m k = bind_m m (\<lambda>_. k)"

text \<open>\<open>try { m } catch (err) { h(err) }\<close>\<close>

definition catch_m :: "('s, 'a) prog \<Rightarrow> (string \<Rightarrow> ('s, 'a) prog) \<Rightarrow> ('s, 'a) prog" where
  "catch_m m h = (\<lambda>s. case m s of (Inl e, s') \<Rightarrow> h e s' | (Inr x, s') \<Rightarrow> (Inr x, s'))"

definition get_m :: "('s \<Rightarrow> 'a) \<Rightarrow> ('s, 'a) prog" where
  "get_m f = (\<lambda>s. (Inr (f s), s))"

definition modify_m :: "('s \<Rightarrow> 's) \<Rightarrow> ('s, unit) prog" where
  "modify_m f = (\<lambda>s. (Inr (), f s))"

definition lift_m :: "(string + 'a) \<Rightarrow> ('s, 'a) prog" where
  "lift_m r = (\<lambda>s. (r, s))"

definition when_m :: "bool \<Rightarrow> ('s, unit) prog \<Rightarrow> ('s, unit) prog" where
  "when_m b m = (if b then m else return_m ())"

text \<open>\<open>for (const x of xs) { body(x) }\<close>\<close>

primrec for_m :: "'a list \<Rightarrow> ('a \<Rightarrow> ('s, unit) prog) \<Rightarrow> ('s, unit) prog" where
  "for_m [] body = return_m ()"
| "for_m (x # xs) body = seq_m (body x) (for_m xs body)"

text \<open>\<open>xs.map(f)\<close> for an \<open>f\<close> with effects, in order.\<close>

primrec map_m :: "('a \<Rightarrow> ('s, 'b) prog) \<Rightarrow> 'a list \<Rightarrow> ('s, 'b list) prog" where
  "map_m f [] = return_m []"
| "map_m f (x # xs) = bind_m (f x) (\<lambda>y. bind_m (map_m f xs) (\<lambda>ys. return_m (y # ys)))"

lemma return_m_apply [simp, monad_simps]: "return_m x s = (Inr x, s)"
  by (simp add: return_m_def)

lemma throw_m_apply [simp, monad_simps]: "throw_m e s = (Inl e, s)"
  by (simp add: throw_m_def)

lemma get_m_apply [simp, monad_simps]: "get_m f s = (Inr (f s), s)"
  by (simp add: get_m_def)

lemma modify_m_apply [simp, monad_simps]: "modify_m f s = (Inr (), f s)"
  by (simp add: modify_m_def)

lemma lift_m_apply [simp, monad_simps]: "lift_m r s = (r, s)"
  by (simp add: lift_m_def)

lemma bind_m_apply [monad_simps]:
  "bind_m m k s = (case m s of (Inl e, s') \<Rightarrow> (Inl e, s') | (Inr x, s') \<Rightarrow> k x s')"
  by (simp add: bind_m_def)

lemma seq_m_apply [monad_simps]:
  "seq_m m k s = (case m s of (Inl e, s') \<Rightarrow> (Inl e, s') | (Inr x, s') \<Rightarrow> k s')"
  by (simp add: seq_m_def bind_m_def)

lemma catch_m_apply [monad_simps]:
  "catch_m m h s = (case m s of (Inl e, s') \<Rightarrow> h e s' | (Inr x, s') \<Rightarrow> (Inr x, s'))"
  by (simp add: catch_m_def)

lemma when_m_apply [monad_simps]: "when_m b m s = (if b then m s else (Inr (), s))"
  by (simp add: when_m_def)

section \<open>Invariants of programs\<close>

definition preserves :: "('s \<Rightarrow> bool) \<Rightarrow> ('s, 'a) prog \<Rightarrow> bool" where
  "preserves P m \<longleftrightarrow> (\<forall>s. P s \<longrightarrow> P (snd (m s)))"

lemma preservesI: "(\<And>s. P s \<Longrightarrow> P (snd (m s))) \<Longrightarrow> preserves P m"
  by (simp add: preserves_def)

lemma preservesD: "preserves P m \<Longrightarrow> P s \<Longrightarrow> P (snd (m s))"
  by (simp add: preserves_def)

lemma preserves_return [preserves_intros]: "preserves P (return_m x)"
  by (simp add: preserves_def)

lemma preserves_throw [preserves_intros]: "preserves P (throw_m e)"
  by (simp add: preserves_def)

lemma preserves_get [preserves_intros]: "preserves P (get_m f)"
  by (simp add: preserves_def)

lemma preserves_lift [preserves_intros]: "preserves P (lift_m r)"
  by (simp add: preserves_def)

lemma preserves_bind [preserves_intros]:
  assumes "preserves P m" and "\<And>x. preserves P (k x)"
  shows "preserves P (bind_m m k)"
  using assms by (auto simp: preserves_def bind_m_apply split: prod.splits sum.splits)

lemma preserves_seq [preserves_intros]:
  "preserves P m \<Longrightarrow> preserves P k \<Longrightarrow> preserves P (seq_m m k)"
  unfolding seq_m_def by (rule preserves_bind)

lemma preserves_catch [preserves_intros]:
  assumes "preserves P m" and "\<And>e. preserves P (h e)"
  shows "preserves P (catch_m m h)"
  using assms by (auto simp: preserves_def catch_m_apply split: prod.splits sum.splits)

lemma preserves_when [preserves_intros]: "(b \<Longrightarrow> preserves P m) \<Longrightarrow> preserves P (when_m b m)"
  by (simp add: preserves_def when_m_apply)

lemma preserves_modify: "(\<And>s. P s \<Longrightarrow> P (f s)) \<Longrightarrow> preserves P (modify_m f)"
  by (simp add: preserves_def)

lemma preserves_for [preserves_intros]:
  "(\<And>x. x \<in> set xs \<Longrightarrow> preserves P (body x)) \<Longrightarrow> preserves P (for_m xs body)"
  by (induction xs) (simp_all add: preserves_return preserves_seq)

lemma preserves_map [preserves_intros]:
  "(\<And>x. x \<in> set xs \<Longrightarrow> preserves P (f x)) \<Longrightarrow> preserves P (map_m f xs)"
  by (induction xs) (simp_all add: preserves_return preserves_bind)

lemma preserves_if [preserves_intros]:
  "(b \<Longrightarrow> preserves P m) \<Longrightarrow> (\<not> b \<Longrightarrow> preserves P n) \<Longrightarrow> preserves P (if b then m else n)"
  by simp

lemma preserves_case_option [preserves_intros]:
  "(x = None \<Longrightarrow> preserves P m) \<Longrightarrow> (\<And>y. x = Some y \<Longrightarrow> preserves P (k y)) \<Longrightarrow>
     preserves P (case x of None \<Rightarrow> m | Some y \<Rightarrow> k y)"
  by (cases x) simp_all

lemma preserves_case_prod [preserves_intros]:
  "(\<And>a b. x = (a, b) \<Longrightarrow> preserves P (k a b)) \<Longrightarrow> preserves P (case x of (a, b) \<Rightarrow> k a b)"
  by (cases x) simp

lemma preserves_case_sum [preserves_intros]:
  "(\<And>a. x = Inl a \<Longrightarrow> preserves P (m a)) \<Longrightarrow> (\<And>b. x = Inr b \<Longrightarrow> preserves P (k b)) \<Longrightarrow>
     preserves P (case x of Inl a \<Rightarrow> m a | Inr b \<Rightarrow> k b)"
  by (cases x) simp_all

lemma map_m_pure:
  "(\<And>x. x \<in> set xs \<Longrightarrow> f x s = (Inr (g x), s)) \<Longrightarrow> map_m f xs s = (Inr (map g xs), s)"
  by (induction xs) (simp_all add: bind_m_apply)

section \<open>State machines\<close>

inductive reachable :: "('s \<Rightarrow> bool) \<Rightarrow> ('s \<Rightarrow> 's \<Rightarrow> bool) \<Rightarrow> 's \<Rightarrow> bool"
  for init step where
  reach_init: "init s \<Longrightarrow> reachable init step s"
| reach_step: "reachable init step s \<Longrightarrow> step s s' \<Longrightarrow> reachable init step s'"

text \<open>An inductive invariant of a state machine.\<close>

locale inductive_invariant =
  fixes init :: "'s \<Rightarrow> bool" and step :: "'s \<Rightarrow> 's \<Rightarrow> bool" and inv :: "'s \<Rightarrow> bool"
  assumes init_inv: "init s \<Longrightarrow> inv s"
    and step_inv: "inv s \<Longrightarrow> step s s' \<Longrightarrow> inv s'"
begin

lemma reachable_inv: "reachable init step s \<Longrightarrow> inv s"
  by (induction rule: reachable.induct) (auto intro: init_inv step_inv)

end

end
