(* ===== verification/File_System.thy ===== *)
theory File_System
  imports Effects
begin

text \<open>
  The part of \<open>node:fs\<close> and \<open>node:path\<close> the stores use. A path is the list of its
  segments (\<open>path.join\<close> of segments without separators is list append). A file system
  holds directories with their creation modes and files with mode and contents;
  \<open>'c\<close> is what the store's own reader makes of a file's text. Files written by the
  program carry values; a text that \<open>JSON.parse\<close> rejects or that fails the reader's shape
  check is a separate value of \<open>'c\<close>. Disk errors (permissions, full disks) are not
  modelled.

  Also here: the filename check shared by both stores, and the interface \<open>record_store\<close>
  (what a lookup returns after a write) from which the clients' read-over-write facts come.
\<close>

type_synonym path = "string list"

record 'c fs =
  fs_dirs :: "(path \<times> nat) list"
  fs_files :: "(path \<times> nat \<times> 'c) list"

definition empty_fs :: "'c fs" where
  "empty_fs = \<lparr>fs_dirs = [], fs_files = []\<rparr>"

definition existsSync :: "'c fs \<Rightarrow> path \<Rightarrow> bool" where
  "existsSync fs p \<longleftrightarrow> map_of (fs_dirs fs) p \<noteq> None \<or> map_of (fs_files fs) p \<noteq> None"

text \<open>\<open>mkdirSync(p, { recursive: true, mode })\<close>: missing ancestors are created too.\<close>

definition ancestors :: "path \<Rightarrow> path list" where
  "ancestors p = map (\<lambda>n. take (Suc n) p) [0..<length p]"

definition mkdirSync :: "path \<Rightarrow> nat \<Rightarrow> 'c fs \<Rightarrow> 'c fs" where
  "mkdirSync p mode fs =
     fs\<lparr>fs_dirs := fold (\<lambda>d ds. if map_of ds d = None then ds @ [(d, mode)] else ds)
                    (ancestors p) (fs_dirs fs)\<rparr>"

text \<open>\<open>writeFileSync(p, text, { mode })\<close>: the mode applies only when the file is created.\<close>

definition writeFileSync :: "path \<Rightarrow> nat \<Rightarrow> 'c \<Rightarrow> 'c fs \<Rightarrow> 'c fs" where
  "writeFileSync p mode c fs =
     fs\<lparr>fs_files := AList.update p
         (case map_of (fs_files fs) p of None \<Rightarrow> (mode, c) | Some (m, _) \<Rightarrow> (m, c)) (fs_files fs)\<rparr>"

definition read_file :: "'c fs \<Rightarrow> path \<Rightarrow> 'c option" where
  "read_file fs p = map_option snd (map_of (fs_files fs) p)"

text \<open>\<open>rmSync(p, { force: true })\<close> and \<open>rmSync(p, { recursive: true, force: true })\<close>.\<close>

definition rmSync_file :: "path \<Rightarrow> 'c fs \<Rightarrow> 'c fs" where
  "rmSync_file p fs = fs\<lparr>fs_files := AList.delete p (fs_files fs)\<rparr>"

definition below :: "path \<Rightarrow> path \<Rightarrow> bool" where
  "below p q \<longleftrightarrow> take (length p) q = p"

definition rmSync_tree :: "path \<Rightarrow> 'c fs \<Rightarrow> 'c fs" where
  "rmSync_tree p fs =
     \<lparr>fs_dirs = filter (\<lambda>e. \<not> below p (fst e)) (fs_dirs fs),
      fs_files = filter (\<lambda>e. \<not> below p (fst e)) (fs_files fs)\<rparr>"

text \<open>\<open>readdirSync(d)\<close>: the names of the entries directly in \<open>d\<close>.\<close>

definition readdirSync :: "'c fs \<Rightarrow> path \<Rightarrow> string list" where
  "readdirSync fs d =
     remdups (map last (filter (\<lambda>p. p \<noteq> [] \<and> butlast p = d)
       (map fst (fs_files fs) @ map fst (fs_dirs fs))))"

lemma readdirSync_iff:
  "name \<in> set (readdirSync fs d) \<longleftrightarrow> existsSync fs (d @ [name])"
proof -
  let ?keys = "fst ` set (fs_files fs) \<union> fst ` set (fs_dirs fs)"
  have "name \<in> set (readdirSync fs d) \<longleftrightarrow> (\<exists>p \<in> ?keys. p \<noteq> [] \<and> butlast p = d \<and> last p = name)"
    unfolding readdirSync_def by (simp add: image_iff Bex_def) blast
  also have "\<dots> \<longleftrightarrow> d @ [name] \<in> ?keys"
    by (metis append_butlast_last_id butlast_snoc last_snoc snoc_eq_iff_butlast)
  also have "\<dots> \<longleftrightarrow> existsSync fs (d @ [name])"
    by (auto simp: existsSync_def map_of_eq_None_iff)
  finally show ?thesis .
qed

lemma read_file_empty [simp]: "read_file empty_fs q = None"
  by (simp add: read_file_def empty_fs_def)

lemma read_file_write [simp]:
  "read_file (writeFileSync p m c fs) q = (if q = p then Some c else read_file fs q)"
  by (auto simp: writeFileSync_def read_file_def update_conv split: option.splits)

lemma read_file_mkdir [simp]: "read_file (mkdirSync p m fs) q = read_file fs q"
  by (simp add: mkdirSync_def read_file_def)

lemma read_file_rm [simp]:
  "read_file (rmSync_file p fs) q = (if q = p then None else read_file fs q)"
  by (simp add: rmSync_file_def read_file_def delete_conv)

lemma existsSync_write [simp]:
  "existsSync (writeFileSync p m c fs) q \<longleftrightarrow> q = p \<or> existsSync fs q"
  by (auto simp: writeFileSync_def existsSync_def update_conv split: option.splits)

lemma read_file_exists: "read_file fs p = Some c \<Longrightarrow> existsSync fs p"
  by (auto simp: read_file_def existsSync_def)

lemma mkdir_fold_keys:
  "map_of (fold (\<lambda>d ds. if map_of ds d = None then ds @ [(d, mode)] else ds) ps ds) q = None
     \<longleftrightarrow> map_of ds q = None \<and> q \<notin> set ps"
  by (induction ps arbitrary: ds) (auto simp: map_add_def split: option.splits)

lemma existsSync_mkdir [simp]:
  "existsSync (mkdirSync p m fs) q \<longleftrightarrow> existsSync fs q \<or> q \<in> set (ancestors p)"
  using mkdir_fold_keys [of m "ancestors p" "fs_dirs fs" q] by (auto simp: mkdirSync_def existsSync_def)

lemma ancestors_iff: "q \<in> set (ancestors p) \<longleftrightarrow> q \<noteq> [] \<and> q = take (length q) p"
proof
  assume "q \<in> set (ancestors p)"
  then obtain n where "n < length p" "q = take (Suc n) p" by (auto simp: ancestors_def)
  then show "q \<noteq> [] \<and> q = take (length q) p" by (cases p) auto
next
  assume q: "q \<noteq> [] \<and> q = take (length q) p"
  then have "length q \<le> length p" by (metis length_take min.cobounded1)
  moreover from q have "0 < length q" by simp
  ultimately have "length q - 1 < length p" by linarith
  moreover have "q = take (Suc (length q - 1)) p" using q by simp
  ultimately show "q \<in> set (ancestors p)"
    unfolding ancestors_def set_map set_upt by (intro image_eqI [of _ _ "length q - 1"]) simp_all
qed

lemma ancestors_length: "q \<in> set (ancestors p) \<Longrightarrow> length q \<le> length p"
  by (metis ancestors_iff length_take min.cobounded1)

lemma ancestors_self: "p \<noteq> [] \<Longrightarrow> p \<in> set (ancestors p)"
  by (simp add: ancestors_iff)

lemma map_of_filter_below:
  "map_of (filter (\<lambda>e. \<not> below p (fst e)) xs) q = (if below p q then None else map_of xs q)"
  by (induction xs) auto

lemma read_file_rm_tree [simp]:
  "read_file (rmSync_tree p fs) q = (if below p q then None else read_file fs q)"
  by (simp add: rmSync_tree_def read_file_def map_of_filter_below)

lemma existsSync_rm_tree [simp]:
  "existsSync (rmSync_tree p fs) q \<longleftrightarrow> existsSync fs q \<and> \<not> below p q"
  by (simp add: rmSync_tree_def existsSync_def map_of_filter_below)

lemma existsSync_rm [simp]: "q \<noteq> p \<Longrightarrow> existsSync (rmSync_file p fs) q \<longleftrightarrow> existsSync fs q"
  by (simp add: rmSync_file_def existsSync_def delete_conv)

lemma distinct_readdir [simp]: "distinct (readdirSync fs d)"
  by (simp add: readdirSync_def)

lemma read_file_key: "read_file fs p = Some c \<Longrightarrow> p \<in> set (map fst (fs_files fs))"
  by (metis map_of_eq_None_iff not_None_eq read_file_def option.simps(8) set_map)

section \<open>Paths as text\<close>

text \<open>\<open>text.split("/")\<close>, with the segment read so far.\<close>

fun split_segments :: "string \<Rightarrow> string \<Rightarrow> string list" where
  "split_segments acc [] = [acc]"
| "split_segments acc (c # s) = (if c = CHR ''/'' then acc # split_segments [] s else split_segments (acc @ [c]) s)"

text \<open>\<open>path.resolve(root, child)\<close> for an absolute \<open>root\<close> and a relative \<open>child\<close>: empty and dot
  segments are dropped, a double dot drops the segment before it, and nothing is above the root.\<close>

definition resolve_segment :: "string \<Rightarrow> path \<Rightarrow> path" where
  "resolve_segment seg acc = (if seg = [] \<or> seg = ''.'' then acc else if seg = ''..'' then butlast acc else acc @ [seg])"

definition path_resolve :: "path \<Rightarrow> string \<Rightarrow> path" where
  "path_resolve root child = fold resolve_segment (split_segments [] child) root"

text \<open>\<open>path.relative(from, to)\<close> of absolute paths, as segments: past the common part, one double dot per
  segment left of \<open>from\<close>.\<close>

fun path_relative :: "path \<Rightarrow> path \<Rightarrow> path" where
  "path_relative (a # as) (b # bs) =
     (if a = b then path_relative as bs else map (\<lambda>_. ''..'') (a # as) @ (b # bs))"
| "path_relative as bs = map (\<lambda>_. ''..'') as @ bs"

text \<open>Only below \<open>from\<close> does the relative path have no leading double dot.\<close>

lemma path_relative_below: "path_relative from to = [] \<or> hd (path_relative from to) \<noteq> ''..'' \<Longrightarrow> below from to"
  by (induction "from" to rule: path_relative.induct) (auto simp: below_def split: if_splits, metis hd_map)

lemma path_relative_append: "path_relative p (p @ q) = q"
  by (induction p) (cases q, simp_all)

section \<open>Identifiers that become file names\<close>

text \<open>\<open>/^[A-Za-z0-9_.-]+$/\<close>, then no leading dot (\<open>sanitizeRunId\<close> of
  \<^verbatim>\<open>src/orchestrator/run-store.ts\<close> and \<open>sanitizeId\<close> of
  \<^verbatim>\<open>src/projects/store.ts\<close> are the same function up to the message).\<close>

definition id_char :: "char \<Rightarrow> bool" where
  "id_char c \<longleftrightarrow>
     (let n = (of_char c :: nat)
      in (65 \<le> n \<and> n \<le> 90) \<or> (97 \<le> n \<and> n \<le> 122) \<or> (48 \<le> n \<and> n \<le> 57)
         \<or> c = CHR ''_'' \<or> c = CHR ''.'' \<or> c = CHR ''-'')"

definition safe_id :: "string \<Rightarrow> bool" where
  "safe_id s \<longleftrightarrow> s \<noteq> [] \<and> list_all id_char s \<and> hd s \<noteq> CHR ''.''"

lemma safe_id_no_escape:
  assumes "safe_id s"
  shows "CHR ''/'' \<notin> set s" "CHR 0x5C \<notin> set s" "CHR 0x00 \<notin> set s" "s \<noteq> ''.''" "s \<noteq> ''..''"
  using assms by (auto simp: safe_id_def list_all_iff id_char_def)

section \<open>The interface of a record store\<close>

text \<open>
  A store of records that carry their own key: what reading returns after saving and after
  deleting. A key may be refused (\<open>valid\<close>); the laws are about valid keys. Deleting may
  rely on a shape of the storage (\<open>inv\<close>) that saving and deleting keep.
\<close>

locale record_store =
  fixes key :: "'v \<Rightarrow> 'k"
    and load :: "'s \<Rightarrow> 'k \<Rightarrow> 'v option"
    and save :: "'v \<Rightarrow> 's \<Rightarrow> 's"
    and delete :: "'k \<Rightarrow> 's \<Rightarrow> 's"
    and valid :: "'k \<Rightarrow> bool"
    and inv :: "'s \<Rightarrow> bool"
  assumes load_save: "valid (key v) \<Longrightarrow> valid j \<Longrightarrow>
      load (save v s) j = (if j = key v then Some v else load s j)"
    and load_delete: "inv s \<Longrightarrow> valid k \<Longrightarrow> valid j \<Longrightarrow>
      load (delete k s) j = (if j = k then None else load s j)"
    and inv_save: "inv s \<Longrightarrow> valid (key v) \<Longrightarrow> inv (save v s)"
    and inv_delete: "inv s \<Longrightarrow> valid k \<Longrightarrow> inv (delete k s)"
begin

lemma load_save_same: "valid (key v) \<Longrightarrow> load (save v s) (key v) = Some v"
  by (simp add: load_save)

lemma load_save_other:
  "valid (key v) \<Longrightarrow> valid j \<Longrightarrow> j \<noteq> key v \<Longrightarrow> load (save v s) j = load s j"
  by (simp add: load_save)

text \<open>After a batch of saves, a key reads its last value of the batch.\<close>

lemma load_saves:
  "list_all (\<lambda>v. valid (key v)) vs \<Longrightarrow> valid j \<Longrightarrow>
     load (fold save vs s) j =
       (case find (\<lambda>v. key v = j) (rev vs) of None \<Rightarrow> load s j | Some v \<Rightarrow> Some v)"
proof (induction vs rule: rev_induct)
  case (snoc v vs)
  then show ?case by (auto simp: load_save)
qed simp

lemma load_saves_distinct:
  assumes "list_all (\<lambda>v. valid (key v)) vs" "distinct (map key vs)" "v \<in> set vs"
  shows "load (fold save vs s) (key v) = Some v"
proof -
  have "find (\<lambda>w. key w = key v) ws = Some v" if "distinct (map key ws)" "v \<in> set ws" for ws
    using that by (induction ws) (auto simp: rev_image_eqI)
  then have "find (\<lambda>w. key w = key v) (rev vs) = Some v"
    using assms(2,3) by (simp add: rev_map [symmetric])
  moreover have "valid (key v)" using assms(1,3) by (auto simp: list_all_iff)
  ultimately show ?thesis using load_saves [OF assms(1), of "key v" s] by simp
qed

lemma delete_after_save: "inv s \<Longrightarrow> valid (key v) \<Longrightarrow> load (delete (key v) (save v s)) (key v) = None"
  by (simp add: load_delete inv_save)

lemma inv_saves: "inv s \<Longrightarrow> list_all (\<lambda>v. valid (key v)) vs \<Longrightarrow> inv (fold save vs s)"
  by (induction vs arbitrary: s) (simp_all add: inv_save)

end

end
