(* ===== verification/Run_Store.thy ===== *)
theory Run_Store
  imports Run_State File_System
begin

text \<open>
  Disk persistence of orchestrator runs, \<^verbatim>\<open>src/orchestrator/run-store.ts\<close>: one JSON file
  per run at \<open><dir>/runs/<runId>.json\<close>. A file holds either a run this program wrote or a
  text that \<open>loadRun\<close> rejects.
\<close>

datatype run_file = RunFile run | UnreadableRun

definition sanitizeRunId :: "string \<Rightarrow> string + string" where
  "sanitizeRunId runId =
     (if \<not> (runId \<noteq> [] \<and> list_all id_char runId)
      then Inl (''Invalid run id (must match [A-Za-z0-9_.-]+): '' @ runId)
      else if hd runId = CHR ''.'' \<or> runId = ''..''
      then Inl (''Invalid run id (refusing dotfile/parent): '' @ runId)
      else Inr runId)"

definition resolveRunPath :: "path \<Rightarrow> string \<Rightarrow> string + path" where
  "resolveRunPath dir runId =
     (case sanitizeRunId runId of Inl e \<Rightarrow> Inl e | Inr i \<Rightarrow> Inr (dir @ [''runs'', i @ ''.json'']))"

definition saveRun :: "path \<Rightarrow> run \<Rightarrow> (run_file fs, unit) prog" where
  "saveRun dir run = (\<lambda>fs.
     case resolveRunPath dir (run_id run) of
       Inl e \<Rightarrow> (Inl e, fs)
     | Inr p \<Rightarrow>
         let d = butlast p;
             fs1 = (if \<not> existsSync fs d then mkdirSync d 448 fs else fs)
         in (Inr (), writeFileSync p 384 (RunFile run) fs1))"

definition loadRun :: "path \<Rightarrow> string \<Rightarrow> (run_file fs, run option) prog" where
  "loadRun dir runId = (\<lambda>fs.
     case resolveRunPath dir runId of
       Inl e \<Rightarrow> (Inl e, fs)
     | Inr p \<Rightarrow>
         (if \<not> existsSync fs p then (Inr None, fs)
          else case read_file fs p of
              Some (RunFile run) \<Rightarrow> (Inr (Some run), fs)
            | _ \<Rightarrow> (Inr None, fs)))"

definition listRunIds :: "path \<Rightarrow> run_file fs \<Rightarrow> string list" where
  "listRunIds dir fs =
     (let runsDir = dir @ [''runs'']
      in if \<not> existsSync fs runsDir then []
         else sort (map (\<lambda>name. take (length name - 5) name)
           (filter (\<lambda>name. length name \<ge> 5 \<and> drop (length name - 5) name = ''.json'')
             (readdirSync fs runsDir))))"

definition deleteRun :: "path \<Rightarrow> string \<Rightarrow> (run_file fs, bool) prog" where
  "deleteRun dir runId = (\<lambda>fs.
     case resolveRunPath dir runId of
       Inl e \<Rightarrow> (Inl e, fs)
     | Inr p \<Rightarrow> (if \<not> existsSync fs p then (Inr False, fs)
                 else (Inr True, rmSync_file p fs)))"

section \<open>Facts\<close>

lemma sanitizeRunId_iff: "sanitizeRunId s = Inr t \<longleftrightarrow> safe_id s \<and> t = s"
  by (auto simp: sanitizeRunId_def safe_id_def)

lemma resolveRunPath_iff:
  "resolveRunPath dir s = Inr p \<longleftrightarrow> safe_id s \<and> p = dir @ [''runs'', s @ ''.json'']"
  by (auto simp: resolveRunPath_def sanitizeRunId_def safe_id_def)

lemma resolveRunPath_safe: "safe_id s \<Longrightarrow> resolveRunPath dir s = Inr (dir @ [''runs'', s @ ''.json''])"
  by (simp add: resolveRunPath_iff)

text \<open>The run file of a run, as the loader would return it.\<close>

definition stored_run :: "path \<Rightarrow> run_file fs \<Rightarrow> string \<Rightarrow> run option" where
  "stored_run dir fs i = (case fst (loadRun dir i fs) of Inl _ \<Rightarrow> None | Inr r \<Rightarrow> r)"

lemma stored_run_safe:
  "safe_id i \<Longrightarrow> stored_run dir fs i =
     (case read_file fs (dir @ [''runs'', i @ ''.json'']) of Some (RunFile r) \<Rightarrow> Some r | _ \<Rightarrow> None)"
  by (auto simp: stored_run_def loadRun_def resolveRunPath_safe dest: read_file_exists
      split: option.splits run_file.splits)

lemma saveRun_ok: "safe_id (run_id r) \<Longrightarrow> fst (saveRun dir r fs) = Inr ()"
  by (simp add: saveRun_def resolveRunPath_safe Let_def)

lemma saveRun_unsafe: "\<not> safe_id (run_id r) \<Longrightarrow> \<exists>e. saveRun dir r fs = (Inl e, fs)"
  by (auto simp: saveRun_def resolveRunPath_iff split: sum.splits)

lemma read_file_saveRun:
  "safe_id (run_id r) \<Longrightarrow> read_file (snd (saveRun dir r fs)) p =
     (if p = dir @ [''runs'', run_id r @ ''.json''] then Some (RunFile r) else read_file fs p)"
  by (simp add: saveRun_def resolveRunPath_safe Let_def)

interpretation runs: record_store
  run_id "stored_run dir" "\<lambda>r fs. snd (saveRun dir r fs)" "\<lambda>i fs. snd (deleteRun dir i fs)" safe_id "\<lambda>_. True"
  for dir
proof unfold_locales
  fix r :: run and j :: string and fs :: "run_file fs"
  assume "safe_id (run_id r)" "safe_id j"
  then show "stored_run dir (snd (saveRun dir r fs)) j = (if j = run_id r then Some r else stored_run dir fs j)"
    by (simp add: stored_run_safe read_file_saveRun)
next
  fix k j :: string and fs :: "run_file fs"
  assume "safe_id k" "safe_id j"
  then show "stored_run dir (snd (deleteRun dir k fs)) j = (if j = k then None else stored_run dir fs j)"
    by (auto simp: stored_run_safe deleteRun_def resolveRunPath_safe
        dest: read_file_exists split: option.splits)
qed simp_all

section \<open>Properties\<close>

lemma loadRun_stored: "fst (loadRun dir i fs) = (if safe_id i then Inr (stored_run dir fs i) else fst (loadRun dir i fs))"
  by (auto simp: stored_run_def loadRun_def resolveRunPath_safe split: option.splits run_file.splits)

lemma loadRun_unsafe: "\<not> safe_id i \<Longrightarrow> fst (loadRun dir i fs) = fst (loadRun dir i fs')"
  by (auto simp: loadRun_def resolveRunPath_iff split: sum.splits)

text \<open>A saved run loads back as it was, and saving it changes no other run's file.\<close>

lemma save_load_roundtrip:
  assumes "safe_id (run_id r)"
  shows "fst (loadRun dir (run_id r) (snd (saveRun dir r fs))) = Inr (Some r)
    \<and> (j \<noteq> run_id r \<longrightarrow> fst (loadRun dir j (snd (saveRun dir r fs))) = fst (loadRun dir j fs))"
proof -
  have "fst (loadRun dir j (snd (saveRun dir r fs))) = fst (loadRun dir j fs)" if "j \<noteq> run_id r"
  proof (cases "safe_id j")
    case True
    then show ?thesis
      using runs.load_save_other [OF assms, of j dir fs] that
      by (metis loadRun_stored)
  next
    case False
    then show ?thesis by (rule loadRun_unsafe)
  qed
  then show ?thesis
    using runs.load_save_same [OF assms, of dir fs] loadRun_stored [of dir "run_id r"] assms by simp
qed

lemma save_load_roundtrip_witness:
  "let r = \<lparr>run_id = ''r1'', run_workflowId = ''wf'', run_createdAt = ''t'', run_startedAt = None,
       run_completedAt = None, run_status = RunPending, run_tasks = [], run_metadata = None\<rparr>
   in fst (loadRun [''d''] ''r1'' (snd (saveRun [''d''] r empty_fs))) = Inr (Some r)"
proof -
  have "safe_id ''r1''" by code_simp
  then show ?thesis
    using save_load_roundtrip [of "\<lparr>run_id = ''r1'', run_workflowId = ''wf'', run_createdAt = ''t'',
      run_startedAt = None, run_completedAt = None, run_status = RunPending, run_tasks = [],
      run_metadata = None\<rparr>" "[''d'']" empty_fs] by simp
qed

text \<open>A run id never escapes the runs directory: whenever a path is produced it is a single
  name inside \<open>runs/\<close>, without separators and not \<open>.\<close> or \<open>..\<close>; any other id is refused.\<close>

lemma run_path_confined:
  assumes "resolveRunPath dir runId = Inr p"
  shows "\<exists>name. p = dir @ [''runs'', name] \<and> CHR ''/'' \<notin> set name \<and> CHR 0x5C \<notin> set name
    \<and> CHR 0x00 \<notin> set name \<and> name \<noteq> ''.'' \<and> name \<noteq> ''..''"
proof -
  have "safe_id runId" and p: "p = dir @ [''runs'', runId @ ''.json'']"
    using assms by (simp_all add: resolveRunPath_iff)
  from safe_id_no_escape [OF this(1)] show ?thesis
    by (intro exI [of _ "runId @ ''.json''"]) (auto simp: p append_eq_Cons_conv)
qed

end
