(* ===== verification/Json_Text.thy ===== *)
theory Json_Text
  imports Prelude
begin

text \<open>
  \<open>JSON.stringify\<close> (compact form) and the canonical form the audit log hashes:
  \<open>canonicalJson\<close> and \<open>sortedReplacer\<close> of \<^verbatim>\<open>src/security/audit-log.ts\<close>. The
  printer is shown injective, also when more text follows, so a text determines the value
  it was printed from; and the text of a value never contains a line feed, which is what
  makes one log entry one line.
\<close>

section \<open>Printing\<close>

definition hex_digit :: "nat \<Rightarrow> char" where
  "hex_digit d = (if d < 10 then char_of (48 + d) else char_of (87 + d))"

text \<open>\<open>QuoteJSONString\<close> of one code unit.\<close>

definition esc_char :: "char \<Rightarrow> string" where
  "esc_char c =
     (if c = CHR 0x22 then [CHR 0x5C, CHR 0x22]
      else if c = CHR 0x5C then [CHR 0x5C, CHR 0x5C]
      else if c = CHR 0x08 then [CHR 0x5C, CHR ''b'']
      else if c = CHR 0x0C then [CHR 0x5C, CHR ''f'']
      else if c = CHR 0x0A then [CHR 0x5C, CHR ''n'']
      else if c = CHR 0x0D then [CHR 0x5C, CHR ''r'']
      else if c = CHR 0x09 then [CHR 0x5C, CHR ''t'']
      else if (of_char c :: nat) < 32
        then [CHR 0x5C, CHR ''u'', CHR ''0'', CHR ''0'',
              hex_digit (of_char c div 16), hex_digit (of_char c mod 16)]
      else [c])"

definition quote_json :: "string \<Rightarrow> string" where
  "quote_json s = CHR 0x22 # concat (map esc_char s) @ [CHR 0x22]"

text \<open>Elements joined with commas.\<close>

fun join_with :: "string \<Rightarrow> string list \<Rightarrow> string" where
  "join_with sep [] = []"
| "join_with sep [x] = x"
| "join_with sep (x # y # xs) = x @ sep @ join_with sep (y # xs)"

fun stringify :: "json \<Rightarrow> string" where
  "stringify JNull = ''null''"
| "stringify (JBool b) = (if b then ''true'' else ''false'')"
| "stringify (JNum n) = show_int n"
| "stringify (JDec neg i z d) = show_dec neg i z d"
| "stringify (JStr s) = quote_json s"
| "stringify (JArr vs) = ''['' @ join_with '','' (map stringify vs) @ '']''"
| "stringify (JObj kvs) =
     ''{'' @ join_with '','' (map (\<lambda>(k, v). quote_json k @ '':'' @ stringify v) kvs) @ ''}''"

section \<open>The canonical form\<close>

text \<open>
  \<open>sortedReplacer\<close> rebuilds every plain object with its keys in sorted order;
  \<open>JSON.stringify\<close> applies it at every level, parents first. Keys of one object are
  distinct, so the stable sort of the properties is the sort of the keys.
\<close>

fun sortedReplacer :: "json \<Rightarrow> json" where
  "sortedReplacer (JObj kvs) = JObj (sort_key fst kvs)"
| "sortedReplacer v = v"

fun sort_json :: "json \<Rightarrow> json" where
  "sort_json (JArr vs) = JArr (map sort_json vs)"
| "sort_json (JObj kvs) = sortedReplacer (JObj (map (\<lambda>(k, v). (k, sort_json v)) kvs))"
| "sort_json v = v"

definition canonicalJson :: "json \<Rightarrow> string" where
  "canonicalJson v = stringify (sort_json v)"

section \<open>A printed text determines its value\<close>

text \<open>The escapes of two characters can be told apart, whatever follows.\<close>

lemma hex_digit_inject: "a < 16 \<Longrightarrow> b < 16 \<Longrightarrow> hex_digit a = hex_digit b \<Longrightarrow> a = b"
proof -
  assume a: "a < 16" and b: "b < 16" and eq: "hex_digit a = hex_digit b"
  have "of_char (hex_digit a) = (of_char (hex_digit b) :: nat)" using eq by simp
  then show "a = b" using a b by (auto simp: hex_digit_def split: if_splits)
qed

definition plain_char :: "char \<Rightarrow> bool" where
  "plain_char c \<longleftrightarrow> (of_char c :: nat) \<ge> 32 \<and> c \<noteq> CHR 0x22 \<and> c \<noteq> CHR 0x5C"

lemma esc_plain: "plain_char c \<Longrightarrow> esc_char c = [c]"
  by (auto simp: plain_char_def esc_char_def)

lemma esc_not_plain: "\<not> plain_char c \<Longrightarrow> \<exists>x xs. esc_char c = CHR 0x5C # x # xs"
  by (auto simp: plain_char_def esc_char_def)

lemma esc_char_nonempty: "esc_char c \<noteq> []"
  by (simp add: esc_char_def)

lemma esc_char_not_quote: "esc_char c \<noteq> CHR 0x22 # r"
  by (auto simp: esc_char_def)

lemma esc_char_inject_append:
  assumes eq: "esc_char c @ r = esc_char d @ q"
  shows "c = d \<and> r = q"
proof (cases "plain_char c \<or> plain_char d")
  case True
  have "plain_char c \<longleftrightarrow> plain_char d"
  proof (rule ccontr)
    assume "(plain_char c) \<noteq> (plain_char d)"
    then show False
      using eq esc_plain [of c] esc_plain [of d] esc_not_plain [of c] esc_not_plain [of d]
      by (auto simp: plain_char_def)
  qed
  with True eq show ?thesis using esc_plain [of c] esc_plain [of d] by simp
next
  case False
  have small: "(of_char c :: nat) < 32 \<Longrightarrow> of_char c div 16 < (16 :: nat)"
    "(of_char d :: nat) < 32 \<Longrightarrow> of_char d div 16 < (16 :: nat)" by simp_all
  have whole: "(of_char c :: nat) div 16 = of_char d div 16 \<Longrightarrow>
      (of_char c :: nat) mod 16 = of_char d mod 16 \<Longrightarrow> c = d"
    by (metis div_mult_mod_eq of_char_eq_iff)
  from eq show ?thesis
    by (auto simp: esc_char_def split: if_splits
        dest!: hex_digit_inject [rotated 2] intro!: whole)
qed

lemma esc_chars_inject_append:
  "concat (map esc_char s) @ CHR 0x22 # r = concat (map esc_char t) @ CHR 0x22 # q \<Longrightarrow>
     s = t \<and> r = q"
proof (induction s arbitrary: t)
  case Nil
  then show ?case
    by (cases t) (auto simp: Cons_eq_append_conv esc_char_nonempty esc_char_not_quote [symmetric])
next
  case (Cons c s)
  show ?case
  proof (cases t)
    case Nil
    with Cons.prems show ?thesis
      by (auto simp: Cons_eq_append_conv append_eq_Cons_conv esc_char_nonempty esc_char_not_quote)
  next
    case (Cons d t')
    with Cons.prems have "esc_char c @ (concat (map esc_char s) @ CHR 0x22 # r) =
        esc_char d @ (concat (map esc_char t') @ CHR 0x22 # q)" by simp
    then have "c = d" and
      "concat (map esc_char s) @ CHR 0x22 # r = concat (map esc_char t') @ CHR 0x22 # q"
      using esc_char_inject_append by blast+
    with Cons.IH Cons show ?thesis by blast
  qed
qed

lemma quote_json_inject_append: "quote_json s @ r = quote_json t @ q \<Longrightarrow> s = t \<and> r = q"
  using esc_chars_inject_append [of s r t q] by (simp add: quote_json_def)

text \<open>Comma-separated lists between a fixed closing character.\<close>

lemma join_with_Cons:
  "join_with sep (x # xs) = x @ concat (map (\<lambda>y. sep @ y) xs)"
  by (induction xs arbitrary: x) simp_all

text \<open>The characters of a printed number.\<close>

definition num_char :: "char \<Rightarrow> bool" where
  "num_char c \<longleftrightarrow> is_digit c \<or> c = CHR ''-'' \<or> c = CHR ''.''"

definition no_digit :: "string \<Rightarrow> bool" where
  "no_digit r \<longleftrightarrow> (case r of [] \<Rightarrow> True | c # _ \<Rightarrow> \<not> num_char c)"

lemma no_digit_simps [simp]:
  "no_digit []" "no_digit (c # r) \<longleftrightarrow> \<not> num_char c"
  by (simp_all add: no_digit_def)

lemma no_digit_separators [simp]:
  "\<not> num_char (CHR '','')" "\<not> num_char (CHR '']'')" "\<not> num_char (CHR ''}'')"
  by (simp_all add: num_char_def is_digit_def)

lemma no_digit_tail:
  "\<not> num_char c \<Longrightarrow> no_digit (concat (map (\<lambda>y. CHR '','' # f y) xs) @ c # r)"
  by (cases xs) simp_all

lemma join_tail_inject:
  assumes inj: "\<And>x y r q. x \<in> set xs \<Longrightarrow> no_digit r \<Longrightarrow> no_digit q \<Longrightarrow> f x @ r = f y @ q \<Longrightarrow>
      x = y \<and> r = q"
    and close: "\<not> num_char c" "c \<noteq> CHR '',''"
    and eq: "concat (map (\<lambda>y. CHR '','' # f y) xs) @ c # r =
        concat (map (\<lambda>y. CHR '','' # f y) ys) @ c # q"
  shows "xs = ys \<and> r = q"
  using inj eq
proof (induction xs arbitrary: ys)
  case Nil
  then show ?case using close by (cases ys) auto
next
  case (Cons x xs)
  then obtain y ys' where ys: "ys = y # ys'" using close by (cases ys) auto
  with Cons.prems(2) have "f x @ (concat (map (\<lambda>y. CHR '','' # f y) xs) @ c # r) =
      f y @ (concat (map (\<lambda>y. CHR '','' # f y) ys') @ c # q)" by simp
  then have "x = y \<and> concat (map (\<lambda>y. CHR '','' # f y) xs) @ c # r =
      concat (map (\<lambda>y. CHR '','' # f y) ys') @ c # q"
    by (intro Cons.prems(1)) (simp_all add: no_digit_tail close)
  then show ?case using Cons.IH [of ys'] Cons.prems(1) ys by auto
qed

lemma join_inject:
  assumes inj: "\<And>x y r q. x \<in> set xs \<Longrightarrow> no_digit r \<Longrightarrow> no_digit q \<Longrightarrow> f x @ r = f y @ q \<Longrightarrow>
      x = y \<and> r = q"
    and close: "\<not> num_char c" "c \<noteq> CHR '',''"
    and first: "\<And>x. \<exists>d s. f x = d # s \<and> d \<noteq> c"
    and eq: "join_with '','' (map f xs) @ c # r = join_with '','' (map f ys) @ c # q"
  shows "xs = ys \<and> r = q"
proof (cases xs)
  case Nil
  then show ?thesis using eq first by (cases ys) (auto simp: join_with_Cons, metis append_Cons list.inject)
next
  case xs: (Cons x xs')
  show ?thesis
  proof (cases ys)
    case Nil
    then show ?thesis using eq first [of x] xs by (auto simp: join_with_Cons)
  next
    case ys: (Cons y ys')
    have "f x @ (concat (map (\<lambda>y. CHR '','' # f y) xs') @ c # r) =
        f y @ (concat (map (\<lambda>y. CHR '','' # f y) ys') @ c # q)"
      using eq by (simp add: xs ys join_with_Cons comp_def)
    then have "x = y \<and> concat (map (\<lambda>y. CHR '','' # f y) xs') @ c # r =
        concat (map (\<lambda>y. CHR '','' # f y) ys') @ c # q"
      by (intro inj) (simp_all add: xs no_digit_tail close)
    then show ?thesis
      using join_tail_inject [of xs' f c r ys' q] inj close by (auto simp: xs ys)
  qed
qed

text \<open>A printed number is the longest prefix of number characters.\<close>

lemma num_prefix:
  assumes "s @ r = t @ q" "no_digit r" "no_digit q" "\<forall>c \<in> set s. num_char c" "\<forall>c \<in> set t. num_char c"
  shows "s = t \<and> r = q"
proof -
  have split: "takeWhile num_char (u @ v) = u" if "no_digit v" "\<forall>c \<in> set u. num_char c" for u v
    using that by (cases v) (auto simp: takeWhile_append)
  from split [OF assms(2,4)] split [OF assms(3,5)] assms(1) show ?thesis by simp
qed

lemma show_nat_chars: "c \<in> set (show_nat n) \<Longrightarrow> is_digit c"
  using show_nat_digits by blast

lemma show_int_chars: "c \<in> set (show_int n) \<Longrightarrow> num_char c \<and> c \<noteq> CHR ''.''"
  by (auto simp: show_int_def num_char_def is_digit_def dest!: show_nat_chars split: if_splits)

lemma show_dec_chars: "c \<in> set (show_dec neg i z d) \<Longrightarrow> num_char c"
  by (auto simp: show_dec_def num_char_def is_digit_def dest!: show_nat_chars split: if_splits)

lemma show_nat_no_minus: "show_nat k @ s \<noteq> CHR ''-'' # t"
proof
  assume eq: "show_nat k @ s = CHR ''-'' # t"
  then have "CHR ''-'' \<in> set (show_nat k)" by (cases "show_nat k") auto
  then have "is_digit (CHR ''-'')" by (rule show_nat_chars)
  then show False by (simp add: is_digit_def)
qed

lemma show_int_inject: "show_int m = show_int n \<Longrightarrow> m = n"
  using show_nat_no_minus [of "nat m" "[]"] show_nat_no_minus [of "nat n" "[]", symmetric]
  by (auto simp: show_int_def show_nat_inject split: if_splits)

lemma show_int_not_dec: "show_int n \<noteq> show_dec neg i z d"
proof
  assume "show_int n = show_dec neg i z d"
  moreover have "CHR ''.'' \<in> set (show_dec neg i z d)" by (simp add: show_dec_def)
  ultimately show False using show_int_chars by metis
qed

lemma show_dec_inject:
  assumes eq: "show_dec neg i z d = show_dec neg' i' z' d'"
  shows "neg = neg' \<and> i = i' \<and> z = z' \<and> d = d'"
proof -
  let ?t = "\<lambda>i z d. show_nat i @ ''.'' @ replicate z (CHR ''0'') @ show_nat d"
  have sign: "neg = neg'"
    using eq show_nat_no_minus [of i] show_nat_no_minus [of i', symmetric]
    by (cases neg; cases neg') (auto simp: show_dec_def)
  with eq have "?t i z d = ?t i' z' d'" by (auto simp: show_dec_def split: if_splits)
  moreover have "takeWhile is_digit (?t i z d) = show_nat i" for i z d
    using show_nat_digits [of i] by (simp add: takeWhile_append is_digit_def)
  ultimately have "show_nat i = show_nat i'" by metis
  then have "i = i'" by (simp add: show_nat_inject)
  with \<open>?t i z d = ?t i' z' d'\<close> have "replicate z (CHR ''0'') @ show_nat d = replicate z' (CHR ''0'') @ show_nat d'"
    by simp
  from zeros_inject [OF this] sign \<open>i = i'\<close> show ?thesis by simp
qed

lemma show_nat_first: "\<exists>d s. show_nat n = d # s \<and> is_digit d"
  using show_nat_digits [of n] by (cases "show_nat n") auto

lemma stringify_first:
  "\<exists>d s. stringify v = d # s \<and> d \<noteq> CHR '']'' \<and> d \<noteq> CHR ''}'' \<and> d \<noteq> CHR '',''"
proof (cases v)
  case (JNum n)
  have "d \<noteq> CHR '']'' \<and> d \<noteq> CHR ''}'' \<and> d \<noteq> CHR '',''" if "is_digit d" for d
    using that by (auto simp: is_digit_def)
  then show ?thesis using JNum show_nat_first by (fastforce simp: show_int_def)
next
  case (JDec neg i z d)
  obtain c s where "show_nat i = c # s" "is_digit c" using show_nat_first by blast
  then show ?thesis using JDec by (cases neg) (auto simp: show_dec_def is_digit_def)
qed (auto simp: quote_json_def)

text \<open>The constructor of a value is read off the first character of its text.\<close>

fun lead :: "char \<Rightarrow> nat" where
  "lead c = (if c = CHR ''n'' then 0 else if c = CHR ''t'' \<or> c = CHR ''f'' then 1
     else if c = CHR 0x22 then 3 else if c = CHR ''['' then 4 else if c = CHR ''{'' then 5
     else 2)"

fun kind_of_json :: "json \<Rightarrow> nat" where
  "kind_of_json JNull = 0"
| "kind_of_json (JBool _) = 1"
| "kind_of_json (JNum _) = 2"
| "kind_of_json (JDec _ _ _ _) = 2"
| "kind_of_json (JStr _) = 3"
| "kind_of_json (JArr _) = 4"
| "kind_of_json (JObj _) = 5"

lemma lead_stringify: "\<exists>d s. stringify v = d # s \<and> lead d = kind_of_json v"
proof (cases v)
  case (JNum n)
  have dig: "lead d = 2" if "is_digit d" for d
    using that by (auto simp: is_digit_def)
  show ?thesis
  proof (cases "n < 0")
    case True
    then show ?thesis using JNum by (simp add: show_int_def)
  next
    case False
    obtain d s where "show_nat (nat n) = d # s" "is_digit d" using show_nat_first by blast
    then show ?thesis using JNum False dig by (simp add: show_int_def del: lead.simps)
  qed
next
  case (JDec neg i z d)
  obtain c s where "show_nat i = c # s" "is_digit c" using show_nat_first by blast
  then show ?thesis using JDec by (cases neg) (auto simp: show_dec_def is_digit_def)
qed (auto simp: quote_json_def)

lemma same_kind: "stringify v @ r = stringify w @ q \<Longrightarrow> kind_of_json v = kind_of_json w"
  using lead_stringify [of v] lead_stringify [of w] by (auto simp del: lead.simps)

lemma number_inject:
  assumes "stringify v @ r = stringify w @ q" "no_digit r" "no_digit q"
    and "kind_of_json v = 2" "kind_of_json w = 2"
  shows "v = w \<and> r = q"
proof -
  have chars: "\<forall>c \<in> set (stringify u). num_char c" if "kind_of_json u = 2" for u
    using that by (cases u) (auto dest: show_int_chars show_dec_chars)
  from num_prefix [OF assms(1-3) chars [OF assms(4)] chars [OF assms(5)]]
  have "stringify v = stringify w" "r = q" by simp_all
  with assms(4,5) show ?thesis
    by (cases v; cases w) (auto dest: show_int_inject show_dec_inject simp: show_int_not_dec show_int_not_dec [symmetric])
qed

theorem stringify_inject_append:
  "stringify v @ r = stringify w @ q \<Longrightarrow> no_digit r \<Longrightarrow> no_digit q \<Longrightarrow> v = w \<and> r = q"
proof (induction v arbitrary: w r q rule: stringify.induct)
  case 1
  then show ?case using same_kind [OF "1.prems"(1)] by (cases w) auto
next
  case (2 b)
  then show ?case using same_kind [OF "2.prems"(1)] by (cases w) (auto split: if_splits)
next
  case (3 n)
  from number_inject [OF "3.prems"] same_kind [OF "3.prems"(1)] show ?case by (cases w) auto
next
  case (4 neg i z d)
  from number_inject [OF "4.prems"] same_kind [OF "4.prems"(1)] show ?case by (cases w) auto
next
  case (5 s)
  then show ?case using same_kind [OF "5.prems"(1)]
    by (cases w) (auto dest: quote_json_inject_append)
next
  case (6 vs)
  obtain ws where w: "w = JArr ws" using same_kind [OF "6.prems"(1)] by (cases w) auto
  have "vs = ws \<and> r = q"
  proof (rule join_inject [where f = stringify and c = "CHR '']''"])
    show "\<exists>d s. stringify x = d # s \<and> d \<noteq> CHR '']''" for x
      using stringify_first [of x] by auto
    show "join_with '','' (map stringify vs) @ CHR '']'' # r =
        join_with '','' (map stringify ws) @ CHR '']'' # q"
      using "6.prems"(1) w by simp
  qed (use "6.IH" in auto)
  then show ?case by (simp add: w)
next
  case (7 kvs)
  let ?f = "\<lambda>(k, v). quote_json k @ '':'' @ stringify v"
  obtain ws where w: "w = JObj ws" using same_kind [OF "7.prems"(1)] by (cases w) auto
  have "kvs = ws \<and> r = q"
  proof (rule join_inject [where f = ?f and c = "CHR ''}''"])
    show "\<exists>d s. ?f x = d # s \<and> d \<noteq> CHR ''}''" for x
      by (cases x) (simp add: quote_json_def)
    show "join_with '','' (map ?f kvs) @ CHR ''}'' # r = join_with '','' (map ?f ws) @ CHR ''}'' # q"
      using "7.prems"(1) w by simp
    fix x y r' q'
    assume x: "x \<in> set kvs" and d: "no_digit r'" "no_digit q'" and eq: "?f x @ r' = ?f y @ q'"
    obtain k u l z where xy: "x = (k, u)" "y = (l, z)" by (cases x, cases y)
    from eq have "quote_json k @ (CHR '':'' # stringify u @ r') =
        quote_json l @ (CHR '':'' # stringify z @ q')" by (simp add: xy)
    then have kl: "k = l" and uz: "stringify u @ r' = stringify z @ q'"
      using quote_json_inject_append by blast+
    from "7.IH" [OF x xy(1) [symmetric] uz d] kl show "x = y \<and> r' = q'" by (simp add: xy)
  qed simp_all
  then show ?case by (simp add: w)
qed

corollary stringify_inject: "stringify v = stringify w \<Longrightarrow> v = w"
  using stringify_inject_append [of v "[]" w "[]"] by simp

lemma canonicalJson_eq_iff: "canonicalJson v = canonicalJson w \<longleftrightarrow> sort_json v = sort_json w"
  by (auto simp: canonicalJson_def dest: stringify_inject)

lemma canonicalJson_obj_first: "\<exists>s. canonicalJson (JObj kvs) = CHR ''{'' # s"
  by (simp add: canonicalJson_def)

section \<open>One value, one line\<close>

lemma hex_digit_no_newline: "d < 16 \<Longrightarrow> CHR 0x0A \<noteq> hex_digit d"
proof
  assume "d < 16" and "CHR 0x0A = hex_digit d"
  then have "(of_char (CHR 0x0A) :: nat) = of_char (hex_digit d)" by simp
  with \<open>d < 16\<close> show False by (auto simp: hex_digit_def split: if_splits)
qed

lemma esc_char_no_newline: "CHR 0x0A \<notin> set (esc_char c)"
  using hex_digit_no_newline [of "of_char c div 16"] hex_digit_no_newline [of "of_char c mod 16"]
  by (auto simp: esc_char_def)

lemma quote_json_no_newline: "CHR 0x0A \<notin> set (quote_json s)"
  by (auto simp: quote_json_def esc_char_no_newline)

lemma join_with_no_newline:
  "CHR 0x0A \<notin> set sep \<Longrightarrow> (\<And>x. x \<in> set xs \<Longrightarrow> CHR 0x0A \<notin> set x) \<Longrightarrow>
     CHR 0x0A \<notin> set (join_with sep xs)"
  by (induction sep xs rule: join_with.induct) auto

lemma show_int_no_newline: "CHR 0x0A \<notin> set (show_int n)"
  using show_nat_digits [of "nat n"] show_nat_digits [of "nat (- n)"]
  by (auto simp: show_int_def is_digit_def)

lemma show_dec_no_newline: "CHR 0x0A \<notin> set (show_dec neg i z d)"
  using show_dec_chars [of "CHR 0x0A" neg i z d] by (auto simp: num_char_def is_digit_def)

lemma stringify_no_newline: "CHR 0x0A \<notin> set (stringify v)"
proof (induction v rule: stringify.induct)
  case (6 vs)
  have "CHR 0x0A \<notin> set (join_with '','' (map stringify vs))"
    by (rule join_with_no_newline) (auto dest: "6.IH")
  then show ?case by simp
next
  case (7 kvs)
  have "CHR 0x0A \<notin> set (join_with '','' (map (\<lambda>(k, v). quote_json k @ '':'' @ stringify v) kvs))"
    by (rule join_with_no_newline) (auto simp: quote_json_no_newline dest: "7.IH")
  then show ?case by simp
qed (simp_all add: show_int_no_newline show_dec_no_newline quote_json_no_newline)

end
