(* ===== verification/Audit_Log.thy ===== *)
theory Audit_Log
  imports Json_Parse
begin

text \<open>
  The tamper-evident log of \<^verbatim>\<open>src/security/audit-log.ts\<close>. The file is the list of its
  non-empty lines; a line is what \<open>JSON.parse\<close> makes of it, \<open>None\<close> for a text it
  rejects (a missing file is the empty list: both read back as no entries). SHA-256 is the
  parameter \<open>sha\<close>, a function from the hashed text to the hex digest. The clock
  reading is an argument.
\<close>

section \<open>Entries and lines\<close>

record audit_entry =
  ae_ts :: string
  ae_kind :: string
  ae_payload :: json_object
  ae_prevHash :: string
  ae_hash :: string

type_synonym log_line = "json option"
type_synonym audit_event = "string \<times> json_object"

definition entry_json :: "audit_entry \<Rightarrow> json" where
  "entry_json e =
     JObj [(''ts'', JStr (ae_ts e)), (''kind'', JStr (ae_kind e)),
           (''payload'', JObj (ae_payload e)), (''prevHash'', JStr (ae_prevHash e)),
           (''hash'', JStr (ae_hash e))]"

text \<open>The object both sides hash: the entry without its \<open>hash\<close>. A field the parsed
  line lacks is \<open>undefined\<close> and disappears from the text.\<close>

definition headless_fields :: "json \<Rightarrow> json_object" where
  "headless_fields v =
     concat (map (\<lambda>k. case json_field v k of None \<Rightarrow> [] | Some x \<Rightarrow> [(k, x)])
       [''ts'', ''kind'', ''payload'', ''prevHash''])"

definition headless_of :: "json \<Rightarrow> json" where
  "headless_of v = JObj (headless_fields v)"

text \<open>The text that goes into the digest: \<open>update(prevHash).update(canonicalJson(headless))\<close>.\<close>

definition hashed_text :: "string \<Rightarrow> json \<Rightarrow> string" where
  "hashed_text prev headless = prev @ canonicalJson headless"

section \<open>Operations\<close>

definition readLastHash :: "log_line list \<Rightarrow> string" where
  "readLastHash ls =
     (if ls = [] then []
      else case last ls of None \<Rightarrow> [] | Some v \<Rightarrow> string_or (json_field v ''hash'') [])"

definition appendAuditLog ::
  "(string \<Rightarrow> string) \<Rightarrow> string \<Rightarrow> audit_event \<Rightarrow> log_line list \<Rightarrow> audit_entry \<times> log_line list" where
  "appendAuditLog sha ts event ls =
     (let prev = readLastHash ls;
          headless = JObj [(''ts'', JStr ts), (''kind'', JStr (fst event)),
                           (''payload'', JObj (snd event)), (''prevHash'', JStr prev)];
          entry = \<lparr>ae_ts = ts, ae_kind = fst event, ae_payload = snd event,
                   ae_prevHash = prev, ae_hash = sha (hashed_text prev headless)\<rparr>
      in (entry, ls @ [Some (entry_json entry)]))"

datatype break_reason = LineNotJson | PrevHashMismatch | HashMismatch

text \<open>\<open>VerifyThrows\<close>: the line is the JSON text \<open>null\<close>, and reading
  \<open>entry.prevHash\<close> of it raises a TypeError outside the \<open>try\<close>.\<close>

datatype verify_result =
    VerifyOk nat
  | VerifyBroken nat break_reason
  | VerifyThrows nat

fun verify_from :: "(string \<Rightarrow> string) \<Rightarrow> string \<Rightarrow> nat \<Rightarrow> log_line list \<Rightarrow> verify_result" where
  "verify_from sha prev i [] = VerifyOk i"
| "verify_from sha prev i (None # ls) = VerifyBroken i LineNotJson"
| "verify_from sha prev i (Some v # ls) =
     (if v = JNull then VerifyThrows i
      else if json_field v ''prevHash'' \<noteq> Some (JStr prev) then VerifyBroken i PrevHashMismatch
      else let expected = sha (hashed_text prev (headless_of v))
           in if Some (JStr expected) \<noteq> json_field v ''hash'' then VerifyBroken i HashMismatch
              else verify_from sha expected (Suc i) ls)"

definition verifyAuditLog :: "(string \<Rightarrow> string) \<Rightarrow> log_line list \<Rightarrow> verify_result" where
  "verifyAuditLog sha ls = verify_from sha [] 0 ls"

text \<open>A run of appends, each with its own clock reading.\<close>

fun append_all ::
  "(string \<Rightarrow> string) \<Rightarrow> (string \<times> audit_event) list \<Rightarrow> log_line list \<Rightarrow> log_line list" where
  "append_all sha [] ls = ls"
| "append_all sha ((ts, ev) # evs) ls = append_all sha evs (snd (appendAuditLog sha ts ev ls))"

section \<open>Appending keeps the chain\<close>

lemma entry_json_fields [simp]:
  "json_field (entry_json e) ''hash'' = Some (JStr (ae_hash e))"
  "json_field (entry_json e) ''prevHash'' = Some (JStr (ae_prevHash e))"
  "entry_json e \<noteq> JNull"
  by (simp_all add: entry_json_def)

lemma headless_of_entry_json [simp]:
  "headless_of (entry_json e) =
     JObj [(''ts'', JStr (ae_ts e)), (''kind'', JStr (ae_kind e)),
           (''payload'', JObj (ae_payload e)), (''prevHash'', JStr (ae_prevHash e))]"
  by (simp add: headless_of_def headless_fields_def entry_json_def)

lemma readLastHash_snoc [simp]:
  "readLastHash (ls @ [Some v]) = string_or (json_field v ''hash'') []"
  by (simp add: readLastHash_def)

text \<open>The hash the verification carries into position \<open>i\<close> is the hash of the last line read.\<close>

definition last_hash_from :: "string \<Rightarrow> log_line list \<Rightarrow> string" where
  "last_hash_from prev ls = (if ls = [] then prev else readLastHash ls)"

lemma last_hash_from_Cons:
  "Some (JStr h) = json_field v ''hash'' \<Longrightarrow>
     last_hash_from prev (Some v # ls) = last_hash_from h ls"
  by (cases ls; drule sym) (simp_all add: last_hash_from_def readLastHash_def)

lemma verify_from_append:
  "verify_from sha prev i ls = VerifyOk n \<Longrightarrow>
     verify_from sha prev i (ls @ ms) = verify_from sha (last_hash_from prev ls) n ms"
proof (induction sha prev i ls rule: verify_from.induct)
  case (1 sha prev i)
  then show ?case by (simp add: last_hash_from_def)
next
  case (3 sha prev i v ls)
  then show ?case
    by (simp add: Let_def last_hash_from_Cons split: if_splits)
qed simp

lemma appendAuditLog_lines:
  "snd (appendAuditLog sha ts ev ls) = ls @ [Some (entry_json (fst (appendAuditLog sha ts ev ls)))]"
  by (simp add: appendAuditLog_def Let_def)

lemma appendAuditLog_last_hash [simp]:
  "readLastHash (snd (appendAuditLog sha ts ev ls)) = ae_hash (fst (appendAuditLog sha ts ev ls))"
  by (simp add: appendAuditLog_lines)

lemma verify_append_step:
  assumes "verifyAuditLog sha ls = VerifyOk n"
  shows "verifyAuditLog sha (snd (appendAuditLog sha ts ev ls)) = VerifyOk (Suc n)"
proof -
  have last: "last_hash_from [] ls = readLastHash ls"
    by (simp add: last_hash_from_def readLastHash_def)
  show ?thesis
    using assms unfolding verifyAuditLog_def appendAuditLog_lines
    by (simp add: verify_from_append last) (simp add: appendAuditLog_def Let_def)
qed

lemma verify_append_all:
  "verifyAuditLog sha ls = VerifyOk n \<Longrightarrow>
     verifyAuditLog sha (append_all sha evs ls) = VerifyOk (n + length evs)"
proof (induction sha evs ls arbitrary: n rule: append_all.induct)
  case (2 sha ts ev evs ls)
  from "2.IH" [OF verify_append_step [OF "2.prems"]] show ?case by simp
qed simp

section \<open>The chain commits to its history\<close>

text \<open>
  The abstract chain: the digest reached from \<open>h\<close> after the entries \<open>es\<close>, when the
  text hashed for entry \<open>e\<close> after digest \<open>h\<close> is \<open>enc h e\<close>; and the texts hashed
  on the way.
\<close>

fun chain_hash :: "(string \<Rightarrow> string) \<Rightarrow> (string \<Rightarrow> 'e \<Rightarrow> string) \<Rightarrow> string \<Rightarrow> 'e list \<Rightarrow> string" where
  "chain_hash sha enc h [] = h"
| "chain_hash sha enc h (e # es) = chain_hash sha enc (sha (enc h e)) es"

fun chain_inputs ::
  "(string \<Rightarrow> string) \<Rightarrow> (string \<Rightarrow> 'e \<Rightarrow> string) \<Rightarrow> string \<Rightarrow> 'e list \<Rightarrow> string list" where
  "chain_inputs sha enc h [] = []"
| "chain_inputs sha enc h (e # es) = enc h e # chain_inputs sha enc (sha (enc h e)) es"

lemma chain_hash_snoc [simp]:
  "chain_hash sha enc h (es @ [e]) = sha (enc (chain_hash sha enc h es) e)"
  by (induction sha enc h es rule: chain_hash.induct) simp_all

lemma chain_inputs_snoc [simp]:
  "chain_inputs sha enc h (es @ [e]) = chain_inputs sha enc h es @ [enc (chain_hash sha enc h es) e]"
  by (induction sha enc h es rule: chain_hash.induct) simp_all

text \<open>
  What the log relies on: from the hashed text, the previous digest and the entry (up to
  the equivalence the canonical form forgets) can be recovered. Everything the chain
  promises about past entries follows from that, for every digest function without a
  collision among the texts actually hashed.
\<close>

locale commitment =
  fixes enc :: "string \<Rightarrow> 'e \<Rightarrow> string"
    and digest_ok :: "string \<Rightarrow> bool"
    and view :: "'e \<Rightarrow> 'v"
  assumes enc_inject: "digest_ok h \<Longrightarrow> digest_ok h' \<Longrightarrow> enc h e = enc h' e' \<Longrightarrow>
      h = h' \<and> view e = view e'"
    and digest_ok_empty: "digest_ok []"
begin

lemma chain_hash_ok: "(\<And>x. digest_ok (sha x)) \<Longrightarrow> digest_ok (chain_hash sha enc [] es)"
  by (cases es rule: rev_cases) (simp_all add: digest_ok_empty)

lemma chain_commits:
  assumes dig: "\<And>x. digest_ok (sha x)" and ne: "\<And>x. sha x \<noteq> []"
    and inj: "inj_on sha (set (chain_inputs sha enc [] xs) \<union> set (chain_inputs sha enc [] ys))"
    and eq: "chain_hash sha enc [] xs = chain_hash sha enc [] ys"
  shows "map view xs = map view ys"
  using inj eq
proof (induction xs arbitrary: ys rule: rev_induct)
  case Nil
  then show ?case using ne [symmetric] by (cases ys rule: rev_cases) simp_all
next
  case (snoc x xs)
  obtain y ys' where ys: "ys = ys' @ [y]"
    using snoc.prems(2) ne by (cases ys rule: rev_cases) auto
  have "enc (chain_hash sha enc [] xs) x = enc (chain_hash sha enc [] ys') y"
    by (rule inj_onD [OF snoc.prems(1)]) (use snoc.prems(2) in \<open>simp_all add: ys\<close>)
  then have "chain_hash sha enc [] xs = chain_hash sha enc [] ys'" and "view x = view y"
    using enc_inject chain_hash_ok dig by blast+
  moreover have "inj_on sha (set (chain_inputs sha enc [] xs) \<union> set (chain_inputs sha enc [] ys'))"
    by (rule inj_on_subset [OF snoc.prems(1)]) (auto simp: ys)
  ultimately show ?case using snoc.IH [of ys'] by (simp add: ys)
qed

end

text \<open>The code's encoding: the previous digest, free of braces, then an object text.\<close>

lemma before_brace:
  "CHR ''{'' \<notin> set h \<Longrightarrow> CHR ''{'' \<notin> set h' \<Longrightarrow>
     h @ CHR ''{'' # s = h' @ CHR ''{'' # s' \<Longrightarrow> h = h' \<and> s = s'"
proof -
  assume h: "CHR ''{'' \<notin> set h" "CHR ''{'' \<notin> set h'" and eq: "h @ CHR ''{'' # s = h' @ CHR ''{'' # s'"
  have "takeWhile (\<lambda>c. c \<noteq> CHR ''{'') (g @ CHR ''{'' # t) = g" if "CHR ''{'' \<notin> set g" for g t
    using that by (induction g) auto
  from this [OF h(1), of s] this [OF h(2), of s'] have "h = h'" unfolding eq by simp
  with eq show "h = h' \<and> s = s'" by simp
qed

interpretation log_commitment: commitment
  "\<lambda>prev fields. hashed_text prev (JObj fields)"
  "\<lambda>h. CHR ''{'' \<notin> set h"
  "\<lambda>fields. sort_json (JObj fields)"
proof unfold_locales
  fix h h' :: string and e e' :: json_object
  assume h: "CHR ''{'' \<notin> set h" "CHR ''{'' \<notin> set h'"
    and eq: "hashed_text h (JObj e) = hashed_text h' (JObj e')"
  obtain s s' where s: "canonicalJson (JObj e) = CHR ''{'' # s" "canonicalJson (JObj e') = CHR ''{'' # s'"
    using canonicalJson_obj_first by blast
  have "h @ CHR ''{'' # s = h' @ CHR ''{'' # s'"
    using eq unfolding hashed_text_def s .
  then have "h = h' \<and> s = s'" by (rule before_brace [OF h])
  then show "h = h' \<and> sort_json (JObj e) = sort_json (JObj e')"
    using s canonicalJson_eq_iff [of "JObj e" "JObj e'"] by simp
qed simp

text \<open>The fields of every line, as the verification hashes them.\<close>

definition line_fields :: "log_line list \<Rightarrow> json_object list" where
  "line_fields ls = map (\<lambda>l. case l of None \<Rightarrow> [] | Some v \<Rightarrow> headless_fields v) ls"

definition log_view :: "log_line list \<Rightarrow> json list" where
  "log_view ls = map (\<lambda>f. sort_json (JObj f)) (line_fields ls)"

definition hashed_texts :: "(string \<Rightarrow> string) \<Rightarrow> log_line list \<Rightarrow> string list" where
  "hashed_texts sha ls = chain_inputs sha (\<lambda>h f. hashed_text h (JObj f)) [] (line_fields ls)"

lemma verified_chain:
  "verify_from sha prev i ls = VerifyOk n \<Longrightarrow>
     last_hash_from prev ls = chain_hash sha (\<lambda>h f. hashed_text h (JObj f)) prev (line_fields ls)"
proof (induction sha prev i ls rule: verify_from.induct)
  case (3 sha prev i v ls)
  then show ?case
    by (simp add: Let_def last_hash_from_Cons line_fields_def headless_of_def split: if_splits)
qed (simp_all add: last_hash_from_def line_fields_def)

lemma verified_same_history:
  assumes v: "verifyAuditLog sha ls = VerifyOk n" "verifyAuditLog sha ls' = VerifyOk n'"
    and last: "readLastHash ls = readLastHash ls'"
    and free: "inj_on sha (set (hashed_texts sha ls) \<union> set (hashed_texts sha ls'))"
    and dig: "\<And>x. CHR ''{'' \<notin> set (sha x)" "\<And>x. sha x \<noteq> []"
  shows "log_view ls = log_view ls'"
proof -
  have chain: "readLastHash ms = chain_hash sha (\<lambda>h f. hashed_text h (JObj f)) [] (line_fields ms)"
    if "verifyAuditLog sha ms = VerifyOk m" for ms m
    using verified_chain [OF that [unfolded verifyAuditLog_def]]
    by (simp add: last_hash_from_def readLastHash_def split: if_splits)
  show ?thesis
    unfolding log_view_def
    using last chain [OF v(1)] chain [OF v(2)] free
    by (intro log_commitment.chain_commits [where sha = sha]) (simp_all add: dig hashed_texts_def)
qed

section \<open>Properties\<close>

text \<open>C36. Every log this code writes verifies: after any sequence of appends to an empty log,
  with any clock readings and any digest function, \<open>verifyAuditLog\<close> answers ok and counts
  the appended entries.\<close>

theorem appended_log_verifies: "verifyAuditLog sha (append_all sha evs []) = VerifyOk (length evs)"
  using verify_append_all [of sha "[]" 0 evs] by (simp add: verifyAuditLog_def)


definition sample_sha :: "string \<Rightarrow> string" where
  "sample_sha s = show_nat (length s)"

lemma sample_sha_hex: "CHR ''{'' \<notin> set (sample_sha x)" "sample_sha x \<noteq> []"
  using show_nat_digits [of "length x"] by (auto simp: sample_sha_def is_digit_def)

text \<open>Two logs that differ in the key order of their first payload.\<close>

definition sample_events :: "json_object \<Rightarrow> (string \<times> audit_event) list" where
  "sample_events payload = [(''t0'', ''cron.add'', payload), (''t1'', ''cron.run'', [])]"

lemma sample_events_length: "length (sample_events payload) = 2"
  by (simp add: sample_events_def)



text \<open>One line of the log: the text written for an entry parses back to that entry, so the
  verifier reads the fields the appender hashed.\<close>

lemma log_line_reads_back:
  assumes "json_ok (JObj (ae_payload e))"
  shows "json_parse (stringify (entry_json e)) = Some (entry_json e)"
  using assms by (intro parse_of_stringify) (simp add: entry_json_def)

lemma log_line_reads_back_witness:
  "json_parse (stringify (entry_json \<lparr>ae_ts = ''t'', ae_kind = ''cron.add'', ae_payload = [(''cost'', JDec False 0 1 25)],
     ae_prevHash = [], ae_hash = ''h''\<rparr>)) =
   Some (entry_json \<lparr>ae_ts = ''t'', ae_kind = ''cron.add'', ae_payload = [(''cost'', JDec False 0 1 25)],
     ae_prevHash = [], ae_hash = ''h''\<rparr>)"
  using log_line_reads_back [of "\<lparr>ae_ts = ''t'', ae_kind = ''cron.add'', ae_payload = [(''cost'', JDec False 0 1 25)],
     ae_prevHash = [], ae_hash = ''h''\<rparr>"] by simp

end
