(* ===== verification/Origin_Context.thy ===== *)
theory Origin_Context
  imports Prelude
begin

text \<open>
  Per-async-context origin markers, \<^verbatim>\<open>src/security/origin-context.ts\<close>. The
  AsyncLocalStorage slot is an argument of type \<open>origin_context option\<close>: code that runs
  under an origin is a function of the slot, and \<open>storage.run\<close> calls it with the new
  value, so the caller's slot is untouched afterwards.
\<close>

record origin_context =
  o_source :: string
  o_untrusted :: bool
  o_details :: "(string \<times> string) list option"

type_synonym 'a under_origin = "origin_context option \<Rightarrow> 'a"

definition UNKNOWN_ORIGIN :: origin_context where
  "UNKNOWN_ORIGIN = \<lparr>o_source = ''unknown'', o_untrusted = False, o_details = None\<rparr>"

definition currentOrigin :: "origin_context under_origin" where
  "currentOrigin slot = nullish slot UNKNOWN_ORIGIN"

definition runWithOrigin :: "origin_context \<Rightarrow> 'a under_origin \<Rightarrow> 'a under_origin" where
  "runWithOrigin origin fn = (\<lambda>slot. fn (Some origin))"

definition runAsOperator :: "'a under_origin \<Rightarrow> (string \<times> string) list option \<Rightarrow> 'a under_origin" where
  "runAsOperator fn details =
     runWithOrigin \<lparr>o_source = ''operator'', o_untrusted = False, o_details = details\<rparr> fn"

definition runAsChannel ::
  "string \<Rightarrow> (string \<times> string) list \<Rightarrow> 'a under_origin \<Rightarrow> 'a under_origin" where
  "runAsChannel kind details fn =
     runWithOrigin \<lparr>o_source = ''channel:'' @ kind, o_untrusted = True, o_details = Some details\<rparr> fn"

definition runAsHttp ::
  "string \<Rightarrow> (string \<times> string) list \<Rightarrow> 'a under_origin \<Rightarrow> 'a under_origin" where
  "runAsHttp endpoint details fn =
     runWithOrigin \<lparr>o_source = ''http:'' @ endpoint, o_untrusted = True, o_details = Some details\<rparr> fn"

text \<open>The fields an audit payload takes from the current origin.\<close>

definition origin_payload :: "origin_context \<Rightarrow> json_object" where
  "origin_payload og =
     [(''origin'', JStr (o_source og)), (''originUntrusted'', JBool (o_untrusted og))]
     @ (case o_details og of None \<Rightarrow> []
        | Some ds \<Rightarrow> [(''originDetails'', JObj (map (\<lambda>(k, v). (k, JStr v)) ds))])"

lemma currentOrigin_run [simp]: "runWithOrigin origin currentOrigin slot = origin"
  by (simp add: runWithOrigin_def currentOrigin_def)

lemma nested_origin: "runWithOrigin outer (runWithOrigin inner fn) = runWithOrigin inner fn"
  by (simp add: runWithOrigin_def)

end
