(* ===== verification/Runner.thy ===== *)
theory Runner
  imports Run_Store Audit_Log Origin_Context
begin

text \<open>
  The orchestrator's runner, \<^verbatim>\<open>src/orchestrator/runner.ts\<close>: it walks the task list of a
  run one task at a time, saves the run after every transition and appends audit events.
  Workers, the clock, the abort signal, SHA-256 and the outcome of audit-log writes are the
  environment; each is indexed by how often it was consulted, so it may answer
  differently every time. The loop needs no fuel: every round moves a pending task to a
  terminal status, and the measure is the number of pending tasks.
\<close>

section \<open>Environment and world\<close>

record worker_output =
  wo_ok :: bool
  wo_result :: "json option"
  wo_error :: "string option"
  wo_costUsd :: "js_number option"

datatype worker_outcome = WorkerThrew string | WorkerReturned worker_output

record worker_input =
  wi_task :: run_task
  wi_dependencyOutputs :: dependency_outputs
  wi_runId :: string
  wi_workflowId :: string
  wi_metadata :: "json_object option"

type_synonym worker = "nat \<Rightarrow> worker_input \<Rightarrow> worker_outcome"

record runner_env =
  re_dir :: path
  re_auditLogPath :: "string option"
  re_aborted :: "nat \<Rightarrow> bool"
  re_now :: "nat \<Rightarrow> string"
  re_sha :: "string \<Rightarrow> string"
  re_auditTs :: "nat \<Rightarrow> string"
  re_auditFails :: "nat \<Rightarrow> bool"
  re_origin :: "origin_context option"
  re_workers :: "worker_role \<Rightarrow> worker option"

record runner_world =
  rw_fs :: "run_file fs"
  rw_log :: "log_line list"
  rw_clock :: nat
  rw_appends :: nat
  rw_polls :: nat
  rw_calls :: nat

definition run_status_name :: "run_status \<Rightarrow> string" where
  "run_status_name s =
     (case s of RunPending \<Rightarrow> ''pending'' | RunRunning \<Rightarrow> ''running''
      | RunSucceeded \<Rightarrow> ''succeeded'' | RunFailed \<Rightarrow> ''failed'')"

section \<open>Operations\<close>

definition read_now :: "runner_env \<Rightarrow> (runner_world, string) prog" where
  "read_now env = (\<lambda>w. (Inr (re_now env (rw_clock w)), w\<lparr>rw_clock := Suc (rw_clock w)\<rparr>))"

definition save :: "runner_env \<Rightarrow> run \<Rightarrow> (runner_world, unit) prog" where
  "save env run = (\<lambda>w. case saveRun (re_dir env) run (rw_fs w) of (r, fs) \<Rightarrow> (r, w\<lparr>rw_fs := fs\<rparr>))"

text \<open>\<open>emitAudit\<close>: best effort, a failing append leaves the log as it was.\<close>

definition emitAudit :: "runner_env \<Rightarrow> string \<Rightarrow> json_object \<Rightarrow> (runner_world, unit) prog" where
  "emitAudit env kind payload = (\<lambda>w.
     if \<not> truthy (re_auditLogPath env) then (Inr (), w)
     else let n = rw_appends w; w1 = w\<lparr>rw_appends := Suc n\<rparr>
          in if re_auditFails env n then (Inr (), w1)
             else (Inr (), w1\<lparr>rw_log := snd (appendAuditLog (re_sha env) (re_auditTs env n)
                (kind, obj_spread payload (origin_payload (currentOrigin (re_origin env))))
                (rw_log w))\<rparr>))"

definition call_worker :: "worker \<Rightarrow> worker_input \<Rightarrow> (runner_world, worker_outcome) prog" where
  "call_worker worker input =
     (\<lambda>w. (Inr (worker (rw_calls w) input), w\<lparr>rw_calls := Suc (rw_calls w)\<rparr>))"

definition poll_abort :: "runner_env \<Rightarrow> (runner_world, bool) prog" where
  "poll_abort env = (\<lambda>w. (Inr (re_aborted env (rw_polls w)), w\<lparr>rw_polls := Suc (rw_polls w)\<rparr>))"

definition task_event :: "run \<Rightarrow> run_task \<Rightarrow> json_object \<Rightarrow> json_object" where
  "task_event run t extra =
     [(''runId'', JStr (run_id run)), (''taskId'', JStr (t_id t)), (''role'', JStr (role_name (t_role t)))]
     @ extra"

text \<open>The outcome of the task: no worker registered, or what the worker did.\<close>

definition execute_task :: "runner_env \<Rightarrow> run \<Rightarrow> run_task \<Rightarrow> (runner_world, string + json option) prog" where
  "execute_task env current t =
     (case re_workers env (t_role t) of
        None \<Rightarrow> return_m (Inl (''runner: no worker registered for role \"'' @ role_name (t_role t) @ ''\"''))
      | Some worker \<Rightarrow>
          bind_m (call_worker worker
              \<lparr>wi_task = t\<lparr>rt_status := TRunning, rt_attempts := rt_attempts t + 1\<rparr>,
               wi_dependencyOutputs = dependencyOutputsFor current (t_id t),
               wi_runId = run_id current, wi_workflowId = run_workflowId current,
               wi_metadata = run_metadata current\<rparr>)
            (\<lambda>outcome. case outcome of
               WorkerThrew e \<Rightarrow> return_m (Inl e)
             | WorkerReturned out \<Rightarrow>
                 (if wo_ok out then return_m (Inr (wo_result out))
                  else return_m (Inl (nullish (wo_error out) ''(no error)'')))))"

definition settle :: "run \<Rightarrow> string \<Rightarrow> string + json option \<Rightarrow> string \<Rightarrow> run" where
  "settle current i result ts =
     (case result of Inl e \<Rightarrow> markTaskFailed current i e ts
      | Inr out \<Rightarrow> markTaskSucceeded current i out ts)"

definition settled_event :: "run \<Rightarrow> run_task \<Rightarrow> string + json option \<Rightarrow> string \<times> json_object" where
  "settled_event current t result =
     (case result of
        Inl e \<Rightarrow> (''orchestrator.task.failed'', task_event current t [(''error'', JStr e)])
      | Inr out \<Rightarrow> (''orchestrator.task.succeeded'', task_event current t []))"

text \<open>The \<open>for (;;)\<close> loop of \<open>runOrchestratorRun\<close>; \<open>Inr\<close> the run at the \<open>break\<close> and
  the number of tasks attempted.\<close>

function run_loop :: "runner_env \<Rightarrow> run \<Rightarrow> nat \<Rightarrow> (runner_world, run \<times> nat) prog" where
  "run_loop env current tasksAttempted =
     bind_m (poll_abort env) (\<lambda>aborted.
       if aborted
       then seq_m (emitAudit env ''orchestrator.run.aborted'' [(''runId'', JStr (run_id current))])
              (return_m (current, tasksAttempted))
       else case nextRunnableTask current of
         None \<Rightarrow> return_m (current, tasksAttempted)
       | Some next \<Rightarrow>
           bind_m (read_now env) (\<lambda>ts.
           seq_m (save env (markTaskRunning current (t_id next) ts))
          (seq_m (emitAudit env ''orchestrator.task.started''
                   (task_event (markTaskRunning current (t_id next) ts) next
                     [(''attempts'', JNum (int (rt_attempts next + 1)))]))
          (bind_m (execute_task env (markTaskRunning current (t_id next) ts) next) (\<lambda>result.
           bind_m (read_now env) (\<lambda>ts'.
           seq_m (save env (settle (markTaskRunning current (t_id next) ts) (t_id next) result ts'))
          (seq_m (case settled_event (markTaskRunning current (t_id next) ts) next result of
                    (kind, payload) \<Rightarrow> emitAudit env kind payload)
          (run_loop env (settle (markTaskRunning current (t_id next) ts) (t_id next) result ts')
             (tasksAttempted + 1)))))))))"
  by pat_completeness auto
termination
proof (relation "measure (\<lambda>(env, current, n). pending_count current)")
  fix env current n aborted nxt ts result ts'
  assume nxt: "nextRunnableTask current = Some nxt"
  have "pending_count (settle (markTaskRunning current (t_id nxt) ts) (t_id nxt) result ts') =
      pending_count (markTaskRunning current (t_id nxt) ts)"
    by (simp add: settle_def mark_after_running_pending split: sum.splits)
  then show "((env, settle (markTaskRunning current (t_id nxt) ts) (t_id nxt) result ts', n + 1),
      (env, current, n)) \<in> measure (\<lambda>(env, current, n). pending_count current)"
    using markRunning_pending_less [OF nxt] by simp
qed simp

declare run_loop.simps [simp del]

definition runOrchestratorRun :: "runner_env \<Rightarrow> run \<Rightarrow> (runner_world, run \<times> nat) prog" where
  "runOrchestratorRun env run =
     bind_m (read_now env) (\<lambda>ts.
     seq_m (save env (withTransitionedStatus run ts))
    (seq_m (emitAudit env ''orchestrator.run.started''
             [(''runId'', JStr (run_id run)), (''workflowId'', JStr (run_workflowId run)),
              (''taskCount'', JNum (int (length (run_tasks run))))])
    (bind_m (run_loop env (withTransitionedStatus run ts) 0) (\<lambda>(current, tasksAttempted).
     bind_m (read_now env) (\<lambda>ts'.
     seq_m (save env (withTransitionedStatus current ts'))
    (seq_m (emitAudit env
             (''orchestrator.run.'' @ run_status_name (computeRunStatus (withTransitionedStatus current ts')))
             [(''runId'', JStr (run_id current)), (''workflowId'', JStr (run_workflowId current)),
              (''tasksAttempted'', JNum (int tasksAttempted))])
     (return_m (withTransitionedStatus current ts', tasksAttempted))))))))"

section \<open>One round\<close>

text \<open>
  The body of the loop for one task, as a program that returns the settled run. Saving
  cannot throw once the run's id is a safe file name, which never changes.
\<close>

definition round :: "runner_env \<Rightarrow> run \<Rightarrow> run_task \<Rightarrow> (runner_world, run) prog" where
  "round env current next =
     bind_m (read_now env) (\<lambda>ts.
     seq_m (save env (markTaskRunning current (t_id next) ts))
    (seq_m (emitAudit env ''orchestrator.task.started''
             (task_event (markTaskRunning current (t_id next) ts) next
               [(''attempts'', JNum (int (rt_attempts next + 1)))]))
    (bind_m (execute_task env (markTaskRunning current (t_id next) ts) next) (\<lambda>result.
     bind_m (read_now env) (\<lambda>ts'.
     seq_m (save env (settle (markTaskRunning current (t_id next) ts) (t_id next) result ts'))
    (seq_m (case settled_event (markTaskRunning current (t_id next) ts) next result of
              (kind, payload) \<Rightarrow> emitAudit env kind payload)
     (return_m (settle (markTaskRunning current (t_id next) ts) (t_id next) result ts'))))))))"

lemma bind_m_assoc: "bind_m (bind_m m k) l = bind_m m (\<lambda>x. bind_m (k x) l)"
  by (rule ext) (simp add: bind_m_apply split: prod.splits sum.splits)

lemma bind_m_seq: "bind_m (seq_m m k) l = seq_m m (bind_m k l)"
  by (simp add: seq_m_def bind_m_assoc)

lemma bind_m_return: "bind_m (return_m x) k = k x"
  by (rule ext) (simp add: bind_m_apply)

lemma run_loop_unfold:
  "run_loop env current n =
     bind_m (poll_abort env) (\<lambda>aborted.
       if aborted
       then seq_m (emitAudit env ''orchestrator.run.aborted'' [(''runId'', JStr (run_id current))])
              (return_m (current, n))
       else case nextRunnableTask current of
         None \<Rightarrow> return_m (current, n)
       | Some next \<Rightarrow> bind_m (round env current next) (\<lambda>settled. run_loop env settled (n + 1)))"
  by (subst run_loop.simps) (unfold round_def bind_m_assoc bind_m_seq bind_m_return, rule refl)

section \<open>The abstract machine and the refinement\<close>

text \<open>What executing a task yields, as a function of how many worker calls came before.\<close>

definition task_result :: "runner_env \<Rightarrow> run \<Rightarrow> run_task \<Rightarrow> nat \<Rightarrow> string + json option" where
  "task_result env current t n =
     (case fst (execute_task env current t
        \<lparr>rw_fs = empty_fs, rw_log = [], rw_clock = 0, rw_appends = 0, rw_polls = 0, rw_calls = n\<rparr>) of
        Inl e \<Rightarrow> Inl e | Inr r \<Rightarrow> r)"

lemma execute_task_apply:
  "\<exists>c. execute_task env current t w = (Inr (task_result env current t (rw_calls w)), w\<lparr>rw_calls := c\<rparr>)"
  by (cases w)
    (auto simp: execute_task_def task_result_def call_worker_def monad_simps
      split: option.splits worker_outcome.splits)

inductive orchestration_step :: "runner_env \<Rightarrow> run \<Rightarrow> run \<Rightarrow> bool" for env where
  take_task: "nextRunnableTask current = Some t \<Longrightarrow>
     orchestration_step env current
       (settle (markTaskRunning current (t_id t) ts) (t_id t)
          (task_result env (markTaskRunning current (t_id t) ts) t n) ts')"

inductive_cases orchestration_stepE: "orchestration_step env current current'"

lemma save_apply:
  "safe_id (run_id r) \<Longrightarrow>
     save env r w = (Inr (), w\<lparr>rw_fs := snd (saveRun (re_dir env) r (rw_fs w))\<rparr>)"
  using saveRun_ok [of r "re_dir env" "rw_fs w"]
  by (cases "saveRun (re_dir env) r (rw_fs w)") (simp add: save_def)

lemma emitAudit_apply:
  "\<exists>l a. emitAudit env k p w = (Inr (), w\<lparr>rw_log := l, rw_appends := a\<rparr>)"
  by (cases w) (auto simp: emitAudit_def Let_def)

lemma emit_event_apply:
  "\<exists>l a. (case ev of (k, p) \<Rightarrow> emitAudit env k p) w = (Inr (), w\<lparr>rw_log := l, rw_appends := a\<rparr>)"
  by (cases ev) (simp add: emitAudit_apply)

lemma settle_id [simp]: "run_id (settle current i res ts) = run_id current"
  by (simp add: settle_def mark_defs split: sum.splits)

lemma markTaskRunning_id [simp]: "run_id (markTaskRunning current i ts) = run_id current"
  by (simp add: mark_defs)

lemma round_refines:
  assumes safe: "safe_id (run_id current)" and nxt: "nextRunnableTask current = Some t"
  obtains settled w' where "round env current t w = (Inr settled, w')"
    and "orchestration_step env current settled" and "run_id settled = run_id current"
    and "stored_run (re_dir env) (rw_fs w') (run_id current) = Some settled"
proof -
  let ?ts = "re_now env (rw_clock w)"
  let ?running = "markTaskRunning current (t_id t) ?ts"
  let ?w1 = "w\<lparr>rw_clock := Suc (rw_clock w), rw_fs := snd (saveRun (re_dir env) ?running (rw_fs w))\<rparr>"
  obtain l a where emit1: "emitAudit env ''orchestrator.task.started''
      (task_event ?running t [(''attempts'', JNum (int (rt_attempts t + 1)))]) ?w1
      = (Inr (), ?w1\<lparr>rw_log := l, rw_appends := a\<rparr>)" (is "_ = (_, ?w2)")
    using emitAudit_apply by blast
  obtain c where exec: "execute_task env ?running t ?w2
      = (Inr (task_result env ?running t (rw_calls ?w2)), ?w2\<lparr>rw_calls := c\<rparr>)" (is "_ = (Inr ?res, ?w3)")
    using execute_task_apply by blast
  let ?settled = "settle ?running (t_id t) ?res (re_now env (rw_clock ?w3))"
  let ?w4 = "?w3\<lparr>rw_clock := Suc (rw_clock ?w3),
      rw_fs := snd (saveRun (re_dir env) ?settled (rw_fs ?w3))\<rparr>"
  obtain l' a' where emit2: "(case settled_event ?running t ?res of (k, p) \<Rightarrow> emitAudit env k p) ?w4
      = (Inr (), ?w4\<lparr>rw_log := l', rw_appends := a'\<rparr>)" (is "_ = (_, ?w5)")
    using emit_event_apply by blast
  have "round env current t w = (Inr ?settled, ?w5)"
    using safe emit1 exec emit2 unfolding round_def
    by (simp add: bind_m_apply seq_m_apply read_now_def save_apply)
  moreover have "orchestration_step env current ?settled"
    by (rule orchestration_step.take_task [OF nxt])
  moreover have "stored_run (re_dir env) (rw_fs ?w5) (run_id current) = Some ?settled"
    using runs.load_save_same [of ?settled "re_dir env" "rw_fs ?w3"] safe by simp
  ultimately show thesis using that by simp
qed

lemma step_pending_less: "orchestration_step env a b \<Longrightarrow> pending_count b < pending_count a"
  by (auto elim!: orchestration_stepE
      simp: settle_def mark_after_running_pending markRunning_pending_less split: sum.splits)

theorem run_loop_refines:
  assumes "safe_id (run_id current)"
    and "stored_run (re_dir env) (rw_fs w) (run_id current) = Some current"
  shows "\<exists>final k w'. run_loop env current n w = (Inr (final, n + k), w')
    \<and> (orchestration_step env ^^ k) current final
    \<and> run_id final = run_id current
    \<and> stored_run (re_dir env) (rw_fs w') (run_id current) = Some final
    \<and> ((\<forall>p. \<not> re_aborted env p) \<longrightarrow> nextRunnableTask final = None)"
  using assms
proof (induction "pending_count current" arbitrary: current n w rule: less_induct)
  case less
  let ?w0 = "w\<lparr>rw_polls := Suc (rw_polls w)\<rparr>"
  show ?case
  proof (cases "re_aborted env (rw_polls w)")
    case True
    obtain l a where "emitAudit env ''orchestrator.run.aborted'' [(''runId'', JStr (run_id current))] ?w0
        = (Inr (), ?w0\<lparr>rw_log := l, rw_appends := a\<rparr>)" using emitAudit_apply by blast
    with True have "run_loop env current n w = (Inr (current, n + 0), ?w0\<lparr>rw_log := l, rw_appends := a\<rparr>)"
      by (simp add: run_loop_unfold [of env current n] bind_m_apply seq_m_apply poll_abort_def)
    with True less.prems show ?thesis by (intro exI [of _ current] exI [of _ 0] exI) auto
  next
    case False
    show ?thesis
    proof (cases "nextRunnableTask current")
      case None
      with False have "run_loop env current n w = (Inr (current, n + 0), ?w0)"
        by (simp add: run_loop_unfold [of env current n] bind_m_apply poll_abort_def)
      with None less.prems show ?thesis by (intro exI [of _ current] exI [of _ 0] exI) auto
    next
      case (Some t)
      obtain settled w1 where r: "round env current t ?w0 = (Inr settled, w1)"
        and st: "orchestration_step env current settled" and id: "run_id settled = run_id current"
        and stored: "stored_run (re_dir env) (rw_fs w1) (run_id current) = Some settled"
        using round_refines [OF less.prems(1) Some] by blast
      from False Some r have eq: "run_loop env current n w = run_loop env settled (n + 1) w1"
        by (simp add: run_loop_unfold [of env current n] bind_m_apply poll_abort_def)
      obtain final k w' where "run_loop env settled (n + 1) w1 = (Inr (final, n + 1 + k), w')"
        and steps: "(orchestration_step env ^^ k) settled final" and "run_id final = run_id settled"
        and "stored_run (re_dir env) (rw_fs w') (run_id settled) = Some final"
        and "(\<forall>p. \<not> re_aborted env p) \<longrightarrow> nextRunnableTask final = None"
        using less.hyps [OF step_pending_less [OF st], of w1 "n + 1"] less.prems(1) id stored by auto
      with eq id relpowp_Suc_I2 [OF st steps] show ?thesis
        by (intro exI [of _ final] exI [of _ "Suc k"] exI [of _ w'])
          (simp del: relpowp.simps)
    qed
  qed
qed

section \<open>What a run can do to its tasks\<close>

definition settles_as :: "run_task_status \<Rightarrow> (run_task \<Rightarrow> run_task) \<Rightarrow> bool" where
  "settles_as st f \<longleftrightarrow> (\<forall>u. t_id (f u) = t_id u \<and> t_dependsOn (f u) = t_dependsOn u
      \<and> rt_status (f u) = st \<and> rt_attempts (f u) = Suc (rt_attempts u))"

lemma step_tasks:
  assumes "orchestration_step env a b"
  obtains t f st n ts where "nextRunnableTask a = Some t"
    and "run_tasks b = map (\<lambda>u. if t_id u = t_id t then f u else u) (run_tasks a)"
    and "settles_as st f"
    and "st = (case task_result env (markTaskRunning a (t_id t) ts) t n of
                 Inl _ \<Rightarrow> TFailed | Inr _ \<Rightarrow> TSucceeded)"
  using assms
proof (cases rule: orchestration_step.cases)
  case (take_task t ts n ts')
  let ?run = "\<lambda>u. u\<lparr>rt_status := TRunning,
      rt_startedAt := Some (nullish (rt_startedAt u) ts), rt_attempts := rt_attempts u + 1\<rparr>"
  let ?res = "task_result env (markTaskRunning a (t_id t) ts) t n"
  let ?f = "\<lambda>u. case ?res of
      Inl e \<Rightarrow> (?run u)\<lparr>rt_status := TFailed, rt_error := Some e, rt_completedAt := Some ts'\<rparr>
    | Inr out \<Rightarrow> (?run u)\<lparr>rt_status := TSucceeded, rt_output := out, rt_completedAt := Some ts'\<rparr>"
  have tasks: "run_tasks b = map (\<lambda>u. if t_id u = t_id t then ?f u else u) (run_tasks a)"
    unfolding take_task(1)
    by (cases ?res) (simp_all add: settle_def mark_defs run_tasks_updateTask)
  have settles: "settles_as (case ?res of Inl _ \<Rightarrow> TFailed | Inr _ \<Rightarrow> TSucceeded) ?f"
    by (cases ?res) (simp_all add: settles_as_def)
  show thesis by (rule that [OF take_task(2) tasks settles refl])
qed

definition distinct_ids :: "run \<Rightarrow> bool" where
  "distinct_ids run \<longleftrightarrow> distinct (map t_id (run_tasks run))"

lemma step_ids:
  assumes "orchestration_step env a b"
  shows "map t_id (run_tasks b) = map t_id (run_tasks a)"
  using assms by (rule step_tasks) (auto simp: settles_as_def)

lemma step_distinct: "orchestration_step env a b \<Longrightarrow> distinct_ids a \<Longrightarrow> distinct_ids b"
  by (simp add: distinct_ids_def step_ids)

lemma same_id_same_task:
  "distinct_ids run \<Longrightarrow> t \<in> set (run_tasks run) \<Longrightarrow> u \<in> set (run_tasks run) \<Longrightarrow> t_id t = t_id u \<Longrightarrow> t = u"
  by (auto simp: distinct_ids_def distinct_map dest: inj_onD)

lemma dep_succeeded_iff:
  "distinct_ids run \<Longrightarrow> dep_succeeded (run_tasks run) d \<longleftrightarrow>
     (\<exists>u \<in> set (run_tasks run). t_id u = d \<and> rt_status u = TSucceeded)"
  by (auto simp: dep_succeeded_def find_Some_iff find_None_iff dest: same_id_same_task nth_mem
      split: option.splits)

text \<open>A task that is not pending is never touched again.\<close>

lemma step_keeps_settled:
  assumes step: "orchestration_step env a b" and "distinct_ids a"
    and u: "u \<in> set (run_tasks a)" "rt_status u \<noteq> TPending"
  shows "u \<in> set (run_tasks b)"
  using step
proof (rule step_tasks)
  fix t f st n ts
  assume nxt: "nextRunnableTask a = Some t"
    and b: "run_tasks b = map (\<lambda>u. if t_id u = t_id t then f u else u) (run_tasks a)"
  have "t_id u \<noteq> t_id t"
    using same_id_same_task [OF assms(2) u(1)] nextRunnable_Some [OF nxt] u(2) by metis
  then show ?thesis using u(1) unfolding b by (simp add: rev_image_eqI)
qed

text \<open>Work starts only on satisfied dependencies, and stays on satisfied dependencies.\<close>

definition started :: "run_task_status \<Rightarrow> bool" where
  "started st \<longleftrightarrow> st = TRunning \<or> st = TSucceeded \<or> st = TFailed"

definition deps_respected :: "run \<Rightarrow> bool" where
  "deps_respected run \<longleftrightarrow> (\<forall>t \<in> set (run_tasks run). started (rt_status t) \<longrightarrow>
     (\<forall>d \<in> set (t_dependsOn t). dep_succeeded (run_tasks run) d))"

lemma step_dep_succeeded:
  assumes "orchestration_step env a b" "distinct_ids a" "dep_succeeded (run_tasks a) d"
  shows "dep_succeeded (run_tasks b) d"
proof -
  obtain u where "u \<in> set (run_tasks a)" "t_id u = d" "rt_status u = TSucceeded"
    using assms(2,3) by (auto simp: dep_succeeded_iff)
  moreover from this have "u \<in> set (run_tasks b)"
    using step_keeps_settled [OF assms(1,2)] by simp
  ultimately show ?thesis using dep_succeeded_iff [OF step_distinct [OF assms(1,2)]] by blast
qed

lemma step_deps_respected:
  assumes step: "orchestration_step env a b" and dist: "distinct_ids a" and inv: "deps_respected a"
  shows "deps_respected b"
  using step
proof (rule step_tasks)
  fix t f st n ts
  assume nxt: "nextRunnableTask a = Some t" and f: "settles_as st f"
    and b: "run_tasks b = map (\<lambda>u. if t_id u = t_id t then f u else u) (run_tasks a)"
  have t: "t \<in> set (run_tasks a)" "\<forall>d \<in> set (t_dependsOn t). dep_succeeded (run_tasks a) d"
    using nextRunnable_Some [OF nxt] by (auto simp: runnable_def list_all_iff)
  have "\<forall>d \<in> set (t_dependsOn v). dep_succeeded (run_tasks a) d"
    if v: "v \<in> set (run_tasks b)" and st_v: "started (rt_status v)" for v
  proof -
    obtain u where u: "u \<in> set (run_tasks a)" "v = (if t_id u = t_id t then f u else u)"
      using v unfolding b set_map by blast
    show ?thesis
    proof (cases "t_id u = t_id t")
      case True
      then have "u = t" using same_id_same_task [OF dist] u(1) t(1) by blast
      then show ?thesis using t(2) u(2) f by (simp add: settles_as_def)
    next
      case False
      then show ?thesis using u st_v inv by (simp add: deps_respected_def)
    qed
  qed
  then show ?thesis using step_dep_succeeded [OF step dist] by (auto simp: deps_respected_def)
qed

section \<open>Runs of steps\<close>

lemma relpowp_invariant:
  assumes "(R ^^ k) a b" "P a" and "\<And>x y. R x y \<Longrightarrow> P x \<Longrightarrow> P y"
  shows "P b"
  using assms(1)
proof (induction k arbitrary: b)
  case 0
  then show ?case using assms(2) by simp
next
  case (Suc k)
  then show ?case using assms(3) by (auto elim: relpowp_Suc_E)
qed

lemma steps_bound: "(orchestration_step env ^^ k) a b \<Longrightarrow> k + pending_count b \<le> pending_count a"
proof (induction k arbitrary: b)
  case (Suc k)
  from Suc.prems obtain c where "(orchestration_step env ^^ k) a c" "orchestration_step env c b"
    by (rule relpowp_Suc_E)
  then show ?case using Suc.IH [of c] step_pending_less [of env c b] by linarith
qed simp

lemma steps_keep_settled:
  assumes "(orchestration_step env ^^ k) a b" "distinct_ids a"
    and "u \<in> set (run_tasks a)" "rt_status u \<noteq> TPending"
  shows "u \<in> set (run_tasks b)"
  using relpowp_invariant [OF assms(1), where P = "\<lambda>r. distinct_ids r \<and> u \<in> set (run_tasks r)"]
    assms(2-4) step_distinct step_keeps_settled by blast

lemma steps_deps_respected:
  assumes "(orchestration_step env ^^ k) a b" "distinct_ids a" "deps_respected a"
  shows "deps_respected b"
  using relpowp_invariant [OF assms(1), where P = "\<lambda>r. distinct_ids r \<and> deps_respected r"]
    assms(2,3) step_distinct step_deps_respected by blast

lemma step_plan: "orchestration_step env a b \<Longrightarrow> plan_of (run_tasks b) = plan_of (run_tasks a)"
  by (auto elim!: orchestration_stepE simp: settle_def split: sum.splits)

lemma steps_plan: "(orchestration_step env ^^ k) a b \<Longrightarrow> plan_of (run_tasks b) = plan_of (run_tasks a)"
  by (erule relpowp_invariant) (simp_all add: step_plan)

section \<open>The whole run\<close>

theorem runOrchestratorRun_refines:
  assumes safe: "safe_id (run_id run)"
  obtains mid final k w' ts ts' where
    "runOrchestratorRun env run w = (Inr (final, k), w')"
    "(orchestration_step env ^^ k) (withTransitionedStatus run ts) mid"
    "final = withTransitionedStatus mid ts'"
    "stored_run (re_dir env) (rw_fs w') (run_id run) = Some final"
    "(\<forall>p. \<not> re_aborted env p) \<longrightarrow> nextRunnableTask final = None"
proof -
  let ?first = "withTransitionedStatus run (re_now env (rw_clock w))"
  let ?w1 = "w\<lparr>rw_clock := Suc (rw_clock w), rw_fs := snd (saveRun (re_dir env) ?first (rw_fs w))\<rparr>"
  obtain l a where emit1: "emitAudit env ''orchestrator.run.started''
      [(''runId'', JStr (run_id run)), (''workflowId'', JStr (run_workflowId run)),
       (''taskCount'', JNum (int (length (run_tasks run))))] ?w1
      = (Inr (), ?w1\<lparr>rw_log := l, rw_appends := a\<rparr>)" (is "_ = (_, ?w2)")
    using emitAudit_apply by blast
  have "stored_run (re_dir env) (rw_fs ?w2) (run_id ?first) = Some ?first"
    using runs.load_save_same [of ?first "re_dir env" "rw_fs w"] safe by simp
  then obtain mid k w3 where loop: "run_loop env ?first 0 ?w2 = (Inr (mid, k), w3)"
    and steps: "(orchestration_step env ^^ k) ?first mid" and id: "run_id mid = run_id run"
    and quiet: "(\<forall>p. \<not> re_aborted env p) \<longrightarrow> nextRunnableTask mid = None"
    using run_loop_refines [of ?first env ?w2 0] safe by auto
  let ?final = "withTransitionedStatus mid (re_now env (rw_clock w3))"
  let ?w4 = "w3\<lparr>rw_clock := Suc (rw_clock w3), rw_fs := snd (saveRun (re_dir env) ?final (rw_fs w3))\<rparr>"
  obtain l' a' where emit2: "emitAudit env (''orchestrator.run.'' @ run_status_name (computeRunStatus ?final))
      [(''runId'', JStr (run_id mid)), (''workflowId'', JStr (run_workflowId mid)),
       (''tasksAttempted'', JNum (int k))] ?w4
      = (Inr (), ?w4\<lparr>rw_log := l', rw_appends := a'\<rparr>)" (is "_ = (_, ?w5)")
    using emitAudit_apply by blast
  have "runOrchestratorRun env run w = (Inr (?final, k), ?w5)"
    using emit1 loop emit2 safe id unfolding runOrchestratorRun_def
    by (simp add: bind_m_apply seq_m_apply read_now_def save_apply)
  moreover have "stored_run (re_dir env) (rw_fs ?w5) (run_id run) = Some ?final"
    using runs.load_save_same [of ?final "re_dir env" "rw_fs w3"] safe id by simp
  ultimately show thesis using steps quiet that by simp
qed

section \<open>Runs whose workers all succeed\<close>

text \<open>A plan in dependency order: every dependency is the id of an earlier task.\<close>

fun topo_from :: "string list \<Rightarrow> (string \<times> string list) list \<Rightarrow> bool" where
  "topo_from seen [] = True"
| "topo_from seen ((i, deps) # ts) = (set deps \<subseteq> set seen \<and> topo_from (i # seen) ts)"

definition edges :: "run_task list \<Rightarrow> (string \<times> string list) list" where
  "edges ts = map (\<lambda>t. (t_id t, t_dependsOn t)) ts"

lemma edges_plan: "edges ts = map (\<lambda>(i, r, inp, deps). (i, deps)) (plan_of ts)"
  by (simp add: edges_def plan_of_def)

lemma topo_from_append:
  "topo_from seen (ts @ us) \<longleftrightarrow> topo_from seen ts \<and> topo_from (rev (map fst ts) @ seen) us"
  by (induction seen ts rule: topo_from.induct) simp_all

text \<open>In dependency order, a run in which nothing failed and nothing is runnable is complete.\<close>

lemma quiet_topo_complete:
  assumes "topo_from seen (edges ts)" "set ts \<subseteq> set (run_tasks run)" "distinct_ids run"
    and "\<forall>d \<in> set seen. dep_succeeded (run_tasks run) d"
    and quiet: "nextRunnableTask run = None"
    and clean: "\<forall>t \<in> set (run_tasks run). rt_status t = TPending \<or> rt_status t = TSucceeded"
  shows "\<forall>t \<in> set ts. rt_status t = TSucceeded"
  using assms(1-4)
proof (induction ts arbitrary: seen)
  case (Cons t ts)
  have t: "t \<in> set (run_tasks run)" using Cons.prems(2) by simp
  have "list_all (dep_succeeded (run_tasks run)) (t_dependsOn t)"
    using Cons.prems(1,4) by (auto simp: edges_def list_all_iff)
  then have done_t: "rt_status t = TSucceeded"
    using quiet clean t by (auto simp: nextRunnable_None_iff runnable_def)
  then have "dep_succeeded (run_tasks run) (t_id t)"
    using dep_succeeded_iff [OF Cons.prems(3)] t by blast
  then have "\<forall>u \<in> set ts. rt_status u = TSucceeded"
    using Cons.prems by (intro Cons.IH [of "t_id t # seen"]) (auto simp: edges_def)
  with done_t show ?case by simp
qed simp

text \<open>A run in which nothing failed and every output so far keeps a contract by role.\<close>

definition settled_well :: "(worker_role \<Rightarrow> json option \<Rightarrow> bool) \<Rightarrow> run \<Rightarrow> bool" where
  "settled_well good run \<longleftrightarrow> distinct_ids run \<and> (\<forall>t \<in> set (run_tasks run).
     rt_status t = TPending \<or> rt_status t = TSucceeded \<and> good (t_role t) (rt_output t))"

text \<open>
  What the workers of a plan owe the runner: a task that is next, while every output so far keeps the
  contract, succeeds with an output that keeps it. \<open>shape\<close> is what is known of the plan, which no
  transition changes.
\<close>

locale sound_tasks =
  fixes env :: runner_env and good :: "worker_role \<Rightarrow> json option \<Rightarrow> bool"
    and shape :: "(string \<times> worker_role \<times> json_object \<times> string list) list \<Rightarrow> bool"
  assumes result: "settled_well good a \<Longrightarrow> shape (plan_of (run_tasks a)) \<Longrightarrow> nextRunnableTask a = Some t \<Longrightarrow>
    \<exists>out. task_result env (markTaskRunning a (t_id t) ts) t n = Inr out \<and> good (t_role t) out"
begin

lemma step_sound:
  assumes step: "orchestration_step env a b" and sound: "settled_well good a" "shape (plan_of (run_tasks a))"
  shows "settled_well good b \<and> shape (plan_of (run_tasks b))"
  using step
proof (cases rule: orchestration_step.cases)
  case (take_task t ts n ts')
  obtain out where out: "task_result env (markTaskRunning a (t_id t) ts) t n = Inr out" "good (t_role t) out"
    using result [OF sound take_task(2)] by blast
  have t: "t \<in> set (run_tasks a)" using nextRunnable_Some [OF take_task(2)] by simp
  have tasks: "run_tasks b = map (\<lambda>u. if t_id u = t_id t then u\<lparr>rt_status := TSucceeded, rt_startedAt := Some (nullish (rt_startedAt u) ts),
      rt_attempts := rt_attempts u + 1, rt_output := out, rt_completedAt := Some ts'\<rparr> else u) (run_tasks a)"
    unfolding take_task(1) using out(1) by (simp add: settle_def mark_defs run_tasks_updateTask)
  have "t_role u = t_role t" if "u \<in> set (run_tasks a)" "t_id u = t_id t" for u
    using same_id_same_task [OF _ that(1) t that(2)] sound(1) by (simp add: settled_well_def)
  then have "\<forall>v \<in> set (run_tasks b). rt_status v = TPending \<or> rt_status v = TSucceeded \<and> good (t_role v) (rt_output v)"
    using sound(1) out(2) unfolding tasks by (auto simp: settled_well_def)
  then show ?thesis using step_distinct [OF step] step_plan [OF step] sound by (simp add: settled_well_def)
qed

end

lemma pending_exact:
  assumes "orchestration_step env a b" "distinct_ids a"
  shows "Suc (pending_count b) = pending_count a"
  using assms(1)
proof (rule step_tasks)
  fix t f st n ts
  assume nxt: "nextRunnableTask a = Some t" and f: "settles_as st f"
    and b: "run_tasks b = map (\<lambda>u. if t_id u = t_id t then f u else u) (run_tasks a)"
    and st: "st = (case task_result env (markTaskRunning a (t_id t) ts) t n of
      Inl _ \<Rightarrow> TFailed | Inr _ \<Rightarrow> TSucceeded)"
  have np: "\<And>u. rt_status (f u) \<noteq> TPending"
    using f st by (auto simp: settles_as_def split: sum.splits)
  have t: "t \<in> set (run_tasks a)" "rt_status t = TPending" using nextRunnable_Some [OF nxt] by auto
  have "Suc (length (filter (\<lambda>u. rt_status u = TPending \<and> t_id u \<noteq> t_id t) us)) =
      length (filter (\<lambda>u. rt_status u = TPending) us)"
    if "t \<in> set us" "distinct (map t_id us)" for us
    using that
  proof (induction us)
    case (Cons u us)
    show ?case
    proof (cases "u = t")
      case True
      then have "filter (\<lambda>u. rt_status u = TPending \<and> t_id u \<noteq> t_id t) us =
          filter (\<lambda>u. rt_status u = TPending) us"
        using Cons.prems by (intro filter_cong) (auto simp: rev_image_eqI)
      with True t(2) show ?thesis by simp
    next
      case False
      with Cons show ?thesis by (auto simp: rev_image_eqI)
    qed
  qed simp
  then show ?thesis
    using t(1) assms(2) unfolding pending_count_def b filter_map_pending_le [OF np]
    by (simp add: distinct_ids_def)
qed

context sound_tasks begin

lemma steps_sound:
  "(orchestration_step env ^^ k) a b \<Longrightarrow> settled_well good a \<Longrightarrow> shape (plan_of (run_tasks a)) \<Longrightarrow>
     settled_well good b \<and> shape (plan_of (run_tasks b)) \<and> k + pending_count b = pending_count a"
proof (induction k arbitrary: b)
  case (Suc k)
  from Suc.prems(1) obtain c where c: "(orchestration_step env ^^ k) a c" "orchestration_step env c b"
    by (rule relpowp_Suc_E)
  from Suc.IH [OF c(1) Suc.prems(2,3)] have "settled_well good c" "shape (plan_of (run_tasks c))" "k + pending_count c = pending_count a"
    by simp_all
  moreover from this have "Suc (pending_count b) = pending_count c"
    by (intro pending_exact [OF c(2)]) (simp add: settled_well_def)
  ultimately show ?case using step_sound [OF c(2)] by simp
qed simp

lemma topo_run_succeeds:
  assumes safe: "safe_id (run_id run)" and sound: "settled_well good run" "shape (plan_of (run_tasks run))"
    and topo: "topo_from [] (edges (run_tasks run))" and quiet: "\<forall>p. \<not> re_aborted env p"
  shows "\<exists>final w'. runOrchestratorRun env run w = (Inr (final, pending_count run), w')
     \<and> run_status final = RunSucceeded \<and> plan_of (run_tasks final) = plan_of (run_tasks run)
     \<and> (\<forall>t \<in> set (run_tasks final). rt_status t = TSucceeded \<and> good (t_role t) (rt_output t))
     \<and> stored_run (re_dir env) (rw_fs w') (run_id run) = Some final"
proof -
  obtain mid final k w' ts ts' where
    eq: "runOrchestratorRun env run w = (Inr (final, k), w')"
    and steps: "(orchestration_step env ^^ k) (withTransitionedStatus run ts) mid"
    and final: "final = withTransitionedStatus mid ts'"
    and stored: "stored_run (re_dir env) (rw_fs w') (run_id run) = Some final"
    and idle: "(\<forall>p. \<not> re_aborted env p) \<longrightarrow> nextRunnableTask final = None"
    by (rule runOrchestratorRun_refines [OF safe, of env w])
  have none: "nextRunnableTask mid = None" using idle quiet final by simp
  have start: "settled_well good (withTransitionedStatus run ts)" "shape (plan_of (run_tasks (withTransitionedStatus run ts)))"
    "pending_count (withTransitionedStatus run ts) = pending_count run"
    using sound by (simp_all add: settled_well_def distinct_ids_def pending_count_def)
  have mid: "settled_well good mid" "k + pending_count mid = pending_count run"
    using steps_sound [OF steps start(1,2)] start(3) by simp_all
  have plan: "plan_of (run_tasks mid) = plan_of (run_tasks run)" using steps_plan [OF steps] by simp
  then have "topo_from [] (edges (run_tasks mid))" using topo by (simp add: edges_plan)
  then have all: "\<forall>t \<in> set (run_tasks mid). rt_status t = TSucceeded"
    by (rule quiet_topo_complete) (use mid(1) none in \<open>auto simp: settled_well_def\<close>)
  then have "pending_count mid = 0" by (simp add: pending_count_def)
  with mid(2) have "k = pending_count run" by simp
  moreover have "computeRunStatus mid = RunSucceeded" using all by (simp add: status_succeeded_iff)
  moreover have "\<forall>t \<in> set (run_tasks mid). good (t_role t) (rt_output t)" using all mid(1) by (auto simp: settled_well_def)
  ultimately show ?thesis using eq stored all plan by (simp add: final)
qed

end

section \<open>The audit trail of a run\<close>

definition log_verified :: "runner_env \<Rightarrow> runner_world \<Rightarrow> bool" where
  "log_verified env w \<longleftrightarrow> (\<exists>n. verifyAuditLog (re_sha env) (rw_log w) = VerifyOk n)"

lemma emitAudit_verified [preserves_intros]: "preserves (log_verified env) (emitAudit env k p)"
  by (rule preservesI)
    (auto simp: emitAudit_def log_verified_def Let_def dest: verify_append_step)

lemma world_ops_verified [preserves_intros]:
  "preserves (log_verified env) (read_now env)"
  "preserves (log_verified env) (save env r)"
  "preserves (log_verified env) (poll_abort env)"
  "preserves (log_verified env) (call_worker wk inp)"
  by (rule preservesI;
      simp add: read_now_def save_def poll_abort_def call_worker_def log_verified_def split: prod.splits)+

lemma preserves_case_outcome [preserves_intros]:
  "(\<And>e. x = WorkerThrew e \<Longrightarrow> preserves P (m e)) \<Longrightarrow>
   (\<And>out. x = WorkerReturned out \<Longrightarrow> preserves P (k out)) \<Longrightarrow>
     preserves P (case x of WorkerThrew e \<Rightarrow> m e | WorkerReturned out \<Rightarrow> k out)"
  by (cases x) simp_all

lemma execute_task_verified [preserves_intros]: "preserves (log_verified env) (execute_task env r t)"
  unfolding execute_task_def by (intro preserves_intros)

lemma run_loop_verified [preserves_intros]: "preserves (log_verified env) (run_loop env r n)"
proof (induction env r n rule: run_loop.induct)
  case (1 env r n)
  show ?case by (subst run_loop.simps) (intro preserves_intros "1.IH")
qed

lemma runOrchestratorRun_verified: "preserves (log_verified env) (runOrchestratorRun env r)"
  unfolding runOrchestratorRun_def by (intro preserves_intros)

section \<open>A sample environment\<close>

text \<open>Workers that echo their task id; used to show that the hypotheses below can hold.\<close>

definition echo_worker :: worker where
  "echo_worker n input =
     WorkerReturned \<lparr>wo_ok = True, wo_result = Some (JStr (t_id (wi_task input))), wo_error = None, wo_costUsd = None\<rparr>"

definition sample_env :: runner_env where
  "sample_env = \<lparr>re_dir = [''state''], re_auditLogPath = Some ''audit.log'', re_aborted = (\<lambda>_. False),
     re_now = (\<lambda>n. ''t'' @ show_nat n), re_sha = (\<lambda>s. show_nat (length s)),
     re_auditTs = (\<lambda>n. ''t'' @ show_nat n), re_auditFails = (\<lambda>_. False), re_origin = None,
     re_workers = (\<lambda>_. Some echo_worker)\<rparr>"

definition sample_world :: runner_world where
  "sample_world = \<lparr>rw_fs = empty_fs, rw_log = [], rw_clock = 0, rw_appends = 0, rw_polls = 0, rw_calls = 0\<rparr>"

lemma sample_env_quiet: "\<not> re_aborted sample_env p"
  by (simp add: sample_env_def)

definition sample_task :: "string \<Rightarrow> string list \<Rightarrow> run_task_status \<Rightarrow> run_task" where
  "sample_task i deps st = \<lparr>t_id = i, t_role = Researcher, t_summary = [], t_input = [], t_dependsOn = deps,
     rt_status = st, rt_startedAt = None, rt_completedAt = None, rt_output = None, rt_error = None,
     rt_attempts = 0\<rparr>"

definition sample_run :: "run_task list \<Rightarrow> run" where
  "sample_run ts = \<lparr>run_id = ''run-1'', run_workflowId = ''wf'', run_createdAt = ''t'', run_startedAt = None,
     run_completedAt = None, run_status = RunPending, run_tasks = ts, run_metadata = None\<rparr>"

lemma sample_run_safe: "safe_id (run_id (sample_run ts))"
  by (simp add: sample_run_def) code_simp

section \<open>Properties\<close>

lemma safe_result:
  assumes "safe_id (run_id run)" "runOrchestratorRun env run w = (Inr (final, k), w')"
  obtains mid ts ts' where "(orchestration_step env ^^ k) (withTransitionedStatus run ts) mid"
    and "final = withTransitionedStatus mid ts'"
  using assms(2) by (rule_tac runOrchestratorRun_refines [OF assms(1), of env w]) auto

lemma distinct_ids_transitioned [simp]: "distinct_ids (withTransitionedStatus run ts) = distinct_ids run"
  by (simp add: distinct_ids_def)

lemma deps_respected_transitioned [simp]:
  "deps_respected (withTransitionedStatus run ts) = deps_respected run"
  by (simp add: deps_respected_def)

text \<open>C1. The runner always returns: whatever the workers answer or throw, a run with a usable
  id comes back after at most as many attempts as it had pending tasks, the returned run is
  the one on disk, its status is the derived one, and unless the run was aborted nothing
  runnable is left.\<close>

theorem run_returns:
  assumes "safe_id (run_id run)"
  shows "\<exists>final k w'. runOrchestratorRun env run w = (Inr (final, k), w')
    \<and> k \<le> pending_count run
    \<and> run_status final = computeRunStatus final
    \<and> stored_run (re_dir env) (rw_fs w') (run_id run) = Some final
    \<and> ((\<forall>p. \<not> re_aborted env p) \<longrightarrow> nextRunnableTask final = None)"
proof -
  obtain mid final k w' ts ts' where r: "runOrchestratorRun env run w = (Inr (final, k), w')"
    "(orchestration_step env ^^ k) (withTransitionedStatus run ts) mid"
    "final = withTransitionedStatus mid ts'"
    "stored_run (re_dir env) (rw_fs w') (run_id run) = Some final"
    "(\<forall>p. \<not> re_aborted env p) \<longrightarrow> nextRunnableTask final = None"
    by (rule runOrchestratorRun_refines [OF assms, of env w])
  have "k \<le> pending_count run"
    using steps_bound [OF r(2)] by (simp add: pending_count_def)
  moreover have "run_status final = computeRunStatus final" by (simp add: r(3))
  ultimately show ?thesis using r(1,4,5) by blast
qed

theorem run_returns_witness:
  "\<exists>final k w'. runOrchestratorRun sample_env (sample_run [sample_task ''a'' [] TPending]) sample_world
      = (Inr (final, k), w') \<and> k \<le> 1 \<and> nextRunnableTask final = None"
  using run_returns [OF sample_run_safe, of sample_env "[sample_task ''a'' [] TPending]" sample_world]
  by (auto simp: sample_env_quiet pending_count_def sample_run_def sample_task_def)

text \<open>C27. Dependencies are respected: in the run that comes back, every task that was started
  (running, succeeded or failed) has all its dependencies succeeded, provided task ids are
  unique and this held at the start, as it does for a freshly created run.\<close>

theorem run_respects_dependencies:
  assumes "safe_id (run_id run)" "distinct_ids run" "deps_respected run"
    and "runOrchestratorRun env run w = (Inr (final, k), w')"
  shows "deps_respected final"
proof -
  obtain mid ts ts' where "(orchestration_step env ^^ k) (withTransitionedStatus run ts) mid"
    and final: "final = withTransitionedStatus mid ts'"
    using assms(1,4) by (rule safe_result)
  then have "deps_respected mid" using steps_deps_respected assms(2,3) by fastforce
  then show ?thesis by (simp add: final)
qed

theorem run_respects_dependencies_witness:
  "\<exists>final k w'. runOrchestratorRun sample_env
      (sample_run [sample_task ''b'' [''a''] TPending, sample_task ''a'' [] TPending]) sample_world
      = (Inr (final, k), w') \<and> deps_respected final"
proof -
  let ?r = "sample_run [sample_task ''b'' [''a''] TPending, sample_task ''a'' [] TPending]"
  obtain mid final k w' ts ts' where eq: "runOrchestratorRun sample_env ?r sample_world = (Inr (final, k), w')"
    by (rule runOrchestratorRun_refines [OF sample_run_safe])
  have "distinct_ids ?r" "deps_respected ?r"
    by (simp_all add: distinct_ids_def deps_respected_def started_def sample_run_def sample_task_def)
  from run_respects_dependencies [OF sample_run_safe this eq] eq show ?thesis by blast
qed

text \<open>No work is repeated, and none is recovered: a task that was not pending when the
  runner started (also one a crash left as running) is in the result exactly as it was. In
  particular a run loaded with a task still marked running stays running for ever.\<close>

lemma settled_tasks_untouched:
  assumes "safe_id (run_id run)" "distinct_ids run"
    and "runOrchestratorRun env run w = (Inr (final, k), w')"
    and "u \<in> set (run_tasks run)" "rt_status u \<noteq> TPending"
  shows "u \<in> set (run_tasks final) \<and> (rt_status u = TRunning \<longrightarrow> run_status final = RunRunning)"
proof -
  obtain mid ts ts' where steps: "(orchestration_step env ^^ k) (withTransitionedStatus run ts) mid"
    and final: "final = withTransitionedStatus mid ts'"
    using assms(1,3) by (rule safe_result)
  have u: "u \<in> set (run_tasks mid)"
    by (rule steps_keep_settled [OF steps]) (simp_all add: assms)
  have "computeRunStatus mid = RunRunning" if "rt_status u = TRunning"
    using that u by (auto simp: computeRunStatus_def Let_def list_ex_iff)
  with u show ?thesis by (simp add: final)
qed

lemma settled_tasks_untouched_witness:
  "\<exists>final k w'. runOrchestratorRun sample_env
      (sample_run [sample_task ''a'' [] TRunning, sample_task ''b'' [''a''] TPending]) sample_world
      = (Inr (final, k), w')
    \<and> sample_task ''a'' [] TRunning \<in> set (run_tasks final) \<and> run_status final = RunRunning"
proof -
  let ?r = "sample_run [sample_task ''a'' [] TRunning, sample_task ''b'' [''a''] TPending]"
  obtain mid final k w' ts ts' where eq: "runOrchestratorRun sample_env ?r sample_world = (Inr (final, k), w')"
    by (rule runOrchestratorRun_refines [OF sample_run_safe])
  have "distinct_ids ?r" "sample_task ''a'' [] TRunning \<in> set (run_tasks ?r)"
    "rt_status (sample_task ''a'' [] TRunning) = TRunning"
    by (simp_all add: distinct_ids_def sample_run_def sample_task_def)
  with settled_tasks_untouched [OF sample_run_safe _ eq, of "sample_task ''a'' [] TRunning"] eq
  show ?thesis by simp
qed

text \<open>The audit trail stays intact: a log that verifies before a run verifies after it, also
  when some appends fail, workers throw, or the run itself is refused.\<close>

lemma run_keeps_log_verified:
  assumes "verifyAuditLog (re_sha env) (rw_log w) = VerifyOk n"
  shows "\<exists>m. verifyAuditLog (re_sha env) (rw_log (snd (runOrchestratorRun env run w))) = VerifyOk m"
  using preservesD [OF runOrchestratorRun_verified, of env w run] assms by (auto simp: log_verified_def)

lemma run_keeps_log_verified_witness:
  "\<exists>m. verifyAuditLog (re_sha sample_env)
     (rw_log (snd (runOrchestratorRun sample_env (sample_run []) sample_world))) = VerifyOk m"
  by (rule run_keeps_log_verified [of sample_env sample_world 0])
    (simp add: verifyAuditLog_def sample_world_def)

end
