(* ===== verification/Daily_Research.thy ===== *)
theory Daily_Research
  imports Runner
begin

text \<open>
  The plan of the daily-research newsletter, \<^verbatim>\<open>src/orchestrator/workflows/daily-research.ts\<close>:
  one researcher and one writer per topic, an editor over all writers, a publisher. The plan
  has distinct ids and lists its tasks in dependency order, so the runner completes it
  whenever the four workers do their jobs.
\<close>

record daily_config =
  dc_runId :: string
  dc_topics :: "string list"
  dc_outputPath :: string
  dc_title :: "string option"
  dc_wordTarget :: "nat option"

definition research_id :: "nat \<Rightarrow> string" where
  "research_id i = ''research:'' @ show_nat i"

definition write_id :: "nat \<Rightarrow> string" where
  "write_id i = ''write:'' @ show_nat i"

definition research_task :: "string \<Rightarrow> nat \<Rightarrow> task_def" where
  "research_task topic i =
     \<lparr>t_id = research_id i, t_role = Researcher, t_summary = ''Research \"'' @ topic @ ''\"'',
      t_input = [(''topic'', JStr topic)], t_dependsOn = []\<rparr>"

definition write_task :: "nat option \<Rightarrow> string \<Rightarrow> nat \<Rightarrow> task_def" where
  "write_task wordTarget topic i =
     \<lparr>t_id = write_id i, t_role = Writer, t_summary = ''Write summary for \"'' @ topic @ ''\"'',
      t_input = (''topic'', JStr topic) #
        (case wordTarget of None \<Rightarrow> [] | Some n \<Rightarrow> if n = 0 then [] else [(''wordTarget'', JNum (int n))]),
      t_dependsOn = [research_id i]\<rparr>"

definition planDailyResearchWorkflow :: "daily_config \<Rightarrow> string + workflow" where
  "planDailyResearchWorkflow config =
     (if dc_topics config = []
      then Inl ''planDailyResearchWorkflow: at least one topic is required''
      else
        let topics = dc_topics config;
            indices = [0..<length topics];
            title = nullish (dc_title config) ''Daily Brief'';
            tasks = map2 research_task topics indices
              @ map2 (write_task (dc_wordTarget config)) topics indices
              @ [\<lparr>t_id = ''edit'', t_role = Editor, t_summary = ''Combine + polish all summaries'',
                  t_input = [(''title'', JStr title)], t_dependsOn = map write_id indices\<rparr>,
                 \<lparr>t_id = ''publish'', t_role = Publisher,
                  t_summary = ''Write to '' @ dc_outputPath config,
                  t_input = [(''outputPath'', JStr (dc_outputPath config))], t_dependsOn = [''edit'']\<rparr>]
        in Inr \<lparr>wf_id = ''daily-research'', wf_name = ''Daily Research Newsletter'', wf_tasks = tasks,
             wf_metadata = Some [(''runId'', JStr (dc_runId config)),
               (''topics'', JArr (map JStr topics)), (''outputPath'', JStr (dc_outputPath config)),
               (''title'', JStr title),
               (''wordTarget'', JNum (int (nullish (dc_wordTarget config) 120)))]\<rparr>)"

lemma research_id_inject [simp]: "research_id i = research_id j \<longleftrightarrow> i = j"
  by (simp add: research_id_def show_nat_inject)

lemma write_id_inject [simp]: "write_id i = write_id j \<longleftrightarrow> i = j"
  by (simp add: write_id_def show_nat_inject)

lemma plan_ids_differ [simp]:
  "research_id i \<noteq> write_id j" "write_id j \<noteq> research_id i"
  "research_id i \<noteq> ''edit''" "research_id i \<noteq> ''publish''"
  "write_id i \<noteq> ''edit''" "write_id i \<noteq> ''publish''"
  by (simp_all add: research_id_def write_id_def)

lemma plan_task_fields [simp]:
  "t_id (research_task tp i) = research_id i" "t_dependsOn (research_task tp i) = []"
  "t_role (research_task tp i) = Researcher"
  "t_id (write_task wt tp i) = write_id i" "t_dependsOn (write_task wt tp i) = [research_id i]"
  "t_role (write_task wt tp i) = Writer"
  by (simp_all add: research_task_def write_task_def)

lemma taskRecord_fields [simp]:
  "t_id (taskRecordFromDefinition t) = t_id t" "t_role (taskRecordFromDefinition t) = t_role t"
  "t_dependsOn (taskRecordFromDefinition t) = t_dependsOn t"
  "rt_status (taskRecordFromDefinition t) = TPending"
  by (simp_all add: taskRecordFromDefinition_def)

definition plan_edges :: "nat \<Rightarrow> (string \<times> string list) list" where
  "plan_edges n = map (\<lambda>i. (research_id i, [])) [0..<n] @ map (\<lambda>i. (write_id i, [research_id i])) [0..<n]
     @ [(''edit'', map write_id [0..<n]), (''publish'', [''edit''])]"

lemma map2_index:
  "length xs = n \<Longrightarrow> (\<And>x i. g (f x i) = h i) \<Longrightarrow> map g (map2 f xs [0..<n]) = map h [0..<n]"
  by (rule nth_equalityI) simp_all

lemma plan_shape:
  assumes "planDailyResearchWorkflow config = Inr flow"
  shows "map (\<lambda>t. (t_id t, t_dependsOn t)) (wf_tasks flow) = plan_edges (length (dc_topics config))"
    and "\<forall>t \<in> set (wf_tasks flow). t_role t \<in> {Researcher, Writer, Editor, Publisher}"
    and "length (wf_tasks flow) = 2 * length (dc_topics config) + 2"
proof -
  let ?n = "length (dc_topics config)"
  have "map (\<lambda>t. (t_id t, t_dependsOn t)) (map2 research_task (dc_topics config) [0..<?n]) =
      map (\<lambda>i. (research_id i, [])) [0..<?n]"
    by (rule map2_index) simp_all
  moreover have "map (\<lambda>t. (t_id t, t_dependsOn t))
        (map2 (write_task (dc_wordTarget config)) (dc_topics config) [0..<?n]) =
      map (\<lambda>i. (write_id i, [research_id i])) [0..<?n]"
    by (rule map2_index) simp_all
  ultimately show "map (\<lambda>t. (t_id t, t_dependsOn t)) (wf_tasks flow) = plan_edges ?n"
    using assms by (auto simp: planDailyResearchWorkflow_def plan_edges_def Let_def split: if_splits)
  show "\<forall>t \<in> set (wf_tasks flow). t_role t \<in> {Researcher, Writer, Editor, Publisher}"
    "length (wf_tasks flow) = 2 * ?n + 2"
    using assms by (auto simp: planDailyResearchWorkflow_def Let_def split: if_splits)
qed

lemma topo_no_deps: "topo_from seen (map (\<lambda>i. (f i, [])) is)"
  by (induction "is" arbitrary: seen) simp_all

lemma topo_seen_deps: "\<forall>i \<in> set is. g i \<in> set seen \<Longrightarrow> topo_from seen (map (\<lambda>i. (f i, [g i])) is)"
  by (induction "is" arbitrary: seen) auto

lemma plan_edges_topo: "topo_from [] (plan_edges n)"
  by (auto simp: plan_edges_def topo_from_append topo_no_deps intro!: topo_seen_deps)

lemma plan_edges_distinct: "distinct (map fst (plan_edges n))"
  by (auto simp: plan_edges_def comp_def distinct_map inj_on_def plan_ids_differ(3-6) [symmetric])

definition sample_config :: daily_config where
  "sample_config = \<lparr>dc_runId = ''run-1'', dc_topics = [''Bun'', ''Rust''], dc_outputPath = ''/tmp/brief.md'',
     dc_title = None, dc_wordTarget = Some 200\<rparr>"

end
