(* ===== verification/Task_State.thy ===== *)
theory Task_State
  imports Run_State
begin

text \<open>
  The projects domain model (\<^verbatim>\<open>src/projects/types.ts\<close>) and the pure task life cycle
  (\<^verbatim>\<open>src/projects/task-state.ts\<close>): creating a record from a draft, eligibility for the
  auto-pickup loop, the choice of the next task of a role, and the transitions. The
  documented status graph is a relation on statuses, and the life cycle of a task under the
  module's callers is an inductive step relation; the proofs relate the two.

  Optional fields are \<open>option\<close>s, clock readings are arguments, and a USD cost is the
  rational value of the number (stored costs are finite).
\<close>

section \<open>Types\<close>

datatype project_status = Active | Paused | Archived | Achieved | NeedsInput

datatype task_status = Backlog | Queued | InProgress | Review | Done | Blocked | Failed

datatype priority = Low | Normal | High | Urgent

record channel_ref =
  ch_channel :: string
  ch_accountId :: "string option"
  ch_threadId :: "string option"
  ch_authorDisplayName :: "string option"

datatype task_origin = OperatorOrigin | PlannerOrigin string | ChannelOrigin channel_ref

record task_draft =
  d_title :: string
  d_description :: string
  d_role :: worker_role
  d_dependsOn :: "string list"
  d_input :: json_object
  d_priority :: "priority option"
  d_requiresApproval :: "bool option"
  d_expertId :: "string option"

record task =
  tk_id :: string
  tk_projectId :: string
  tk_title :: string
  tk_description :: string
  tk_role :: worker_role
  tk_dependsOn :: "string list"
  tk_input :: json_object
  tk_origin :: task_origin
  tk_priority :: priority
  tk_createdAt :: string
  tk_expertId :: "string option"
  tk_status :: task_status
  tk_claimedBy :: "string option"
  tk_claimedAt :: "string option"
  tk_startedAt :: "string option"
  tk_completedAt :: "string option"
  tk_attempts :: nat
  tk_output :: "json option"
  tk_error :: "string option"
  tk_costUsd :: "rat option"
  tk_requiresApproval :: "bool option"

record channel_binding =
  cb_channel :: string
  cb_accountId :: "string option"
  cb_defaultThreadId :: "string option"

datatype goal_status = GoalInProgress | GoalAchieved | GoalBlocked

record goal_evaluation =
  ge_status :: goal_status
  ge_reason :: string
  ge_confidence :: rat
  ge_evaluatedAt :: string
  ge_iteration :: nat
  ge_model :: "string option"

record project =
  pr_id :: string
  pr_name :: string
  pr_goal :: string
  pr_owner :: string
  pr_createdAt :: string
  pr_status :: project_status
  pr_channels :: "channel_binding list"
  pr_assignedExperts :: "string list option"
  pr_goalEvaluation :: "goal_evaluation option"
  pr_iterationCount :: "nat option"
  pr_maxIterations :: "nat option"
  pr_metadata :: "json_object option"

section \<open>Operations\<close>

definition DEFAULT_PRIORITY :: priority where
  "DEFAULT_PRIORITY = Normal"

definition createTaskRecord ::
  "string \<Rightarrow> string \<Rightarrow> task_draft \<Rightarrow> task_origin \<Rightarrow> string \<Rightarrow> task" where
  "createTaskRecord taskId projectId draft origin ts =
     (let requiresApproval = (d_requiresApproval draft = Some True)
      in \<lparr>tk_id = taskId, tk_projectId = projectId, tk_title = d_title draft,
          tk_description = d_description draft, tk_role = d_role draft,
          tk_dependsOn = d_dependsOn draft, tk_input = d_input draft, tk_origin = origin,
          tk_priority = nullish (d_priority draft) DEFAULT_PRIORITY, tk_createdAt = ts,
          tk_expertId = (if truthy (d_expertId draft) then d_expertId draft else None),
          tk_status = (if requiresApproval then Backlog else Queued),
          tk_claimedBy = None, tk_claimedAt = None, tk_startedAt = None, tk_completedAt = None,
          tk_attempts = 0, tk_output = None, tk_error = None, tk_costUsd = None,
          tk_requiresApproval = (if requiresApproval then Some True else None)\<rparr>)"

definition dep_done :: "task list \<Rightarrow> string \<Rightarrow> bool" where
  "dep_done allTasks depId \<longleftrightarrow>
     (case find (\<lambda>t. tk_id t = depId) allTasks of None \<Rightarrow> False | Some t \<Rightarrow> tk_status t = Done)"

definition isTaskEligibleForPickup :: "task \<Rightarrow> task list \<Rightarrow> bool" where
  "isTaskEligibleForPickup task allTasks \<longleftrightarrow>
     (if tk_status task \<noteq> Queued then False
      else if truthy (tk_claimedBy task) then False
      else list_all (dep_done allTasks) (tk_dependsOn task))"

definition PRIORITY_ORDER :: "priority \<Rightarrow> nat" where
  "PRIORITY_ORDER p = (case p of Low \<Rightarrow> 0 | Normal \<Rightarrow> 1 | High \<Rightarrow> 2 | Urgent \<Rightarrow> 3)"

text \<open>
  The comparator of \<open>findEligibleTask\<close> answers \<open>1\<close> on a tie, so it is not consistent;
  the engine's sort only asks whether the answer is negative, and on that question the
  comparator is the strict order \<open>pickup_before\<close>.
\<close>

definition pickup_compare :: "task \<Rightarrow> task \<Rightarrow> int" where
  "pickup_compare a b =
     (let pa = int (PRIORITY_ORDER (tk_priority a)); pb = int (PRIORITY_ORDER (tk_priority b))
      in if pa \<noteq> pb then pb - pa else if tk_createdAt a < tk_createdAt b then -1 else 1)"

definition pickup_before :: "task \<Rightarrow> task \<Rightarrow> bool" where
  "pickup_before a b \<longleftrightarrow> pickup_compare a b < 0"

definition findEligibleTask :: "task list \<Rightarrow> worker_role \<Rightarrow> task option" where
  "findEligibleTask tasks role =
     (case to_sorted pickup_before
         (filter (\<lambda>t. tk_role t = role \<and> isTaskEligibleForPickup t tasks) tasks) of
        [] \<Rightarrow> None | t # _ \<Rightarrow> Some t)"

definition resetClaim :: "task \<Rightarrow> task" where
  "resetClaim t = t\<lparr>tk_claimedBy := None, tk_claimedAt := None\<rparr>"

definition markTaskQueued :: "task \<Rightarrow> task" where
  "markTaskQueued t = (if tk_status t = Queued then t else resetClaim (t\<lparr>tk_status := Queued\<rparr>))"

definition markTaskClaimed :: "task \<Rightarrow> string \<Rightarrow> string \<Rightarrow> task" where
  "markTaskClaimed t claimedBy ts =
     t\<lparr>tk_status := InProgress, tk_claimedBy := Some claimedBy, tk_claimedAt := Some ts,
       tk_startedAt := Some (nullish (tk_startedAt t) ts), tk_attempts := tk_attempts t + 1\<rparr>"

definition markTaskInReview :: "task \<Rightarrow> json option \<Rightarrow> string \<Rightarrow> task" where
  "markTaskInReview t output ts =
     t\<lparr>tk_status := Review, tk_output := output, tk_completedAt := Some ts\<rparr>"

definition markTaskDone :: "task \<Rightarrow> json option \<Rightarrow> string \<Rightarrow> task" where
  "markTaskDone t output ts =
     t\<lparr>tk_status := Done, tk_output := output, tk_completedAt := Some ts\<rparr>"

definition markTaskFailed_t :: "task \<Rightarrow> string \<Rightarrow> string \<Rightarrow> task" where
  "markTaskFailed_t t error ts =
     t\<lparr>tk_status := Failed, tk_error := Some error, tk_completedAt := Some ts\<rparr>"

definition markTaskBlocked :: "task \<Rightarrow> string \<Rightarrow> task" where
  "markTaskBlocked t reason = t\<lparr>tk_status := Blocked, tk_error := Some reason\<rparr>"

definition approveTaskForQueue :: "task \<Rightarrow> task" where
  "approveTaskForQueue t =
     (if tk_status t \<noteq> Backlog then t
      else let next = markTaskQueued t
           in if tk_requiresApproval next = Some True then next\<lparr>tk_requiresApproval := None\<rparr> else next)"

definition resetTaskForRetry_t :: "task \<Rightarrow> task" where
  "resetTaskForRetry_t t =
     resetClaim (t\<lparr>tk_status := Queued, tk_startedAt := None, tk_completedAt := None, tk_error := None\<rparr>)"

definition terminal_status :: "task_status \<Rightarrow> bool" where
  "terminal_status s \<longleftrightarrow> s = Done \<or> s = Failed \<or> s = Blocked"

definition isProjectIdle :: "project \<Rightarrow> task list \<Rightarrow> bool" where
  "isProjectIdle project tasks \<longleftrightarrow>
     (if pr_status project \<noteq> Active then True
      else list_all (\<lambda>t. terminal_status (tk_status t)) tasks)"

section \<open>The choice of the next task\<close>

lemma pickup_before_iff:
  "pickup_before a b \<longleftrightarrow>
     PRIORITY_ORDER (tk_priority b) < PRIORITY_ORDER (tk_priority a)
     \<or> (PRIORITY_ORDER (tk_priority a) = PRIORITY_ORDER (tk_priority b) \<and> tk_createdAt a < tk_createdAt b)"
  by (auto simp: pickup_before_def pickup_compare_def Let_def)

interpretation pickup: strict_weak_order pickup_before
  by unfold_locales (auto simp: pickup_before_iff)

lemma eligible_iff:
  "isTaskEligibleForPickup t tasks \<longleftrightarrow>
     tk_status t = Queued \<and> \<not> truthy (tk_claimedBy t) \<and> list_all (dep_done tasks) (tk_dependsOn t)"
  by (simp add: isTaskEligibleForPickup_def)

lemma findEligibleTask_None_iff:
  "findEligibleTask tasks role = None \<longleftrightarrow>
     list_all (\<lambda>t. \<not> (tk_role t = role \<and> isTaskEligibleForPickup t tasks)) tasks"
  by (auto simp: findEligibleTask_def filter_empty_conv list_all_iff split: list.split dest: to_sorted_Cons_nonempty)

lemma findEligibleTask_Some:
  assumes "findEligibleTask tasks role = Some t"
  shows "t \<in> set tasks" "tk_role t = role" "isTaskEligibleForPickup t tasks"
proof -
  let ?c = "filter (\<lambda>t. tk_role t = role \<and> isTaskEligibleForPickup t tasks) tasks"
  from assms obtain ts where "to_sorted pickup_before ?c = t # ts"
    by (auto simp: findEligibleTask_def split: list.splits)
  then have "t \<in> set ?c" by (metis list.set_intros(1) set_to_sorted)
  then show "t \<in> set tasks" "tk_role t = role" "isTaskEligibleForPickup t tasks" by simp_all
qed

lemma dep_done_unknown: "dep \<notin> tk_id ` set tasks \<Longrightarrow> \<not> dep_done tasks dep"
  by (auto simp: dep_done_def find_Some_iff rev_image_eqI split: option.splits)

section \<open>Life cycle\<close>

text \<open>
  The transitions the module's callers make: the pickup loop claims an eligible task and
  settles the task it claimed; the operator's HTTP handlers approve a task that is in the
  backlog, and retry or block a task in any status.
\<close>

datatype task_event =
    EvClaim string string
  | EvDone "json option" string
  | EvReview "json option" string
  | EvFail string string
  | EvApprove
  | EvRetry
  | EvBlock string

inductive task_step :: "task \<Rightarrow> task_event \<Rightarrow> task \<Rightarrow> bool" where
  step_claim: "isTaskEligibleForPickup t tasks \<Longrightarrow> task_step t (EvClaim by ts) (markTaskClaimed t by ts)"
| step_done: "tk_status t = InProgress \<Longrightarrow> task_step t (EvDone out ts) (markTaskDone t out ts)"
| step_review: "tk_status t = InProgress \<Longrightarrow> task_step t (EvReview out ts) (markTaskInReview t out ts)"
| step_fail: "tk_status t = InProgress \<Longrightarrow> task_step t (EvFail e ts) (markTaskFailed_t t e ts)"
| step_approve: "tk_status t = Backlog \<Longrightarrow> task_step t EvApprove (approveTaskForQueue t)"
| step_retry: "task_step t EvRetry (resetTaskForRetry_t t)"
| step_block: "task_step t (EvBlock reason) (markTaskBlocked t reason)"

inductive task_steps :: "task \<Rightarrow> task_event list \<Rightarrow> task \<Rightarrow> bool" where
  steps_refl: "task_steps t [] t"
| steps_snoc: "task_steps t evs u \<Longrightarrow> task_step u ev v \<Longrightarrow> task_steps t (evs @ [ev]) v"

inductive_cases task_step_E: "task_step t ev u"

text \<open>The documented status graph; retry and block start from every status.\<close>

definition status_edge :: "task_status \<Rightarrow> task_status \<Rightarrow> bool" where
  "status_edge s s' \<longleftrightarrow>
     (s, s') \<in> set [(Backlog, Queued), (Queued, InProgress), (InProgress, Review), (InProgress, Done),
       (InProgress, Failed), (Review, Done)]
     \<or> s' = Queued \<or> s' = Blocked"

text \<open>What the fields say in each status.\<close>

definition consistent_task :: "task \<Rightarrow> bool" where
  "consistent_task t \<longleftrightarrow>
     (tk_status t \<in> set [Backlog, Queued] \<longrightarrow> tk_claimedBy t = None \<and> tk_claimedAt t = None)
     \<and> (tk_status t = InProgress \<longrightarrow>
          tk_claimedBy t \<noteq> None \<and> tk_claimedAt t \<noteq> None \<and> tk_startedAt t \<noteq> None \<and> 0 < tk_attempts t)
     \<and> (tk_status t \<in> set [Review, Done, Failed] \<longrightarrow> tk_completedAt t \<noteq> None)
     \<and> (tk_status t \<in> set [Failed, Blocked] \<longrightarrow> tk_error t \<noteq> None)"

lemmas transition_defs = markTaskQueued_def markTaskClaimed_def markTaskInReview_def markTaskDone_def
  markTaskFailed_t_def markTaskBlocked_def approveTaskForQueue_def resetTaskForRetry_t_def
  resetClaim_def Let_def

lemma created_consistent: "consistent_task (createTaskRecord i p d og ts)"
  by (simp add: createTaskRecord_def consistent_task_def Let_def)

lemma step_consistent: "task_step t ev u \<Longrightarrow> consistent_task t \<Longrightarrow> consistent_task u"
  by (induction rule: task_step.induct) (simp_all add: transition_defs consistent_task_def)

lemma step_status_edge: "task_step t ev u \<Longrightarrow> status_edge (tk_status t) (tk_status u)"
  by (induction rule: task_step.induct) (simp_all add: transition_defs status_edge_def eligible_iff)

lemma step_attempts:
  "task_step t ev u \<Longrightarrow> tk_attempts u = tk_attempts t + (case ev of EvClaim _ _ \<Rightarrow> 1 | _ \<Rightarrow> 0)"
  by (induction rule: task_step.induct) (simp_all add: transition_defs)

text \<open>The part of a record no transition touches.\<close>

definition task_identity :: "task \<Rightarrow> task" where
  "task_identity t = t\<lparr>tk_status := Backlog, tk_claimedBy := None, tk_claimedAt := None,
     tk_startedAt := None, tk_completedAt := None, tk_attempts := 0, tk_output := None,
     tk_error := None, tk_requiresApproval := None\<rparr>"

lemma step_identity: "task_step t ev u \<Longrightarrow> task_identity u = task_identity t"
  by (induction rule: task_step.induct) (simp_all add: transition_defs task_identity_def)

lemma task_step_ids: "task_step t ev u \<Longrightarrow> tk_id u = tk_id t \<and> tk_projectId u = tk_projectId t"
  by (induction rule: task_step.induct) (simp_all add: transition_defs)

definition is_claim :: "task_event \<Rightarrow> bool" where
  "is_claim ev = (case ev of EvClaim _ _ \<Rightarrow> True | _ \<Rightarrow> False)"

lemma steps_invariants:
  assumes "task_steps t evs u" and "consistent_task t"
  shows "consistent_task u" "task_identity u = task_identity t"
    "tk_attempts u = tk_attempts t + length (filter is_claim evs)"
  using assms
proof (induction rule: task_steps.induct)
  case (steps_snoc t evs u ev v)
  { case 1 with steps_snoc show ?case by (blast intro: step_consistent) }
  { case 2 with steps_snoc show ?case by (simp add: step_identity) }
  { case 3 with steps_snoc show ?case
      by (simp add: step_attempts [OF steps_snoc.hyps(2)] is_claim_def split: task_event.splits) }
qed simp_all

text \<open>Approval: without an approval and without a retry, a task made to wait is never run.\<close>

lemma step_gated:
  "task_step t ev u \<Longrightarrow> tk_status t = Backlog \<or> tk_status t = Blocked \<Longrightarrow> ev \<noteq> EvApprove \<Longrightarrow>
     ev \<noteq> EvRetry \<Longrightarrow> \<not> is_claim ev \<and> (tk_status u = Backlog \<or> tk_status u = Blocked)"
  by (induction rule: task_step.induct) (auto simp: eligible_iff is_claim_def markTaskBlocked_def)

lemma steps_gated:
  assumes "task_steps t evs u" and "tk_status t = Backlog"
    and "EvApprove \<notin> set evs" "EvRetry \<notin> set evs"
  shows "filter is_claim evs = [] \<and> (tk_status u = Backlog \<or> tk_status u = Blocked)"
  using assms
proof (induction rule: task_steps.induct)
  case (steps_snoc t evs u ev v)
  then have "filter is_claim evs = []" "tk_status u = Backlog \<or> tk_status u = Blocked" by simp_all
  with step_gated [OF steps_snoc.hyps(2)] steps_snoc.prems show ?case by auto
qed simp

section \<open>Properties\<close>

text \<open>The pickup loop's choice for a role: \<open>findEligibleTask\<close> answers with a task of the role
  that is queued, unclaimed and has every dependency done; no eligible task of that role has a
  higher priority, or the same priority and an earlier creation time; and among the equals it is
  the first in the list. It answers with none exactly when no task of the role is eligible.\<close>

lemma picks_most_urgent_oldest:
  "case findEligibleTask tasks role of
     None \<Rightarrow> list_all (\<lambda>t. \<not> (tk_role t = role \<and> isTaskEligibleForPickup t tasks)) tasks
   | Some t \<Rightarrow>
       (\<exists>pre post. filter (\<lambda>t. tk_role t = role \<and> isTaskEligibleForPickup t tasks) tasks = pre @ t # post
          \<and> list_all (pickup_before t) pre \<and> list_all (\<lambda>u. \<not> pickup_before u t) post)"
proof (cases "findEligibleTask tasks role")
  case None
  with findEligibleTask_None_iff [of tasks role] show ?thesis by simp
next
  case (Some t)
  then show ?thesis
    by (auto simp: findEligibleTask_def split: list.splits dest: pickup.to_sorted_head)
qed

text \<open>Life cycle: a record made from a draft and moved by the pickup loop and the operator
  stays consistent (a waiting task carries no claim, a running one carries its claim and start,
  a settled one its completion time, a failed or blocked one its error), its attempts count the
  claims, and its identity, content, origin and priority never change.\<close>

lemma life_cycle_invariant:
  assumes "task_steps (createTaskRecord i p d og ts) evs t"
  shows "consistent_task t \<and> tk_attempts t = length (filter is_claim evs)
    \<and> task_identity t = task_identity (createTaskRecord i p d og ts)"
  using steps_invariants [OF assms created_consistent] by (simp add: createTaskRecord_def Let_def)

definition sample_draft :: "bool option \<Rightarrow> task_draft" where
  "sample_draft gate = \<lparr>d_title = ''Draft'', d_description = ''Write it'', d_role = Writer,
     d_dependsOn = [], d_input = [], d_priority = None, d_requiresApproval = gate, d_expertId = None\<rparr>"

definition sample_waiting :: "bool option \<Rightarrow> task" where
  "sample_waiting gate = createTaskRecord ''t1'' ''p1'' (sample_draft gate) OperatorOrigin ''2026''"

lemma sample_claim_step:
  "task_step (sample_waiting None) (EvClaim ''w'' ''2027'') (markTaskClaimed (sample_waiting None) ''w'' ''2027'')"
  by (rule step_claim [of _ "[]"])
    (simp add: eligible_iff sample_waiting_def sample_draft_def createTaskRecord_def)

lemma life_cycle_invariant_witness:
  "consistent_task (markTaskClaimed (sample_waiting None) ''w'' ''2027'')
   \<and> tk_attempts (markTaskClaimed (sample_waiting None) ''w'' ''2027'') = 1"
  using life_cycle_invariant [OF steps_snoc [OF steps_refl sample_claim_step [unfolded sample_waiting_def]]]
  by (simp add: is_claim_def sample_waiting_def)

text \<open>Every transition of the pickup loop and of the operator's handlers is an edge of the
  documented status graph.\<close>

lemma transitions_follow_status_graph:
  "task_step t ev u \<Longrightarrow> status_edge (tk_status t) (tk_status u)"
  by (rule step_status_edge)

text \<open>The approval gate: a task whose draft requires approval is never claimed, however the
  loop and the operator act on it, as long as it is neither approved nor retried.\<close>

lemma approval_gate:
  assumes "task_steps (createTaskRecord i p d og ts) evs t" and "d_requiresApproval d = Some True"
    and "EvApprove \<notin> set evs" and "EvRetry \<notin> set evs"
  shows "tk_attempts t = 0 \<and> \<not> isTaskEligibleForPickup t tasks"
proof -
  have "tk_status (createTaskRecord i p d og ts) = Backlog"
    using assms(2) by (simp add: createTaskRecord_def Let_def)
  from steps_gated [OF assms(1) this assms(3,4)] show ?thesis
    using steps_invariants(3) [OF assms(1) created_consistent]
    by (auto simp: eligible_iff createTaskRecord_def Let_def)
qed

lemma sample_block_step:
  "task_steps (sample_waiting gate) [EvBlock ''no''] (markTaskBlocked (sample_waiting gate) ''no'')"
  using steps_snoc [OF steps_refl step_block] by simp

lemma approval_gate_witness:
  "tk_attempts (markTaskBlocked (sample_waiting (Some True)) ''no'') = 0"
  using approval_gate [where evs = "[EvBlock ''no'']", OF sample_block_step [unfolded sample_waiting_def]]
  by (simp add: sample_waiting_def sample_draft_def)

end
