(* ===== verification/Cost.thy ===== *)
theory Cost
  imports Task_State Json_Parse
begin

text \<open>
  Prices and cost estimates, \<^verbatim>\<open>src/projects/cost.ts\<close>. Amounts are exact rationals; the
  code's floating-point sums agree with them up to rounding errors far below the four decimals
  \<open>roundUsd\<close> keeps. Token counts are natural numbers.
\<close>

record model_pricing =
  inputUsdPerMillion :: nat
  outputUsdPerMillion :: nat

record llm_usage =
  u_inputTokens :: nat
  u_outputTokens :: nat
  u_model :: "string option"

definition SONNET_46_PRICING :: model_pricing where
  "SONNET_46_PRICING = \<lparr>inputUsdPerMillion = 3, outputUsdPerMillion = 15\<rparr>"

definition HAIKU_45_PRICING :: model_pricing where
  "HAIKU_45_PRICING = \<lparr>inputUsdPerMillion = 1, outputUsdPerMillion = 5\<rparr>"

definition OPUS_47_PRICING :: model_pricing where
  "OPUS_47_PRICING = \<lparr>inputUsdPerMillion = 15, outputUsdPerMillion = 75\<rparr>"

definition MODEL_PRICING :: "(string \<times> model_pricing) list" where
  "MODEL_PRICING =
     [(''claude-sonnet-4-6'', SONNET_46_PRICING), (''claude-sonnet-4-6-20251006'', SONNET_46_PRICING),
      (''claude-haiku-4-5'', HAIKU_45_PRICING), (''claude-haiku-4-5-20251001'', HAIKU_45_PRICING),
      (''claude-opus-4-7'', OPUS_47_PRICING)]"

definition FALLBACK_PRICING :: model_pricing where
  "FALLBACK_PRICING = SONNET_46_PRICING"

definition pricingFor :: "string option \<Rightarrow> model_pricing" where
  "pricingFor model =
     (if \<not> truthy model then FALLBACK_PRICING
      else nullish (map_of MODEL_PRICING (the model)) FALLBACK_PRICING)"

text \<open>\<open>Math.round\<close> rounds halves up.\<close>

definition roundUsd :: "rat \<Rightarrow> rat" where
  "roundUsd v = of_int \<lfloor>v * 10000 + 1 / 2\<rfloor> / 10000"

text \<open>A rounded amount as a number of a JSON value.\<close>

definition usd_json :: "rat \<Rightarrow> json" where
  "usd_json q = dec_json False (nat \<lfloor>q * 10000\<rfloor>) 4"

definition estimateCostUsd :: "llm_usage option \<Rightarrow> rat" where
  "estimateCostUsd usage =
     (case usage of
        None \<Rightarrow> 0
      | Some u \<Rightarrow>
          let pricing = pricingFor (u_model u);
              inputCost = of_nat (u_inputTokens u * inputUsdPerMillion pricing) / 1000000;
              outputCost = of_nat (u_outputTokens u * outputUsdPerMillion pricing) / 1000000
          in roundUsd (inputCost + outputCost))"

definition ROLE_TOKEN_ESTIMATES :: "worker_role \<Rightarrow> nat \<times> nat" where
  "ROLE_TOKEN_ESTIMATES role =
     (case role of Researcher \<Rightarrow> (320, 420) | Writer \<Rightarrow> (540, 820) | Editor \<Rightarrow> (980, 1180) | Publisher \<Rightarrow> (0, 0)
      | EmailHandler \<Rightarrow> (420, 580) | CapabilityBroker \<Rightarrow> (0, 0) | SelfCoder \<Rightarrow> (1200, 3000)
      | CapabilityRunner \<Rightarrow> (0, 0))"

definition estimateRoleCostUsd :: "worker_role \<Rightarrow> string option \<Rightarrow> rat" where
  "estimateRoleCostUsd role model =
     (let tokens = ROLE_TOKEN_ESTIMATES role
      in if fst tokens = 0 \<and> snd tokens = 0 then 0
         else estimateCostUsd (Some \<lparr>u_inputTokens = fst tokens, u_outputTokens = snd tokens,
           u_model = Some (nullish model ''claude-sonnet-4-6'')\<rparr>))"

definition sumProjectCostUsd :: "task list \<Rightarrow> rat" where
  "sumProjectCostUsd tasks =
     roundUsd (foldl (\<lambda>total t. case tk_costUsd t of
         Some c \<Rightarrow> (if 0 < c then total + c else total) | None \<Rightarrow> total) 0 tasks)"

section \<open>Properties\<close>

lemma roundUsd_bounds: "\<bar>roundUsd v - v\<bar> \<le> 1 / 20000"
proof -
  define n where "n = \<lfloor>v * 10000 + 1 / 2\<rfloor>"
  have "of_int n \<le> v * 10000 + 1 / 2" "v * 10000 + 1 / 2 < of_int n + 1"
    unfolding n_def by linarith+
  then have "of_int n / 10000 - v \<le> 1 / 20000" "v - of_int n / 10000 \<le> 1 / 20000" by linarith+
  then show ?thesis by (simp only: roundUsd_def n_def [symmetric] abs_le_iff minus_diff_eq)
qed

lemma roundUsd_mono: "u \<le> v \<Longrightarrow> roundUsd u \<le> roundUsd v"
  by (simp add: roundUsd_def divide_right_mono floor_mono)

lemma roundUsd_nonneg: "0 \<le> v \<Longrightarrow> 0 \<le> roundUsd v"
  using roundUsd_mono [of 0 v] by (simp add: roundUsd_def)

text \<open>An estimate is never negative, is within half of a hundredth of a cent of the exact price,
  and never decreases when a call uses more tokens of the same model; an unknown model is billed at
  the fallback rate.\<close>

lemma estimate_is_rounded_price:
  "let p = pricingFor m;
       exact = (of_nat (i * inputUsdPerMillion p + out * outputUsdPerMillion p) :: rat) / 1000000
   in 0 \<le> estimateCostUsd (Some \<lparr>u_inputTokens = i, u_outputTokens = out, u_model = m\<rparr>)
    \<and> \<bar>estimateCostUsd (Some \<lparr>u_inputTokens = i, u_outputTokens = out, u_model = m\<rparr>) - exact\<bar> \<le> 1 / 20000
    \<and> estimateCostUsd (Some \<lparr>u_inputTokens = i, u_outputTokens = out, u_model = m\<rparr>)
        \<le> estimateCostUsd (Some \<lparr>u_inputTokens = i + a, u_outputTokens = out + b, u_model = m\<rparr>)
    \<and> p \<in> {FALLBACK_PRICING} \<union> snd ` set MODEL_PRICING"
proof -
  have exact: "estimateCostUsd (Some \<lparr>u_inputTokens = x, u_outputTokens = y, u_model = m\<rparr>) =
      roundUsd (of_nat (x * inputUsdPerMillion (pricingFor m) + y * outputUsdPerMillion (pricingFor m)) / 1000000)" for x y
    by (simp add: estimateCostUsd_def Let_def add_divide_distrib)
  have "i * r + out * s \<le> (i + a) * r + (out + b) * s" for r s by (simp add: algebra_simps)
  then have grows: "of_nat (i * r + out * s) / 1000000 \<le> (of_nat ((i + a) * r + (out + b) * s) / 1000000 :: rat)" for r s
    by (intro divide_right_mono of_nat_mono) simp_all
  have member: "pricingFor m \<in> {FALLBACK_PRICING} \<union> snd ` set MODEL_PRICING"
    by (cases "map_of MODEL_PRICING (the m)") (force simp: pricingFor_def dest: map_of_SomeD)+
  show ?thesis
    unfolding Let_def exact
    by (intro conjI roundUsd_bounds roundUsd_nonneg roundUsd_mono grows member) simp
qed

end
