(* ===== verification/Project_Store.thy ===== *)
theory Project_Store
  imports Task_State File_System
begin

text \<open>
  Disk persistence of projects and their tasks, \<^verbatim>\<open>src/projects/store.ts\<close>: one directory
  per project with \<open>project.json\<close> and \<open>tasks/<taskId>.json\<close>. A file holds a record this
  program wrote, a file of another component (\<open>'x\<close>), or a text the loaders reject. Modes are
  the decimal values of \<open>0o700\<close> and \<open>0o600\<close>.

  \<open>listTasks\<close> sees every name that ends in \<open>.json\<close> and throws on one whose stem is not a
  valid id; \<open>store_wf\<close> is the condition under which it does not, and it is kept by every
  save. Under it the listing is exactly the table of stored tasks.
\<close>

datatype 'x state_file = ProjectFile project | TaskFile task | OtherFile 'x | UnreadableFile

type_synonym 'x state_fs = "'x state_file fs"

section \<open>Operations\<close>

definition sanitizeId :: "string \<Rightarrow> string + string" where
  "sanitizeId i =
     (if \<not> (i \<noteq> [] \<and> list_all id_char i) then Inl (''Invalid id (must match [A-Za-z0-9_.-]+): '' @ i)
      else if hd i = CHR ''.'' \<or> i = ''..'' then Inl (''Invalid id (refusing dotfile/parent): '' @ i)
      else Inr i)"

definition resolveProjectDir :: "path \<Rightarrow> string \<Rightarrow> string + path" where
  "resolveProjectDir projectsDir projectId = map_sum id (\<lambda>i. projectsDir @ [i]) (sanitizeId projectId)"

definition resolveProjectFile :: "path \<Rightarrow> string \<Rightarrow> string + path" where
  "resolveProjectFile projectsDir projectId =
     map_sum id (\<lambda>d. d @ [''project.json'']) (resolveProjectDir projectsDir projectId)"

definition resolveTasksDir :: "path \<Rightarrow> string \<Rightarrow> string + path" where
  "resolveTasksDir projectsDir projectId =
     map_sum id (\<lambda>d. d @ [''tasks'']) (resolveProjectDir projectsDir projectId)"

definition resolveTaskFile :: "path \<Rightarrow> string \<Rightarrow> string \<Rightarrow> string + path" where
  "resolveTaskFile projectsDir projectId taskId =
     (case resolveTasksDir projectsDir projectId of
        Inl e \<Rightarrow> Inl e
      | Inr d \<Rightarrow> map_sum id (\<lambda>i. d @ [i @ ''.json'']) (sanitizeId taskId))"

definition ensure_dir :: "path \<Rightarrow> ('x state_fs, unit) prog" where
  "ensure_dir d = modify_m (\<lambda>fs. if \<not> existsSync fs d then mkdirSync d 448 fs else fs)"

definition saveProject :: "path \<Rightarrow> project \<Rightarrow> ('x state_fs, unit) prog" where
  "saveProject projectsDir project =
     bind_m (lift_m (resolveProjectDir projectsDir (pr_id project))) (\<lambda>projectDir.
     seq_m (ensure_dir projectDir)
    (bind_m (lift_m (resolveProjectFile projectsDir (pr_id project))) (\<lambda>file.
     modify_m (writeFileSync file 384 (ProjectFile project)))))"

definition loadProject :: "path \<Rightarrow> string \<Rightarrow> ('x state_fs, project option) prog" where
  "loadProject projectsDir projectId =
     bind_m (lift_m (resolveProjectFile projectsDir projectId)) (\<lambda>filePath.
     get_m (\<lambda>fs. if \<not> existsSync fs filePath then None
       else case read_file fs filePath of Some (ProjectFile p) \<Rightarrow> Some p | _ \<Rightarrow> None))"

definition listProjectIds :: "path \<Rightarrow> 'x state_fs \<Rightarrow> string list" where
  "listProjectIds projectsDir fs =
     (if \<not> existsSync fs projectsDir then []
      else sort (filter (\<lambda>name. existsSync fs (projectsDir @ [name, ''project.json'']))
        (readdirSync fs projectsDir)))"

definition deleteProject :: "path \<Rightarrow> string \<Rightarrow> ('x state_fs, bool) prog" where
  "deleteProject projectsDir projectId =
     bind_m (lift_m (resolveProjectDir projectsDir projectId)) (\<lambda>projectDir.
     bind_m (get_m (\<lambda>fs. existsSync fs projectDir)) (\<lambda>present.
       if \<not> present then return_m False
       else seq_m (modify_m (rmSync_tree projectDir)) (return_m True)))"

definition saveTask :: "path \<Rightarrow> task \<Rightarrow> ('x state_fs, unit) prog" where
  "saveTask projectsDir task =
     bind_m (lift_m (resolveTasksDir projectsDir (tk_projectId task))) (\<lambda>tasksDir.
     seq_m (ensure_dir tasksDir)
    (bind_m (lift_m (resolveTaskFile projectsDir (tk_projectId task) (tk_id task))) (\<lambda>file.
     modify_m (writeFileSync file 384 (TaskFile task)))))"

definition loadTask :: "path \<Rightarrow> string \<Rightarrow> string \<Rightarrow> ('x state_fs, task option) prog" where
  "loadTask projectsDir projectId taskId =
     bind_m (lift_m (resolveTaskFile projectsDir projectId taskId)) (\<lambda>filePath.
     get_m (\<lambda>fs. if \<not> existsSync fs filePath then None
       else case read_file fs filePath of Some (TaskFile t) \<Rightarrow> Some t | _ \<Rightarrow> None))"

definition ends_json :: "string \<Rightarrow> bool" where
  "ends_json name \<longleftrightarrow> 5 \<le> length name \<and> drop (length name - 5) name = ''.json''"

definition json_stem :: "string \<Rightarrow> string" where
  "json_stem name = take (length name - 5) name"

definition listTasks :: "path \<Rightarrow> string \<Rightarrow> ('x state_fs, task list) prog" where
  "listTasks projectsDir projectId =
     bind_m (lift_m (resolveTasksDir projectsDir projectId)) (\<lambda>tasksDir.
     bind_m (get_m (\<lambda>fs. existsSync fs tasksDir)) (\<lambda>present.
       if \<not> present then return_m []
       else
         bind_m (get_m (\<lambda>fs. readdirSync fs tasksDir)) (\<lambda>entries.
         bind_m (map_m (\<lambda>name. loadTask projectsDir projectId (json_stem name))
             (filter ends_json entries)) (\<lambda>loaded.
         return_m (map the (filter (\<lambda>t. t \<noteq> None) loaded))))))"

definition deleteTask :: "path \<Rightarrow> string \<Rightarrow> string \<Rightarrow> ('x state_fs, bool) prog" where
  "deleteTask projectsDir projectId taskId =
     bind_m (lift_m (resolveTaskFile projectsDir projectId taskId)) (\<lambda>filePath.
     bind_m (get_m (\<lambda>fs. existsSync fs filePath)) (\<lambda>present.
       if \<not> present then return_m False
       else seq_m (modify_m (rmSync_file filePath)) (return_m True)))"

section \<open>Paths\<close>

lemma sanitizeId_iff: "sanitizeId s = Inr t \<longleftrightarrow> safe_id s \<and> t = s"
  by (auto simp: sanitizeId_def safe_id_def)

lemma sanitizeId_safe: "safe_id s \<Longrightarrow> sanitizeId s = Inr s"
  by (simp add: sanitizeId_iff)

lemma sanitizeId_unsafe: "\<not> safe_id s \<Longrightarrow> \<exists>e. sanitizeId s = Inl e"
  by (cases "sanitizeId s") (auto simp: sanitizeId_iff)

lemmas resolve_defs = resolveTaskFile_def resolveTasksDir_def resolveProjectFile_def resolveProjectDir_def

abbreviation task_path :: "path \<Rightarrow> string \<Rightarrow> string \<Rightarrow> path" where
  "task_path dir p i \<equiv> dir @ [p, ''tasks'', i @ ''.json'']"

lemma json_name [simp]: "ends_json (i @ ''.json'')" "json_stem (i @ ''.json'') = i"
  by (simp_all add: ends_json_def json_stem_def)

lemma json_stem_inverse: "ends_json name \<Longrightarrow> json_stem name @ ''.json'' = name"
  by (metis append_take_drop_id ends_json_def json_stem_def)

lemma resolve_safe:
  "safe_id p \<Longrightarrow> resolveProjectDir dir p = Inr (dir @ [p])"
  "safe_id p \<Longrightarrow> resolveProjectFile dir p = Inr (dir @ [p, ''project.json''])"
  "safe_id p \<Longrightarrow> resolveTasksDir dir p = Inr (dir @ [p, ''tasks''])"
  "safe_id p \<Longrightarrow> safe_id i \<Longrightarrow> resolveTaskFile dir p i = Inr (task_path dir p i)"
  by (simp_all add: resolve_defs sanitizeId_safe)

lemma resolveTaskFile_iff:
  "resolveTaskFile dir p i = Inr f \<longleftrightarrow> safe_id p \<and> safe_id i \<and> f = task_path dir p i"
  using sanitizeId_unsafe [of p] sanitizeId_unsafe [of i]
  by (cases "safe_id p"; cases "safe_id i") (auto simp: resolve_defs sanitizeId_safe)

lemma resolveProjectFile_iff:
  "resolveProjectFile dir p = Inr f \<longleftrightarrow> safe_id p \<and> f = dir @ [p, ''project.json'']"
  using sanitizeId_unsafe [of p] by (cases "safe_id p") (auto simp: resolve_defs sanitizeId_safe)

section \<open>Read over write\<close>

definition with_dir :: "path \<Rightarrow> 'x state_fs \<Rightarrow> 'x state_fs" where
  "with_dir d fs = (if \<not> existsSync fs d then mkdirSync d 448 fs else fs)"

lemma read_with_dir [simp]: "read_file (with_dir d fs) q = read_file fs q"
  by (simp add: with_dir_def)

lemma exists_with_dir:
  "existsSync (with_dir d fs) q \<longleftrightarrow> existsSync fs q \<or> (\<not> existsSync fs d \<and> q \<in> set (ancestors d))"
  by (auto simp: with_dir_def)

lemma with_dir_exists: "d \<noteq> [] \<Longrightarrow> existsSync (with_dir d fs) d"
  by (auto simp: exists_with_dir ancestors_self)

lemma saveTask_safe:
  "safe_id (tk_projectId t) \<Longrightarrow> safe_id (tk_id t) \<Longrightarrow> saveTask dir t fs =
     (Inr (), writeFileSync (task_path dir (tk_projectId t) (tk_id t)) 384 (TaskFile t)
        (with_dir (dir @ [tk_projectId t, ''tasks'']) fs))"
  by (simp add: saveTask_def resolve_safe ensure_dir_def bind_m_apply seq_m_apply with_dir_def)

lemma saveProject_safe:
  "safe_id (pr_id p) \<Longrightarrow> saveProject dir p fs =
     (Inr (), writeFileSync (dir @ [pr_id p, ''project.json'']) 384 (ProjectFile p)
        (with_dir (dir @ [pr_id p]) fs))"
  by (simp add: saveProject_def resolve_safe ensure_dir_def bind_m_apply seq_m_apply with_dir_def)

definition stored_task :: "path \<Rightarrow> 'x state_fs \<Rightarrow> string \<times> string \<Rightarrow> task option" where
  "stored_task dir fs k = (case fst (loadTask dir (fst k) (snd k) fs) of Inl _ \<Rightarrow> None | Inr r \<Rightarrow> r)"

definition stored_project :: "path \<Rightarrow> 'x state_fs \<Rightarrow> string \<Rightarrow> project option" where
  "stored_project dir fs p = (case fst (loadProject dir p fs) of Inl _ \<Rightarrow> None | Inr r \<Rightarrow> r)"

lemma loadTask_safe:
  "safe_id p \<Longrightarrow> safe_id i \<Longrightarrow> loadTask dir p i fs = (Inr (stored_task dir fs (p, i)), fs)"
  by (simp add: stored_task_def loadTask_def resolve_safe bind_m_apply)

lemma loadProject_safe: "safe_id p \<Longrightarrow> loadProject dir p fs = (Inr (stored_project dir fs p), fs)"
  by (simp add: stored_project_def loadProject_def resolve_safe bind_m_apply)

lemma stored_task_iff:
  "stored_task dir fs (p, i) = Some t \<longleftrightarrow>
     safe_id p \<and> safe_id i \<and> read_file fs (task_path dir p i) = Some (TaskFile t)"
proof (cases "safe_id p \<and> safe_id i")
  case True
  then show ?thesis
    by (auto simp: stored_task_def loadTask_def resolve_safe bind_m_apply dest: read_file_exists
        split: option.splits state_file.splits)
next
  case False
  then obtain e where "resolveTaskFile dir p i = Inl e"
    using resolveTaskFile_iff [of dir p i] by (cases "resolveTaskFile dir p i") auto
  then have "stored_task dir fs (p, i) = None" by (simp add: stored_task_def loadTask_def bind_m_apply)
  with False show ?thesis by auto
qed

lemma stored_project_iff:
  "stored_project dir fs p = Some r \<longleftrightarrow>
     safe_id p \<and> read_file fs (dir @ [p, ''project.json'']) = Some (ProjectFile r)"
proof (cases "safe_id p")
  case True
  then show ?thesis
    by (auto simp: stored_project_def loadProject_def resolve_safe bind_m_apply dest: read_file_exists
        split: option.splits state_file.splits)
next
  case False
  then obtain e where "resolveProjectFile dir p = Inl e"
    using resolveProjectFile_iff [of dir p] by (cases "resolveProjectFile dir p") auto
  with False show ?thesis by (simp add: stored_project_def loadProject_def bind_m_apply)
qed

lemma option_ext: "(\<And>x. a = Some x \<longleftrightarrow> b = Some x) \<Longrightarrow> a = b"
  by (metis not_None_eq)

lemma read_deleteTask:
  "safe_id p \<Longrightarrow> safe_id i \<Longrightarrow> read_file (snd (deleteTask dir p i fs)) q =
     (if q = task_path dir p i then None else read_file fs q)"
  by (auto simp: deleteTask_def resolve_safe bind_m_apply seq_m_apply dest: read_file_exists
      intro: ccontr)

lemma read_deleteProject:
  "safe_id p \<Longrightarrow> existsSync fs (dir @ [p]) \<Longrightarrow> read_file (snd (deleteProject dir p fs)) q =
     (if below (dir @ [p]) q then None else read_file fs q)"
  by (simp add: deleteProject_def resolve_safe bind_m_apply seq_m_apply)

interpretation tasks: record_store
  "\<lambda>t. (tk_projectId t, tk_id t)" "stored_task dir" "\<lambda>t fs. snd (saveTask dir t fs)"
  "\<lambda>k fs. snd (deleteTask dir (fst k) (snd k) fs)" "\<lambda>k. safe_id (fst k) \<and> safe_id (snd k)"
  "\<lambda>_. True"
  for dir
proof unfold_locales
  fix t :: task and j and fs :: "'x state_fs"
  assume "safe_id (fst (tk_projectId t, tk_id t)) \<and> safe_id (snd (tk_projectId t, tk_id t))"
    "safe_id (fst j) \<and> safe_id (snd j)"
  then show "stored_task dir (snd (saveTask dir t fs)) j =
      (if j = (tk_projectId t, tk_id t) then Some t else stored_task dir fs j)"
    by (cases j, intro option_ext) (auto simp: stored_task_iff saveTask_safe)
next
  fix k j and fs :: "'x state_fs"
  assume "safe_id (fst k) \<and> safe_id (snd k)" "safe_id (fst j) \<and> safe_id (snd j)"
  then show "stored_task dir (snd (deleteTask dir (fst k) (snd k) fs)) j =
      (if j = k then None else stored_task dir fs j)"
    by (cases j, cases k, intro option_ext) (auto simp: stored_task_iff read_deleteTask)
qed simp_all

text \<open>A project file lies in a directory that exists.\<close>

definition dirs_present :: "path \<Rightarrow> 'x state_fs \<Rightarrow> bool" where
  "dirs_present dir fs \<longleftrightarrow>
     (\<forall>p. read_file fs (dir @ [p, ''project.json'']) \<noteq> None \<longrightarrow> existsSync fs (dir @ [p]))"

lemma deleteProject_absent:
  "safe_id p \<Longrightarrow> \<not> existsSync fs (dir @ [p]) \<Longrightarrow> deleteProject dir p fs = (Inr False, fs)"
  by (simp add: deleteProject_def resolve_safe bind_m_apply)

lemma deleteProject_present:
  "safe_id p \<Longrightarrow> existsSync fs (dir @ [p]) \<Longrightarrow>
     deleteProject dir p fs = (Inr True, rmSync_tree (dir @ [p]) fs)"
  by (simp add: deleteProject_def resolve_safe bind_m_apply seq_m_apply)

interpretation projects: record_store
  pr_id "stored_project dir" "\<lambda>p fs. snd (saveProject dir p fs)"
  "\<lambda>i fs. snd (deleteProject dir i fs)" safe_id "dirs_present dir"
  for dir
proof unfold_locales
  fix p :: project and j and fs :: "'x state_fs"
  assume "safe_id (pr_id p)" "safe_id j"
  then show "stored_project dir (snd (saveProject dir p fs)) j =
      (if j = pr_id p then Some p else stored_project dir fs j)"
    by (intro option_ext) (auto simp: stored_project_iff saveProject_safe)
next
  fix k j and fs :: "'x state_fs"
  assume "dirs_present dir fs" "safe_id k" "safe_id j"
  then show "stored_project dir (snd (deleteProject dir k fs)) j =
      (if j = k then None else stored_project dir fs j)"
    by (cases "existsSync fs (dir @ [k])", intro option_ext)
      (auto simp: stored_project_iff deleteProject_present deleteProject_absent below_def dirs_present_def
        intro!: option_ext [of "stored_project dir fs k" None])
next
  fix p :: project and fs :: "'x state_fs"
  assume "dirs_present dir fs" "safe_id (pr_id p)"
  then show "dirs_present dir (snd (saveProject dir p fs))"
    by (auto simp: dirs_present_def saveProject_safe exists_with_dir ancestors_self)
next
  fix k and fs :: "'x state_fs"
  assume "dirs_present dir fs" "safe_id k"
  then show "dirs_present dir (snd (deleteProject dir k fs))"
    by (cases "existsSync fs (dir @ [k])")
      (auto simp: dirs_present_def deleteProject_present deleteProject_absent below_def)
qed

section \<open>Listing\<close>

abbreviation tasks_dir :: "path \<Rightarrow> string \<Rightarrow> path" where
  "tasks_dir dir p \<equiv> dir @ [p, ''tasks'']"

definition listed_task :: "path \<Rightarrow> string \<Rightarrow> 'x state_fs \<Rightarrow> string \<Rightarrow> task option" where
  "listed_task dir p fs name =
     (case read_file fs (tasks_dir dir p @ [name]) of Some (TaskFile t) \<Rightarrow> Some t | _ \<Rightarrow> None)"

definition good_entry :: "path \<Rightarrow> string \<Rightarrow> 'x state_fs \<Rightarrow> string \<Rightarrow> bool" where
  "good_entry dir p fs name \<longleftrightarrow>
     (ends_json name \<longrightarrow> safe_id (json_stem name)
        \<and> (case listed_task dir p fs name of None \<Rightarrow> True
            | Some t \<Rightarrow> tk_id t = json_stem name \<and> tk_projectId t = p))"

definition store_wf :: "path \<Rightarrow> string \<Rightarrow> 'x state_fs \<Rightarrow> bool" where
  "store_wf dir p fs \<longleftrightarrow>
     safe_id p \<and> list_all (good_entry dir p fs) (readdirSync fs (tasks_dir dir p))
     \<and> (readdirSync fs (tasks_dir dir p) \<noteq> [] \<longrightarrow> existsSync fs (tasks_dir dir p))"

definition task_list :: "path \<Rightarrow> string \<Rightarrow> 'x state_fs \<Rightarrow> task list" where
  "task_list dir p fs =
     List.map_filter (listed_task dir p fs) (filter ends_json (readdirSync fs (tasks_dir dir p)))"

lemma set_map_filter: "set (List.map_filter f xs) = {y. \<exists>x \<in> set xs. f x = Some y}"
  by (induction xs) (auto simp: map_filter_simps split: option.splits)

lemma map_filter_the: "map the (filter (\<lambda>t. t \<noteq> None) (map f xs)) = List.map_filter f xs"
  by (induction xs) (auto simp: map_filter_simps)

lemma store_wf_iff:
  "store_wf dir p fs \<longleftrightarrow> safe_id p \<and>
     (\<forall>name. existsSync fs (tasks_dir dir p @ [name]) \<longrightarrow>
        good_entry dir p fs name \<and> existsSync fs (tasks_dir dir p))"
proof -
  have "readdirSync fs d \<noteq> [] \<longleftrightarrow> (\<exists>name. existsSync fs (d @ [name]))" for d
    by (metis empty_iff empty_set readdirSync_iff list.set_intros(1) neq_Nil_conv)
  then show ?thesis by (auto simp: store_wf_def list_all_iff readdirSync_iff)
qed

lemma listTasks_wf:
  assumes "store_wf dir p fs"
  shows "listTasks dir p fs = (Inr (task_list dir p fs), fs)"
proof -
  let ?names = "filter ends_json (readdirSync fs (tasks_dir dir p))"
  from assms have p: "safe_id p" by (simp add: store_wf_def)
  have load: "loadTask dir p (json_stem name) fs = (Inr (listed_task dir p fs name), fs)"
    if "name \<in> set ?names" for name
  proof -
    from that have name: "ends_json name" and "safe_id (json_stem name)"
      using assms by (auto simp: store_wf_def list_all_iff good_entry_def)
    then have "loadTask dir p (json_stem name) fs = (Inr (stored_task dir fs (p, json_stem name)), fs)"
      using p by (simp add: loadTask_safe)
    moreover have "stored_task dir fs (p, json_stem name) = listed_task dir p fs name"
      using p \<open>safe_id (json_stem name)\<close> json_stem_inverse [OF name]
      by (intro option_ext) (auto simp: stored_task_iff listed_task_def split: option.splits state_file.splits)
    ultimately show ?thesis by simp
  qed
  have all: "map_m (\<lambda>name. loadTask dir p (json_stem name)) ?names fs =
      (Inr (map (listed_task dir p fs) ?names), fs)"
    by (rule map_m_pure) (rule load)
  show ?thesis
  proof (cases "existsSync fs (tasks_dir dir p)")
    case True
    with p show ?thesis
      by (simp add: listTasks_def resolve_safe bind_m_apply all
          map_filter_the [of "listed_task dir p fs"] task_list_def del: not_None_eq)
  next
    case False
    with assms have "readdirSync fs (tasks_dir dir p) = []" by (auto simp: store_wf_def)
    with p False show ?thesis
      by (simp add: listTasks_def resolve_safe bind_m_apply task_list_def map_filter_simps)
  qed
qed

lemma task_list_entry:
  assumes "store_wf dir p fs"
  shows "t \<in> set (task_list dir p fs) \<longleftrightarrow>
    (\<exists>name. ends_json name \<and> listed_task dir p fs name = Some t \<and> safe_id (json_stem name)
        \<and> tk_id t = json_stem name \<and> tk_projectId t = p)" (is "?l = ?r")
proof
  assume ?l
  then obtain name where n: "name \<in> set (readdirSync fs (tasks_dir dir p))" "ends_json name"
    "listed_task dir p fs name = Some t"
    by (auto simp: task_list_def set_map_filter)
  then have "good_entry dir p fs name" using assms by (auto simp: store_wf_def list_all_iff)
  with n show ?r by (auto simp: good_entry_def)
next
  assume ?r
  then obtain name where n: "ends_json name" "listed_task dir p fs name = Some t" by blast
  then have "read_file fs (tasks_dir dir p @ [name]) = Some (TaskFile t)"
    by (auto simp: listed_task_def split: option.splits state_file.splits)
  then have "name \<in> set (readdirSync fs (tasks_dir dir p))"
    by (simp add: readdirSync_iff read_file_exists del: append_assoc)
  with n show ?l by (force simp: task_list_def set_map_filter)
qed

lemma task_list_iff:
  assumes "store_wf dir p fs"
  shows "t \<in> set (task_list dir p fs) \<longleftrightarrow> stored_task dir fs (p, tk_id t) = Some t"
proof
  assume "t \<in> set (task_list dir p fs)"
  then obtain name where "ends_json name" "listed_task dir p fs name = Some t" "safe_id (json_stem name)"
    "tk_id t = json_stem name" using task_list_entry [OF assms] by blast
  moreover from this have "tk_id t @ ''.json'' = name" by (simp add: json_stem_inverse)
  ultimately show "stored_task dir fs (p, tk_id t) = Some t"
    using assms by (auto simp: stored_task_iff store_wf_def listed_task_def split: option.splits state_file.splits)
next
  assume s: "stored_task dir fs (p, tk_id t) = Some t"
  then have l: "listed_task dir p fs (tk_id t @ ''.json'') = Some t"
    by (simp add: stored_task_iff listed_task_def)
  from s have "tk_id t @ ''.json'' \<in> set (readdirSync fs (tasks_dir dir p))"
    by (simp add: stored_task_iff readdirSync_iff read_file_exists del: append_assoc) (simp add: read_file_exists)
  with l show "t \<in> set (task_list dir p fs)"
    using json_name(1) [of "tk_id t"] by (force simp: task_list_def set_map_filter)
qed

lemma stored_task_keyed:
  assumes "store_wf dir p fs" and "stored_task dir fs (p, i) = Some t"
  shows "tk_id t = i" "tk_projectId t = p" "safe_id i"
proof -
  from assms(2) have r: "read_file fs (task_path dir p i) = Some (TaskFile t)" and i: "safe_id i"
    by (simp_all add: stored_task_iff)
  then have "i @ ''.json'' \<in> set (readdirSync fs (tasks_dir dir p))"
    by (simp add: readdirSync_iff read_file_exists)
  then have "good_entry dir p fs (i @ ''.json'')" using assms(1) by (auto simp: store_wf_def list_all_iff)
  moreover have "listed_task dir p fs (i @ ''.json'') = Some t" using r by (simp add: listed_task_def)
  ultimately show "tk_id t = i" "tk_projectId t = p" "safe_id i" using i by (simp_all add: good_entry_def)
qed

lemma distinct_map_filter_key:
  "distinct ns \<Longrightarrow> (\<And>n t. n \<in> set ns \<Longrightarrow> f n = Some t \<Longrightarrow> g t @ sfx = n) \<Longrightarrow>
     distinct (map g (List.map_filter f ns))"
proof (induction ns)
  case (Cons n ns)
  have "g t \<noteq> g u" if "f n = Some t" "u \<in> set (List.map_filter f ns)" for t u
  proof -
    from that(2) obtain m where m: "m \<in> set ns" "f m = Some u" by (auto simp: set_map_filter)
    then have "g u @ sfx = m" "g t @ sfx = n" using Cons.prems(2) that(1) by simp_all
    moreover have "m \<noteq> n" using Cons.prems(1) m(1) by auto
    ultimately show ?thesis by auto
  qed
  with Cons show ?case by (auto simp: map_filter_simps split: option.splits)
qed (simp add: map_filter_simps)

lemma distinct_task_ids:
  assumes "store_wf dir p fs"
  shows "distinct (map tk_id (task_list dir p fs))"
  unfolding task_list_def
proof (rule distinct_map_filter_key [where sfx = "''.json''"])
  fix name t
  assume n: "name \<in> set (filter ends_json (readdirSync fs (tasks_dir dir p)))"
    and "listed_task dir p fs name = Some t"
  moreover from n have "good_entry dir p fs name" using assms by (auto simp: store_wf_def list_all_iff)
  ultimately have "tk_id t = json_stem name" by (simp add: good_entry_def)
  with n show "tk_id t @ ''.json'' = name" by (simp add: json_stem_inverse)
qed simp

lemma find_by_key:
  "distinct (map g xs) \<Longrightarrow> x \<in> set xs \<Longrightarrow> find (\<lambda>y. g y = g x) xs = Some x"
  by (induction xs) (auto simp: rev_image_eqI)

lemma find_task_list:
  assumes "store_wf dir p fs"
  shows "find (\<lambda>t. tk_id t = i) (task_list dir p fs) = stored_task dir fs (p, i)"
proof (cases "stored_task dir fs (p, i)")
  case None
  then have "find (\<lambda>t. tk_id t = i) (task_list dir p fs) = None"
    using task_list_iff [OF assms] by (auto simp: find_None_iff)
  with None show ?thesis by simp
next
  case (Some t)
  then have "tk_id t = i" using stored_task_keyed [OF assms] by blast
  with Some find_by_key [OF distinct_task_ids [OF assms], of t] show ?thesis
    by (simp add: task_list_iff [OF assms])
qed

text \<open>Writes that keep the listing well formed: a task under its own name, and any file outside
  the task directory.\<close>

lemma store_wf_saveTask:
  assumes wf: "store_wf dir p fs" and safe: "safe_id (tk_projectId t)" "safe_id (tk_id t)"
  shows "store_wf dir p (snd (saveTask dir t fs))"
proof -
  let ?new = "snd (saveTask dir t fs)"
  have entry: "existsSync ?new (tasks_dir dir p @ [name]) \<longleftrightarrow>
      (p = tk_projectId t \<and> name = tk_id t @ ''.json'') \<or> existsSync fs (tasks_dir dir p @ [name])" for name
    using safe ancestors_length [of "tasks_dir dir p @ [name]" "tasks_dir dir (tk_projectId t)"]
    by (auto simp: saveTask_safe exists_with_dir)
  have listed: "listed_task dir p ?new name =
      (if p = tk_projectId t \<and> name = tk_id t @ ''.json'' then Some t else listed_task dir p fs name)" for name
    using safe by (auto simp: listed_task_def saveTask_safe)
  have "existsSync ?new (tasks_dir dir (tk_projectId t))"
    "existsSync fs (tasks_dir dir p) \<Longrightarrow> existsSync ?new (tasks_dir dir p)"
    using safe by (auto simp: saveTask_safe exists_with_dir ancestors_self)
  with wf safe entry listed show ?thesis
    unfolding store_wf_iff good_entry_def by simp
qed

lemma store_wf_frame:
  assumes wf: "store_wf dir p fs" and "\<And>name. q \<noteq> tasks_dir dir p @ [name]" and "length d \<le> length dir + 2"
  shows "store_wf dir p (writeFileSync q m c (with_dir d fs))"
proof -
  have "tasks_dir dir p @ [name] \<notin> set (ancestors d)" for name
    using ancestors_length [of "tasks_dir dir p @ [name]" d] assms(3) by auto
  then have "existsSync (writeFileSync q m c (with_dir d fs)) (tasks_dir dir p @ [name]) \<longleftrightarrow>
      existsSync fs (tasks_dir dir p @ [name])" for name
    using assms(2) [of name] by (auto simp: exists_with_dir)
  moreover have "listed_task dir p (writeFileSync q m c (with_dir d fs)) name = listed_task dir p fs name" for name
    using assms(2) [of name] by (auto simp: listed_task_def)
  ultimately show ?thesis
    using wf unfolding store_wf_iff good_entry_def by (simp add: exists_with_dir)
qed

lemma saveProject_frame:
  assumes "safe_id (pr_id r)"
  shows "stored_task dir (snd (saveProject dir r fs)) k = stored_task dir fs k"
    and "store_wf dir p fs \<Longrightarrow> store_wf dir p (snd (saveProject dir r fs))"
proof -
  show "stored_task dir (snd (saveProject dir r fs)) k = stored_task dir fs k"
    using assms by (cases k, intro option_ext) (auto simp: stored_task_iff saveProject_safe)
  show "store_wf dir p fs \<Longrightarrow> store_wf dir p (snd (saveProject dir r fs))"
    using assms store_wf_frame [of dir p fs "dir @ [pr_id r, ''project.json'']" "dir @ [pr_id r]"]
    by (simp add: saveProject_safe)
qed

lemma saveTask_frame:
  "safe_id (tk_projectId t) \<Longrightarrow> safe_id (tk_id t) \<Longrightarrow>
     stored_project dir (snd (saveTask dir t fs)) p = stored_project dir fs p"
  by (intro option_ext) (auto simp: stored_project_iff saveTask_safe)

lemma read_saveTask:
  "read_file (snd (saveTask dir t fs)) q =
     (if safe_id (tk_projectId t) \<and> safe_id (tk_id t) \<and> q = task_path dir (tk_projectId t) (tk_id t)
      then Some (TaskFile t) else read_file fs q)"
proof (cases "safe_id (tk_projectId t)")
  case True
  show ?thesis
  proof (cases "safe_id (tk_id t)")
    case False
    then obtain e where "resolveTaskFile dir (tk_projectId t) (tk_id t) = Inl e"
      using resolveTaskFile_iff by (cases "resolveTaskFile dir (tk_projectId t) (tk_id t)") auto
    with True False show ?thesis
      by (simp add: saveTask_def resolve_safe ensure_dir_def bind_m_apply seq_m_apply)
  qed (simp add: True saveTask_safe)
next
  case False
  then obtain e where "sanitizeId (tk_projectId t) = Inl e" using sanitizeId_unsafe by blast
  with False show ?thesis by (simp add: saveTask_def resolve_defs bind_m_apply)
qed

lemma stored_saveTask:
  "stored_task dir (snd (saveTask dir t fs)) k =
     (if safe_id (tk_projectId t) \<and> safe_id (tk_id t) \<and> k = (tk_projectId t, tk_id t) then Some t else stored_task dir fs k)"
  "stored_project dir (snd (saveTask dir t fs)) p = stored_project dir fs p"
  by (cases k, intro option_ext, auto simp: stored_task_iff read_saveTask)
    (intro option_ext, auto simp: stored_project_iff read_saveTask)

lemma dep_done_stored:
  "store_wf dir p fs \<Longrightarrow> dep_done (task_list dir p fs) d \<longleftrightarrow>
     (case stored_task dir fs (p, d) of None \<Rightarrow> False | Some t \<Rightarrow> tk_status t = Done)"
  by (simp add: dep_done_def find_task_list)

section \<open>Properties\<close>

text \<open>C38. A saved task is read back unchanged, every other task and every project is untouched,
  the listing of its project holds it in place of its former version, and ids in a listing are
  distinct.\<close>

theorem task_save_load_list:
  assumes "store_wf dir (tk_projectId t) fs" and "safe_id (tk_id t)"
  shows "let fs' = snd (saveTask dir t fs); p = tk_projectId t; ts = task_list dir p fs in
    stored_task dir fs' (p, tk_id t) = Some t
    \<and> (\<forall>k. k \<noteq> (p, tk_id t) \<longrightarrow> stored_task dir fs' k = stored_task dir fs k)
    \<and> (\<forall>q. stored_project dir fs' q = stored_project dir fs q)
    \<and> (\<exists>ts'. listTasks dir p fs' = (Inr ts', fs') \<and> distinct (map tk_id ts')
         \<and> set ts' = insert t {u \<in> set ts. tk_id u \<noteq> tk_id t})"
proof -
  let ?fs = "snd (saveTask dir t fs)" and ?p = "tk_projectId t"
  from assms have safe: "safe_id ?p" "safe_id (tk_id t)" by (simp_all add: store_wf_def)
  then have wf: "store_wf dir ?p ?fs" using assms(1) by (simp add: store_wf_saveTask)
  have other: "stored_task dir ?fs k = stored_task dir fs k" if "k \<noteq> (?p, tk_id t)" for k
    using that safe by (cases k, intro option_ext) (auto simp: stored_task_iff saveTask_safe)
  have same: "stored_task dir ?fs (?p, tk_id t) = Some t"
    using tasks.load_save_same [of t dir fs] safe by simp
  have "u \<in> set (task_list dir ?p ?fs) \<longleftrightarrow> u = t \<or> (u \<in> set (task_list dir ?p fs) \<and> tk_id u \<noteq> tk_id t)" for u
    using other [of "(?p, tk_id u)"] same
    by (cases "tk_id u = tk_id t") (auto simp: task_list_iff [OF wf] task_list_iff [OF assms(1)])
  with same other wf safe show ?thesis
    by (auto simp: Let_def listTasks_wf distinct_task_ids saveTask_frame)
qed

theorem task_save_load_list_witness:
  "stored_task [''projects''] (snd (saveTask [''projects''] (sample_waiting None) (empty_fs :: unit state_fs)))
     (''p1'', ''t1'') = Some (sample_waiting None)"
  using task_save_load_list [of "[''projects'']" "sample_waiting None" "empty_fs :: unit state_fs"]
  by (simp add: Let_def sample_waiting_def createTaskRecord_def sample_draft_def store_wf_def empty_fs_def
      readdirSync_def safe_id_def id_char_def)


end
