(* ===== verification/Task_Claim.thy ===== *)
theory Task_Claim
  imports Project_Store
begin

text \<open>
  Claiming a task, \<^verbatim>\<open>src/projects/task-claim.ts\<close> with \<open>withFileLock\<close> of
  \<^verbatim>\<open>src/plugin-sdk/file-lock.ts\<close>. The lock itself is a third-party package; what it
  answers (acquired, or an error after its retries) is an argument.

  The claim is given twice: as the program one caller runs, and as a step relation in which
  several processes interleave their lock, scan, commit and release steps with each other and
  with the writes that do not take the lock (workers settling a task, the planner creating
  one, the operator approving one). Mutual exclusion is what the lock provides; that no
  task is claimed twice, and that a task is eligible when its claim is written, is proved.
\<close>

section \<open>Operations\<close>

datatype lock_answer = LockAcquired | LockFailed string

definition withFileLock :: "lock_answer \<Rightarrow> ('s, 'a) prog \<Rightarrow> ('s, 'a) prog" where
  "withFileLock answer fn = (case answer of LockAcquired \<Rightarrow> fn | LockFailed e \<Rightarrow> throw_m e)"

datatype claim_result = ClaimOk task | NoEligibleTask | ProjectMissing

definition resolveLockPath :: "path \<Rightarrow> string \<Rightarrow> string + path" where
  "resolveLockPath projectsDir projectId =
     map_sum id (\<lambda>d. d @ [''.tasks.lock'']) (resolveProjectDir projectsDir projectId)"

definition claimTask ::
  "path \<Rightarrow> string \<Rightarrow> worker_role \<Rightarrow> string \<Rightarrow> string \<Rightarrow> lock_answer \<Rightarrow> ('x state_fs, claim_result) prog" where
  "claimTask projectsDir projectId role claimedBy ts lock =
     bind_m (lift_m (resolveLockPath projectsDir projectId)) (\<lambda>lockPath.
     withFileLock lock
      (bind_m (listTasks projectsDir projectId) (\<lambda>tasks.
         if tasks = [] then return_m NoEligibleTask
         else case findEligibleTask tasks role of
             None \<Rightarrow> return_m NoEligibleTask
           | Some eligible \<Rightarrow>
               let claimed = markTaskClaimed eligible claimedBy ts
               in seq_m (saveTask projectsDir claimed) (return_m (ClaimOk claimed)))))"

section \<open>One caller\<close>

lemma claimTask_wf:
  assumes "store_wf dir p fs"
  shows "claimTask dir p role who ts LockAcquired fs =
    (case findEligibleTask (task_list dir p fs) role of
       None \<Rightarrow> (Inr NoEligibleTask, fs)
     | Some e \<Rightarrow> (Inr (ClaimOk (markTaskClaimed e who ts)),
         snd (saveTask dir (markTaskClaimed e who ts) fs)))"
proof -
  let ?ts = "task_list dir p fs"
  have p: "safe_id p" using assms by (simp add: store_wf_def)
  have save: "fst (saveTask dir (markTaskClaimed e who ts) fs) = Inr ()" if "findEligibleTask ?ts role = Some e" for e
  proof -
    from findEligibleTask_Some(1) [OF that] have "stored_task dir fs (p, tk_id e) = Some e"
      by (simp add: task_list_iff [OF assms])
    from stored_task_keyed [OF assms this] p show ?thesis by (simp add: saveTask_safe markTaskClaimed_def)
  qed
  have empty: "?ts = [] \<Longrightarrow> findEligibleTask ?ts role = None" by (simp add: findEligibleTask_None_iff)
  show ?thesis
    using save empty p
    by (cases "findEligibleTask ?ts role")
      (auto simp: claimTask_def resolveLockPath_def resolve_safe bind_m_apply seq_m_apply withFileLock_def
        listTasks_wf [OF assms] Let_def split: prod.splits sum.splits)
qed

text \<open>Every caller keeps every project's task directory well formed, also on the error paths.\<close>

lemma store_wf_with_dir:
  assumes "store_wf dir p fs" and "length d \<le> length dir + 2"
  shows "store_wf dir p (with_dir d fs)"
proof -
  have "tasks_dir dir p @ [name] \<notin> set (ancestors d)" for name
    using ancestors_length [of "tasks_dir dir p @ [name]" d] assms(2) by auto
  then have "existsSync (with_dir d fs) (tasks_dir dir p @ [name]) \<longleftrightarrow>
      existsSync fs (tasks_dir dir p @ [name])" for name
    by (auto simp: exists_with_dir)
  moreover have "listed_task dir p (with_dir d fs) name = listed_task dir p fs name" for name
    by (simp add: listed_task_def)
  ultimately show ?thesis
    using assms(1) unfolding store_wf_iff good_entry_def by (simp add: exists_with_dir)
qed

lemma saveTask_keeps_wf [preserves_intros]: "preserves (store_wf dir p) (saveTask dir t)"
proof (rule preservesI)
  fix fs :: "'x state_fs"
  assume wf: "store_wf dir p fs"
  consider "safe_id (tk_projectId t)" "safe_id (tk_id t)"
    | "safe_id (tk_projectId t)" "\<not> safe_id (tk_id t)" | "\<not> safe_id (tk_projectId t)" by blast
  then show "store_wf dir p (snd (saveTask dir t fs))"
  proof cases
    case 1
    then show ?thesis using wf by (simp add: store_wf_saveTask)
  next
    case 2
    then obtain e where "resolveTaskFile dir (tk_projectId t) (tk_id t) = Inl e"
      using resolveTaskFile_iff by (cases "resolveTaskFile dir (tk_projectId t) (tk_id t)") auto
    then have "snd (saveTask dir t fs) = with_dir (tasks_dir dir (tk_projectId t)) fs"
      using 2 by (simp add: saveTask_def resolve_safe ensure_dir_def bind_m_apply seq_m_apply with_dir_def)
    then show ?thesis using store_wf_with_dir [OF wf] by simp
  next
    case 3
    then obtain e where "sanitizeId (tk_projectId t) = Inl e" using sanitizeId_unsafe by blast
    then show ?thesis using wf by (simp add: saveTask_def resolve_defs bind_m_apply)
  qed
qed

lemma listTasks_keeps [preserves_intros]: "preserves P (listTasks dir p)"
  unfolding listTasks_def loadTask_def by (intro preserves_intros)

lemma loadProject_keeps [preserves_intros]: "preserves P (loadProject dir p)"
  unfolding loadProject_def by (intro preserves_intros)

lemma claimTask_keeps_wf [preserves_intros]:
  "preserves (store_wf dir p) (claimTask dir q role who ts lock)"
  unfolding claimTask_def withFileLock_def Let_def
  by (cases lock) (auto intro!: preserves_intros)

section \<open>Competing processes\<close>

datatype claim_pc =
    Outside
  | Locked worker_role
  | Scanned "task option"
  | Committed

record 'x claim_state =
  cs_fs :: "'x state_fs"
  cs_holder :: "nat option"
  cs_pc :: "nat \<Rightarrow> claim_pc"
  cs_claims :: "(nat \<times> task) list"

text \<open>
  One step, for the project \<open>p\<close> in \<open>dir\<close>. A process is a number, \<open>who\<close> its
  \<open>claimedBy\<close> string; \<open>cs_claims\<close> records the claims returned to callers. The last three rules are the
  writers that do not take the lock.
\<close>

inductive claim_step :: "path \<Rightarrow> string \<Rightarrow> 'x claim_state \<Rightarrow> 'x claim_state \<Rightarrow> bool"
  for dir p where
  acquire: "cs_holder s = None \<Longrightarrow> cs_pc s q = Outside \<Longrightarrow>
    claim_step dir p s (s\<lparr>cs_holder := Some q, cs_pc := (cs_pc s)(q := Locked role)\<rparr>)"
| scan: "cs_pc s q = Locked role \<Longrightarrow> listTasks dir p (cs_fs s) = (Inr tasks, fs) \<Longrightarrow>
    claim_step dir p s (s\<lparr>cs_pc := (cs_pc s)(q := Scanned (findEligibleTask tasks role))\<rparr>)"
| commit: "cs_pc s q = Scanned (Some e) \<Longrightarrow> saveTask dir (markTaskClaimed e who ts) (cs_fs s) = (Inr (), fs) \<Longrightarrow>
    claim_step dir p s (s\<lparr>cs_fs := fs, cs_pc := (cs_pc s)(q := Committed),
      cs_claims := cs_claims s @ [(q, markTaskClaimed e who ts)]\<rparr>)"
| release: "cs_pc s q = Scanned None \<or> cs_pc s q = Committed \<Longrightarrow>
    claim_step dir p s (s\<lparr>cs_holder := None, cs_pc := (cs_pc s)(q := Outside)\<rparr>)"
| finish: "stored_task dir (cs_fs s) (p, i) = Some t \<Longrightarrow> task_step t ev u \<Longrightarrow> tk_status t = InProgress \<Longrightarrow>
    tk_status u \<in> set [Done, Review, Failed] \<Longrightarrow> saveTask dir u (cs_fs s) = (Inr (), fs) \<Longrightarrow>
    claim_step dir p s (s\<lparr>cs_fs := fs\<rparr>)"
| create: "stored_task dir (cs_fs s) (p, tk_id t) = None \<Longrightarrow> tk_projectId t = p \<Longrightarrow> safe_id (tk_id t) \<Longrightarrow>
    saveTask dir t (cs_fs s) = (Inr (), fs) \<Longrightarrow>
    claim_step dir p s (s\<lparr>cs_fs := fs\<rparr>)"
| approve: "stored_task dir (cs_fs s) (p, i) = Some t \<Longrightarrow> tk_status t = Backlog \<Longrightarrow>
    saveTask dir (approveTaskForQueue t) (cs_fs s) = (Inr (), fs) \<Longrightarrow>
    claim_step dir p s (s\<lparr>cs_fs := fs\<rparr>)"

definition claim_init :: "path \<Rightarrow> string \<Rightarrow> 'x claim_state \<Rightarrow> bool" where
  "claim_init dir p s \<longleftrightarrow>
     store_wf dir p (cs_fs s) \<and> cs_holder s = None \<and> cs_pc s = (\<lambda>_. Outside) \<and> cs_claims s = []"

text \<open>A claimed task left the queue, a scanned one is still eligible, and only the lock's holder
  is inside.\<close>

definition left_queue :: "path \<Rightarrow> string \<Rightarrow> 'x state_fs \<Rightarrow> string \<Rightarrow> bool" where
  "left_queue dir p fs i \<longleftrightarrow>
     (\<exists>t. stored_task dir fs (p, i) = Some t \<and> tk_status t \<notin> set [Queued, Backlog])"

definition still_eligible :: "path \<Rightarrow> string \<Rightarrow> 'x state_fs \<Rightarrow> task \<Rightarrow> bool" where
  "still_eligible dir p fs e \<longleftrightarrow>
     stored_task dir fs (p, tk_id e) = Some e \<and> isTaskEligibleForPickup e (task_list dir p fs)"

definition claim_inv :: "path \<Rightarrow> string \<Rightarrow> 'x claim_state \<Rightarrow> bool" where
  "claim_inv dir p s \<longleftrightarrow>
     store_wf dir p (cs_fs s)
     \<and> (\<forall>q. cs_pc s q \<noteq> Outside \<longrightarrow> cs_holder s = Some q)
     \<and> (\<forall>q e. cs_pc s q = Scanned (Some e) \<longrightarrow> still_eligible dir p (cs_fs s) e)
     \<and> (\<forall>c \<in> set (cs_claims s). left_queue dir p (cs_fs s) (tk_id (snd c)))
     \<and> distinct (map (tk_id \<circ> snd) (cs_claims s))"

text \<open>A write that does not undo a completion and does not touch a waiting task keeps both facts.\<close>

definition progress_write :: "path \<Rightarrow> string \<Rightarrow> 'x state_fs \<Rightarrow> task \<Rightarrow> bool" where
  "progress_write dir p fs u \<longleftrightarrow>
     tk_projectId u = p \<and> safe_id (tk_id u)
     \<and> (case stored_task dir fs (p, tk_id u) of
          None \<Rightarrow> True
        | Some t \<Rightarrow> (tk_status t = InProgress \<and> tk_status u \<notin> set [Queued, Backlog])
            \<or> tk_status t = Backlog)"

lemma saved_task:
  assumes "store_wf dir p fs" "tk_projectId u = p" "safe_id (tk_id u)"
  shows "store_wf dir p (snd (saveTask dir u fs))"
    and "stored_task dir (snd (saveTask dir u fs)) (p, i) =
      (if i = tk_id u then Some u else stored_task dir fs (p, i))"
proof -
  have p: "safe_id p" using assms(1) by (simp add: store_wf_def)
  then show "store_wf dir p (snd (saveTask dir u fs))" using assms by (simp add: store_wf_saveTask)
  show "stored_task dir (snd (saveTask dir u fs)) (p, i) =
      (if i = tk_id u then Some u else stored_task dir fs (p, i))"
    using assms p by (intro option_ext) (auto simp: stored_task_iff saveTask_safe)
qed

lemma progress_keeps:
  assumes wf: "store_wf dir p fs" and w: "progress_write dir p fs u"
  shows "store_wf dir p (snd (saveTask dir u fs))"
    and "left_queue dir p fs i \<Longrightarrow> left_queue dir p (snd (saveTask dir u fs)) i"
    and "still_eligible dir p fs e \<Longrightarrow> still_eligible dir p (snd (saveTask dir u fs)) e"
proof -
  let ?fs = "snd (saveTask dir u fs)"
  from w have u: "tk_projectId u = p" "safe_id (tk_id u)" by (simp_all add: progress_write_def)
  note new = saved_task [OF wf u]
  show "store_wf dir p ?fs" by (rule new)
  show "left_queue dir p fs i \<Longrightarrow> left_queue dir p ?fs i"
    using w by (auto simp: left_queue_def new(2) progress_write_def split: option.splits)
  have mono: "dep_done (task_list dir p fs) d \<Longrightarrow> dep_done (task_list dir p ?fs) d" for d
    using w unfolding dep_done_stored [OF wf] dep_done_stored [OF new(1)]
    by (auto simp: new(2) progress_write_def split: option.splits)
  assume e: "still_eligible dir p fs e"
  then have "tk_status e = Queued" by (simp add: still_eligible_def eligible_iff)
  with w e have "tk_id u \<noteq> tk_id e"
    by (auto simp: still_eligible_def progress_write_def)
  with e mono show "still_eligible dir p ?fs e"
    by (auto simp: still_eligible_def eligible_iff new(2) list_all_iff)
qed

lemma claim_inv_write:
  assumes "claim_inv dir p s" and "progress_write dir p (cs_fs s) u"
  shows "claim_inv dir p (s\<lparr>cs_fs := snd (saveTask dir u (cs_fs s))\<rparr>)"
  using assms progress_keeps [OF _ assms(2)] by (simp add: claim_inv_def)

lemma claim_inv_scan:
  assumes inv: "claim_inv dir p s" and pc: "cs_pc s q = Locked role"
    and "listTasks dir p (cs_fs s) = (Inr tasks, fs)"
  shows "claim_inv dir p (s\<lparr>cs_pc := (cs_pc s)(q := Scanned (findEligibleTask tasks role))\<rparr>)"
proof -
  from inv have wf: "store_wf dir p (cs_fs s)" by (simp add: claim_inv_def)
  with assms(3) have ts: "tasks = task_list dir p (cs_fs s)" by (auto simp: listTasks_wf)
  have "still_eligible dir p (cs_fs s) e" if "findEligibleTask tasks role = Some e" for e
    using findEligibleTask_Some [OF that] by (simp add: still_eligible_def ts task_list_iff [OF wf])
  with inv pc show ?thesis by (auto simp: claim_inv_def)
qed

lemma claim_inv_commit:
  assumes inv: "claim_inv dir p s" and pc: "cs_pc s q = Scanned (Some e)"
  shows "claim_inv dir p (s\<lparr>cs_fs := snd (saveTask dir (markTaskClaimed e who ts) (cs_fs s)),
    cs_pc := (cs_pc s)(q := Committed), cs_claims := cs_claims s @ [(q, markTaskClaimed e who ts)]\<rparr>)"
proof -
  let ?c = "markTaskClaimed e who ts" and ?fs = "snd (saveTask dir (markTaskClaimed e who ts) (cs_fs s))"
  from inv have wf: "store_wf dir p (cs_fs s)" by (simp add: claim_inv_def)
  from inv pc have e: "still_eligible dir p (cs_fs s) e" by (auto simp: claim_inv_def)
  then have stored: "stored_task dir (cs_fs s) (p, tk_id e) = Some e" and queued: "tk_status e = Queued"
    by (simp_all add: still_eligible_def eligible_iff)
  have c: "tk_id ?c = tk_id e" "tk_projectId ?c = p" "safe_id (tk_id ?c)" "tk_status ?c = InProgress"
    using stored_task_keyed [OF wf stored] by (simp_all add: markTaskClaimed_def)
  note new = saved_task [OF wf c(2,3)]
  have fresh: "tk_id e \<notin> (tk_id \<circ> snd) ` set (cs_claims s)"
    using inv stored queued by (auto simp: claim_inv_def left_queue_def)
  have holder: "cs_holder s = Some q" using inv pc by (auto simp: claim_inv_def)
  have left: "left_queue dir p ?fs i" if "i = tk_id e \<or> left_queue dir p (cs_fs s) i" for i
    using that c by (auto simp: left_queue_def new(2))
  have only: "cs_pc s r = Outside" if "r \<noteq> q" for r
    using inv pc that by (metis claim_inv_def claim_pc.distinct(3) option.inject)
  from inv only fresh holder left new(1) c(1) show ?thesis
    by (auto simp: claim_inv_def)
qed

lemma claim_step_inv:
  assumes "claim_inv dir p s" and "claim_step dir p s s'"
  shows "claim_inv dir p s'"
  using assms(2)
proof cases
  case (acquire q role)
  with assms(1) show ?thesis by (auto simp: claim_inv_def)
next
  case (scan q role tasks fs)
  with assms(1) show ?thesis by (simp add: claim_inv_scan)
next
  case (commit q e who ts fs)
  with claim_inv_commit [OF assms(1) commit(2), of who ts] show ?thesis by simp
next
  case (release q)
  with assms(1) have "cs_pc s r = Outside" if "r \<noteq> q" for r
    using that by (metis claim_inv_def claim_pc.distinct(3,5) option.inject)
  with release assms(1) show ?thesis by (auto simp: claim_inv_def)
next
  case (finish i t ev u fs)
  have wf: "store_wf dir p (cs_fs s)" using assms(1) by (simp add: claim_inv_def)
  note t = stored_task_keyed [OF wf finish(2)]
  have "tk_id u = tk_id t" "tk_projectId u = tk_projectId t" using task_step_ids [OF finish(3)] by simp_all
  with finish t have "progress_write dir p (cs_fs s) u" by (auto simp: progress_write_def)
  from claim_inv_write [OF assms(1) this] finish show ?thesis by simp
next
  case (create t fs)
  then have "progress_write dir p (cs_fs s) t" by (simp add: progress_write_def)
  from claim_inv_write [OF assms(1) this] create show ?thesis by simp
next
  case (approve i t fs)
  have wf: "store_wf dir p (cs_fs s)" using assms(1) by (simp add: claim_inv_def)
  note t = stored_task_keyed [OF wf approve(2)]
  have "tk_id (approveTaskForQueue t) = tk_id t" "tk_projectId (approveTaskForQueue t) = tk_projectId t"
    by (simp_all add: transition_defs)
  with approve t have "progress_write dir p (cs_fs s) (approveTaskForQueue t)"
    by (simp add: progress_write_def)
  from claim_inv_write [OF assms(1) this] approve show ?thesis by simp
qed

interpretation claim_machine: inductive_invariant "claim_init dir p" "claim_step dir p" "claim_inv dir p"
  for dir p
proof unfold_locales
  show "claim_init dir p s \<Longrightarrow> claim_inv dir p s" for s :: "'x claim_state"
    by (simp add: claim_init_def claim_inv_def)
  show "claim_inv dir p s \<Longrightarrow> claim_step dir p s s' \<Longrightarrow> claim_inv dir p s'" for s s' :: "'x claim_state"
    by (rule claim_step_inv)
qed

section \<open>Properties\<close>


definition sample_store :: "unit state_fs" where
  "sample_store = snd (saveTask [''projects''] (sample_waiting None) empty_fs)"

lemma sample_store_wf: "store_wf [''projects''] ''p1'' sample_store"
  by code_simp

definition sample_claims :: "unit claim_state" where
  "sample_claims = \<lparr>cs_fs = snd (saveTask [''projects''] (markTaskClaimed (sample_waiting None) ''w'' ''t'') sample_store),
     cs_holder = Some 0, cs_pc = ((\<lambda>_. Outside)(0 := Committed)),
     cs_claims = [(0, markTaskClaimed (sample_waiting None) ''w'' ''t'')]\<rparr>"

lemma sample_claims_reachable:
  "reachable (claim_init [''projects''] ''p1'') (claim_step [''projects''] ''p1'') sample_claims"
proof -
  let ?d = "[''projects'']" and ?c = "markTaskClaimed (sample_waiting None) ''w'' ''t''"
  let ?s0 = "\<lparr>cs_fs = sample_store, cs_holder = None, cs_pc = (\<lambda>_. Outside), cs_claims = []\<rparr>"
  let ?s1 = "?s0\<lparr>cs_holder := Some 0, cs_pc := (\<lambda>_. Outside)(0 := Locked Writer)\<rparr>"
  let ?s2 = "?s1\<lparr>cs_pc := (\<lambda>_. Outside)(0 := Scanned (Some (sample_waiting None)))\<rparr>"
  have "claim_init ?d ''p1'' ?s0" by (simp add: claim_init_def sample_store_wf)
  then have r0: "reachable (claim_init ?d ''p1'') (claim_step ?d ''p1'') ?s0" by (rule reach_init)
  have "claim_step ?d ''p1'' ?s0 ?s1" using acquire [of ?s0 0 ?d "''p1''" Writer] by simp
  with r0 have r1: "reachable (claim_init ?d ''p1'') (claim_step ?d ''p1'') ?s1" by (rule reach_step)
  have l: "listTasks ?d ''p1'' sample_store = (Inr [sample_waiting None], sample_store)" by code_simp
  have f: "findEligibleTask [sample_waiting None] Writer = Some (sample_waiting None)" by code_simp
  have "claim_step ?d ''p1'' ?s1 ?s2" using scan [of ?s1 0 Writer ?d "''p1''", simplified, OF l] f by simp
  with r1 have r2: "reachable (claim_init ?d ''p1'') (claim_step ?d ''p1'') ?s2" by (rule reach_step)
  have "fst (saveTask ?d ?c sample_store) = Inr ()" by code_simp
  then have sv: "saveTask ?d ?c sample_store = (Inr (), snd (saveTask ?d ?c sample_store))"
    by (metis prod.collapse)
  have "claim_step ?d ''p1'' ?s2 sample_claims"
    using commit [of ?s2 0 "sample_waiting None" ?d "''w''" "''t''" _ "''p1''", simplified, OF sv]
    by (simp add: sample_claims_def)
  with r2 show ?thesis by (rule reach_step)
qed


text \<open>What one claim does: with the lock acquired and a well-formed task directory it takes
  exactly the task \<open>findEligibleTask\<close> chooses from the listing, marks it in progress for the
  caller and counts the attempt, and every other task stays as it was; without an eligible task, or
  when the lock is not acquired, the store is unchanged.\<close>

lemma claim_takes_chosen_task:
  assumes "store_wf dir p fs"
  shows "case claimTask dir p role who ts lock fs of
      (Inr (ClaimOk t), fs') \<Rightarrow>
        (\<exists>e. findEligibleTask (task_list dir p fs) role = Some e \<and> t = markTaskClaimed e who ts
           \<and> stored_task dir fs (p, tk_id e) = Some e
           \<and> store_wf dir p fs'
           \<and> (\<forall>i. stored_task dir fs' (p, i) = (if i = tk_id e then Some t else stored_task dir fs (p, i))))
    | (Inr r, fs') \<Rightarrow> r = NoEligibleTask \<and> fs' = fs \<and> findEligibleTask (task_list dir p fs) role = None
    | (Inl err, fs') \<Rightarrow> lock = LockFailed err \<and> fs' = fs"
proof (cases lock)
  case (LockFailed err)
  then show ?thesis
    using assms by (simp add: claimTask_def resolveLockPath_def resolve_safe bind_m_apply withFileLock_def store_wf_def)
next
  case LockAcquired
  show ?thesis
  proof (cases "findEligibleTask (task_list dir p fs) role")
    case None
    with LockAcquired show ?thesis by (simp add: claimTask_wf [OF assms])
  next
    case (Some e)
    then have stored: "stored_task dir fs (p, tk_id e) = Some e"
      using findEligibleTask_Some(1) [OF Some] by (simp add: task_list_iff [OF assms])
    from stored_task_keyed [OF assms this]
    have "tk_projectId (markTaskClaimed e who ts) = p" "safe_id (tk_id (markTaskClaimed e who ts))"
      by (simp_all add: markTaskClaimed_def)
    note saved_task [OF assms this]
    with Some stored LockAcquired show ?thesis by (simp add: claimTask_wf [OF assms] markTaskClaimed_def)
  qed
qed

lemma claim_takes_chosen_task_witness:
  "fst (claimTask [''projects''] ''p1'' Writer ''w'' ''t'' LockAcquired sample_store) =
     Inr (ClaimOk (markTaskClaimed (sample_waiting None) ''w'' ''t''))"
proof -
  have f: "findEligibleTask (task_list [''projects''] ''p1'' sample_store) Writer = Some (sample_waiting None)"
    by code_simp
  show ?thesis
    using claim_takes_chosen_task [OF sample_store_wf, where role = Writer and who = "''w''" and ts = "''t''"
        and lock = LockAcquired] f
    by (auto split: prod.splits sum.splits claim_result.splits)
qed

end
