(* ===== verification/Project_Audit.thy ===== *)
theory Project_Audit
  imports Task_Claim Audit_Log
begin

text \<open>
  The world the projects code acts on, and \<^verbatim>\<open>src/projects/audit.ts\<close>: every transition
  appends a hash-chained entry under the \<open>projects.*\<close> namespace.

  The world holds the state directory, the audit log, the replies sent, and counters that
  index the environment's answers (clock, audit clock, lock, message sends, random ids), so each
  consultation may answer differently. An append may fail with an I/O error, which is thrown
  to the caller.
\<close>

section \<open>World and environment\<close>

record channel_reply_params =
  cr_channel :: string
  cr_to :: string
  cr_accountId :: "string option"
  cr_threadId :: "string option"
  cr_text :: string

record 'x world =
  w_fs :: "'x state_fs"
  w_log :: "log_line list"
  w_clock :: nat
  w_appends :: nat
  w_locks :: nat
  w_sends :: nat
  w_sent :: "channel_reply_params list"
  w_ids :: nat

record env =
  e_projectsDir :: path
  e_auditLogPath :: "string option"
  e_now :: "nat \<Rightarrow> string"
  e_sha :: "string \<Rightarrow> string"
  e_auditTs :: "nat \<Rightarrow> string"
  e_auditThrows :: "nat \<Rightarrow> string option"
  e_uuid :: "nat \<Rightarrow> string"

text \<open>Running a store operation on the world's state directory, and reading the clock.\<close>

definition on_fs :: "('x state_fs, 'a) prog \<Rightarrow> ('x world, 'a) prog" where
  "on_fs m = (\<lambda>w. case m (w_fs w) of (r, fs) \<Rightarrow> (r, w\<lparr>w_fs := fs\<rparr>))"

definition now_m :: "'e env_scheme \<Rightarrow> ('x world, string) prog" where
  "now_m env = (\<lambda>w. (Inr (e_now env (w_clock w)), w\<lparr>w_clock := Suc (w_clock w)\<rparr>))"

text \<open>\<open>randomUUID()\<close>\<close>

definition randomUUID :: "'e env_scheme \<Rightarrow> ('x world, string) prog" where
  "randomUUID env = (\<lambda>w. (Inr (e_uuid env (w_ids w)), w\<lparr>w_ids := Suc (w_ids w)\<rparr>))"

text \<open>A consultation of what lies outside the program (a language model, a generated module): a fresh
  index into the environment's answers.\<close>

definition consult :: "('x world, nat) prog" where
  "consult = (\<lambda>w. (Inr (w_ids w), w\<lparr>w_ids := Suc (w_ids w)\<rparr>))"

section \<open>Audit events\<close>

datatype projects_audit_kind =
    KProjectCreated | KProjectArchived | KIterationStarted | KGoalAchieved | KStuck
  | KCapRequested | KCapCodeGenerated | KCapActivated | KCapDeactivated | KCapLoaded | KCapUnloaded
  | KTaskCreated | KTaskQueued | KTaskClaimed | KTaskCompleted | KTaskInReview | KTaskFailed
  | KTaskBlocked | KTaskApproved

definition audit_kind_name :: "projects_audit_kind \<Rightarrow> string" where
  "audit_kind_name k = ''projects.'' @ (case k of
      KProjectCreated \<Rightarrow> ''project.created'' | KProjectArchived \<Rightarrow> ''project.archived''
    | KIterationStarted \<Rightarrow> ''project.iteration_started'' | KGoalAchieved \<Rightarrow> ''project.goal_achieved''
    | KStuck \<Rightarrow> ''project.stuck'' | KCapRequested \<Rightarrow> ''capability.requested''
    | KCapCodeGenerated \<Rightarrow> ''capability.code_generated'' | KCapActivated \<Rightarrow> ''capability.activated''
    | KCapDeactivated \<Rightarrow> ''capability.deactivated'' | KCapLoaded \<Rightarrow> ''capability.loaded''
    | KCapUnloaded \<Rightarrow> ''capability.unloaded'' | KTaskCreated \<Rightarrow> ''task.created''
    | KTaskQueued \<Rightarrow> ''task.queued'' | KTaskClaimed \<Rightarrow> ''task.claimed''
    | KTaskCompleted \<Rightarrow> ''task.completed'' | KTaskInReview \<Rightarrow> ''task.in_review''
    | KTaskFailed \<Rightarrow> ''task.failed'' | KTaskBlocked \<Rightarrow> ''task.blocked''
    | KTaskApproved \<Rightarrow> ''task.approved'')"

definition emitProjectsAuditEvent ::
  "'e env_scheme \<Rightarrow> projects_audit_kind \<Rightarrow> json_object \<Rightarrow> ('x world, unit) prog" where
  "emitProjectsAuditEvent env kind payload = (\<lambda>w.
     let n = w_appends w; w1 = w\<lparr>w_appends := Suc n\<rparr>
     in case e_auditThrows env n of
          Some e \<Rightarrow> (Inl e, w1)
        | None \<Rightarrow> (Inr (), w1\<lparr>w_log := snd (appendAuditLog (e_sha env) (e_auditTs env n)
            (audit_kind_name kind, payload) (w_log w))\<rparr>))"

definition task_status_name :: "task_status \<Rightarrow> string" where
  "task_status_name s =
     (case s of Backlog \<Rightarrow> ''backlog'' | Queued \<Rightarrow> ''queued'' | InProgress \<Rightarrow> ''in-progress''
      | Review \<Rightarrow> ''review'' | Done \<Rightarrow> ''done'' | Blocked \<Rightarrow> ''blocked'' | Failed \<Rightarrow> ''failed'')"

definition priority_name :: "priority \<Rightarrow> string" where
  "priority_name p =
     (case p of Low \<Rightarrow> ''low'' | Normal \<Rightarrow> ''normal'' | High \<Rightarrow> ''high'' | Urgent \<Rightarrow> ''urgent'')"

definition opt_field :: "string \<Rightarrow> string option \<Rightarrow> json_object" where
  "opt_field k v = (if truthy v then [(k, JStr (the v))] else [])"

definition redactOrigin :: "task_origin \<Rightarrow> json_object" where
  "redactOrigin origin =
     (case origin of
        ChannelOrigin c \<Rightarrow>
          [(''kind'', JStr ''channel''), (''channel'', JStr (ch_channel c))]
          @ opt_field ''accountId'' (ch_accountId c) @ opt_field ''threadId'' (ch_threadId c)
          @ opt_field ''authorDisplayName'' (map_option (take 64) (ch_authorDisplayName c))
      | PlannerOrigin runId \<Rightarrow> [(''kind'', JStr ''planner''), (''runId'', JStr runId)]
      | OperatorOrigin \<Rightarrow> [(''kind'', JStr ''operator'')])"

definition summarizeTaskForAudit :: "task \<Rightarrow> json_object" where
  "summarizeTaskForAudit t =
     [(''projectId'', JStr (tk_projectId t)), (''taskId'', JStr (tk_id t)),
      (''role'', JStr (role_name (tk_role t))), (''status'', JStr (task_status_name (tk_status t))),
      (''priority'', JStr (priority_name (tk_priority t))), (''attempts'', JNum (int (tk_attempts t))),
      (''origin'', JObj (redactOrigin (tk_origin t)))]"

text \<open>The wrapper each caller has: nothing is emitted without a log path.\<close>

definition audit_if :: "'e env_scheme \<Rightarrow> projects_audit_kind \<Rightarrow> json_object \<Rightarrow> ('x world, unit) prog" where
  "audit_if env kind payload =
     (if truthy (e_auditLogPath env) then emitProjectsAuditEvent env kind payload else return_m ())"

section \<open>Facts\<close>

definition log_ok :: "'e env_scheme \<Rightarrow> 'x world \<Rightarrow> bool" where
  "log_ok env w \<longleftrightarrow> (\<exists>n. verifyAuditLog (e_sha env) (w_log w) = VerifyOk n)"

lemma emit_log_ok [preserves_intros]: "preserves (log_ok env) (emitProjectsAuditEvent env k p)"
  by (rule preservesI)
    (auto simp: emitProjectsAuditEvent_def log_ok_def Let_def dest: verify_append_step split: option.splits)

lemma audit_if_preserves [preserves_intros]:
  "preserves P (emitProjectsAuditEvent env k p) \<Longrightarrow> preserves P (audit_if env k p)"
  by (simp add: audit_if_def preserves_return)

lemma on_fs_log_ok [preserves_intros]: "preserves (log_ok env) (on_fs m)"
  by (rule preservesI) (simp add: on_fs_def log_ok_def split: prod.splits)

lemma now_log_ok [preserves_intros]: "preserves (log_ok env) (now_m env')"
  by (rule preservesI) (simp add: now_m_def log_ok_def)

lemma uuid_log_ok [preserves_intros]: "preserves (log_ok env) (randomUUID env')"
  by (rule preservesI) (simp add: randomUUID_def log_ok_def)

text \<open>An invariant of the state directory, lifted to the world.\<close>

definition fs_inv :: "('x state_fs \<Rightarrow> bool) \<Rightarrow> 'x world \<Rightarrow> bool" where
  "fs_inv P w \<longleftrightarrow> P (w_fs w)"

lemma on_fs_inv: "preserves P m \<Longrightarrow> preserves (fs_inv P) (on_fs m)"
  by (auto simp: preserves_def on_fs_def fs_inv_def split: prod.splits)

lemma emit_fs_inv [preserves_intros]: "preserves (fs_inv P) (emitProjectsAuditEvent env k p)"
  by (rule preservesI) (simp add: emitProjectsAuditEvent_def fs_inv_def Let_def split: option.splits)

lemma now_fs_inv [preserves_intros]: "preserves (fs_inv P) (now_m env)"
  by (rule preservesI) (simp add: now_m_def fs_inv_def)

lemma uuid_fs_inv [preserves_intros]: "preserves (fs_inv P) (randomUUID env)"
  by (rule preservesI) (simp add: randomUUID_def fs_inv_def)

lemma consult_log_ok [preserves_intros]: "preserves (log_ok env) consult"
  by (rule preservesI) (simp add: consult_def log_ok_def)

lemma consult_fs_inv [preserves_intros]: "preserves (fs_inv P) consult"
  by (rule preservesI) (simp add: consult_def fs_inv_def)

lemma on_fs_apply: "on_fs m w = (fst (m (w_fs w)), w\<lparr>w_fs := snd (m (w_fs w))\<rparr>)"
  by (simp add: on_fs_def split: prod.splits)

lemma audit_if_quiet:
  assumes "\<And>n. e_auditThrows env n = None"
  obtains w' where "audit_if env k p w = (Inr (), w')" "w_fs w' = w_fs w" "w_clock w' = w_clock w"
proof -
  have "\<exists>w'. audit_if env k p w = (Inr (), w') \<and> w_fs w' = w_fs w \<and> w_clock w' = w_clock w"
    using assms by (simp add: audit_if_def emitProjectsAuditEvent_def Let_def)
  with that show ?thesis by blast
qed

lemma audit_if_fs: "w_fs (snd (audit_if env k pl w)) = w_fs w"
  using preservesD [OF audit_if_preserves [OF emit_fs_inv], of "\<lambda>fs. fs = w_fs w" w env k pl] by (simp add: fs_inv_def)

end
