(* ===== verification/Planner.thy ===== *)
theory Planner
  imports Project_Audit
begin

text \<open>
  The planner, \<^verbatim>\<open>src/projects/planner.ts\<close>: reading the model's reply into task drafts
  (\<open>parsePlannerResponse\<close>, from the raw text) and persisting a plan with fresh task ids and
  remapped dependencies (\<open>persistPlan\<close>). What the model answers to a prompt is an
  argument of \<open>plan\<close>; the prompts are in \<open>Prompts\<close>.
\<close>

section \<open>Types\<close>

text \<open>A draft with the hidden \<open>_localId\<close> the parser attaches.\<close>

record planned_draft = task_draft +
  d_localId :: "string option"

record plan_result =
  pl_tasks :: "planned_draft list"
  pl_summary :: "string option"

text \<open>What a re-planning round tells the planner; the iteration is a JSON number.\<close>

record planner_prior_context =
  pc_iteration :: json
  pc_goal :: string
  pc_evaluatorFeedback :: string
  pc_priorResultsSummary :: string

record plan_request =
  pq_projectId :: string
  pq_prompt :: string
  pq_origin :: task_origin
  pq_existing :: "task list"
  pq_priorContext :: "planner_prior_context option"

definition KNOWN_ROLES :: "worker_role list" where
  "KNOWN_ROLES = [Researcher, Writer, Editor, Publisher, EmailHandler, CapabilityBroker, SelfCoder, CapabilityRunner]"

definition KNOWN_PRIORITIES :: "priority list" where
  "KNOWN_PRIORITIES = [Low, Normal, High, Urgent]"

definition DEFAULT_MAX_TASKS :: nat where
  "DEFAULT_MAX_TASKS = 8"

definition role_of :: "string \<Rightarrow> worker_role option" where
  "role_of s = find (\<lambda>r. role_name r = s) KNOWN_ROLES"

definition priority_of :: "string \<Rightarrow> priority option" where
  "priority_of s = find (\<lambda>p. priority_name p = s) KNOWN_PRIORITIES"

section \<open>The code fence\<close>

text \<open>
  \<open>/^```(?:json)?\s*([\s\S]*?)\s*```$/m\<close>: the first line that opens a fence which is closed at
  the end of a line. The captured text runs to the first such close, without the white space around
  it: white space cannot contain a close, so the greedy and lazy quantifiers leave no other match.
\<close>

definition line_break :: "char \<Rightarrow> bool" where
  "line_break c \<longleftrightarrow> c = CHR 0x0A \<or> c = CHR 0x0D"

definition starts_with :: "string \<Rightarrow> string \<Rightarrow> bool" where
  "starts_with w s \<longleftrightarrow> take (length w) s = w"

fun fence_close :: "string \<Rightarrow> string option" where
  "fence_close [] = None"
| "fence_close (c # s) =
     (if starts_with ''```'' (c # s) \<and> (drop 2 s = [] \<or> line_break (hd (drop 2 s))) then Some []
      else map_option ((#) c) (fence_close s))"

definition rtrim :: "string \<Rightarrow> string" where
  "rtrim s = rev (dropWhile js_whitespace (rev s))"

definition fence_body :: "string \<Rightarrow> string option" where
  "fence_body s =
     map_option rtrim (fence_close (dropWhile js_whitespace (if starts_with ''json'' s then drop 4 s else s)))"

fun fence_match :: "bool \<Rightarrow> string \<Rightarrow> string option" where
  "fence_match line_start [] = None"
| "fence_match line_start (c # s) =
     (case (if line_start \<and> starts_with ''```'' (c # s) then fence_body (drop 2 s) else None) of
        Some b \<Rightarrow> Some b
      | None \<Rightarrow> fence_match (line_break c) s)"

definition stripJsonFence :: "string \<Rightarrow> string" where
  "stripJsonFence value = nullish (fence_match True value) value"

section \<open>Reading the reply\<close>

definition trimmed_field :: "json \<Rightarrow> string \<Rightarrow> string" where
  "trimmed_field t k = js_trim (string_or (json_field t k) [])"

definition string_items :: "json option \<Rightarrow> string list" where
  "string_items v =
     (case v of
        Some (JArr xs) \<Rightarrow> concat (map (\<lambda>x. case x of JStr s \<Rightarrow> (if js_trim s \<noteq> [] then [s] else []) | _ \<Rightarrow> []) xs)
      | _ \<Rightarrow> [])"

fun is_object_value :: "json \<Rightarrow> bool" where
  "is_object_value (JObj _) = True"
| "is_object_value (JArr _) = True"
| "is_object_value _ = False"

text \<open>The body of the loop over \<open>body.tasks\<close>.\<close>

definition parse_task :: "string list \<Rightarrow> string list \<Rightarrow> json \<Rightarrow> string + planned_draft" where
  "parse_task knownExpertIds seenLocalIds rawTask =
     (if \<not> is_object_value rawTask then Inl ''planner task entry was not an object''
      else let localId = trimmed_field rawTask ''id'';
               title = trimmed_field rawTask ''title'';
               description = trimmed_field rawTask ''description'';
               role = trimmed_field rawTask ''role''
           in if localId \<noteq> [] \<and> localId \<in> set seenLocalIds
              then Inl (''planner emitted duplicate task id: '' @ localId)
              else if title = [] \<or> description = [] \<or> role = []
              then Inl ''planner task missing title/description/role''
              else case role_of role of
                  None \<Rightarrow> Inl (''planner task referenced unknown role: '' @ role)
                | Some r \<Rightarrow>
                    let dependsOn = string_items (json_field rawTask ''dependsOn'');
                        input = (case json_field rawTask ''input'' of Some (JObj ob) \<Rightarrow> ob | _ \<Rightarrow> []);
                        priorityRaw = (case json_field rawTask ''priority'' of Some (JStr s) \<Rightarrow> js_trim s | _ \<Rightarrow> ''normal'');
                        priority = nullish (priority_of priorityRaw) Normal;
                        requiresApproval = (json_field rawTask ''requiresApproval'' = Some (JBool True));
                        rawExpertId = trimmed_field rawTask ''expertId''
                    in Inr \<lparr>d_title = title, d_description = description, d_role = r, d_dependsOn = dependsOn,
                         d_input = input, d_priority = Some priority,
                         d_requiresApproval = (if requiresApproval then Some True else None),
                         d_expertId = (if rawExpertId \<noteq> [] \<and> (knownExpertIds = [] \<or> rawExpertId \<in> set knownExpertIds)
                           then Some rawExpertId else None),
                         d_localId = (if localId \<noteq> [] then Some localId else None)\<rparr>)"

fun parse_tasks :: "string list \<Rightarrow> string list \<Rightarrow> json list \<Rightarrow> string + planned_draft list" where
  "parse_tasks known seen [] = Inr []"
| "parse_tasks known seen (t # ts) =
     (case parse_task known seen t of
        Inl e \<Rightarrow> Inl e
      | Inr d \<Rightarrow>
          (case parse_tasks known (case d_localId d of None \<Rightarrow> seen | Some i \<Rightarrow> seen @ [i]) ts of
             Inl e \<Rightarrow> Inl e
           | Inr ds \<Rightarrow> Inr (d # ds)))"

definition parsePlannerResponse :: "string \<Rightarrow> nat \<Rightarrow> string list \<Rightarrow> string + plan_result" where
  "parsePlannerResponse raw maxTasks knownExpertIds =
     (let trimmed = js_trim (stripJsonFence raw)
      in if trimmed = [] then Inl ''planner returned an empty response''
         else case json_parse trimmed of
             None \<Rightarrow> Inl ''SyntaxError''
           | Some parsed \<Rightarrow>
               if \<not> is_object_value parsed then Inl ''planner response was not a JSON object''
               else case json_field parsed ''tasks'' of
                   Some (JArr ts) \<Rightarrow>
                     if ts = [] then Inl ''planner returned zero tasks''
                     else if maxTasks < length ts
                     then Inl (''planner returned '' @ show_nat (length ts) @ '' tasks (max '' @ show_nat maxTasks @ '')'')
                     else (case parse_tasks knownExpertIds [] ts of
                         Inl e \<Rightarrow> Inl e
                       | Inr ds \<Rightarrow> Inr \<lparr>pl_tasks = ds,
                           pl_summary = (case json_field parsed ''summary'' of Some (JStr s) \<Rightarrow> Some s | _ \<Rightarrow> None)\<rparr>)
                 | _ \<Rightarrow> Inl ''planner response missing tasks[]'')"

text \<open>\<open>plan\<close>: \<open>llm_complete\<close> is the model's reply to the prompts built from the request, or the
  error the client throws.\<close>

definition plan :: "(plan_request \<Rightarrow> string + string) \<Rightarrow> nat option \<Rightarrow> string list \<Rightarrow> plan_request \<Rightarrow> string + plan_result" where
  "plan llm_complete maxTasks expertIds req =
     (case llm_complete req of
        Inl e \<Rightarrow> Inl e
      | Inr text \<Rightarrow> parsePlannerResponse text (nullish maxTasks DEFAULT_MAX_TASKS) expertIds)"

section \<open>Persisting a plan\<close>

definition shortId :: "'e env_scheme \<Rightarrow> ('x world, string) prog" where
  "shortId env = bind_m (randomUUID env) (\<lambda>u. return_m (take 8 (filter (\<lambda>c. c \<noteq> CHR ''-'') u)))"

definition plan_id :: "string \<Rightarrow> nat \<Rightarrow> string" where
  "plan_id idPrefix i = idPrefix @ ''-'' @ show_nat i"

definition localIdToFinal :: "string \<Rightarrow> planned_draft list \<Rightarrow> (string \<times> string) list" where
  "localIdToFinal idPrefix drafts =
     fold (\<lambda>(i, d) m. AList.update (nullish (d_localId d) (plan_id idPrefix i)) (plan_id idPrefix i) m)
       (List.enumerate 0 drafts) []"

definition remap_deps :: "(string \<times> string) list \<Rightarrow> string \<Rightarrow> string list \<Rightarrow> string list" where
  "remap_deps m finalId deps =
     filter (\<lambda>dep. dep \<noteq> finalId) (map (\<lambda>dep. nullish (map_of m dep) dep) deps)"

definition origin_kind :: "task_origin \<Rightarrow> string" where
  "origin_kind og = (case og of OperatorOrigin \<Rightarrow> ''operator'' | PlannerOrigin _ \<Rightarrow> ''planner''
     | ChannelOrigin _ \<Rightarrow> ''channel'')"

definition planned_task ::
  "string \<Rightarrow> task_origin \<Rightarrow> string \<Rightarrow> (string \<times> string) list \<Rightarrow> nat \<times> planned_draft \<Rightarrow> string \<Rightarrow> task" where
  "planned_task projectId origin idPrefix m = (\<lambda>(i, draft) ts.
     createTaskRecord (plan_id idPrefix i) projectId
       (task_draft.truncate (draft\<lparr>d_dependsOn := remap_deps m (plan_id idPrefix i) (d_dependsOn draft)\<rparr>)) origin ts)"

definition persist_draft ::
  "'e env_scheme \<Rightarrow> string \<Rightarrow> task_origin \<Rightarrow> string \<Rightarrow> (string \<times> string) list \<Rightarrow> nat \<times> planned_draft
     \<Rightarrow> ('x world, task) prog" where
  "persist_draft env projectId origin idPrefix m d =
     bind_m (now_m env) (\<lambda>ts.
     let task = planned_task projectId origin idPrefix m d ts
     in seq_m (on_fs (saveTask (e_projectsDir env) task))
       (seq_m (audit_if env KTaskCreated
          [(''projectId'', JStr projectId), (''taskId'', JStr (tk_id task)), (''role'', JStr (role_name (tk_role task))),
           (''priority'', JStr (priority_name (tk_priority task))),
           (''requiresApproval'', JBool (tk_requiresApproval task = Some True)),
           (''originKind'', JStr (origin_kind (tk_origin task)))])
         (return_m task)))"

definition persistPlan ::
  "'e env_scheme \<Rightarrow> string \<Rightarrow> plan_result \<Rightarrow> task_origin \<Rightarrow> string option \<Rightarrow> ('x world, task list) prog" where
  "persistPlan env projectId result origin idPrefixOpt =
     bind_m (case idPrefixOpt of Some p \<Rightarrow> return_m p
             | None \<Rightarrow> bind_m (shortId env) (\<lambda>s. return_m (''task-'' @ s))) (\<lambda>idPrefix.
     map_m (persist_draft env projectId origin idPrefix (localIdToFinal idPrefix (pl_tasks result)))
       (List.enumerate 0 (pl_tasks result)))"

section \<open>Facts about accepted plans\<close>

definition local_ids :: "planned_draft list \<Rightarrow> string list" where
  "local_ids ds = concat (map (\<lambda>d. case d_localId d of None \<Rightarrow> [] | Some i \<Rightarrow> [i]) ds)"

definition valid_draft :: "string list \<Rightarrow> planned_draft \<Rightarrow> bool" where
  "valid_draft known d \<longleftrightarrow>
     js_trim (d_title d) \<noteq> [] \<and> js_trim (d_description d) \<noteq> [] \<and> d_localId d \<noteq> Some []
     \<and> (case d_expertId d of None \<Rightarrow> True | Some e \<Rightarrow> e \<noteq> [] \<and> (known = [] \<or> e \<in> set known))
     \<and> list_all (\<lambda>dep. js_trim dep \<noteq> []) (d_dependsOn d)"

lemma js_trim_idem: "js_trim (js_trim s) = js_trim s"
proof -
  let ?t = "dropWhile js_whitespace s"
  have inner: "dropWhile js_whitespace (js_trim s) = js_trim s"
  proof (cases "js_trim s")
    case (Cons c u)
    have "hd ?t = c"
      using Cons unfolding js_trim_def
      by (metis append_Cons dropWhile_eq_Nil_conv hd_append2 list.sel(1) rev_append rev_rev_ident takeWhile_dropWhile_id list.distinct(1))
    moreover have "?t \<noteq> []" using Cons unfolding js_trim_def by (metis dropWhile.simps(1) list.distinct(1) rev.simps(1))
    ultimately have "\<not> js_whitespace c" using hd_dropWhile by blast
    with Cons show ?thesis by simp
  qed simp
  have "js_trim (js_trim s) = rev (dropWhile js_whitespace (rev (js_trim s)))"
    by (subst js_trim_def) (simp add: inner)
  also have "\<dots> = js_trim s" by (simp add: js_trim_def)
  finally show ?thesis .
qed

lemma parse_task_valid:
  assumes "parse_task known seen t = Inr d"
  shows "valid_draft known d \<and> (\<forall>i. d_localId d = Some i \<longrightarrow> i \<notin> set seen)"
proof -
  have items: "list_all (\<lambda>dep. js_trim dep \<noteq> []) (string_items v)" for v
    by (auto simp: string_items_def list_all_iff split: option.splits json.splits if_splits)
  let ?title = "trimmed_field t ''title''" and ?desc = "trimmed_field t ''description''"
    and ?id = "trimmed_field t ''id''" and ?expert = "trimmed_field t ''expertId''"
  have trim: "js_trim (trimmed_field t k) = trimmed_field t k" for k
    by (simp add: trimmed_field_def js_trim_idem)
  have obj: "is_object_value t" using assms unfolding parse_task_def by (auto split: if_split_asm)
  have new: "\<not> (?id \<noteq> [] \<and> ?id \<in> set seen)" using assms obj unfolding parse_task_def Let_def
    by (auto split: if_split_asm)
  have filled: "\<not> (?title = [] \<or> ?desc = [] \<or> trimmed_field t ''role'' = [])"
    using assms obj new unfolding parse_task_def Let_def by (auto split: if_split_asm)
  obtain r where r: "role_of (trimmed_field t ''role'') = Some r"
    using assms obj new filled unfolding parse_task_def Let_def
    by (cases "role_of (trimmed_field t ''role'')") (simp_all split: if_split_asm)
  have fields: "d_title d = ?title" "d_description d = ?desc"
    "d_localId d = (if ?id \<noteq> [] then Some ?id else None)"
    "d_expertId d = (if ?expert \<noteq> [] \<and> (known = [] \<or> ?expert \<in> set known) then Some ?expert else None)"
    "d_dependsOn d = string_items (json_field t ''dependsOn'')"
    using assms obj new filled r unfolding parse_task_def Let_def by (auto split: if_split_asm)
  show ?thesis using filled new by (auto simp: valid_draft_def fields trim items)
qed

lemma parse_tasks_valid:
  "parse_tasks known seen ts = Inr ds \<Longrightarrow>
     length ds = length ts \<and> list_all (valid_draft known) ds \<and> distinct (local_ids ds)
     \<and> set (local_ids ds) \<inter> set seen = {}"
proof (induction known seen ts arbitrary: ds rule: parse_tasks.induct)
  case (2 known seen t ts)
  from "2.prems" obtain d ds' where d: "parse_task known seen t = Inr d" and ds: "ds = d # ds'"
    and rest: "parse_tasks known (case d_localId d of None \<Rightarrow> seen | Some i \<Rightarrow> seen @ [i]) ts = Inr ds'"
    by (auto split: sum.splits)
  from "2.IH" [OF d rest] parse_task_valid [OF d] show ?case
    by (auto simp: ds local_ids_def split: option.splits)
qed (simp add: local_ids_def)

section \<open>Facts about persisted plans\<close>

lemma plan_id_inject: "plan_id p i = plan_id p j \<longleftrightarrow> i = j"
  by (simp add: plan_id_def show_nat_inject)

lemma plan_id_safe: "safe_id p \<Longrightarrow> safe_id (plan_id p i)"
  using show_nat_digits [of i]
  by (auto simp: plan_id_def safe_id_def list_all_iff id_char_def is_digit_def)

lemma planned_task_fields [simp]:
  "tk_id (planned_task pid og pre m (i, d) ts) = plan_id pre i"
  "tk_projectId (planned_task pid og pre m (i, d) ts) = pid"
  "tk_dependsOn (planned_task pid og pre m (i, d) ts) = remap_deps m (plan_id pre i) (d_dependsOn d)"
  "tk_role (planned_task pid og pre m (i, d) ts) = d_role d"
  "tk_claimedBy (planned_task pid og pre m (i, d) ts) = None"
  "tk_status (planned_task pid og pre m (i, d) ts) = (if d_requiresApproval d = Some True then Backlog else Queued)"
  by (simp_all add: planned_task_def createTaskRecord_def Let_def task_draft.defs)

lemma persist_draft_quiet:
  assumes quiet: "\<And>n. e_auditThrows env n = None" and safe: "safe_id pid" "safe_id pre"
  shows "\<exists>w'. persist_draft env pid og pre m (i, d) w =
      (Inr (planned_task pid og pre m (i, d) (e_now env (w_clock w))), w')
    \<and> w_fs w' = snd (saveTask (e_projectsDir env) (planned_task pid og pre m (i, d) (e_now env (w_clock w))) (w_fs w))"
proof -
  let ?t = "planned_task pid og pre m (i, d) (e_now env (w_clock w))"
  let ?w = "w\<lparr>w_clock := Suc (w_clock w), w_fs := snd (saveTask (e_projectsDir env) ?t (w_fs w))\<rparr>"
  let ?p = "[(''projectId'', JStr pid), (''taskId'', JStr (tk_id ?t)), (''role'', JStr (role_name (tk_role ?t))),
           (''priority'', JStr (priority_name (tk_priority ?t))),
           (''requiresApproval'', JBool (tk_requiresApproval ?t = Some True)),
           (''originKind'', JStr (origin_kind (tk_origin ?t)))]"
  have save: "fst (saveTask (e_projectsDir env) ?t (w_fs w)) = Inr ()"
    using safe by (simp add: saveTask_safe plan_id_safe)
  obtain w' where "audit_if env KTaskCreated ?p ?w = (Inr (), w')" "w_fs w' = w_fs ?w"
    by (rule audit_if_quiet [OF quiet])
  then show ?thesis
    using save by (simp add: persist_draft_def now_m_def bind_m_apply seq_m_apply on_fs_apply Let_def)
qed

lemma persist_drafts_quiet:
  assumes quiet: "\<And>n. e_auditThrows env n = None" and safe: "safe_id pid" "safe_id pre"
  shows "\<exists>tss w'. length tss = length ds \<and>
    map_m (persist_draft env pid og pre m) ds w = (Inr (map2 (planned_task pid og pre m) ds tss), w') \<and>
    w_fs w' = fold (\<lambda>t fs. snd (saveTask (e_projectsDir env) t fs)) (map2 (planned_task pid og pre m) ds tss) (w_fs w)"
proof (induction ds arbitrary: w)
  case Nil
  then show ?case by simp
next
  case (Cons d ds)
  obtain i e where d: "d = (i, e)" by (cases d)
  let ?ts = "e_now env (w_clock w)"
  obtain w1 where w1: "persist_draft env pid og pre m d w = (Inr (planned_task pid og pre m d ?ts), w1)"
    "w_fs w1 = snd (saveTask (e_projectsDir env) (planned_task pid og pre m d ?ts) (w_fs w))"
    using persist_draft_quiet [OF assms] d by blast
  obtain tss w2 where "length tss = length ds"
    "map_m (persist_draft env pid og pre m) ds w1 = (Inr (map2 (planned_task pid og pre m) ds tss), w2)"
    "w_fs w2 = fold (\<lambda>t fs. snd (saveTask (e_projectsDir env) t fs)) (map2 (planned_task pid og pre m) ds tss) (w_fs w1)"
    using Cons.IH by blast
  with w1 show ?case by (intro exI [of _ "?ts # tss"] exI [of _ w2]) (simp add: bind_m_apply)
qed

lemma map_of_localIdToFinal:
  assumes "map_of (localIdToFinal pre ds) k = Some f"
  shows "\<exists>i < length ds. f = plan_id pre i \<and> k = nullish (d_localId (ds ! i)) (plan_id pre i)"
proof -
  have "map_of (fold (\<lambda>(i, d) m. AList.update (key i d) (val i) m) xs m) k = Some f \<Longrightarrow>
      map_of m k = Some f \<or> (\<exists>(i, d) \<in> set xs. f = val i \<and> k = key i d)"
    for xs :: "(nat \<times> planned_draft) list" and key :: "nat \<Rightarrow> planned_draft \<Rightarrow> string" and val m
    by (induction xs arbitrary: m) (fastforce simp: update_conv split: if_splits)+
  from this [of "\<lambda>i d. nullish (d_localId d) (plan_id pre i)" "plan_id pre" "List.enumerate 0 ds" "[]"] assms
  show ?thesis by (auto simp: localIdToFinal_def in_set_enumerate_eq)
qed

lemma map_of_localIdToFinal_exists:
  assumes "i < length ds"
  shows "map_of (localIdToFinal pre ds) (nullish (d_localId (ds ! i)) (plan_id pre i)) \<noteq> None"
proof -
  have "(i, d) \<in> set xs \<Longrightarrow> map_of (fold (\<lambda>(i, d) m. AList.update (key i d) (val i) m) xs m) (key i d) \<noteq> None"
    for xs :: "(nat \<times> planned_draft) list" and key :: "nat \<Rightarrow> planned_draft \<Rightarrow> string" and val m i d
  proof (induction xs arbitrary: m)
    case (Cons x xs)
    have keep: "map_of m k \<noteq> None \<Longrightarrow> map_of (fold (\<lambda>(i, d) m. AList.update (key i d) (val i) m) xs m) k \<noteq> None" for m k
      by (induction xs arbitrary: m) (auto simp: update_conv split: if_splits)
    show ?case
    proof (cases "(i, d) \<in> set xs")
      case True
      then show ?thesis using Cons.IH by (cases x) simp
    next
      case False
      with Cons.prems have "x = (i, d)" by simp
      then show ?thesis using keep [of "AList.update (key i d) (val i) m" "key i d"] by (simp add: update_conv)
    qed
  qed simp
  from this [of i "ds ! i" "List.enumerate 0 ds" "\<lambda>i d. nullish (d_localId d) (plan_id pre i)" "plan_id pre" "[]"] assms
  show ?thesis by (auto simp: localIdToFinal_def in_set_enumerate_eq)
qed

lemma local_ids_mem: "x \<in> set (local_ids ds) \<longleftrightarrow> (\<exists>j < length ds. d_localId (ds ! j) = Some x)"
proof -
  have "x \<in> set (local_ids ds) \<longleftrightarrow> (\<exists>d \<in> set ds. d_localId d = Some x)"
    by (force simp: local_ids_def split: option.splits)
  then show ?thesis by (metis in_set_conv_nth)
qed

lemma remap_deps_cases:
  assumes "dep \<in> set (remap_deps (localIdToFinal pre ds) f deps)"
  shows "dep \<noteq> f \<and> ((\<exists>j < length ds. dep = plan_id pre j) \<or> (dep \<in> set deps \<and> dep \<notin> set (local_ids ds)))"
proof -
  from assms obtain x where x: "x \<in> set deps" "dep = nullish (map_of (localIdToFinal pre ds) x) x" "dep \<noteq> f"
    by (auto simp: remap_deps_def)
  show ?thesis
  proof (cases "map_of (localIdToFinal pre ds) x")
    case None
    have "x \<notin> set (local_ids ds)"
    proof
      assume "x \<in> set (local_ids ds)"
      then obtain j where "j < length ds" "d_localId (ds ! j) = Some x" by (auto simp: local_ids_mem)
      with map_of_localIdToFinal_exists [of j ds pre] None show False by simp
    qed
    with None x show ?thesis by simp
  next
    case (Some g)
    with map_of_localIdToFinal [OF Some] x show ?thesis by auto
  qed
qed

text \<open>The tasks a plan turns into, and what is written for them.\<close>

lemma persistPlan_quiet:
  assumes "\<And>n. e_auditThrows env n = None" and "safe_id pid" and "safe_id pre"
  obtains ts tss w' where "persistPlan env pid result og (Some pre) w = (Inr ts, w')"
    "w_fs w' = fold (\<lambda>t fs. snd (saveTask (e_projectsDir env) t fs)) ts (w_fs w)"
    "length ts = length (pl_tasks result)"
    "\<And>i. i < length ts \<Longrightarrow> ts ! i =
       planned_task pid og pre (localIdToFinal pre (pl_tasks result)) (i, pl_tasks result ! i) (tss ! i)"
proof -
  let ?ds = "pl_tasks result"
  let ?m = "localIdToFinal pre ?ds"
  obtain tss w' where len: "length tss = length ?ds" and
    run: "map_m (persist_draft env pid og pre ?m) (List.enumerate 0 ?ds) w =
      (Inr (map2 (planned_task pid og pre ?m) (List.enumerate 0 ?ds) tss), w')" and
    fs: "w_fs w' = fold (\<lambda>t fs. snd (saveTask (e_projectsDir env) t fs))
      (map2 (planned_task pid og pre ?m) (List.enumerate 0 ?ds) tss) (w_fs w)"
    using persist_drafts_quiet [OF assms, of "List.enumerate 0 ?ds" og ?m w] by auto
  show ?thesis
    by (rule that [of "map2 (planned_task pid og pre ?m) (List.enumerate 0 ?ds) tss" w' tss])
      (use run fs len in \<open>simp_all add: persistPlan_def bind_m_apply nth_enumerate_eq\<close>)
qed

lemma planned_ids:
  assumes "length ts = length ds"
    and "\<And>i. i < length ts \<Longrightarrow> ts ! i = planned_task pid og pre m (i, ds ! i) (tss ! i)"
  shows "map tk_id ts = map (plan_id pre) [0..<length ds]" "distinct (map tk_id ts)"
    "t \<in> set ts \<Longrightarrow> tk_projectId t = pid"
proof -
  show ids: "map tk_id ts = map (plan_id pre) [0..<length ds]"
    by (rule nth_equalityI) (simp_all add: assms)
  then show "distinct (map tk_id ts)" by (simp add: distinct_map inj_on_def plan_id_inject)
  show "t \<in> set ts \<Longrightarrow> tk_projectId t = pid" using assms by (auto simp: in_set_conv_nth)
qed

lemma saved_all:
  assumes "safe_id p" "distinct (map tk_id ts)" "\<And>t. t \<in> set ts \<Longrightarrow> tk_projectId t = p \<and> safe_id (tk_id t)"
  shows "t \<in> set ts \<Longrightarrow> stored_task dir (fold (\<lambda>t fs. snd (saveTask dir t fs)) ts fs) (p, tk_id t) = Some t"
    and "k \<notin> (\<lambda>t. (p, tk_id t)) ` set ts \<Longrightarrow> safe_id (fst k) \<Longrightarrow> safe_id (snd k) \<Longrightarrow>
      stored_task dir (fold (\<lambda>t fs. snd (saveTask dir t fs)) ts fs) k = stored_task dir fs k"
proof -
  have valid: "list_all (\<lambda>t. safe_id (fst (tk_projectId t, tk_id t)) \<and> safe_id (snd (tk_projectId t, tk_id t))) ts"
    using assms(1,3) by (simp add: list_all_iff)
  have dist: "distinct (map (\<lambda>t. (tk_projectId t, tk_id t)) ts)"
    using assms(2) by (auto simp: distinct_map inj_on_def)
  show "t \<in> set ts \<Longrightarrow> stored_task dir (fold (\<lambda>t fs. snd (saveTask dir t fs)) ts fs) (p, tk_id t) = Some t"
    using tasks.load_saves_distinct [OF valid dist, of t dir fs] assms(3) by simp
  assume "k \<notin> (\<lambda>t. (p, tk_id t)) ` set ts" "safe_id (fst k)" "safe_id (snd k)"
  moreover from this(1) have "find (\<lambda>t. (tk_projectId t, tk_id t) = k) (rev ts) = None"
    using assms(3) by (force simp: find_None_iff)
  ultimately show "stored_task dir (fold (\<lambda>t fs. snd (saveTask dir t fs)) ts fs) k = stored_task dir fs k"
    using tasks.load_saves [OF valid, of k dir fs] by simp
qed

lemma persistPlan_keeps:
  assumes "\<And>pre m d ts. preserves P (on_fs (saveTask (e_projectsDir env) (planned_task projectId origin pre m d ts)))"
    "\<And>k p. preserves P (emitProjectsAuditEvent env k p)"
    "preserves P (now_m env)" "preserves P (randomUUID env)"
  shows "preserves P (persistPlan env projectId result origin pre)"
  unfolding persistPlan_def persist_draft_def shortId_def Let_def
  by (intro preserves_intros assms)

lemma persistPlan_wf: "preserves (fs_inv (store_wf (e_projectsDir env) p)) (persistPlan env projectId result origin pre)"
  by (intro persistPlan_keeps on_fs_inv preserves_intros)

section \<open>Properties\<close>


definition sample_reply :: string where
  "sample_reply = ''```json'' @ [CHR 0x0A] @ stringify (JObj [(''tasks'', JArr
     [JObj [(''id'', JStr ''a''), (''title'', JStr ''Find''), (''description'', JStr ''Find facts''), (''role'', JStr ''researcher'')],
      JObj [(''id'', JStr ''b''), (''title'', JStr ''Write''), (''description'', JStr ''Write it''), (''role'', JStr ''writer''),
            (''dependsOn'', JArr [JStr ''a''])]])]) @ [CHR 0x0A] @ ''```''"

definition sample_plan :: plan_result where
  "sample_plan = (case parsePlannerResponse sample_reply 8 [] of Inr r \<Rightarrow> r | Inl _ \<Rightarrow> \<lparr>pl_tasks = [], pl_summary = None\<rparr>)"

lemma sample_parse: "parsePlannerResponse sample_reply 8 [] = Inr sample_plan"
  by code_simp



definition sample_penv :: env where
  "sample_penv = \<lparr>e_projectsDir = [''projects''], e_auditLogPath = None, e_now = (\<lambda>_. ''now''), e_sha = id,
     e_auditTs = show_nat, e_auditThrows = (\<lambda>_. None), e_uuid = show_nat\<rparr>"

definition empty_world :: "unit world" where
  "empty_world = \<lparr>w_fs = empty_fs, w_log = [], w_clock = 0, w_appends = 0, w_locks = 0, w_sends = 0, w_sent = [], w_ids = 0\<rparr>"


text \<open>A dependency the plan does not define is kept, and such a task is never picked up as long
  as no task with that name exists on the board.\<close>

lemma undefined_dependency_blocks:
  assumes "dep \<in> set (d_dependsOn draft)" and "map_of m dep = None" and "dep \<noteq> plan_id prefix i"
    and "dep \<notin> tk_id ` set tasks"
  shows "\<not> isTaskEligibleForPickup (planned_task projectId origin prefix m (i, draft) ts) tasks"
proof -
  have "dep \<in> set (remap_deps m (plan_id prefix i) (d_dependsOn draft))"
    using assms(1-3) by (force simp: remap_deps_def)
  with dep_done_unknown [OF assms(4)] show ?thesis by (auto simp: eligible_iff list_all_iff)
qed

lemma undefined_dependency_blocks_witness:
  "\<not> isTaskEligibleForPickup (planned_task ''p1'' OperatorOrigin ''x'' [] (1, pl_tasks sample_plan ! 1) ''now'') []"
proof (rule undefined_dependency_blocks [of "''a''"])
  show "''a'' \<in> set (d_dependsOn (pl_tasks sample_plan ! 1))" by code_simp
  show "''a'' \<noteq> plan_id ''x'' 1" by code_simp
qed simp_all

end
