(* ===== verification/Goal_Evaluator.thy ===== *)
theory Goal_Evaluator
  imports Planner Json_Parse
begin

text \<open>
  The goal evaluator, \<^verbatim>\<open>src/projects/goal-evaluator.ts\<close>: reading the model's verdict on a
  project's goal from the raw reply. The reply itself is an argument; the prompt is in
  \<open>Prompts\<close>. The ellipsis that \<open>truncate\<close> appends is one code unit above 255; it is
  represented by the unit \<open>0x85\<close>, so lengths agree with the code. Numbers are the exact
  rationals the texts denote, infinite from the point where doubles overflow.
\<close>

section \<open>Text helpers\<close>

definition ELLIPSIS :: string where
  "ELLIPSIS = [CHR 0x85]"

definition truncate_text :: "string \<Rightarrow> nat \<Rightarrow> string" where
  "truncate_text s limit = (if length s \<le> limit then s else take (limit - 1) s @ ELLIPSIS)"

text \<open>\<open>toLowerCase\<close> on code units below 256.\<close>

definition lower_char :: "char \<Rightarrow> char" where
  "lower_char c =
     (let n = of_char c :: nat
      in if 65 \<le> n \<and> n \<le> 90 \<or> 192 \<le> n \<and> n \<le> 222 \<and> n \<noteq> 215 then char_of (n + 32) else c)"

definition js_lower :: "string \<Rightarrow> string" where
  "js_lower s = map lower_char s"

definition ends_with :: "string \<Rightarrow> string \<Rightarrow> bool" where
  "ends_with w s \<longleftrightarrow> length w \<le> length s \<and> drop (length s - length w) s = w"

text \<open>\<open>.replace(/^```(?:json)?\s*/i, "").replace(/\s*```$/i, "").trim()\<close>\<close>

definition strip_open_fence :: "string \<Rightarrow> string" where
  "strip_open_fence s =
     (if starts_with ''```'' s then
        let r = drop 3 s
        in dropWhile js_whitespace (if starts_with ''json'' (js_lower (take 4 r)) then drop 4 r else r)
      else s)"

definition strip_close_fence :: "string \<Rightarrow> string" where
  "strip_close_fence s = (if ends_with ''```'' s then rtrim (take (length s - 3) s) else s)"

section \<open>Numbers\<close>

text \<open>\<open>Number.isFinite\<close> of the double nearest to \<open>q\<close>.\<close>

definition js_finite :: "rat \<Rightarrow> bool" where
  "js_finite q \<longleftrightarrow> \<bar>q\<bar> < of_int (2 ^ 1024 - 2 ^ 970)"

definition decimal_value :: "bool \<Rightarrow> nat \<Rightarrow> nat \<Rightarrow> int \<Rightarrow> rat" where
  "decimal_value neg m k e =
     (if neg then - 1 else 1) * of_nat m * (if e < int k then 1 / of_nat (10 ^ nat (int k - e)) else of_nat (10 ^ nat (e - int k)))"

fun json_number :: "json \<Rightarrow> rat option" where
  "json_number (JNum n) = Some (of_int n)"
| "json_number (JDec neg i z d) =
     (let k = z + length (show_nat d)
      in Some (decimal_value neg (i * 10 ^ k + d) k 0))"
| "json_number _ = None"

text \<open>\<open>Number(text)\<close>: \<open>None\<close> is \<open>NaN\<close> or an infinity. White space around the number is
  dropped, the empty text is 0, and hexadecimal, octal and binary literals are read.\<close>

definition radix_value :: "nat \<Rightarrow> string \<Rightarrow> rat option" where
  "radix_value b ds =
     (case map (\<lambda>c. hex_value c) ds of vs \<Rightarrow>
        if ds = [] \<or> \<not> list_all (\<lambda>v. case v of None \<Rightarrow> False | Some d \<Rightarrow> d < b) vs then None
        else Some (of_nat (foldl (\<lambda>n v. b * n + the v) 0 vs)))"

definition decimal_literal :: "string \<Rightarrow> rat option" where
  "decimal_literal s =
     (let neg = (s \<noteq> [] \<and> hd s = CHR ''-'');
          body = (if s \<noteq> [] \<and> (hd s = CHR ''-'' \<or> hd s = CHR ''+'') then tl s else s);
          ds = takeWhile is_digit body;
          rest = dropWhile is_digit body;
          dot = (rest \<noteq> [] \<and> hd rest = CHR ''.'');
          fs = (if dot then takeWhile is_digit (tl rest) else []);
          rest2 = (if dot then dropWhile is_digit (tl rest) else rest)
      in if ds = [] \<and> fs = [] then None
         else case parse_exponent rest2 of
             Some (e, []) \<Rightarrow> Some (decimal_value neg (digits_value (ds @ fs)) (length fs) e)
           | _ \<Rightarrow> None)"

definition js_Number :: "string \<Rightarrow> rat option" where
  "js_Number text =
     (let s = js_trim text
      in if s = [] then Some 0
         else if js_lower (take 2 s) = ''0x'' then radix_value 16 (drop 2 s)
         else if js_lower (take 2 s) = ''0o'' then radix_value 8 (drop 2 s)
         else if js_lower (take 2 s) = ''0b'' then radix_value 2 (drop 2 s)
         else decimal_literal s)"

text \<open>\<open>String(value)\<close> and \<open>Number(value)\<close> of a JSON value: an array is the text of its elements between
  commas, where \<open>null\<close> is empty, and any other object is \<open>[object Object]\<close>.\<close>

fun js_String :: "json \<Rightarrow> string" where
  "js_String JNull = ''null''"
| "js_String (JBool b) = (if b then ''true'' else ''false'')"
| "js_String (JNum n) = show_int n"
| "js_String (JDec neg i z d) = show_dec neg i z d"
| "js_String (JStr s) = s"
| "js_String (JArr vs) = join_with '','' (map (\<lambda>v. if v = JNull then [] else js_String v) vs)"
| "js_String (JObj ob) = ''[object Object]''"

definition js_ToNumber :: "json \<Rightarrow> rat option" where
  "js_ToNumber v =
     (case json_number v of Some q \<Rightarrow> Some q
      | None \<Rightarrow> (case v of JNull \<Rightarrow> Some 0 | JBool b \<Rightarrow> Some (if b then 1 else 0) | _ \<Rightarrow> js_Number (js_String v)))"

section \<open>The verdict\<close>

record parsed_evaluation =
  pe_status :: goal_status
  pe_reason :: string
  pe_confidence :: rat

definition goal_status_name :: "goal_status \<Rightarrow> string" where
  "goal_status_name s = (case s of GoalInProgress \<Rightarrow> ''in-progress'' | GoalAchieved \<Rightarrow> ''achieved'' | GoalBlocked \<Rightarrow> ''blocked'')"

definition normalizeStatus :: "json option \<Rightarrow> goal_status" where
  "normalizeStatus v =
     (case v of
        Some (JStr s) \<Rightarrow>
          if s = ''achieved'' then GoalAchieved
          else if s = ''blocked'' then GoalBlocked
          else if s = ''in-progress'' then GoalInProgress
          else if starts_with ''ach'' (js_lower s) then GoalAchieved
          else if starts_with ''block'' (js_lower s) then GoalBlocked
          else GoalInProgress
      | _ \<Rightarrow> GoalInProgress)"

definition normalizeConfidence :: "json option \<Rightarrow> rat" where
  "normalizeConfidence v =
     (case (case v of Some (JStr s) \<Rightarrow> js_Number s | Some j \<Rightarrow> json_number j | None \<Rightarrow> None) of
        None \<Rightarrow> 1 / 2
      | Some n \<Rightarrow> if \<not> js_finite n then 1 / 2 else if n < 0 then 0 else if n > 1 then 1 else n)"

definition index_of :: "char \<Rightarrow> string \<Rightarrow> nat option" where
  "index_of c s = (if c \<in> set s then Some (length (takeWhile (\<lambda>x. x \<noteq> c) s)) else None)"

definition last_index_of :: "char \<Rightarrow> string \<Rightarrow> nat option" where
  "last_index_of c s = map_option (\<lambda>k. length s - 1 - k) (index_of c (rev s))"

definition slice_text :: "string \<Rightarrow> nat \<Rightarrow> nat \<Rightarrow> string" where
  "slice_text s a b = take (b - a) (drop a s)"

definition parseEvaluatorResponse :: "string \<Rightarrow> parsed_evaluation" where
  "parseEvaluatorResponse raw =
     (let trimmed = js_trim raw;
          stripped = js_trim (strip_close_fence (strip_open_fence trimmed));
          unparsed = \<lparr>pe_status = GoalInProgress,
            pe_reason = ''Could not parse evaluator response: '' @ truncate_text trimmed 120, pe_confidence = 0\<rparr>
      in case (index_of (CHR ''{'') stripped, last_index_of (CHR ''}'') stripped) of
           (Some firstBrace, Some lastBrace) \<Rightarrow>
             if lastBrace \<le> firstBrace then unparsed
             else let slice = slice_text stripped firstBrace (lastBrace + 1)
                  in (case json_parse slice of
                        None \<Rightarrow> \<lparr>pe_status = GoalInProgress,
                          pe_reason = ''Evaluator returned malformed JSON: '' @ truncate_text slice 120, pe_confidence = 0\<rparr>
                      | Some json \<Rightarrow>
                          if \<not> is_object_value json
                          then \<lparr>pe_status = GoalInProgress, pe_reason = ''Evaluator returned non-object'', pe_confidence = 0\<rparr>
                          else let reason = js_trim (string_or (json_field json ''reason'') [])
                               in \<lparr>pe_status = normalizeStatus (json_field json ''status''),
                                   pe_reason = (if reason \<noteq> [] then reason else ''(no reason provided)''),
                                   pe_confidence = normalizeConfidence (json_field json ''confidence'')\<rparr>)
         | _ \<Rightarrow> unparsed)"

record eval_completion =
  ec_text :: string
  ec_model :: "string option"

text \<open>The evaluator's model is asked for a project, its board and the iteration; the \<open>nat\<close>
  tells successive calls apart.\<close>

type_synonym eval_llm = "nat \<Rightarrow> project \<Rightarrow> task list \<Rightarrow> nat \<Rightarrow> string + eval_completion"

definition evaluateGoal ::
  "'e env_scheme \<Rightarrow> eval_llm \<Rightarrow> project \<Rightarrow> task list \<Rightarrow> nat \<Rightarrow> ('x world, goal_evaluation) prog" where
  "evaluateGoal env llm project tasks iteration =
     bind_m (get_m w_clock) (\<lambda>call.
     bind_m (lift_m (llm call project tasks iteration)) (\<lambda>completion.
     let parsed = parseEvaluatorResponse (ec_text completion)
     in bind_m (now_m env) (\<lambda>ts.
        return_m \<lparr>ge_status = pe_status parsed, ge_reason = pe_reason parsed, ge_confidence = pe_confidence parsed,
          ge_evaluatedAt = ts, ge_iteration = iteration,
          ge_model = (if truthy (ec_model completion) then ec_model completion else None)\<rparr>)))"

section \<open>Facts\<close>

lemma js_trim_id:
  assumes "s \<noteq> []" "\<not> js_whitespace (hd s)" "\<not> js_whitespace (last s)"
  shows "js_trim s = s"
proof -
  have id: "dropWhile js_whitespace t = t" if "t \<noteq> []" "\<not> js_whitespace (hd t)" for t
    using that by (cases t) simp_all
  from assms show ?thesis by (simp add: js_trim_def id hd_rev)
qed

lemma normalizeConfidence_bounds: "0 \<le> normalizeConfidence v \<and> normalizeConfidence v \<le> 1"
  by (simp add: normalizeConfidence_def split: option.splits)

lemma normalizeConfidence_id:
  assumes "json_number c = Some q" "0 \<le> q" "q \<le> 1"
  shows "normalizeConfidence (Some c) = q"
proof -
  have "js_finite q" using assms(2,3) by (simp add: js_finite_def)
  with assms show ?thesis by (cases c) (simp_all add: normalizeConfidence_def)
qed

lemma normalizeStatus_name [simp]: "normalizeStatus (Some (JStr (goal_status_name st))) = st"
  by (cases st) (simp_all add: normalizeStatus_def goal_status_name_def)

text \<open>The text of a verdict, as the prompt asks for it.\<close>

definition verdict_json :: "goal_status \<Rightarrow> string \<Rightarrow> json \<Rightarrow> json" where
  "verdict_json st reason c = JObj [(''status'', JStr (goal_status_name st)), (''reason'', JStr reason), (''confidence'', c)]"

lemma ends_with_last: "ends_with w s \<Longrightarrow> w \<noteq> [] \<Longrightarrow> s \<noteq> [] \<and> last s = last w"
  using last_drop [of "length s - length w" s] by (cases w) (auto simp: ends_with_def)

lemma object_text_found:
  assumes "t = CHR ''{'' # body @ ''}''"
  shows "index_of (CHR ''{'') t = Some 0" "last_index_of (CHR ''}'') t = Some (length t - 1)"
    "slice_text t 0 (length t - 1 + 1) = t" "0 < length t - 1" "js_trim t = t"
    "strip_open_fence t = t" "strip_close_fence t = t"
  using assms js_trim_id [of t] ends_with_last [of "''```''" t]
  by (auto simp add: index_of_def last_index_of_def slice_text_def js_whitespace_def strip_open_fence_def
      starts_with_def strip_close_fence_def)

lemma fenced_text_stripped:
  assumes "t = CHR ''{'' # body @ ''}''"
  shows "js_trim (''```json'' @ [CHR 0x0A] @ t @ [CHR 0x0A] @ ''```'') = ''```json'' @ [CHR 0x0A] @ t @ [CHR 0x0A] @ ''```''"
    "strip_open_fence (''```json'' @ [CHR 0x0A] @ t @ [CHR 0x0A] @ ''```'') = t @ [CHR 0x0A] @ ''```''"
    "strip_close_fence (t @ [CHR 0x0A] @ ''```'') = t"
proof -
  show "js_trim (''```json'' @ [CHR 0x0A] @ t @ [CHR 0x0A] @ ''```'') = ''```json'' @ [CHR 0x0A] @ t @ [CHR 0x0A] @ ''```''"
    by (rule js_trim_id) (simp_all add: js_whitespace_def)
  show "strip_open_fence (''```json'' @ [CHR 0x0A] @ t @ [CHR 0x0A] @ ''```'') = t @ [CHR 0x0A] @ ''```''"
    using assms by (simp add: strip_open_fence_def starts_with_def js_lower_def lower_char_def js_whitespace_def)
  show "strip_close_fence (t @ [CHR 0x0A] @ ''```'') = t"
    using assms by (simp add: strip_close_fence_def ends_with_def rtrim_def js_whitespace_def)
qed

lemma parse_object_text:
  assumes "t = CHR ''{'' # body @ ''}''" "js_trim (strip_close_fence (strip_open_fence (js_trim raw))) = t"
    and "json_parse t = Some (JObj ob)"
  shows "parseEvaluatorResponse raw =
    \<lparr>pe_status = normalizeStatus (obj_get ob ''status''),
     pe_reason = (let r = js_trim (string_or (obj_get ob ''reason'') []) in if r \<noteq> [] then r else ''(no reason provided)''),
     pe_confidence = normalizeConfidence (obj_get ob ''confidence'')\<rparr>"
  using object_text_found [OF assms(1)] assms(2,3)
  by (simp add: parseEvaluatorResponse_def Let_def)

lemma set_js_trim: "set (js_trim s) \<subseteq> set s"
  by (auto simp: js_trim_def dest!: set_dropWhileD)

lemma stripped_subset: "set (js_trim (strip_close_fence (strip_open_fence (js_trim raw)))) \<subseteq> set raw"
proof -
  have r: "set (rtrim s) \<subseteq> set s" for s by (auto simp: rtrim_def dest: set_dropWhileD)
  have "set (strip_close_fence s) \<subseteq> set s" for s
    using r [of "take (length s - 3) s"] set_take_subset [of "length s - 3" s] by (auto simp: strip_close_fence_def)
  moreover have "set (strip_open_fence s) \<subseteq> set s" for s
    by (auto simp: strip_open_fence_def Let_def dest: set_dropWhileD in_set_dropD)
  ultimately show ?thesis using set_js_trim by (meson order_trans)
qed

lemma no_brace_unparsed:
  assumes "CHR ''{'' \<notin> set raw"
  shows "pe_status (parseEvaluatorResponse raw) = GoalInProgress \<and> pe_confidence (parseEvaluatorResponse raw) = 0"
proof -
  have "index_of (CHR ''{'') (js_trim (strip_close_fence (strip_open_fence (js_trim raw)))) = None"
    using assms stripped_subset [of raw] by (auto simp: index_of_def)
  then show ?thesis by (simp add: parseEvaluatorResponse_def Let_def)
qed

lemma parsed_evaluation_bounds:
  "0 \<le> pe_confidence (parseEvaluatorResponse raw) \<and> pe_confidence (parseEvaluatorResponse raw) \<le> 1
   \<and> pe_reason (parseEvaluatorResponse raw) \<noteq> []"
  using normalizeConfidence_bounds
  by (simp add: parseEvaluatorResponse_def Let_def split: option.split)

section \<open>Properties\<close>

text \<open>C33. Reading a verdict. A verdict written as the prompt asks, bare or inside a \<open>```json\<close>
  fence, is read back exactly. Whatever else the model sends, reading it never fails: the
  confidence lies between 0 and 1, the reason is not empty, and a text without an opening brace
  counts as in progress with confidence 0, so an unreadable reply never ends a project.\<close>

theorem verdict_read_back:
  assumes "js_trim reason = reason" "reason \<noteq> []" "json_ok c" "json_number c = Some q" "0 \<le> q" "q \<le> 1"
    and "raw \<in> set [stringify (verdict_json st reason c),
      ''```json'' @ [CHR 0x0A] @ stringify (verdict_json st reason c) @ [CHR 0x0A] @ ''```'']"
    and "CHR ''{'' \<notin> set noise"
  shows "parseEvaluatorResponse raw = \<lparr>pe_status = st, pe_reason = reason, pe_confidence = q\<rparr>
    \<and> pe_status (parseEvaluatorResponse noise) = GoalInProgress \<and> pe_confidence (parseEvaluatorResponse noise) = 0
    \<and> 0 \<le> pe_confidence (parseEvaluatorResponse any) \<and> pe_confidence (parseEvaluatorResponse any) \<le> 1
    \<and> pe_reason (parseEvaluatorResponse any) \<noteq> []"
proof -
  let ?t = "stringify (verdict_json st reason c)"
  obtain body where t: "?t = CHR ''{'' # body @ ''}''" by (simp add: verdict_json_def)
  have "json_parse ?t = Some (verdict_json st reason c)"
    by (rule parse_of_stringify) (simp add: verdict_json_def assms(3))
  then have p: "json_parse ?t = Some (JObj [(''status'', JStr (goal_status_name st)), (''reason'', JStr reason), (''confidence'', c)])"
    by (simp only: verdict_json_def)
  have "js_trim (strip_close_fence (strip_open_fence (js_trim raw))) = ?t"
    using assms(7) object_text_found(5-7) [OF t] fenced_text_stripped [OF t] by auto
  from parse_object_text [OF t this p]
  have "parseEvaluatorResponse raw = \<lparr>pe_status = st, pe_reason = reason, pe_confidence = q\<rparr>"
    using assms(1,2) normalizeConfidence_id [OF assms(4-6)] by simp
  with no_brace_unparsed [OF assms(8)] parsed_evaluation_bounds [of any] show ?thesis by simp
qed

theorem verdict_read_back_witness:
  "parseEvaluatorResponse (''```json'' @ [CHR 0x0A] @
     stringify (verdict_json GoalAchieved ''all shipped'' (JDec False 0 0 9)) @ [CHR 0x0A] @ ''```'') =
   \<lparr>pe_status = GoalAchieved, pe_reason = ''all shipped'', pe_confidence = 9 / 10\<rparr>"
  using verdict_read_back [of "''all shipped''" "JDec False 0 0 9" "9 / 10" _ GoalAchieved "''no idea''" "[]"]
  by (simp add: js_trim_id js_whitespace_def decimal_value_def show_nat.simps)

end
