(* ===== verification/Llm_Client.thy ===== *)
theory Llm_Client
  imports Cost Goal_Evaluator
begin

text \<open>
  The language-model interface of \<^verbatim>\<open>src/orchestrator/llm-client.ts\<close>. A client is a function
  of the index of the call and the request: an \<open>Inl\<close> is the error a call throws. The abort signal a
  request may carry is not part of the model.
\<close>

record llm_request =
  lr_system :: "string option"
  lr_user :: string
  lr_maxTokens :: "js_number option"
  lr_purpose :: "string option"

record llm_result =
  ll_text :: string
  ll_usage :: "llm_usage option"

type_synonym llm_client = "nat \<Rightarrow> llm_request \<Rightarrow> string + llm_result"

text \<open>The en dash of a prompt is the unit \<open>0x96\<close>.\<close>

definition EN_DASH :: string where
  "EN_DASH = [CHR 0x96]"

end
