(* ===== verification/Channel_Reply.thy ===== *)
theory Channel_Reply
  imports Project_Audit Json_Text
begin

text \<open>
  Replying in the channel a task came from, \<^verbatim>\<open>src/projects/channel-reply.ts\<close>. The send
  function is wired in by the gateway; here it is an argument that may throw.
\<close>

section \<open>Indented JSON\<close>

text \<open>\<open>JSON.stringify(v, null, 2)\<close>.\<close>

fun stringify_pretty :: "nat \<Rightarrow> json \<Rightarrow> string" where
  "stringify_pretty ind (JArr vs) =
     (if vs = [] then ''[]''
      else ''['' @ [CHR 0x0A] @ join_with ('','' @ [CHR 0x0A])
          (map (\<lambda>v. replicate (ind + 2) CHR '' '' @ stringify_pretty (ind + 2) v) vs)
        @ [CHR 0x0A] @ replicate ind CHR '' '' @ '']'')"
| "stringify_pretty ind (JObj kvs) =
     (if kvs = [] then ''{}''
      else ''{'' @ [CHR 0x0A] @ join_with ('','' @ [CHR 0x0A])
          (map (\<lambda>(k, v). replicate (ind + 2) CHR '' '' @ quote_json k @ '': '' @ stringify_pretty (ind + 2) v) kvs)
        @ [CHR 0x0A] @ replicate ind CHR '' '' @ ''}'')"
| "stringify_pretty ind v = stringify v"

section \<open>Operations\<close>

datatype reply_status = ReplyDone | ReplyReview | ReplyFailed

record reply_outcome =
  ro_status :: reply_status
  ro_result :: "json option"
  ro_error :: "string option"

datatype channel_reply_result =
    ReplyOk
  | NotChannelTask
  | MissingTarget
  | SendFailed string

type_synonym channel_send = "nat \<Rightarrow> channel_reply_params \<Rightarrow> string option"

definition readStringInput :: "json_object \<Rightarrow> string \<Rightarrow> string option" where
  "readStringInput input key =
     (case obj_get input key of Some (JStr s) \<Rightarrow> (if js_trim s \<noteq> [] then Some s else None) | _ \<Rightarrow> None)"

definition stringifyResult :: "json option \<Rightarrow> string" where
  "stringifyResult result =
     (case result of None \<Rightarrow> [] | Some JNull \<Rightarrow> [] | Some (JStr s) \<Rightarrow> s | Some v \<Rightarrow> stringify_pretty 0 v)"

definition formatReplyBody :: "task \<Rightarrow> reply_outcome \<Rightarrow> string" where
  "formatReplyBody t outcome =
     (case ro_status outcome of
        ReplyFailed \<Rightarrow> ''Task \"'' @ tk_title t @ ''\" failed: '' @ nullish (ro_error outcome) ''unknown error''
      | ReplyReview \<Rightarrow> ''Task \"'' @ tk_title t @ ''\" is awaiting review.'' @ [CHR 0x0A, CHR 0x0A]
          @ stringifyResult (ro_result outcome)
      | ReplyDone \<Rightarrow> (let s = stringifyResult (ro_result outcome)
          in if s \<noteq> [] then s else ''Task \"'' @ tk_title t @ ''\" completed.''))"

definition truthy_only :: "string option \<Rightarrow> string option" where
  "truthy_only v = (if truthy v then v else None)"

definition send_m :: "channel_send \<Rightarrow> channel_reply_params \<Rightarrow> ('x world, unit) prog" where
  "send_m send params = (\<lambda>w.
     let w1 = w\<lparr>w_sends := Suc (w_sends w)\<rparr>
     in case send (w_sends w) params of
          Some e \<Rightarrow> (Inl e, w1)
        | None \<Rightarrow> (Inr (), w1\<lparr>w_sent := w_sent w @ [params]\<rparr>))"

definition maybeReplyToChannelOrigin ::
  "channel_send \<Rightarrow> task \<Rightarrow> reply_outcome \<Rightarrow> ('x world, channel_reply_result) prog" where
  "maybeReplyToChannelOrigin send t outcome =
     (case tk_origin t of
        ChannelOrigin c \<Rightarrow>
          let target = nullish (case readStringInput (tk_input t) ''channelReplyTo'' of
                          Some s \<Rightarrow> Some s | None \<Rightarrow> ch_threadId c) []
          in if target = [] then return_m MissingTarget
             else catch_m
               (seq_m (send_m send \<lparr>cr_channel = ch_channel c, cr_to = target,
                    cr_accountId = truthy_only (ch_accountId c), cr_threadId = truthy_only (ch_threadId c),
                    cr_text = formatReplyBody t outcome\<rparr>)
                 (return_m ReplyOk))
               (\<lambda>e. return_m (SendFailed e))
      | _ \<Rightarrow> return_m NotChannelTask)"

section \<open>Facts\<close>

lemma reply_never_throws: "\<exists>r. fst (maybeReplyToChannelOrigin send t outcome w) = Inr r"
  by (auto simp: maybeReplyToChannelOrigin_def Let_def catch_m_apply seq_m_apply
      split: task_origin.splits sum.splits prod.splits)

text \<open>A reply changes the send counter and the messages sent, nothing else.\<close>

lemma reply_preserves:
  assumes "\<And>w n sent. P (w\<lparr>w_sends := n, w_sent := sent\<rparr>) = P w"
    and "\<And>w n. P (w\<lparr>w_sends := n\<rparr>) = P w"
  shows "preserves P (maybeReplyToChannelOrigin send t outcome)"
proof -
  have "preserves P (send_m send params)" for params
    by (rule preservesI) (simp add: send_m_def Let_def assms split: option.splits)
  then show ?thesis
    unfolding maybeReplyToChannelOrigin_def Let_def
    by (auto split: task_origin.splits intro!: preserves_intros)
qed

section \<open>Properties\<close>

text \<open>A reply goes only to the channel the task came from, on its account and thread, and only
  when there is a target: the task's explicit \<open>channelReplyTo\<close> or else the origin thread. Other tasks
  send nothing, a failing send is reported and never thrown, and at most one message is sent.\<close>

lemma reply_only_to_origin:
  "case maybeReplyToChannelOrigin send t outcome w of
     (Inr ReplyOk, w') \<Rightarrow>
       (\<exists>c m. tk_origin t = ChannelOrigin c \<and> w_sent w' = w_sent w @ [m] \<and> cr_channel m = ch_channel c
          \<and> cr_to m \<noteq> []
          \<and> (readStringInput (tk_input t) ''channelReplyTo'' = Some (cr_to m) \<or> ch_threadId c = Some (cr_to m)))
   | (Inr r, w') \<Rightarrow> w_sent w' = w_sent w
       \<and> (r = NotChannelTask \<longleftrightarrow> (\<forall>c. tk_origin t \<noteq> ChannelOrigin c))
   | (Inl e, w') \<Rightarrow> False"
proof (cases "tk_origin t")
  case (ChannelOrigin c)
  let ?target = "nullish (case readStringInput (tk_input t) ''channelReplyTo'' of
      Some s \<Rightarrow> Some s | None \<Rightarrow> ch_threadId c) []"
  have "?target \<noteq> [] \<Longrightarrow>
      readStringInput (tk_input t) ''channelReplyTo'' = Some ?target \<or> ch_threadId c = Some ?target"
    by (cases "readStringInput (tk_input t) ''channelReplyTo''"; cases "ch_threadId c") simp_all
  then show ?thesis
    by (simp add: maybeReplyToChannelOrigin_def ChannelOrigin Let_def catch_m_apply seq_m_apply send_m_def
        split: option.splits)
qed (simp_all add: maybeReplyToChannelOrigin_def)

end
