(* ===== verification/Pickup_Loop.thy ===== *)
theory Pickup_Loop
  imports Channel_Reply Origin_Context
begin

text \<open>
  The auto-pickup loop, \<^verbatim>\<open>src/projects/pickup-loop.ts\<close>: a tick scans the active projects,
  claims one eligible task per registered role, runs the worker under the task's origin, and
  saves and logs the outcome; a project whose tasks have all ended is handed to the
  goal-loop hook.

  A worker is a program on the whole world (the capability workers write files), run under an
  origin slot; it may throw. Timers and the abort signal are events of \<open>loop_run\<close>.
\<close>

section \<open>Types\<close>

record project_worker_input =
  pi_task :: task
  pi_project :: project
  pi_dependencyOutputs :: dependency_outputs

record project_worker_output =
  pwo_ok :: bool
  pwo_result :: "json option"
  pwo_error :: "string option"
  pwo_toReview :: "bool option"
  pwo_costUsd :: "js_number option"

type_synonym 'x project_worker =
  "project_worker_input \<Rightarrow> (('x world, project_worker_output) prog) under_origin"

record 'x pickup_opts = env +
  po_workers :: "(worker_role \<times> 'x project_worker) list"
  po_claimedBy :: string
  po_send :: "channel_send option"
  po_lock :: "nat \<Rightarrow> lock_answer"
  po_onProjectIdle :: "(project \<Rightarrow> task list \<Rightarrow> ('x world, unit) prog) option"

section \<open>Operations\<close>

definition isProjectIdle_tick :: "task list \<Rightarrow> bool" where
  "isProjectIdle_tick tasks \<longleftrightarrow>
     (if length tasks = 0 then False
      else list_all (\<lambda>t. \<not> (tk_status t \<noteq> Done \<and> tk_status t \<noteq> Failed \<and> tk_status t \<noteq> Blocked)) tasks)"

definition emitAudit_task :: "'x pickup_opts \<Rightarrow> projects_audit_kind \<Rightarrow> task \<Rightarrow> ('x world, unit) prog" where
  "emitAudit_task opts kind t = audit_if opts kind (summarizeTaskForAudit t)"

definition attachCost :: "task \<Rightarrow> js_number option \<Rightarrow> task" where
  "attachCost t costUsd =
     (case costUsd of Some (FiniteNum c) \<Rightarrow> (if c \<le> 0 then t else t\<lparr>tk_costUsd := Some c\<rparr>) | _ \<Rightarrow> t)"

definition maybeReplyForOutcome :: "'x pickup_opts \<Rightarrow> task \<Rightarrow> reply_outcome \<Rightarrow> ('x world, unit) prog" where
  "maybeReplyForOutcome opts t outcome =
     (case po_send opts of
        None \<Rightarrow> return_m ()
      | Some send \<Rightarrow> seq_m (maybeReplyToChannelOrigin send t outcome) (return_m ()))"

definition runUnderTaskOrigin :: "task \<Rightarrow> project \<Rightarrow> 'a under_origin \<Rightarrow> 'a under_origin" where
  "runUnderTaskOrigin t project fn =
     (let details = [(''projectId'', pr_id project), (''taskId'', tk_id t)]
      in case tk_origin t of
           ChannelOrigin c \<Rightarrow> runAsChannel (ch_channel c)
             (details
              @ (if truthy (ch_accountId c) then [(''accountId'', the (ch_accountId c))] else [])
              @ (if truthy (ch_threadId c) then [(''threadId'', the (ch_threadId c))] else [])) fn
         | _ \<Rightarrow> runAsOperator fn (Some details))"

definition collect_outputs :: "task list \<Rightarrow> string list \<Rightarrow> dependency_outputs" where
  "collect_outputs tasks deps =
     fold (\<lambda>depId out. case find (\<lambda>t. tk_id t = depId) tasks of
         Some dep \<Rightarrow> (if tk_status dep = Done then AList.update depId (tk_output dep) out else out)
       | None \<Rightarrow> out) deps []"

definition resolveDependencyOutputs :: "'x pickup_opts \<Rightarrow> task \<Rightarrow> ('x world, dependency_outputs) prog" where
  "resolveDependencyOutputs opts t =
     (if length (tk_dependsOn t) = 0 then return_m []
      else bind_m (on_fs (listTasks (e_projectsDir opts) (tk_projectId t))) (\<lambda>tasks.
        return_m (collect_outputs tasks (tk_dependsOn t))))"

definition is_true :: "bool option \<Rightarrow> bool" where
  "is_true b \<longleftrightarrow> b = Some True"

definition failed_reply :: "string option \<Rightarrow> reply_outcome" where
  "failed_reply e = \<lparr>ro_status = ReplyFailed, ro_result = None, ro_error = e\<rparr>"

text \<open>The part of the \<open>try\<close> after the worker answered.\<close>

definition settle_output :: "'x pickup_opts \<Rightarrow> task \<Rightarrow> project_worker_output \<Rightarrow> ('x world, unit) prog" where
  "settle_output opts t output =
     (if \<not> pwo_ok output then
        bind_m (now_m opts) (\<lambda>ts.
        let failed = attachCost (markTaskFailed_t t (nullish (pwo_error output) ''worker reported ok=false'') ts)
              (pwo_costUsd output)
        in seq_m (on_fs (saveTask (e_projectsDir opts) failed))
          (seq_m (emitAudit_task opts KTaskFailed failed)
            (maybeReplyForOutcome opts failed (failed_reply (tk_error failed)))))
      else
        bind_m (now_m opts) (\<lambda>ts.
        let completed = (if is_true (pwo_toReview output) then markTaskInReview t (pwo_result output) ts
              else markTaskDone t (pwo_result output) ts);
            next = attachCost completed (pwo_costUsd output)
        in seq_m (on_fs (saveTask (e_projectsDir opts) next))
          (seq_m (emitAudit_task opts (if is_true (pwo_toReview output) then KTaskInReview else KTaskCompleted) next)
            (maybeReplyForOutcome opts next
              \<lparr>ro_status = (if is_true (pwo_toReview output) then ReplyReview else ReplyDone),
               ro_result = pwo_result output, ro_error = None\<rparr>))))"

definition fail_task :: "'x pickup_opts \<Rightarrow> task \<Rightarrow> string \<Rightarrow> ('x world, unit) prog" where
  "fail_task opts t message =
     bind_m (now_m opts) (\<lambda>ts.
     let failed = markTaskFailed_t t message ts
     in seq_m (on_fs (saveTask (e_projectsDir opts) failed))
       (seq_m (emitAudit_task opts KTaskFailed failed)
         (maybeReplyForOutcome opts failed (failed_reply (Some message)))))"

definition runWorkerForTask :: "'x pickup_opts \<Rightarrow> task \<Rightarrow> project \<Rightarrow> ('x world, unit) prog" where
  "runWorkerForTask opts t project =
     (case map_of (po_workers opts) (tk_role t) of
        None \<Rightarrow>
          bind_m (now_m opts) (\<lambda>ts.
          let failed = markTaskFailed_t t (''no worker registered for role '' @ role_name (tk_role t)) ts
          in seq_m (on_fs (saveTask (e_projectsDir opts) failed)) (emitAudit_task opts KTaskFailed failed))
      | Some worker \<Rightarrow>
          bind_m (resolveDependencyOutputs opts t) (\<lambda>dependencyOutputs.
          catch_m
            (bind_m (runUnderTaskOrigin t project
                (worker \<lparr>pi_task = t, pi_project = project, pi_dependencyOutputs = dependencyOutputs\<rparr>) None)
              (settle_output opts t))
            (fail_task opts t)))"

text \<open>\<open>claimTask\<close> in the world; its clock is read only when a task is claimed.\<close>

definition claim_m :: "'x pickup_opts \<Rightarrow> string \<Rightarrow> worker_role \<Rightarrow> ('x world, claim_result) prog" where
  "claim_m opts projectId role = (\<lambda>w.
     case claimTask (e_projectsDir opts) projectId role (po_claimedBy opts) (e_now opts (w_clock w))
         (po_lock opts (w_locks w)) (w_fs w) of
       (r, fs) \<Rightarrow> (r, w\<lparr>w_fs := fs, w_locks := Suc (w_locks w),
         w_clock := (case r of Inr (ClaimOk _) \<Rightarrow> Suc (w_clock w) | _ \<Rightarrow> w_clock w)\<rparr>))"

definition pickup_role :: "'x pickup_opts \<Rightarrow> project \<Rightarrow> string \<Rightarrow> worker_role \<Rightarrow> ('x world, unit) prog" where
  "pickup_role opts project projectId role =
     bind_m (claim_m opts projectId role) (\<lambda>claim.
       case claim of
         ClaimOk t \<Rightarrow> seq_m (emitAudit_task opts KTaskClaimed t) (runWorkerForTask opts t project)
       | _ \<Rightarrow> return_m ())"

definition idle_hook :: "'x pickup_opts \<Rightarrow> string \<Rightarrow> ('x world, unit) prog" where
  "idle_hook opts projectId =
     (case po_onProjectIdle opts of
        None \<Rightarrow> return_m ()
      | Some hook \<Rightarrow>
          bind_m (on_fs (loadProject (e_projectsDir opts) projectId)) (\<lambda>fresh.
            case fresh of
              None \<Rightarrow> return_m ()
            | Some freshProject \<Rightarrow>
                when_m (pr_status freshProject = Active)
                 (bind_m (on_fs (listTasks (e_projectsDir opts) projectId)) (\<lambda>tasks.
                    when_m (isProjectIdle_tick tasks) (hook freshProject tasks)))))"

definition pickup_project :: "'x pickup_opts \<Rightarrow> string \<Rightarrow> ('x world, unit) prog" where
  "pickup_project opts projectId =
     bind_m (on_fs (loadProject (e_projectsDir opts) projectId)) (\<lambda>loaded.
       case loaded of
         None \<Rightarrow> return_m ()
       | Some project \<Rightarrow>
           when_m (pr_status project = Active)
            (seq_m (for_m (map fst (po_workers opts)) (pickup_role opts project projectId))
              (idle_hook opts projectId)))"

definition runPickupTick :: "'x pickup_opts \<Rightarrow> ('x world, unit) prog" where
  "runPickupTick opts =
     bind_m (get_m (\<lambda>w. listProjectIds (e_projectsDir opts) (w_fs w))) (\<lambda>projectIds.
       for_m projectIds (pickup_project opts))"

text \<open>\<open>startPickupLoop\<close>: the handle's flag, and what the timer, the abort signal and the
  handle's methods do to it. A tick that throws rejects its promise and changes nothing more.\<close>

datatype loop_event = TimerFires | RunOnce | StopCalled | AbortSignal

definition loop_event_step :: "'x pickup_opts \<Rightarrow> loop_event \<Rightarrow> bool \<times> 'x world \<Rightarrow> bool \<times> 'x world" where
  "loop_event_step opts ev st =
     (case st of (stopped, w) \<Rightarrow>
        (case ev of
           StopCalled \<Rightarrow> (True, w)
         | AbortSignal \<Rightarrow> (True, w)
         | _ \<Rightarrow> (if stopped then (stopped, w) else (stopped, snd (runPickupTick opts w)))))"

definition loop_run :: "'x pickup_opts \<Rightarrow> loop_event list \<Rightarrow> 'x world \<Rightarrow> bool \<times> 'x world" where
  "loop_run opts evs w = fold (loop_event_step opts) evs (False, w)"

section \<open>Invariants of a tick\<close>

text \<open>What the plugged-in programs, the workers and the idle hook, are relied on for: they keep
  the invariant themselves.\<close>

definition plugins_keep :: "'x pickup_opts \<Rightarrow> ('x world \<Rightarrow> bool) \<Rightarrow> bool" where
  "plugins_keep opts P \<longleftrightarrow>
     (\<forall>(role, worker) \<in> set (po_workers opts). \<forall>input slot. preserves P (worker input slot))
     \<and> (case po_onProjectIdle opts of None \<Rightarrow> True | Some hook \<Rightarrow> \<forall>pr ts. preserves P (hook pr ts))"

text \<open>
  An invariant of the world that the loop's own primitives keep: appending to the log,
  reading the clock, saving a task, claiming and replying. Then the whole tick keeps it.
\<close>

locale tick_invariant =
  fixes opts :: "'x pickup_opts" and P :: "'x world \<Rightarrow> bool"
  assumes emit: "preserves P (emitProjectsAuditEvent opts k payload)"
    and now: "preserves P (now_m opts)"
    and saves: "preserves P (on_fs (saveTask (e_projectsDir opts) t))"
    and claims: "preserves P (claim_m opts i role)"
    and sends: "P (w\<lparr>w_sends := n, w_sent := sent\<rparr>) = P w" "P (w\<lparr>w_sends := n\<rparr>) = P w"
begin

lemma on_fs_id: "w\<lparr>w_fs := w_fs w\<rparr> = w"
  by simp

lemma reads: "(\<And>fs. snd (m fs) = fs) \<Longrightarrow> preserves P (on_fs m)"
  by (rule preservesI) (simp add: on_fs_apply)

lemma list_reads: "preserves P (on_fs (listTasks d i))" "preserves P (on_fs (loadProject d i))"
proof -
  have "snd (listTasks d i fs) = fs" for fs :: "'x state_fs"
    using preservesD [OF listTasks_keeps, of "\<lambda>s. s = fs" fs d i] by simp
  then show "preserves P (on_fs (listTasks d i))" by (rule reads)
  have "snd (loadProject d i fs) = fs" for fs :: "'x state_fs"
    using preservesD [OF loadProject_keeps, of "\<lambda>s. s = fs" fs d i] by simp
  then show "preserves P (on_fs (loadProject d i))" by (rule reads)
qed

lemma audits: "preserves P (emitAudit_task opts k t)"
  unfolding emitAudit_task_def by (intro audit_if_preserves emit)

lemma replies: "preserves P (maybeReplyForOutcome opts t outcome)"
  unfolding maybeReplyForOutcome_def
  by (cases "po_send opts") (auto intro!: preserves_intros reply_preserves simp: sends)

lemmas primitive_intros = now saves claims audits replies list_reads

lemma settle_keeps: "preserves P (settle_output opts t output)" "preserves P (fail_task opts t msg)"
  unfolding settle_output_def fail_task_def Let_def
  by (intro preserves_intros primitive_intros)+

lemma deps_keep: "preserves P (resolveDependencyOutputs opts t)"
  unfolding resolveDependencyOutputs_def by (intro preserves_intros primitive_intros)

lemma worker_keeps:
  assumes "plugins_keep opts P"
  shows "preserves P (runWorkerForTask opts t project)"
proof -
  have "preserves P (runUnderTaskOrigin t project (worker input) slot)"
    if "map_of (po_workers opts) role = Some worker" for role worker input slot
  proof -
    from that have "(role, worker) \<in> set (po_workers opts)" by (rule map_of_SomeD)
    with assms have "preserves P (worker input slot')" for slot' by (auto simp: plugins_keep_def)
    then show ?thesis
      by (simp add: runUnderTaskOrigin_def Let_def runAsChannel_def runAsOperator_def runWithOrigin_def
          split: task_origin.splits)
  qed
  then show ?thesis
    unfolding runWorkerForTask_def Let_def
    by (intro preserves_intros primitive_intros settle_keeps deps_keep)
qed

lemma role_keeps: "plugins_keep opts P \<Longrightarrow> preserves P (pickup_role opts project i role)"
  unfolding pickup_role_def
  by (intro preserves_intros primitive_intros)
    (auto intro!: preserves_intros primitive_intros worker_keeps split: claim_result.splits)

lemma hook_keeps: "plugins_keep opts P \<Longrightarrow> preserves P (idle_hook opts i)"
  unfolding idle_hook_def
  by (auto intro!: preserves_intros primitive_intros simp: plugins_keep_def split: option.splits)

lemma tick_keeps: "plugins_keep opts P \<Longrightarrow> preserves P (runPickupTick opts)"
  unfolding runPickupTick_def pickup_project_def
  by (intro preserves_intros primitive_intros role_keeps hook_keeps)

end

lemma claim_m_log_ok: "preserves (log_ok env) (claim_m opts i role)"
  by (rule preservesI) (simp add: claim_m_def log_ok_def split: prod.splits)

lemma claim_m_fs_inv:
  assumes "\<And>ts lock. preserves P (claimTask (e_projectsDir opts) i role (po_claimedBy opts) ts lock)"
  shows "preserves (fs_inv P) (claim_m opts i role)"
proof (rule preservesI)
  fix w :: "'a world"
  assume "fs_inv P w"
  then show "fs_inv P (snd (claim_m opts i role w))"
    using preservesD [OF assms, of "w_fs w"]
    by (simp add: claim_m_def fs_inv_def split: prod.splits) (metis snd_conv)
qed

interpretation tick_log: tick_invariant opts "log_ok opts" for opts
  by unfold_locales
    (auto intro: preserves_intros claim_m_log_ok simp: log_ok_def)

interpretation tick_store: tick_invariant opts "fs_inv (store_wf (e_projectsDir opts) p)" for opts p
  by unfold_locales
    (auto intro!: preserves_intros on_fs_inv claim_m_fs_inv simp: fs_inv_def)

section \<open>The outcome of a task\<close>

definition settled :: "task \<Rightarrow> string + project_worker_output \<Rightarrow> string \<Rightarrow> task" where
  "settled t r ts =
     (case r of
        Inl message \<Rightarrow> markTaskFailed_t t message ts
      | Inr output \<Rightarrow> attachCost
          (if \<not> pwo_ok output then markTaskFailed_t t (nullish (pwo_error output) ''worker reported ok=false'') ts
           else if is_true (pwo_toReview output) then markTaskInReview t (pwo_result output) ts
           else markTaskDone t (pwo_result output) ts) (pwo_costUsd output))"

definition audit_quiet :: "'e env_scheme \<Rightarrow> bool" where
  "audit_quiet env \<longleftrightarrow> (\<forall>n. e_auditThrows env n = None)"

text \<open>Programs that return and leave the state directory alone.\<close>

definition off_disk :: "('x world, 'a) prog \<Rightarrow> bool" where
  "off_disk m \<longleftrightarrow> (\<forall>w. \<exists>x w'. m w = (Inr x, w') \<and> w_fs w' = w_fs w)"

lemma off_diskE:
  assumes "off_disk m" obtains x w' where "m w = (Inr x, w')" "w_fs w' = w_fs w"
  using assms unfolding off_disk_def by blast

lemma off_disk_audit: "audit_quiet opts \<Longrightarrow> off_disk (emitAudit_task opts k t)"
  by (simp add: off_disk_def emitAudit_task_def audit_if_def emitProjectsAuditEvent_def audit_quiet_def Let_def)

lemma off_disk_seq: "off_disk m \<Longrightarrow> off_disk k \<Longrightarrow> off_disk (seq_m m k)"
  unfolding off_disk_def
proof
  fix w
  assume m: "\<forall>w. \<exists>x w'. m w = (Inr x, w') \<and> w_fs w' = w_fs w"
    and k: "\<forall>w. \<exists>x w'. k w = (Inr x, w') \<and> w_fs w' = w_fs w"
  from m obtain x w1 where 1: "m w = (Inr x, w1)" "w_fs w1 = w_fs w" by blast
  from k obtain y w2 where "k w1 = (Inr y, w2)" "w_fs w2 = w_fs w1" by blast
  with 1 show "\<exists>x w'. seq_m m k w = (Inr x, w') \<and> w_fs w' = w_fs w" by (simp add: seq_m_apply)
qed

lemma off_disk_return: "off_disk (return_m x)"
  by (simp add: off_disk_def)

lemma off_disk_channel_reply: "off_disk (maybeReplyToChannelOrigin send t outcome)"
  unfolding off_disk_def
proof
  fix w
  from reply_never_throws [of send t outcome w] obtain r where
    "fst (maybeReplyToChannelOrigin send t outcome w) = Inr r" by blast
  moreover have "w_fs (snd (maybeReplyToChannelOrigin send t outcome w)) = w_fs w"
    using preservesD [OF reply_preserves [where P = "\<lambda>v. w_fs v = w_fs w"]] by simp
  ultimately show "\<exists>x w'. maybeReplyToChannelOrigin send t outcome w = (Inr x, w') \<and> w_fs w' = w_fs w"
    by (metis prod.collapse)
qed

lemma off_disk_reply: "off_disk (maybeReplyForOutcome opts t outcome)"
  by (simp add: maybeReplyForOutcome_def off_disk_seq off_disk_return off_disk_channel_reply split: option.split)

lemma save_then_off_disk:
  assumes "off_disk k" and "safe_id (tk_projectId t)" "safe_id (tk_id t)"
  shows "\<exists>x w'. seq_m (on_fs (saveTask dir t)) k w = (Inr x, w') \<and> w_fs w' = snd (saveTask dir t (w_fs w))"
proof -
  have "fst (saveTask dir t (w_fs w)) = Inr ()" using assms(2,3) by (simp add: saveTask_safe)
  moreover obtain x w' where "k (w\<lparr>w_fs := snd (saveTask dir t (w_fs w))\<rparr>) = (Inr x, w')"
    "w_fs w' = w_fs (w\<lparr>w_fs := snd (saveTask dir t (w_fs w))\<rparr>)"
    using off_diskE [OF assms(1)] by metis
  ultimately show ?thesis by (simp add: seq_m_apply on_fs_apply)
qed

lemma attachCost_ids [simp]:
  "tk_id (attachCost t c) = tk_id t" "tk_projectId (attachCost t c) = tk_projectId t"
  "tk_status (attachCost t c) = tk_status t" "tk_dependsOn (attachCost t c) = tk_dependsOn t"
  "tk_role (attachCost t c) = tk_role t" "tk_error (attachCost t c) = tk_error t"
  by (simp_all add: attachCost_def split: option.splits js_number.splits)

lemma settled_ids [simp]:
  "tk_id (settled t r ts) = tk_id t" "tk_projectId (settled t r ts) = tk_projectId t"
  "tk_dependsOn (settled t r ts) = tk_dependsOn t" "tk_role (settled t r ts) = tk_role t"
  by (simp_all add: settled_def markTaskFailed_t_def markTaskInReview_def markTaskDone_def split: sum.splits)

lemma settle_output_saves:
  assumes "audit_quiet opts" "safe_id (tk_projectId t)" "safe_id (tk_id t)"
  shows "\<exists>w'. settle_output opts t output w = (Inr (), w')
    \<and> w_fs w' = snd (saveTask (e_projectsDir opts) (settled t (Inr output) (e_now opts (w_clock w))) (w_fs w))"
proof -
  let ?t = "settled t (Inr output) (e_now opts (w_clock w))" and ?w = "w\<lparr>w_clock := Suc (w_clock w)\<rparr>"
  have eq: "settle_output opts t output w =
      seq_m (on_fs (saveTask (e_projectsDir opts) ?t))
        (seq_m (emitAudit_task opts (if \<not> pwo_ok output then KTaskFailed
            else if is_true (pwo_toReview output) then KTaskInReview else KTaskCompleted) ?t)
          (maybeReplyForOutcome opts ?t (if \<not> pwo_ok output then failed_reply (tk_error ?t)
            else \<lparr>ro_status = (if is_true (pwo_toReview output) then ReplyReview else ReplyDone),
               ro_result = pwo_result output, ro_error = None\<rparr>))) ?w"
    by (simp add: settle_output_def settled_def now_m_def bind_m_apply Let_def)
  show ?thesis
    unfolding eq
    using save_then_off_disk [OF off_disk_seq [OF off_disk_audit [OF assms(1)] off_disk_reply], of ?t, simplified,
        OF assms(2,3), of "e_projectsDir opts" _ _ _ _ _ ?w]
    by simp
qed

lemma fail_task_saves:
  assumes "audit_quiet opts" "safe_id (tk_projectId t)" "safe_id (tk_id t)"
  shows "\<exists>w'. fail_task opts t msg w = (Inr (), w')
    \<and> w_fs w' = snd (saveTask (e_projectsDir opts) (settled t (Inl msg) (e_now opts (w_clock w))) (w_fs w))"
proof -
  let ?t = "settled t (Inl msg) (e_now opts (w_clock w))" and ?w = "w\<lparr>w_clock := Suc (w_clock w)\<rparr>"
  have eq: "fail_task opts t msg w =
      seq_m (on_fs (saveTask (e_projectsDir opts) ?t))
        (seq_m (emitAudit_task opts KTaskFailed ?t)
          (maybeReplyForOutcome opts ?t (failed_reply (Some msg)))) ?w"
    by (simp add: fail_task_def settled_def now_m_def bind_m_apply Let_def)
  show ?thesis
    unfolding eq
    using save_then_off_disk [OF off_disk_seq [OF off_disk_audit [OF assms(1)] off_disk_reply], of ?t, simplified,
        OF assms(2,3), of "e_projectsDir opts" _ _ _ _ _ ?w]
    by simp
qed

definition worker_run ::
  "'x pickup_opts \<Rightarrow> 'x project_worker \<Rightarrow> task \<Rightarrow> project \<Rightarrow> 'x world \<Rightarrow> (string + project_worker_output) \<times> 'x world" where
  "worker_run opts worker t project w =
     runUnderTaskOrigin t project (worker \<lparr>pi_task = t, pi_project = project,
       pi_dependencyOutputs = collect_outputs (task_list (e_projectsDir opts) (tk_projectId t) (w_fs w)) (tk_dependsOn t)\<rparr>)
       None w"

lemma resolveDependencyOutputs_wf:
  assumes "store_wf (e_projectsDir opts) (tk_projectId t) (w_fs w)"
  shows "resolveDependencyOutputs opts t w =
    (Inr (collect_outputs (task_list (e_projectsDir opts) (tk_projectId t) (w_fs w)) (tk_dependsOn t)), w)"
  by (simp add: resolveDependencyOutputs_def collect_outputs_def bind_m_apply on_fs_apply listTasks_wf [OF assms])

lemma runWorkerForTask_saves:
  assumes quiet: "audit_quiet opts" and wf: "store_wf (e_projectsDir opts) (tk_projectId t) (w_fs w)"
    and safe: "safe_id (tk_id t)" and worker: "map_of (po_workers opts) (tk_role t) = Some worker"
    and run: "worker_run opts worker t project w = (r, w1)"
  shows "\<exists>w'. runWorkerForTask opts t project w = (Inr (), w')
    \<and> w_fs w' = snd (saveTask (e_projectsDir opts) (settled t r (e_now opts (w_clock w1))) (w_fs w1))"
proof -
  have p: "safe_id (tk_projectId t)" using wf by (simp add: store_wf_def)
  have eq: "runWorkerForTask opts t project w =
      (case r of Inl e \<Rightarrow> fail_task opts t e w1
       | Inr out \<Rightarrow> catch_m (settle_output opts t out) (fail_task opts t) w1)"
    using run by (simp add: runWorkerForTask_def worker resolveDependencyOutputs_wf [OF wf] worker_run_def
        bind_m_apply catch_m_apply split: sum.split)
  show ?thesis
  proof (cases r)
    case (Inl e)
    with eq fail_task_saves [OF quiet p safe] show ?thesis by simp
  next
    case (Inr out)
    with eq settle_output_saves [OF quiet p safe, of out w1] show ?thesis by (auto simp: catch_m_apply)
  qed
qed

section \<open>Draining a board\<close>

text \<open>Workers that answer with success and leave the state directory alone, a free lock, a
  writable log and no idle hook.\<close>

definition quiet_worker :: "'x project_worker \<Rightarrow> bool" where
  "quiet_worker worker \<longleftrightarrow>
     (\<forall>input slot w. \<exists>out w'. worker input slot w = (Inr out, w') \<and> w_fs w' = w_fs w
        \<and> pwo_ok out \<and> \<not> is_true (pwo_toReview out))"

definition reliable :: "'x pickup_opts \<Rightarrow> bool" where
  "reliable opts \<longleftrightarrow>
     audit_quiet opts \<and> (\<forall>n. po_lock opts n = LockAcquired) \<and> po_onProjectIdle opts = None
     \<and> (\<forall>role worker. map_of (po_workers opts) role = Some worker \<longrightarrow> quiet_worker worker)"

text \<open>A board whose tasks wait unclaimed or are done, with a worker for every role and
  dependencies that exist and descend in \<open>rank\<close>.\<close>

definition board :: "path \<Rightarrow> string \<Rightarrow> (string \<Rightarrow> nat) \<Rightarrow> worker_role set \<Rightarrow> 'x state_fs \<Rightarrow> bool" where
  "board dir p rank roles fs \<longleftrightarrow>
     store_wf dir p fs
     \<and> (\<forall>i t. stored_task dir fs (p, i) = Some t \<longrightarrow>
          (tk_status t = Done \<or> tk_status t = Queued \<and> \<not> truthy (tk_claimedBy t))
          \<and> tk_role t \<in> roles
          \<and> (\<forall>d \<in> set (tk_dependsOn t). stored_task dir fs (p, d) \<noteq> None \<and> rank d < rank i))"

definition open_ids :: "path \<Rightarrow> string \<Rightarrow> 'x state_fs \<Rightarrow> string set" where
  "open_ids dir p fs = {i. \<exists>t. stored_task dir fs (p, i) = Some t \<and> tk_status t \<noteq> Done}"

definition same_names :: "'x state_fs \<Rightarrow> 'x state_fs \<Rightarrow> bool" where
  "same_names fs fs' \<longleftrightarrow> fs_dirs fs' = fs_dirs fs \<and> map fst (fs_files fs') = map fst (fs_files fs)"

lemma same_names_list: "same_names fs fs' \<Longrightarrow> listProjectIds dir fs' = listProjectIds dir fs"
proof -
  assume names: "same_names fs fs'"
  then have "set (map fst (fs_files fs')) = set (map fst (fs_files fs))" by (simp add: same_names_def)
  then have "existsSync fs' q = existsSync fs q" for q
    using names by (simp add: same_names_def existsSync_def map_of_eq_None_iff del: not_None_eq)
  moreover have "readdirSync fs' d = readdirSync fs d" for d
    using names by (simp add: same_names_def readdirSync_def)
  ultimately show ?thesis by (simp add: listProjectIds_def)
qed

lemma same_names_overwrite:
  assumes wf: "store_wf dir (tk_projectId t) fs"
    and stored: "stored_task dir fs (tk_projectId t, tk_id t) = Some u"
  shows "same_names fs (snd (saveTask dir t fs))"
proof -
  from stored have safe: "safe_id (tk_projectId t)" "safe_id (tk_id t)"
    and r: "read_file fs (task_path dir (tk_projectId t) (tk_id t)) = Some (TaskFile u)"
    by (simp_all add: stored_task_iff)
  from r have "existsSync fs (tasks_dir dir (tk_projectId t) @ [tk_id t @ ''.json''])"
    by (simp add: read_file_exists)
  then have "existsSync fs (tasks_dir dir (tk_projectId t))" using wf unfolding store_wf_iff by blast
  moreover from r have "task_path dir (tk_projectId t) (tk_id t) \<in> set (map fst (fs_files fs))"
    by (rule read_file_key)
  ultimately show ?thesis
    using safe by (simp add: same_names_def saveTask_safe with_dir_def writeFileSync_def update_keys)
qed

lemma finite_open_ids: "store_wf dir p fs \<Longrightarrow> finite (open_ids dir p fs)"
proof -
  assume wf: "store_wf dir p fs"
  have "open_ids dir p fs \<subseteq> tk_id ` set (task_list dir p fs)"
  proof
    fix i
    assume "i \<in> open_ids dir p fs"
    then obtain t where t: "stored_task dir fs (p, i) = Some t" by (auto simp: open_ids_def)
    then have "tk_id t = i" using stored_task_keyed [OF wf] by blast
    with t show "i \<in> tk_id ` set (task_list dir p fs)" by (metis image_eqI task_list_iff [OF wf])
  qed
  then show ?thesis by (rule finite_subset) simp
qed

text \<open>Completing an open task in place keeps the board and closes exactly that id.\<close>

lemma board_complete:
  assumes b: "board dir p rank roles fs" and e: "stored_task dir fs (p, tk_id e) = Some e" "tk_status e \<noteq> Done"
    and c: "tk_projectId c = p" "tk_id c = tk_id e" "tk_role c = tk_role e" "tk_dependsOn c = tk_dependsOn e"
      "tk_status c = Done"
    and fs': "\<And>i. stored_task dir fs' (p, i) = (if i = tk_id e then Some c else stored_task dir fs (p, i))"
      "store_wf dir p fs'"
  shows "board dir p rank roles fs'" "open_ids dir p fs' = open_ids dir p fs - {tk_id e}"
    "tk_id e \<in> open_ids dir p fs"
proof -
  show "board dir p rank roles fs'"
    using b e(1) c fs'(2) unfolding board_def by (auto simp: fs'(1) split: if_splits)
  show "open_ids dir p fs' = open_ids dir p fs - {tk_id e}"
    using c(5) by (auto simp: open_ids_def fs'(1) split: if_splits)
  show "tk_id e \<in> open_ids dir p fs" using e by (simp add: open_ids_def)
qed

lemma quiet_worker_run:
  assumes "quiet_worker worker"
  obtains out w' where "worker_run opts worker t project w = (Inr out, w')" "w_fs w' = w_fs w"
    "pwo_ok out" "\<not> is_true (pwo_toReview out)"
proof -
  have "\<exists>slot. runUnderTaskOrigin t project fn None = fn slot" for fn :: "'y under_origin"
    by (cases "tk_origin t") (auto simp: runUnderTaskOrigin_def Let_def runAsChannel_def runAsOperator_def runWithOrigin_def)
  then obtain input slot where "worker_run opts worker t project w = worker input slot w"
    unfolding worker_run_def by (metis (no_types, lifting))
  with assms that show ?thesis unfolding quiet_worker_def by metis
qed

lemma reliable_run_completes:
  assumes rel: "reliable opts" and wf: "store_wf (e_projectsDir opts) (tk_projectId t) (w_fs w)"
    and safe: "safe_id (tk_id t)" and role: "tk_role t \<in> fst ` set (po_workers opts)"
  shows "\<exists>d w'. runWorkerForTask opts t project w = (Inr (), w')
    \<and> w_fs w' = snd (saveTask (e_projectsDir opts) d (w_fs w)) \<and> tk_status d = Done \<and> tk_id d = tk_id t
    \<and> tk_projectId d = tk_projectId t \<and> tk_role d = tk_role t \<and> tk_dependsOn d = tk_dependsOn t"
proof -
  from role obtain worker where worker: "map_of (po_workers opts) (tk_role t) = Some worker"
    by (metis map_of_eq_None_iff not_None_eq)
  with rel have "quiet_worker worker" and quiet: "audit_quiet opts" by (auto simp: reliable_def)
  then obtain out w1 where run: "worker_run opts worker t project w = (Inr out, w1)"
    and w1: "w_fs w1 = w_fs w" "pwo_ok out" "\<not> is_true (pwo_toReview out)"
    by (blast elim: quiet_worker_run)
  from w1 have "tk_status (settled t (Inr out) ts) = Done" for ts
    by (simp add: settled_def markTaskDone_def)
  with runWorkerForTask_saves [OF quiet wf safe worker run] w1(1) show ?thesis
    by (metis settled_ids)
qed

lemma claim_m_reliable:
  fixes opts :: "'x pickup_opts" and w :: "'x world"
  defines "dir \<equiv> e_projectsDir opts"
  assumes rel: "reliable opts" and wf: "store_wf dir p (w_fs w)"
  shows "\<exists>w'. (case findEligibleTask (task_list dir p (w_fs w)) role of
      None \<Rightarrow> claim_m opts p role w = (Inr NoEligibleTask, w') \<and> w_fs w' = w_fs w
    | Some e \<Rightarrow> claim_m opts p role w =
          (Inr (ClaimOk (markTaskClaimed e (po_claimedBy opts) (e_now opts (w_clock w)))), w')
        \<and> w_fs w' = snd (saveTask dir (markTaskClaimed e (po_claimedBy opts) (e_now opts (w_clock w))) (w_fs w)))"
  using rel wf
  by (cases "findEligibleTask (task_list dir p (w_fs w)) role")
    (simp_all add: claim_m_def reliable_def dir_def claimTask_wf)

lemma pickup_role_idle:
  assumes "reliable opts" and "store_wf (e_projectsDir opts) p (w_fs w)"
    and "findEligibleTask (task_list (e_projectsDir opts) p (w_fs w)) role = None"
  shows "\<exists>w'. pickup_role opts project p role w = (Inr (), w') \<and> w_fs w' = w_fs w"
  using claim_m_reliable [OF assms(1,2), of role] assms(3) by (auto simp: pickup_role_def bind_m_apply)

lemma pickup_role_completes:
  fixes opts :: "'x pickup_opts" and w :: "'x world"
  defines "dir \<equiv> e_projectsDir opts"
  assumes rel: "reliable opts" and wf: "store_wf dir p (w_fs w)"
    and found: "findEligibleTask (task_list dir p (w_fs w)) role = Some e"
    and role: "tk_role e \<in> fst ` set (po_workers opts)"
  shows "\<exists>c d w'. pickup_role opts project p role w = (Inr (), w')
    \<and> w_fs w' = snd (saveTask dir d (snd (saveTask dir c (w_fs w))))
    \<and> tk_id c = tk_id e \<and> tk_projectId c = p
    \<and> tk_id d = tk_id e \<and> tk_projectId d = p \<and> tk_role d = tk_role e \<and> tk_dependsOn d = tk_dependsOn e
    \<and> tk_status d = Done"
proof -
  define c where "c = markTaskClaimed e (po_claimedBy opts) (e_now opts (w_clock w))"
  from findEligibleTask_Some(1) [OF found] have e: "stored_task dir (w_fs w) (p, tk_id e) = Some e"
    by (simp add: task_list_iff [OF wf])
  have c: "tk_id c = tk_id e" "tk_projectId c = p" "tk_role c = tk_role e" "tk_dependsOn c = tk_dependsOn e"
    "safe_id (tk_id c)"
    using stored_task_keyed [OF wf e] by (simp_all add: c_def markTaskClaimed_def)
  obtain w1 where w1: "claim_m opts p role w = (Inr (ClaimOk c), w1)" "w_fs w1 = snd (saveTask dir c (w_fs w))"
    using claim_m_reliable [OF rel wf [unfolded dir_def], of role] found by (auto simp: dir_def c_def)
  have "off_disk (emitAudit_task opts KTaskClaimed c)" using rel by (simp add: reliable_def off_disk_audit)
  then obtain u w2 where w2: "emitAudit_task opts KTaskClaimed c w1 = (Inr u, w2)" "w_fs w2 = w_fs w1"
    by (rule off_diskE)
  have wf2: "store_wf (e_projectsDir opts) (tk_projectId c) (w_fs w2)"
    using saved_task(1) [OF wf c(2,5)] by (simp add: w2 w1 c dir_def)
  from reliable_run_completes [OF rel wf2 c(5), of project] role c w1 w2 show ?thesis
    by (auto simp: pickup_role_def bind_m_apply seq_m_apply dir_def)
qed

lemma same_names_trans: "same_names a b \<Longrightarrow> same_names b c \<Longrightarrow> same_names a c"
  by (simp add: same_names_def)

text \<open>What one role's turn guarantees; \<open>progress\<close> compares two states of the board.\<close>

definition progress :: "path \<Rightarrow> string \<Rightarrow> (string \<Rightarrow> nat) \<Rightarrow> worker_role set \<Rightarrow> 'x state_fs \<Rightarrow> 'x state_fs \<Rightarrow> bool" where
  "progress dir p rank roles fs fs' \<longleftrightarrow>
     board dir p rank roles fs' \<and> same_names fs fs'
     \<and> stored_project dir fs' p = stored_project dir fs p
     \<and> {i. stored_task dir fs' (p, i) \<noteq> None} = {i. stored_task dir fs (p, i) \<noteq> None}
     \<and> (fs' = fs \<or> open_ids dir p fs' \<subset> open_ids dir p fs)"

lemma progress_refl: "board dir p rank roles fs \<Longrightarrow> progress dir p rank roles fs fs"
  by (simp add: progress_def same_names_def)

lemma progress_trans:
  "progress dir p rank roles a b \<Longrightarrow> progress dir p rank roles b c \<Longrightarrow> progress dir p rank roles a c"
  unfolding progress_def by (metis same_names_trans psubset_trans)

lemma pickup_role_progress:
  fixes opts :: "'x pickup_opts" and w :: "'x world"
  defines "dir \<equiv> e_projectsDir opts" and "roles \<equiv> fst ` set (po_workers opts)"
  assumes rel: "reliable opts" and b: "board dir p rank roles (w_fs w)"
  shows "\<exists>w'. pickup_role opts project p role w = (Inr (), w') \<and> progress dir p rank roles (w_fs w) (w_fs w')
    \<and> (findEligibleTask (task_list dir p (w_fs w)) role \<noteq> None \<longrightarrow> w_fs w' \<noteq> w_fs w)"
proof -
  have wf: "store_wf dir p (w_fs w)" using b by (simp add: board_def)
  show ?thesis
  proof (cases "findEligibleTask (task_list dir p (w_fs w)) role")
    case None
    from pickup_role_idle [OF rel wf [unfolded dir_def] None [unfolded dir_def]] None b show ?thesis
      by (metis progress_refl)
  next
    case (Some e)
    note f = findEligibleTask_Some [OF Some]
    from f(1) have e: "stored_task dir (w_fs w) (p, tk_id e) = Some e" by (simp add: task_list_iff [OF wf])
    from f(3) have queued: "tk_status e \<noteq> Done" by (simp add: eligible_iff)
    have role: "tk_role e \<in> fst ` set (po_workers opts)" using b e by (auto simp: board_def roles_def)
    obtain c d w' where run: "pickup_role opts project p role w = (Inr (), w')"
      and fs': "w_fs w' = snd (saveTask dir d (snd (saveTask dir c (w_fs w))))"
      and c: "tk_id c = tk_id e" "tk_projectId c = p"
      and d: "tk_id d = tk_id e" "tk_projectId d = p" "tk_role d = tk_role e" "tk_dependsOn d = tk_dependsOn e"
        "tk_status d = Done"
      using pickup_role_completes [OF rel wf [unfolded dir_def] Some [unfolded dir_def] role, of project]
      by (auto simp: dir_def)
    have safe: "safe_id p" "safe_id (tk_id e)" using e by (simp_all add: stored_task_iff)
    note s1 = saved_task [OF wf c(2), unfolded c, OF safe(2)]
    note s2 = saved_task [OF s1(1) d(2), unfolded d, OF safe(2), folded fs']
    have table: "stored_task dir (w_fs w') (p, i) = (if i = tk_id e then Some d else stored_task dir (w_fs w) (p, i))" for i
      by (simp add: s2(2) s1(2))
    note fin = board_complete [OF b e queued d(2,1,3,4,5) table s2(1)]
    have names: "same_names (w_fs w) (w_fs w')"
      using same_names_overwrite [of dir c "w_fs w" e] same_names_overwrite [of dir d "snd (saveTask dir c (w_fs w))" c]
        wf s1 e c d by (auto simp: fs' intro: same_names_trans)
    have "stored_project dir (w_fs w') p = stored_project dir (w_fs w) p"
      using safe c d by (simp add: fs' saveTask_frame)
    moreover have "{i. stored_task dir (w_fs w') (p, i) \<noteq> None} = {i. stored_task dir (w_fs w) (p, i) \<noteq> None}"
      using e by (auto simp: table)
    ultimately have "progress dir p rank roles (w_fs w) (w_fs w')"
      using fin names by (auto simp: progress_def)
    moreover have "w_fs w' \<noteq> w_fs w" using fin(2,3) by (metis Diff_iff insertI1)
    ultimately show ?thesis using run by blast
  qed
qed

lemma roles_loop_progress:
  fixes opts :: "'x pickup_opts" and w :: "'x world"
  defines "dir \<equiv> e_projectsDir opts" and "roles \<equiv> fst ` set (po_workers opts)"
  assumes rel: "reliable opts" and b: "board dir p rank roles (w_fs w)"
  shows "\<exists>w'. for_m rs (pickup_role opts project p) w = (Inr (), w') \<and> progress dir p rank roles (w_fs w) (w_fs w')
    \<and> ((\<exists>r \<in> set rs. findEligibleTask (task_list dir p (w_fs w)) r \<noteq> None) \<longrightarrow> w_fs w' \<noteq> w_fs w)"
  using b
proof (induction rs arbitrary: w)
  case Nil
  then show ?case by (simp add: progress_refl)
next
  case (Cons r rs)
  from pickup_role_progress [OF rel, of p rank w project r] Cons.prems obtain w1 where
    1: "pickup_role opts project p r w = (Inr (), w1)" "progress dir p rank roles (w_fs w) (w_fs w1)"
      "findEligibleTask (task_list dir p (w_fs w)) r \<noteq> None \<Longrightarrow> w_fs w1 \<noteq> w_fs w"
    unfolding dir_def roles_def by blast
  from 1(2) have "board dir p rank roles (w_fs w1)" by (simp add: progress_def)
  from Cons.IH [OF this] obtain w2 where
    2: "for_m rs (pickup_role opts project p) w1 = (Inr (), w2)" "progress dir p rank roles (w_fs w1) (w_fs w2)"
      "(\<exists>r \<in> set rs. findEligibleTask (task_list dir p (w_fs w1)) r \<noteq> None) \<longrightarrow> w_fs w2 \<noteq> w_fs w1"
    by blast
  from 1(2) 2(2) have "progress dir p rank roles (w_fs w) (w_fs w2)" by (rule progress_trans)
  moreover have "w_fs w2 \<noteq> w_fs w" if "\<exists>q \<in> set (r # rs). findEligibleTask (task_list dir p (w_fs w)) q \<noteq> None"
  proof (cases "w_fs w1 = w_fs w")
    case True
    with that 1(3) 2(3) show ?thesis by auto
  next
    case False
    with 1(2) 2(2) show ?thesis unfolding progress_def by auto
  qed
  ultimately show ?case using 1(1) 2(1) by (simp add: seq_m_apply)
qed

text \<open>As long as a task is open, one of least rank has all its dependencies done.\<close>

lemma open_board_has_eligible:
  assumes b: "board dir p rank roles fs" and "open_ids dir p fs \<noteq> {}"
  shows "\<exists>r \<in> roles. findEligibleTask (task_list dir p fs) r \<noteq> None"
proof -
  have wf: "store_wf dir p fs" using b by (simp add: board_def)
  obtain i where i: "i \<in> open_ids dir p fs" and least: "\<And>j. j \<in> open_ids dir p fs \<Longrightarrow> rank i \<le> rank j"
    using assms(2) arg_min_natI [of "\<lambda>i. i \<in> open_ids dir p fs" _ rank]
      arg_min_nat_le [of "\<lambda>i. i \<in> open_ids dir p fs" _ rank] by (metis ex_in_conv)
  from i obtain t where t: "stored_task dir fs (p, i) = Some t" "tk_status t \<noteq> Done"
    by (auto simp: open_ids_def)
  have "dep_done (task_list dir p fs) d" if "d \<in> set (tk_dependsOn t)" for d
  proof -
    from b t(1) that have "stored_task dir fs (p, d) \<noteq> None" "rank d < rank i"
      unfolding board_def by blast+
    then have "d \<notin> open_ids dir p fs" using least [of d] by auto
    with \<open>stored_task dir fs (p, d) \<noteq> None\<close> show ?thesis
      by (auto simp: dep_done_stored [OF wf] open_ids_def)
  qed
  then have elig: "isTaskEligibleForPickup t (task_list dir p fs)"
    using b t by (auto simp: eligible_iff list_all_iff board_def)
  have "t \<in> set (task_list dir p fs)"
    using t(1) stored_task_keyed [OF wf t(1)] by (simp add: task_list_iff [OF wf])
  with elig have "findEligibleTask (task_list dir p fs) (tk_role t) \<noteq> None"
    by (auto simp: findEligibleTask_None_iff list_all_iff)
  moreover have "tk_role t \<in> roles" using b t(1) by (auto simp: board_def)
  ultimately show ?thesis by blast
qed

lemma tick_progress:
  fixes opts :: "'x pickup_opts" and w :: "'x world"
  defines "dir \<equiv> e_projectsDir opts" and "roles \<equiv> fst ` set (po_workers opts)"
  assumes rel: "reliable opts" and b: "board dir p rank roles (w_fs w)"
    and ids: "listProjectIds dir (w_fs w) = [p]"
    and active: "stored_project dir (w_fs w) p = Some pr" "pr_status pr = Active"
  shows "\<exists>w'. runPickupTick opts w = (Inr (), w') \<and> progress dir p rank roles (w_fs w) (w_fs w')
    \<and> (open_ids dir p (w_fs w) \<noteq> {} \<longrightarrow> w_fs w' \<noteq> w_fs w)"
proof -
  from b have p: "safe_id p" by (simp add: board_def store_wf_def)
  obtain w' where w': "for_m (map fst (po_workers opts)) (pickup_role opts pr p) w = (Inr (), w')"
    "progress dir p rank roles (w_fs w) (w_fs w')"
    "(\<exists>r \<in> set (map fst (po_workers opts)). findEligibleTask (task_list dir p (w_fs w)) r \<noteq> None)
       \<longrightarrow> w_fs w' \<noteq> w_fs w"
    using roles_loop_progress [OF rel b [unfolded dir_def roles_def], of "map fst (po_workers opts)" pr]
    unfolding dir_def roles_def by blast
  have "runPickupTick opts w = (Inr (), w')"
    using w'(1) p active ids rel
    by (simp add: runPickupTick_def pickup_project_def bind_m_apply seq_m_apply on_fs_apply loadProject_safe
        dir_def when_m_apply idle_hook_def reliable_def)
  with w'(2,3) open_board_has_eligible [OF b] show ?thesis by (auto simp: roles_def)
qed

lemma ticks_drain:
  fixes opts :: "'x pickup_opts" and w :: "'x world"
  defines "dir \<equiv> e_projectsDir opts" and "roles \<equiv> fst ` set (po_workers opts)"
  assumes rel: "reliable opts" and b: "board dir p rank roles (w_fs w)"
    and ids: "listProjectIds dir (w_fs w) = [p]"
    and active: "stored_project dir (w_fs w) p = Some pr" "pr_status pr = Active"
    and n: "card (open_ids dir p (w_fs w)) \<le> n"
  shows "open_ids dir p (w_fs (((\<lambda>w. snd (runPickupTick opts w)) ^^ n) w)) = {}
    \<and> progress dir p rank roles (w_fs w) (w_fs (((\<lambda>w. snd (runPickupTick opts w)) ^^ n) w))"
  using b ids active(1) n
proof (induction n arbitrary: w)
  case 0
  then have "open_ids dir p (w_fs w) = {}" using finite_open_ids [of dir p "w_fs w"] by (simp add: board_def)
  then show ?case using 0 by (simp add: progress_refl)
next
  case (Suc n)
  from tick_progress [OF rel Suc.prems(1-3) [unfolded dir_def roles_def] active(2)] obtain w1 where
    w1: "runPickupTick opts w = (Inr (), w1)" "progress dir p rank roles (w_fs w) (w_fs w1)"
      "open_ids dir p (w_fs w) \<noteq> {} \<Longrightarrow> w_fs w1 \<noteq> w_fs w"
    unfolding dir_def roles_def by blast
  have fin: "finite (open_ids dir p (w_fs w))" using Suc.prems(1) by (simp add: board_def finite_open_ids)
  have "card (open_ids dir p (w_fs w1)) \<le> n"
  proof (cases "open_ids dir p (w_fs w) = {}")
    case True
    with w1(2) have "open_ids dir p (w_fs w1) = {}" by (auto simp: progress_def)
    then show ?thesis by simp
  next
    case False
    with w1(2,3) have "open_ids dir p (w_fs w1) \<subset> open_ids dir p (w_fs w)" by (auto simp: progress_def)
    from psubset_card_mono [OF fin this] Suc.prems(4) show ?thesis by linarith
  qed
  moreover have "board dir p rank roles (w_fs w1)" "listProjectIds dir (w_fs w1) = [p]"
    "stored_project dir (w_fs w1) p = Some pr"
    using w1(2) Suc.prems same_names_list [of "w_fs w" "w_fs w1" dir] by (simp_all add: progress_def)
  ultimately have "open_ids dir p (w_fs (((\<lambda>w. snd (runPickupTick opts w)) ^^ n) w1)) = {}
    \<and> progress dir p rank roles (w_fs w1) (w_fs (((\<lambda>w. snd (runPickupTick opts w)) ^^ n) w1))"
    using Suc.IH [of w1] by blast
  with w1(1,2) show ?case
    by (auto simp: funpow_Suc_right simp del: funpow.simps intro: progress_trans)
qed

section \<open>Properties\<close>

definition sample_worker :: "unit project_worker" where
  "sample_worker input slot =
     return_m \<lparr>pwo_ok = True, pwo_result = Some (JStr ''ok''), pwo_error = None, pwo_toReview = None,
       pwo_costUsd = Some (FiniteNum (1 / 4))\<rparr>"

definition sample_opts :: "(nat \<Rightarrow> string option) \<Rightarrow> unit pickup_opts" where
  "sample_opts throws = \<lparr>e_projectsDir = [''projects''], e_auditLogPath = Some ''/audit.log'', e_now = (\<lambda>_. ''now''),
     e_sha = id, e_auditTs = show_nat, e_auditThrows = throws, e_uuid = show_nat,
     po_workers = [(Writer, sample_worker)], po_claimedBy = ''gateway'', po_send = None,
     po_lock = (\<lambda>_. LockAcquired), po_onProjectIdle = None\<rparr>"

definition sample_project :: project where
  "sample_project = \<lparr>pr_id = ''p1'', pr_name = ''Demo'', pr_goal = ''Ship'', pr_owner = ''me'', pr_createdAt = ''t0'',
     pr_status = Active, pr_channels = [], pr_assignedExperts = None, pr_goalEvaluation = None,
     pr_iterationCount = None, pr_maxIterations = None, pr_metadata = None\<rparr>"

definition sample_w :: "unit world" where
  "sample_w = \<lparr>w_fs = snd (saveTask [''projects''] (sample_waiting None) (snd (saveProject [''projects''] sample_project empty_fs))),
     w_log = [], w_clock = 0, w_appends = 0, w_locks = 0, w_sends = 0, w_sent = [], w_ids = 0\<rparr>"

lemma sample_w_facts:
  "store_wf [''projects''] ''p1'' (w_fs sample_w)" "listProjectIds [''projects''] (w_fs sample_w) = [''p1'']"
  "stored_project [''projects''] (w_fs sample_w) ''p1'' = Some sample_project" "pr_status sample_project = Active"
  by code_simp+

lemma sample_stored:
  "stored_task [''projects''] (w_fs sample_w) (''p1'', i) = (if i = ''t1'' then Some (sample_waiting None) else None)"
proof -
  have keys: "map fst (fs_files (w_fs sample_w)) = [[''projects'', ''p1'', ''project.json''], [''projects'', ''p1'', ''tasks'', ''t1.json'']]"
    by code_simp
  have t: "stored_task [''projects''] (w_fs sample_w) (''p1'', ''t1'') = Some (sample_waiting None)" by code_simp
  have "stored_task [''projects''] (w_fs sample_w) (''p1'', i) = None" if "i \<noteq> ''t1''"
  proof (rule ccontr)
    assume "stored_task [''projects''] (w_fs sample_w) (''p1'', i) \<noteq> None"
    then obtain u where "read_file (w_fs sample_w) (task_path [''projects''] ''p1'' i) = Some (TaskFile u)"
      by (auto simp: stored_task_iff)
    then have "task_path [''projects''] ''p1'' i \<in> set (map fst (fs_files (w_fs sample_w)))"
      by (rule read_file_key)
    then have "i @ ''.json'' = ''t1'' @ ''.json''" by (simp add: keys)
    then have "i = ''t1''" by (simp only: append_same_eq)
    with that show False by simp
  qed
  with t show ?thesis by simp
qed

text \<open>C2. The loop drains a board: when every task of the only project is queued unclaimed or
  done, dependencies exist and are acyclic, every role has a worker and workers succeed, then after
  as many ticks as there are open tasks every task is done; no task is lost and none appears.\<close>

theorem ticks_complete_board:
  assumes "reliable opts"
    and "board (e_projectsDir opts) p rank (fst ` set (po_workers opts)) (w_fs w)"
    and "listProjectIds (e_projectsDir opts) (w_fs w) = [p]"
    and "stored_project (e_projectsDir opts) (w_fs w) p = Some pr" "pr_status pr = Active"
  shows "let w' = ((\<lambda>w. snd (runPickupTick opts w)) ^^ card (open_ids (e_projectsDir opts) p (w_fs w))) w
    in (\<forall>i. (stored_task (e_projectsDir opts) (w_fs w') (p, i) = None \<longleftrightarrow>
          stored_task (e_projectsDir opts) (w_fs w) (p, i) = None)
        \<and> (\<forall>t. stored_task (e_projectsDir opts) (w_fs w') (p, i) = Some t \<longrightarrow> tk_status t = Done))"
proof -
  let ?w = "((\<lambda>w. snd (runPickupTick opts w)) ^^ card (open_ids (e_projectsDir opts) p (w_fs w))) w"
  from ticks_drain [OF assms order_refl] have "open_ids (e_projectsDir opts) p (w_fs ?w) = {}"
    "{i. stored_task (e_projectsDir opts) (w_fs ?w) (p, i) \<noteq> None} =
     {i. stored_task (e_projectsDir opts) (w_fs w) (p, i) \<noteq> None}"
    by (simp_all add: progress_def)
  then show ?thesis unfolding Let_def open_ids_def by blast
qed

lemma sample_reliable: "reliable (sample_opts (\<lambda>_. None))"
  by (simp add: reliable_def sample_opts_def audit_quiet_def quiet_worker_def sample_worker_def is_true_def)

lemma sample_board: "board [''projects''] ''p1'' length {Writer} (w_fs sample_w)"
  using sample_w_facts(1) unfolding board_def sample_stored
  by (simp add: sample_waiting_def createTaskRecord_def sample_draft_def)

theorem ticks_complete_board_witness:
  "\<exists>t. stored_task [''projects''] (w_fs (snd (runPickupTick (sample_opts (\<lambda>_. None)) sample_w))) (''p1'', ''t1'') = Some t
     \<and> tk_status t = Done"
proof -
  have open1: "open_ids [''projects''] ''p1'' (w_fs sample_w) = {''t1''}"
    unfolding open_ids_def sample_stored
    by (auto simp: sample_waiting_def createTaskRecord_def sample_draft_def split: if_splits)
  let ?w' = "snd (runPickupTick (sample_opts (\<lambda>_. None)) sample_w)"
  have "\<forall>i. (stored_task [''projects''] (w_fs ?w') (''p1'', i) = None \<longleftrightarrow>
        stored_task [''projects''] (w_fs sample_w) (''p1'', i) = None)
      \<and> (\<forall>t. stored_task [''projects''] (w_fs ?w') (''p1'', i) = Some t \<longrightarrow> tk_status t = Done)"
    using ticks_complete_board [OF sample_reliable, of "''p1''" length sample_w sample_project]
      sample_board sample_w_facts open1
    by (simp add: sample_opts_def Let_def)
  then show ?thesis by (metis sample_stored not_None_eq option.distinct(1))
qed



text \<open>A tick keeps the audit log verifiable and every project's task directory well formed,
  on every path, also when a worker or a write throws, provided the registered workers and the
  idle hook do.\<close>

lemma tick_keeps_log_and_store:
  assumes "plugins_keep opts (log_ok opts)" and "plugins_keep opts (fs_inv (store_wf (e_projectsDir opts) p))"
    and "\<exists>n. verifyAuditLog (e_sha opts) (w_log w) = VerifyOk n" and "store_wf (e_projectsDir opts) p (w_fs w)"
  shows "(\<exists>n. verifyAuditLog (e_sha opts) (w_log (snd (runPickupTick opts w))) = VerifyOk n)
    \<and> store_wf (e_projectsDir opts) p (w_fs (snd (runPickupTick opts w)))"
  using preservesD [OF tick_log.tick_keeps [OF assms(1)], of w]
    preservesD [OF tick_store.tick_keeps [OF assms(2)], of w] assms(3,4)
  by (simp add: log_ok_def fs_inv_def)

text \<open>A worker sees an untrusted origin exactly when its task came from a channel; the origin
  names the channel and carries the project and task ids, whatever the origin outside was.\<close>

lemma worker_origin_trust:
  "let og = runUnderTaskOrigin t project currentOrigin slot
   in (o_untrusted og \<longleftrightarrow> (\<exists>c. tk_origin t = ChannelOrigin c))
    \<and> (\<forall>c. tk_origin t = ChannelOrigin c \<longrightarrow> o_source og = ''channel:'' @ ch_channel c)
    \<and> ((\<forall>c. tk_origin t \<noteq> ChannelOrigin c) \<longrightarrow> o_source og = ''operator'')
    \<and> (\<exists>ds. o_details og = Some ds \<and> map_of ds ''projectId'' = Some (pr_id project)
         \<and> map_of ds ''taskId'' = Some (tk_id t))"
  by (cases "tk_origin t")
    (auto simp: runUnderTaskOrigin_def runAsChannel_def runAsOperator_def runWithOrigin_def currentOrigin_def Let_def)

lemma worker_origin_trust_witness:
  "o_source (runUnderTaskOrigin (sample_waiting None) sample_project currentOrigin None) = ''operator''"
  using worker_origin_trust [of "sample_waiting None" sample_project None]
  by (simp add: Let_def sample_waiting_def createTaskRecord_def)

text \<open>A log failure discards a success: when the worker succeeded and the completion event
  cannot be appended, the task that was just saved as done is saved again as failed, with the I/O
  error as its error and without the worker's output.\<close>

lemma audit_failure_discards_success:
  assumes "store_wf (e_projectsDir opts) (tk_projectId t) (w_fs w)" and "safe_id (tk_id t)"
    and "map_of (po_workers opts) (tk_role t) = Some worker"
    and "worker_run opts worker t project w = (Inr out, w1)" and "pwo_ok out"
    and "store_wf (e_projectsDir opts) (tk_projectId t) (w_fs w1)"
    and "truthy (e_auditLogPath opts)" and "e_auditThrows opts (w_appends w1) = Some err"
    and "e_auditThrows opts (Suc (w_appends w1)) = None"
  shows "\<exists>w'. runWorkerForTask opts t project w = (Inr (), w')
    \<and> stored_task (e_projectsDir opts) (w_fs w') (tk_projectId t, tk_id t) =
        Some (markTaskFailed_t t err (e_now opts (Suc (w_clock w1))))"
proof -
  let ?dir = "e_projectsDir opts" and ?d = "settled t (Inr out) (e_now opts (w_clock w1))"
    and ?f = "markTaskFailed_t t err (e_now opts (Suc (w_clock w1)))"
  have p: "safe_id (tk_projectId t)" using assms(1) by (simp add: store_wf_def)
  define w2 where "w2 = w1\<lparr>w_clock := Suc (w_clock w1), w_fs := snd (saveTask ?dir ?d (w_fs w1)),
    w_appends := Suc (w_appends w1)\<rparr>"
  have settle: "settle_output opts t out w1 = (Inl err, w2)"
    using assms(5,7,8) p assms(2)
    by (simp add: settle_output_def settled_def now_m_def bind_m_apply seq_m_apply Let_def on_fs_apply
        saveTask_safe emitAudit_task_def audit_if_def emitProjectsAuditEvent_def w2_def
        markTaskInReview_def markTaskDone_def)
  have run: "runWorkerForTask opts t project w = fail_task opts t err w2"
    using assms(4) settle by (simp add: runWorkerForTask_def assms(3) resolveDependencyOutputs_wf [OF assms(1)]
        worker_run_def bind_m_apply catch_m_apply)
  define w3 where "w3 = w2\<lparr>w_clock := Suc (Suc (w_clock w1)), w_fs := snd (saveTask ?dir ?f (w_fs w2))\<rparr>"
  have "emitAudit_task opts KTaskFailed ?f w3 = (Inr (), snd (emitAudit_task opts KTaskFailed ?f w3))
      \<and> w_fs (snd (emitAudit_task opts KTaskFailed ?f w3)) = w_fs w3"
    using assms(7,9) by (simp add: emitAudit_task_def audit_if_def emitProjectsAuditEvent_def w3_def w2_def Let_def)
  then obtain w4 where w4: "emitAudit_task opts KTaskFailed ?f w3 = (Inr (), w4)" "w_fs w4 = w_fs w3" by blast
  obtain x w5 where w5: "maybeReplyForOutcome opts ?f (failed_reply (Some err)) w4 = (Inr x, w5)" "w_fs w5 = w_fs w4"
    by (rule off_diskE [OF off_disk_reply])
  have "fail_task opts t err w2 = (Inr (), w5)"
    using w4(1) w5(1) p assms(2)
    by (simp add: fail_task_def now_m_def bind_m_apply seq_m_apply Let_def on_fs_apply saveTask_safe w3_def w2_def
        markTaskFailed_t_def)
  moreover have "stored_task ?dir (w_fs w5) (tk_projectId t, tk_id t) = Some ?f"
    using saved_task(2) [OF saved_task(1) [OF assms(6), of ?d], of ?f "tk_id t"] assms(2) w5(2) w4(2)
    by (simp add: w3_def w2_def markTaskFailed_t_def)
  ultimately show ?thesis using run by auto
qed

lemma audit_failure_discards_success_witness:
  "\<exists>w'. runWorkerForTask (sample_opts (\<lambda>n. if n = 0 then Some ''disk full'' else None)) (sample_waiting None)
      sample_project sample_w = (Inr (), w')
    \<and> stored_task [''projects''] (w_fs w') (''p1'', ''t1'') =
        Some (markTaskFailed_t (sample_waiting None) ''disk full'' ''now'')"
proof -
  let ?o = "sample_opts (\<lambda>n. if n = 0 then Some ''disk full'' else None)"
  let ?out = "\<lparr>pwo_ok = True, pwo_result = Some (JStr ''ok''), pwo_error = None, pwo_toReview = None,
       pwo_costUsd = Some (FiniteNum (1 / 4))\<rparr>"
  have ids: "tk_projectId (sample_waiting None) = ''p1''" "tk_id (sample_waiting None) = ''t1''"
    "tk_role (sample_waiting None) = Writer" "tk_origin (sample_waiting None) = OperatorOrigin"
    by (simp_all add: sample_waiting_def createTaskRecord_def sample_draft_def)
  have run: "worker_run ?o sample_worker (sample_waiting None) sample_project sample_w = (Inr ?out, sample_w)"
    by (simp add: worker_run_def runUnderTaskOrigin_def ids runAsOperator_def runWithOrigin_def sample_worker_def)
  have pre: "safe_id ''t1''" "map_of (po_workers ?o) Writer = Some sample_worker" "e_now ?o = (\<lambda>_. ''now'')"
    "truthy (e_auditLogPath ?o)" "e_projectsDir ?o = [''projects'']" "w_appends sample_w = 0"
    "e_auditThrows ?o 0 = Some ''disk full''" "e_auditThrows ?o (Suc 0) = None"
    by (simp_all add: sample_opts_def safe_id_def id_char_def sample_w_def)
  show ?thesis
    using audit_failure_discards_success [of ?o "sample_waiting None" sample_w sample_worker
        sample_project ?out sample_w "''disk full''"] run pre sample_w_facts(1)
    unfolding ids by (simp add: pre)
qed

text \<open>The two idleness tests agree on an active project except on an empty board: the tick's
  test says an empty board is not idle, the state module's says it is.\<close>

lemma idle_tests_agree:
  assumes "pr_status project = Active"
  shows "(isProjectIdle_tick tasks \<longleftrightarrow> tasks \<noteq> [] \<and> list_all (\<lambda>t. terminal_status (tk_status t)) tasks)
    \<and> (isProjectIdle project tasks \<longleftrightarrow> tasks = [] \<or> isProjectIdle_tick tasks)"
  using assms
  by (auto simp: isProjectIdle_tick_def isProjectIdle_def terminal_status_def list_all_iff)

text \<open>After the handle's stop or the abort signal no event of the loop changes anything.\<close>

lemma stopped_loop_is_inert:
  assumes "StopCalled \<in> set evs \<or> AbortSignal \<in> set evs"
  shows "loop_run opts (evs @ later) w = loop_run opts evs w"
proof -
  have stay: "fold (loop_event_step opts) es (True, v) = (True, v)" for es v
    by (induction es) (simp_all add: loop_event_step_def split: loop_event.splits)
  have "fst (fold (loop_event_step opts) es st)" if "fst st \<or> StopCalled \<in> set es \<or> AbortSignal \<in> set es" for es st
    using that
  proof (induction es arbitrary: st)
    case (Cons ev es)
    have "fst (loop_event_step opts ev st) \<or> StopCalled \<in> set es \<or> AbortSignal \<in> set es"
      using Cons.prems by (cases st; cases ev) (auto simp: loop_event_step_def)
    from Cons.IH [OF this] show ?case by simp
  qed simp
  from this [of "(False, w)" evs] assms have "fst (loop_run opts evs w)" by (simp add: loop_run_def)
  then show ?thesis
    by (cases "loop_run opts evs w") (simp add: loop_run_def stay)
qed

end
