(* ===== verification/Capability_Store.thy ===== *)
theory Capability_Store
  imports Pickup_Loop
begin

text \<open>
  The files of the capability subsystem: the request log of
  \<^verbatim>\<open>src/projects/capability-requests-store.ts\<close>, the activation records of
  \<^verbatim>\<open>src/projects/activated-capabilities-store.ts\<close>, the static catalog of
  \<^verbatim>\<open>src/projects/capability-catalog.ts\<close> and the checks of
  \<^verbatim>\<open>src/projects/capability-preflight.ts\<close>. They share the state directory with the projects,
  so they are the other files of \<open>state_fs\<close>: the two record files by the records they encode, generated
  source files by their text. Importing a module is the environment's answer to its text; that a
  module's top-level code has an effect of its own is not modelled.
\<close>

section \<open>Files\<close>

datatype request_status = ReqOpen | ReqInProgress | ReqFulfilled | ReqRejected

record cap_request =
  cq_id :: string
  cq_projectId :: string
  cq_taskId :: string
  cq_integration :: string
  cq_why :: string
  cq_sketch :: "string option"
  cq_createdAt :: string
  cq_status :: request_status
  cq_resolution :: "string option"

datatype activation_status = ActivationActive | ActivationRolledBack

record activation =
  av_id :: string
  av_integration :: string
  av_fromRequestId :: string
  av_activatedAt :: string
  av_activatedBy :: string
  av_sourceDir :: path
  av_activeDir :: path
  av_status :: activation_status
  av_rollbackAt :: "string option"
  av_rollbackReason :: "string option"

text \<open>A file whose text parses to something else than the expected records is \<open>OtherJson\<close>; one whose
  text does not parse is \<open>UnreadableFile\<close>. Directory entries may also be links and special files.\<close>

datatype cap_file =
    RequestsFile "cap_request list"
  | ActivationsFile "activation list"
  | OtherJson
  | SourceFile string
  | SymbolicLink
  | SpecialFile

type_synonym cap_fs = "cap_file state_fs"
type_synonym cap_world = "cap_file world"

definition chmodSync :: "path \<Rightarrow> nat \<Rightarrow> 'c fs \<Rightarrow> 'c fs" where
  "chmodSync p mode fs = fs\<lparr>fs_files := map (\<lambda>(q, m, c). if q = p then (q, mode, c) else (q, m, c)) (fs_files fs)\<rparr>"

lemma read_chmod [simp]: "read_file (chmodSync p m fs) q = read_file fs q"
proof -
  have "map_option snd (map_of (map (\<lambda>(q, m', c). if q = p then (q, m, c) else (q, m', c)) xs) q) = map_option snd (map_of xs q)" for xs
  proof (induction xs)
    case (Cons x xs)
    then show ?case by (cases x) auto
  qed simp
  then show ?thesis by (simp add: chmodSync_def read_file_def)
qed

lemma dirs_chmod [simp]: "fs_dirs (chmodSync p m fs) = fs_dirs fs"
  by (simp add: chmodSync_def)

lemma existsSync_chmod [simp]: "existsSync (chmodSync p m fs) q \<longleftrightarrow> existsSync fs q"
  using read_chmod [of p m fs q]
  by (cases "map_of (fs_files fs) q"; cases "map_of (fs_files (chmodSync p m fs)) q") (auto simp: existsSync_def read_file_def)

section \<open>Capability requests\<close>

definition resolveCapabilityRequestsPath :: "path \<Rightarrow> path" where
  "resolveCapabilityRequestsPath stateDir = stateDir @ [''capability-requests.json'']"

definition readCapabilityRequests :: "path \<Rightarrow> (cap_fs, cap_request list) prog" where
  "readCapabilityRequests stateDir =
     bind_m (get_m (\<lambda>fs. (read_file fs (resolveCapabilityRequestsPath stateDir), existsSync fs (resolveCapabilityRequestsPath stateDir)))) (\<lambda>found.
       case found of
         (None, True) \<Rightarrow> throw_m ''EISDIR''
       | (None, False) \<Rightarrow> return_m []
       | (Some UnreadableFile, _) \<Rightarrow> throw_m ''SyntaxError''
       | (Some (OtherFile (SourceFile _)), _) \<Rightarrow> throw_m ''SyntaxError''
       | (Some (OtherFile (RequestsFile rs)), _) \<Rightarrow> return_m rs
       | _ \<Rightarrow> return_m [])"

definition write_records :: "path \<Rightarrow> path \<Rightarrow> cap_file \<Rightarrow> (cap_fs, unit) prog" where
  "write_records stateDir filePath c =
     modify_m (\<lambda>fs. chmodSync filePath 384 (writeFileSync filePath 384 (OtherFile c) (mkdirSync stateDir 511 fs)))"

definition appendCapabilityRequest :: "path \<Rightarrow> cap_request \<Rightarrow> (cap_fs, unit) prog" where
  "appendCapabilityRequest stateDir req =
     bind_m (readCapabilityRequests stateDir) (\<lambda>existing.
     write_records stateDir (resolveCapabilityRequestsPath stateDir) (RequestsFile (existing @ [req])))"

section \<open>Activation records\<close>

definition resolveActivatedCapabilitiesPath :: "path \<Rightarrow> path" where
  "resolveActivatedCapabilitiesPath stateDir = stateDir @ [''activated-capabilities.json'']"

definition resolveActiveExtensionsRoot :: "path \<Rightarrow> path" where
  "resolveActiveExtensionsRoot stateDir = stateDir @ [''extensions-active'']"

definition readActivatedCapabilities :: "path \<Rightarrow> (cap_fs, activation list) prog" where
  "readActivatedCapabilities stateDir =
     bind_m (get_m (\<lambda>fs. (read_file fs (resolveActivatedCapabilitiesPath stateDir), existsSync fs (resolveActivatedCapabilitiesPath stateDir)))) (\<lambda>found.
       case found of
         (None, True) \<Rightarrow> throw_m ''EISDIR''
       | (None, False) \<Rightarrow> return_m []
       | (Some UnreadableFile, _) \<Rightarrow> throw_m ''SyntaxError''
       | (Some (OtherFile (SourceFile _)), _) \<Rightarrow> throw_m ''SyntaxError''
       | (Some (OtherFile (ActivationsFile rs)), _) \<Rightarrow> return_m rs
       | _ \<Rightarrow> return_m [])"

definition writeActivatedCapabilities :: "path \<Rightarrow> activation list \<Rightarrow> (cap_fs, unit) prog" where
  "writeActivatedCapabilities stateDir records =
     write_records stateDir (resolveActivatedCapabilitiesPath stateDir) (ActivationsFile records)"

definition listLiveCapabilities :: "path \<Rightarrow> (cap_fs, activation list) prog" where
  "listLiveCapabilities stateDir =
     bind_m (readActivatedCapabilities stateDir) (\<lambda>all. return_m (filter (\<lambda>r. av_status r = ActivationActive) all))"

section \<open>The catalog\<close>

datatype capability_kind = CapWorker | CapChannel | CapIntegration

record capability_entry =
  ce_id :: string
  ce_kind :: capability_kind
  ce_summary :: string
  ce_role :: "worker_role option"

definition capability_kind_name :: "capability_kind \<Rightarrow> string" where
  "capability_kind_name k = (case k of CapWorker \<Rightarrow> ''worker'' | CapChannel \<Rightarrow> ''channel'' | CapIntegration \<Rightarrow> ''integration'')"

definition worker_entry :: "worker_role \<Rightarrow> string \<Rightarrow> capability_entry" where
  "worker_entry role summary = \<lparr>ce_id = role_name role, ce_kind = CapWorker, ce_summary = summary, ce_role = Some role\<rparr>"

definition channel_entry :: "string \<Rightarrow> string \<Rightarrow> capability_entry" where
  "channel_entry channel summary = \<lparr>ce_id = ''channel:'' @ channel, ce_kind = CapChannel, ce_summary = summary, ce_role = None\<rparr>"

definition CAPABILITY_CATALOG :: "capability_entry list" where
  "CAPABILITY_CATALOG =
     [worker_entry Researcher ''Gather facts and evidence about a topic from prior knowledge.'',
      worker_entry Writer ''Produce a draft document from research and inputs.'',
      worker_entry Editor ''Revise drafts for quality, structure, and consistency.'',
      worker_entry Publisher ''Persist the final artifact (file, channel post, etc.).'',
      worker_entry EmailHandler ''Read Gmail inbox, draft replies, send mail.'',
      channel_entry ''telegram'' ''Send and receive Telegram messages once wired via /setup/channels/telegram.'',
      channel_entry ''discord'' ''Send and receive Discord messages once wired via /setup/channels/discord.'',
      channel_entry ''slack'' ''Send and receive Slack messages once wired via /setup/channels/slack.'',
      channel_entry ''whatsapp'' ''Send and receive WhatsApp messages once paired via QR.'',
      channel_entry ''imessage'' ''macOS-native iMessage send/receive once Full Disk Access is granted.'']"

definition findCapability :: "string \<Rightarrow> capability_entry option" where
  "findCapability i = find (\<lambda>entry. ce_id entry = i) CAPABILITY_CATALOG"

definition renderCatalogForPlanner :: "(string \<times> string) list \<Rightarrow> string" where
  "renderCatalogForPlanner live =
     join_with [CHR 0x0A]
       (map (\<lambda>entry. ''- '' @ ce_id entry @ '' ('' @ capability_kind_name (ce_kind entry) @ ''): '' @ ce_summary entry) CAPABILITY_CATALOG
        @ map (\<lambda>(i, summary). ''- live:'' @ i @ '' (activated, dispatch via capability-runner): '' @ summary) live)"

section \<open>Pre-flight checks\<close>

text \<open>What \<open>import()\<close> of a module yields for its \<open>run\<close> export.\<close>

datatype run_export =
    RunFunction "json \<Rightarrow> (cap_world, json option) prog"
  | RunMissing
  | RunNull
  | RunOfType string

type_synonym import_module = "nat \<Rightarrow> string \<Rightarrow> string + run_export"

fun describe :: "run_export \<Rightarrow> string" where
  "describe RunMissing = ''missing export''"
| "describe RunNull = ''null''"
| "describe (RunOfType ty) = ty"
| "describe (RunFunction _) = ''function''"

fun is_function :: "run_export \<Rightarrow> bool" where
  "is_function (RunFunction _) = True"
| "is_function _ = False"

text \<open>The regular expressions of \<open>scanSource\<close>: literals, \<open>\s*\<close>, \<open>\s+\<close>, word boundaries and
  a quote of either kind. No literal starts with white space, so matching is deterministic.\<close>

datatype rx = Lit string | Ws0 | Ws1 | WordB | AnyQuote

definition word_char :: "char \<Rightarrow> bool" where
  "word_char c \<longleftrightarrow> (let n = of_char c :: nat in 48 \<le> n \<and> n \<le> 57 \<or> 65 \<le> n \<and> n \<le> 90 \<or> 97 \<le> n \<and> n \<le> 122 \<or> n = 95)"

fun match_here :: "rx list \<Rightarrow> char option \<Rightarrow> string \<Rightarrow> bool" where
  "match_here [] prev s = True"
| "match_here (Lit w # rs) prev s =
     (take (length w) s = w \<and> match_here rs (if w = [] then prev else Some (last w)) (drop (length w) s))"
| "match_here (Ws0 # rs) prev s =
     match_here rs (case takeWhile js_whitespace s of [] \<Rightarrow> prev | c # ws \<Rightarrow> Some (last (c # ws))) (dropWhile js_whitespace s)"
| "match_here (Ws1 # rs) prev s =
     (takeWhile js_whitespace s \<noteq> [] \<and> match_here rs (Some (last (takeWhile js_whitespace s))) (dropWhile js_whitespace s))"
| "match_here (WordB # rs) prev s =
     (((case prev of None \<Rightarrow> False | Some c \<Rightarrow> word_char c) \<noteq> (case s of [] \<Rightarrow> False | c # _ \<Rightarrow> word_char c)) \<and> match_here rs prev s)"
| "match_here (AnyQuote # rs) prev s =
     (case s of [] \<Rightarrow> False | c # s' \<Rightarrow> (c = CHR 0x22 \<or> c = CHR 0x27) \<and> match_here rs (Some c) s')"

fun rx_test :: "rx list \<Rightarrow> char option \<Rightarrow> string \<Rightarrow> bool" where
  "rx_test rs prev [] = match_here rs prev []"
| "rx_test rs prev (c # s) = (match_here rs prev (c # s) \<or> rx_test rs (Some c) s)"

definition SCAN_PATTERNS :: "(rx list \<times> string) list" where
  "SCAN_PATTERNS =
     [([WordB, Lit ''eval'', Ws0, Lit ''(''], ''eval()''),
      ([WordB, Lit ''new'', Ws1, Lit ''Function'', Ws0, Lit ''(''], ''Function constructor''),
      ([Lit ''import'', Ws0, Lit ''('', Ws0, AnyQuote, Lit ''child_process'', AnyQuote, Ws0, Lit '')''], ''dynamic child_process import''),
      ([Lit ''from'', Ws1, AnyQuote, Lit ''child_process'', AnyQuote], ''child_process import''),
      ([Lit ''from'', Ws1, AnyQuote, Lit ''node:fs'', AnyQuote], ''node:fs import''),
      ([Lit ''from'', Ws1, AnyQuote, Lit ''fs'', AnyQuote], ''fs import''),
      ([Lit ''from'', Ws1, AnyQuote, Lit ''node:child_process'', AnyQuote], ''node:child_process import''),
      ([WordB, Lit ''process.exit'', WordB], ''process.exit'')]"

definition scanSource :: "string \<Rightarrow> string list" where
  "scanSource body = map snd (filter (\<lambda>(rs, label). rx_test rs None body) SCAN_PATTERNS)"

datatype preflight_check = FileExists | ModuleImports | RunExport | SourceScan

definition preflight_check_name :: "preflight_check \<Rightarrow> string" where
  "preflight_check_name c = (case c of FileExists \<Rightarrow> ''file-exists'' | ModuleImports \<Rightarrow> ''module-imports''
     | RunExport \<Rightarrow> ''run-export'' | SourceScan \<Rightarrow> ''source-scan'')"

record preflight_result =
  pf_name :: preflight_check
  pf_passed :: bool
  pf_detail :: "string option"
  pf_warningOnly :: bool

record preflight_outcome =
  pf_ok :: bool
  pf_checks :: "preflight_result list"
  pf_errorSummary :: string

definition check_of :: "preflight_check \<Rightarrow> bool \<Rightarrow> string \<Rightarrow> preflight_result" where
  "check_of c passed detail = \<lparr>pf_name = c, pf_passed = passed, pf_detail = (if passed then None else Some detail),
     pf_warningOnly = (c = SourceScan)\<rparr>"

definition path_text :: "path \<Rightarrow> string" where
  "path_text p = concat (map (\<lambda>s. ''/'' @ s) p)"

definition skipped :: "string \<Rightarrow> string" where
  "skipped why = ''skipped '' @ [CHR 0x97] @ '' '' @ why"

text \<open>The dash of the messages is the unit \<open>0x97\<close>, as elsewhere. The activator refuses links before it
  comes here; on its own the check would follow one.\<close>

definition preflight_checks :: "path \<Rightarrow> cap_fs \<Rightarrow> (string \<Rightarrow> string + run_export) \<Rightarrow> preflight_result list" where
  "preflight_checks sourceDir fs imports_as =
     (let modulePath = sourceDir @ [''index.mjs''];
          source = (case read_file fs modulePath of Some (OtherFile (SourceFile txt)) \<Rightarrow> Some txt | _ \<Rightarrow> None)
      in case source of
           None \<Rightarrow>
             [check_of FileExists False
                (if existsSync fs modulePath then path_text modulePath @ '' is not a regular file''
                 else ''index.mjs not found at '' @ path_text modulePath @ '' (ENOENT: no such file or directory, stat ''
                   @ [CHR 0x27] @ path_text modulePath @ [CHR 0x27] @ '')''),
              check_of ModuleImports False (skipped ''file does not exist''),
              check_of RunExport False (skipped ''module did not import''),
              check_of SourceScan False (skipped ''file does not exist'')]
         | Some body \<Rightarrow>
             check_of FileExists True []
             # (case imports_as body of
                  Inl err \<Rightarrow> [check_of ModuleImports False (''import failed: '' @ err),
                              check_of RunExport False (skipped ''module did not import'')]
                | Inr export \<Rightarrow> [check_of ModuleImports True [],
                    check_of RunExport (is_function export)
                      (''expected `export async function run(input, deps)` '' @ [CHR 0x97] @ '' got '' @ describe export)])
             @ [check_of SourceScan (scanSource body = []) (''flagged patterns: '' @ join_with '', '' (scanSource body))])"

definition preflight_verdict :: "preflight_result list \<Rightarrow> preflight_outcome" where
  "preflight_verdict checks =
     (let hardFailures = filter (\<lambda>c. \<not> pf_passed c \<and> \<not> pf_warningOnly c) checks
      in \<lparr>pf_ok = (hardFailures = []), pf_checks = checks,
          pf_errorSummary = join_with ''; '' (map (\<lambda>c. preflight_check_name (pf_name c) @ '': '' @ nullish (pf_detail c) ''failed'') hardFailures)\<rparr>)"

definition runPreflight :: "import_module \<Rightarrow> path \<Rightarrow> (cap_world, preflight_outcome) prog" where
  "runPreflight imports_as sourceDir =
     bind_m consult (\<lambda>call.
     get_m (\<lambda>w. preflight_verdict (preflight_checks sourceDir (w_fs w) (imports_as call))))"

lemma preflight_ok_iff:
  "pf_ok (preflight_verdict (preflight_checks dir fs imports_as)) \<longleftrightarrow>
     (\<exists>body run. read_file fs (dir @ [''index.mjs'']) = Some (OtherFile (SourceFile body)) \<and> imports_as body = Inr (RunFunction run))"
proof -
  have fn: "is_function e \<longleftrightarrow> (\<exists>r. e = RunFunction r)" for e by (cases e) simp_all
  show ?thesis
    by (auto simp: preflight_verdict_def preflight_checks_def check_of_def Let_def fn
        split: option.splits state_file.splits cap_file.splits sum.splits)
qed

lemma readRequests_reads [simp]: "snd (readCapabilityRequests d fs) = fs"
  by (auto simp: readCapabilityRequests_def bind_m_apply split: prod.splits option.splits bool.splits state_file.splits cap_file.splits)

lemma readActivated_reads [simp]: "snd (readActivatedCapabilities d fs) = fs"
  by (auto simp: readActivatedCapabilities_def bind_m_apply split: prod.splits option.splits bool.splits state_file.splits cap_file.splits)

text \<open>Inputs the witnesses share.\<close>

definition quiet_env :: env where
  "quiet_env = \<lparr>e_projectsDir = [''state'', ''projects''], e_auditLogPath = None, e_now = (\<lambda>_. ''now''), e_sha = id,
     e_auditTs = show_nat, e_auditThrows = (\<lambda>_. None), e_uuid = show_nat\<rparr>"

definition sample_cap_request :: "string \<Rightarrow> request_status \<Rightarrow> cap_request" where
  "sample_cap_request integration st = \<lparr>cq_id = ''c1'', cq_projectId = ''p1'', cq_taskId = ''t1'', cq_integration = integration,
     cq_why = ''w'', cq_sketch = None, cq_createdAt = ''t'', cq_status = st, cq_resolution = None\<rparr>"

definition sample_cap_world :: "cap_fs \<Rightarrow> cap_world" where
  "sample_cap_world fs = \<lparr>w_fs = fs, w_log = [], w_clock = 0, w_appends = 0, w_locks = 0, w_sends = 0, w_sent = [], w_ids = 0\<rparr>"

definition sample_cap_project :: project where
  "sample_cap_project = \<lparr>pr_id = ''p1'', pr_name = ''n'', pr_goal = ''g'', pr_owner = ''o'', pr_createdAt = ''t'',
     pr_status = Active, pr_channels = [], pr_assignedExperts = None, pr_goalEvaluation = None,
     pr_iterationCount = None, pr_maxIterations = None, pr_metadata = None\<rparr>"

definition requests_fs :: "cap_request list \<Rightarrow> cap_fs" where
  "requests_fs rs = writeFileSync [''state'', ''capability-requests.json''] 384 (OtherFile (RequestsFile rs)) (mkdirSync [''state''] 511 empty_fs)"

end
