(* ===== verification/Capability_Activator.thy ===== *)
theory Capability_Activator
  imports Capability_Store
begin

text \<open>
  Activation and rollback of generated capabilities, \<^verbatim>\<open>src/projects/capability-activator.ts\<close>, and
  the in-process loader of \<^verbatim>\<open>src/projects/capability-runtime-loader.ts\<close>. The loader's cache is part
  of the state; removing and copying files always succeeds.
\<close>

section \<open>State and options\<close>

record loaded_capability =
  lc_id :: string
  lc_activeDir :: path
  lc_run :: "json \<Rightarrow> (cap_world, json option) prog"
  lc_loadedAt :: string

record cap_state =
  ca_world :: cap_world
  ca_cache :: "(string \<times> loaded_capability) list"

text \<open>\<open>cp_loader\<close>: the caller passed the loader.\<close>

record cap_opts = env +
  cp_stateDir :: path
  cp_generatedRoot :: "path option"
  cp_activeRoot :: "path option"
  cp_actor :: "string option"
  cp_loader :: bool
  cp_force :: bool
  cp_import :: import_module

definition on_world :: "(cap_world, 'a) prog \<Rightarrow> (cap_state, 'a) prog" where
  "on_world m = (\<lambda>s. case m (ca_world s) of (r, w) \<Rightarrow> (r, s\<lparr>ca_world := w\<rparr>))"

definition on_disk :: "(cap_fs, 'a) prog \<Rightarrow> (cap_state, 'a) prog" where
  "on_disk m = on_world (on_fs m)"

section \<open>The loader\<close>

definition loadCapability :: "cap_opts \<Rightarrow> string \<Rightarrow> path \<Rightarrow> (cap_state, loaded_capability) prog" where
  "loadCapability opts i activeDir =
     (let modulePath = activeDir @ [''index.mjs'']
      in bind_m (on_world consult) (\<lambda>call.
         bind_m (get_m (\<lambda>s. read_file (w_fs (ca_world s)) modulePath)) (\<lambda>file.
           case file of
             Some (OtherFile (SourceFile body)) \<Rightarrow>
               (case cp_import opts call body of
                  Inl err \<Rightarrow> throw_m err
                | Inr (RunFunction run) \<Rightarrow>
                    bind_m (on_world (now_m opts)) (\<lambda>ts.
                    let loaded = \<lparr>lc_id = i, lc_activeDir = activeDir, lc_run = run, lc_loadedAt = ts\<rparr>
                    in seq_m (modify_m (\<lambda>s. s\<lparr>ca_cache := AList.update i loaded (ca_cache s)\<rparr>)) (return_m loaded))
                | Inr _ \<Rightarrow> throw_m (''capability '' @ [CHR 0x22] @ i @ [CHR 0x22] @ '' at '' @ path_text modulePath
                    @ '' does not export a `run` function''))
           | _ \<Rightarrow> throw_m (''Cannot find module '' @ path_text modulePath))))"

definition getCapability :: "cap_state \<Rightarrow> string \<Rightarrow> loaded_capability option" where
  "getCapability s i = map_of (ca_cache s) i"

definition unloadCapability :: "string \<Rightarrow> (cap_state, bool) prog" where
  "unloadCapability i =
     bind_m (get_m (\<lambda>s. map_of (ca_cache s) i \<noteq> None)) (\<lambda>present.
     seq_m (modify_m (\<lambda>s. s\<lparr>ca_cache := AList.delete i (ca_cache s)\<rparr>)) (return_m present))"

definition listLoaded :: "cap_state \<Rightarrow> loaded_capability list" where
  "listLoaded s = map snd (ca_cache s)"

section \<open>Directory names\<close>

definition slug_char :: "char \<Rightarrow> bool" where
  "slug_char c \<longleftrightarrow> (let n = of_char c :: nat in 97 \<le> n \<and> n \<le> 122 \<or> 48 \<le> n \<and> n \<le> 57 \<or> c = CHR ''-'')"

text \<open>\<open>.replace(/[^a-z0-9-]+/g, "-")\<close>: one dash for each run of other characters.\<close>

fun dash_runs :: "bool \<Rightarrow> string \<Rightarrow> string" where
  "dash_runs in_run [] = []"
| "dash_runs in_run (c # s) =
     (if slug_char c then c # dash_runs False s
      else if in_run then dash_runs True s else CHR ''-'' # dash_runs True s)"

definition trim_dashes :: "string \<Rightarrow> string" where
  "trim_dashes s = rev (dropWhile (\<lambda>c. c = CHR ''-'') (rev (dropWhile (\<lambda>c. c = CHR ''-'') s)))"

definition ascii_lower :: "char \<Rightarrow> char" where
  "ascii_lower c = (let n = of_char c :: nat in if 65 \<le> n \<and> n \<le> 90 then char_of (n + 32) else c)"

text \<open>Lower-casing a letter outside ASCII yields a character the next step replaces in either case.\<close>

definition sanitizeCapabilityId :: "string \<Rightarrow> string" where
  "sanitizeCapabilityId i =
     (let cleaned = take 64 (trim_dashes (dash_runs False (map ascii_lower i)))
      in if 0 < length cleaned then cleaned else ''unnamed'')"

section \<open>Activation\<close>

definition MAX_FILE_BYTES :: int where
  "MAX_FILE_BYTES = 1024 * 1024"

definition utf8_size :: "string \<Rightarrow> nat" where
  "utf8_size s = sum_list (map (\<lambda>c. if (of_char c :: nat) < 128 then 1 else 2) s)"

definition refuse :: "string \<Rightarrow> string \<Rightarrow> string" where
  "refuse entry why = ''refusing to activate: '' @ entry @ '' is '' @ why"

definition suspicious :: "cap_fs \<Rightarrow> path \<Rightarrow> string \<Rightarrow> string option" where
  "suspicious fs sourceDir entry =
     (case read_file fs (sourceDir @ [entry]) of
        Some (OtherFile SymbolicLink) \<Rightarrow> Some (refuse entry ''a symlink'')
      | Some (OtherFile SpecialFile) \<Rightarrow> Some (refuse entry ''not a regular file or dir'')
      | Some (OtherFile (SourceFile txt)) \<Rightarrow>
          if int (utf8_size txt) > MAX_FILE_BYTES
          then Some (refuse entry (show_nat (utf8_size txt) @ '' bytes (max '' @ show_nat (nat MAX_FILE_BYTES) @ '')''))
          else None
      | _ \<Rightarrow> None)"

definition copy_entry :: "path \<Rightarrow> path \<Rightarrow> string \<Rightarrow> cap_fs \<Rightarrow> cap_fs" where
  "copy_entry sourceDir activeDir entry fs =
     (case read_file fs (sourceDir @ [entry]) of
        None \<Rightarrow> fs
      | Some c \<Rightarrow> chmodSync (activeDir @ [entry]) 420 (writeFileSync (activeDir @ [entry]) 420 c fs))"

definition copy_entries :: "path \<Rightarrow> path \<Rightarrow> string list \<Rightarrow> cap_fs \<Rightarrow> cap_fs" where
  "copy_entries sourceDir activeDir entries fs = fold (copy_entry sourceDir activeDir) entries (mkdirSync activeDir 511 fs)"

datatype activation_outcome =
    ActivationOk activation bool "preflight_outcome option"
  | ActivationRefused string "preflight_outcome option"

definition request_status_name :: "request_status \<Rightarrow> string" where
  "request_status_name st = (case st of ReqOpen \<Rightarrow> ''open'' | ReqInProgress \<Rightarrow> ''in-progress'' | ReqFulfilled \<Rightarrow> ''fulfilled''
     | ReqRejected \<Rightarrow> ''rejected'')"

definition is_active :: "string \<Rightarrow> activation \<Rightarrow> bool" where
  "is_active i r \<longleftrightarrow> av_id r = i \<and> av_status r = ActivationActive"

definition source_root :: "cap_opts \<Rightarrow> path" where
  "source_root opts = nullish (cp_generatedRoot opts) (cp_stateDir opts @ [''extensions-generated''])"

definition active_root :: "cap_opts \<Rightarrow> path" where
  "active_root opts = nullish (cp_activeRoot opts) (resolveActiveExtensionsRoot (cp_stateDir opts))"

definition loaded_event :: "activation \<Rightarrow> json_object" where
  "loaded_event r = [(''id'', JStr (av_id r)), (''integration'', JStr (av_integration r)), (''fromRequestId'', JStr (av_fromRequestId r))]"

definition hot_load :: "cap_opts \<Rightarrow> activation \<Rightarrow> (cap_state, unit) prog" where
  "hot_load opts r =
     when_m (cp_loader opts)
      (catch_m
        (seq_m (loadCapability opts (av_id r) (av_activeDir r)) (on_world (audit_if opts KCapLoaded (loaded_event r))))
        (\<lambda>err. on_world (audit_if opts KCapLoaded
           (loaded_event r @ [(''loaded'', JBool False), (''error'', JStr err)]))))"

text \<open>From the copy on: the files, the record, the events and the loader.\<close>

definition install ::
  "cap_opts \<Rightarrow> cap_request \<Rightarrow> activation list \<Rightarrow> string list \<Rightarrow> preflight_outcome \<Rightarrow> (cap_state, activation_outcome) prog" where
  "install opts request existing entries preflight =
     (let i = sanitizeCapabilityId (cq_integration request);
          sourceDir = source_root opts @ [i]; activeDir = active_root opts @ [i]
      in seq_m (on_disk (modify_m (copy_entries sourceDir activeDir entries)))
        (bind_m (on_world (now_m opts)) (\<lambda>ts.
         let r = \<lparr>av_id = i, av_integration = cq_integration request, av_fromRequestId = cq_id request,
               av_activatedAt = ts, av_activatedBy = nullish (cp_actor opts) ''operator'', av_sourceDir = sourceDir,
               av_activeDir = activeDir, av_status = ActivationActive, av_rollbackAt = None, av_rollbackReason = None\<rparr>
         in seq_m (on_disk (writeActivatedCapabilities (cp_stateDir opts) (filter (\<lambda>e. \<not> is_active i e) existing @ [r])))
           (seq_m (on_world (audit_if opts KCapActivated
              [(''id'', JStr i), (''integration'', JStr (cq_integration request)), (''fromRequestId'', JStr (cq_id request)),
               (''activeDir'', JStr (path_text activeDir)), (''activatedBy'', JStr (av_activatedBy r))]))
           (seq_m (hot_load opts r) (return_m (ActivationOk r True (Some preflight))))))))"

definition activateCapability :: "cap_opts \<Rightarrow> string \<Rightarrow> (cap_state, activation_outcome) prog" where
  "activateCapability opts requestId =
     bind_m (on_disk (readCapabilityRequests (cp_stateDir opts))) (\<lambda>requests.
       case find (\<lambda>r. cq_id r = requestId) requests of
         None \<Rightarrow> return_m (ActivationRefused (''unknown capability request: '' @ requestId) None)
       | Some request \<Rightarrow>
           if cq_status request \<noteq> ReqFulfilled then
             return_m (ActivationRefused (''capability request '' @ requestId @ '' is '' @ [CHR 0x22]
               @ request_status_name (cq_status request) @ [CHR 0x22] @ '' '' @ [CHR 0x97] @ '' only '' @ [CHR 0x22] @ ''fulfilled''
               @ [CHR 0x22] @ '' requests can be activated. Run /v1/capabilities/'' @ requestId @ ''/build first.'') None)
           else
             let i = sanitizeCapabilityId (cq_integration request); sourceDir = source_root opts @ [i]
             in bind_m (on_disk (readActivatedCapabilities (cp_stateDir opts))) (\<lambda>existing.
                case find (is_active i) existing of
                  Some already \<Rightarrow> return_m (ActivationOk already False None)
                | None \<Rightarrow>
                    bind_m (get_m (\<lambda>s. w_fs (ca_world s))) (\<lambda>fs.
                    if map_of (fs_dirs fs) sourceDir = None then
                      return_m (ActivationRefused (''no generated files at '' @ path_text sourceDir
                        @ (if existsSync fs sourceDir then '' (ENOTDIR: not a directory, scandir '' else '' (ENOENT: no such file or directory, scandir '')
                        @ [CHR 0x27] @ path_text sourceDir @ [CHR 0x27] @ '')'') None)
                    else
                      let entries = readdirSync fs sourceDir
                      in if entries = [] then
                           return_m (ActivationRefused (''generated dir '' @ path_text sourceDir @ '' is empty; nothing to activate'') None)
                         else case List.map_filter (suspicious fs sourceDir) entries of
                             why # _ \<Rightarrow> return_m (ActivationRefused why None)
                           | [] \<Rightarrow>
                               bind_m (on_world (runPreflight (cp_import opts) sourceDir)) (\<lambda>preflight.
                               if \<not> pf_ok preflight \<and> \<not> cp_force opts then
                                 return_m (ActivationRefused (''pre-flight failed: '' @ pf_errorSummary preflight
                                   @ ''. Fix the stub or re-activate with force.'') (Some preflight))
                               else install opts request existing entries preflight))))"

section \<open>Rollback\<close>

definition find_index :: "('a \<Rightarrow> bool) \<Rightarrow> 'a list \<Rightarrow> nat option" where
  "find_index P xs = (if list_ex P xs then Some (length (takeWhile (\<lambda>x. \<not> P x) xs)) else None)"

definition deactivateCapability :: "cap_opts \<Rightarrow> string \<Rightarrow> string option \<Rightarrow> (cap_state, string + activation) prog" where
  "deactivateCapability opts requestId reason =
     bind_m (on_disk (readActivatedCapabilities (cp_stateDir opts))) (\<lambda>records.
       case find_index (\<lambda>r. av_fromRequestId r = requestId \<and> av_status r = ActivationActive) records of
         None \<Rightarrow> return_m (Inl (''no active capability for request '' @ requestId @ '' (already rolled back, or never activated)''))
       | Some idx \<Rightarrow>
           let r = records ! idx
           in seq_m (on_disk (modify_m (rmSync_tree (av_activeDir r))))
             (bind_m (on_world (now_m opts)) (\<lambda>ts.
              let updated = r\<lparr>av_status := ActivationRolledBack, av_rollbackAt := Some ts,
                    av_rollbackReason := (if truthy reason then reason else av_rollbackReason r)\<rparr>
              in seq_m (on_disk (writeActivatedCapabilities (cp_stateDir opts) (records[idx := updated])))
                (seq_m (on_world (audit_if opts KCapDeactivated
                   ([(''id'', JStr (av_id r)), (''integration'', JStr (av_integration r)), (''fromRequestId'', JStr requestId),
                     (''rolledBackBy'', JStr (nullish (cp_actor opts) ''operator''))] @ opt_field ''reason'' reason)))
                (seq_m (when_m (cp_loader opts)
                   (bind_m (unloadCapability (av_id r)) (\<lambda>dropped.
                    when_m dropped (on_world (audit_if opts KCapUnloaded
                      [(''id'', JStr (av_id r)), (''integration'', JStr (av_integration r)), (''fromRequestId'', JStr requestId)])))))
                 (return_m (Inr updated)))))))"

definition readReasoningTrace :: "cap_opts \<Rightarrow> string \<Rightarrow> (cap_state, cap_request option \<times> activation option) prog" where
  "readReasoningTrace opts requestId =
     bind_m (on_disk (readCapabilityRequests (cp_stateDir opts))) (\<lambda>requests.
     bind_m (on_disk (readActivatedCapabilities (cp_stateDir opts))) (\<lambda>activations.
     return_m (find (\<lambda>r. cq_id r = requestId) requests, find (\<lambda>r. av_fromRequestId r = requestId) activations)))"

section \<open>Facts\<close>

lemma read_write_records [simp]:
  "read_file (snd (write_records d p c fs)) q = (if q = p then Some (OtherFile c) else read_file fs q)"
  by (simp add: write_records_def)

lemma write_records_ok [simp]: "fst (write_records d p c fs) = Inr ()"
  by (simp add: write_records_def)

lemma read_copy_entry:
  "read_file (copy_entry src dst e fs) q =
     (if q = dst @ [e] \<and> read_file fs (src @ [e]) \<noteq> None then read_file fs (src @ [e]) else read_file fs q)"
  by (simp add: copy_entry_def split: option.split)

lemma copy_entries_frame: "\<not> below dst q \<Longrightarrow> read_file (copy_entries src dst es fs) q = read_file fs q"
proof -
  assume q: "\<not> below dst q"
  then have "q \<noteq> dst @ [e]" for e by (auto simp: below_def)
  then have "read_file (fold (copy_entry src dst) es fs) q = read_file fs q" for fs
    by (induction es arbitrary: fs) (simp_all add: read_copy_entry)
  then show ?thesis by (simp add: copy_entries_def)
qed

lemma below_iff: "below p q \<longleftrightarrow> (\<exists>r. q = p @ r)"
  by (auto simp: below_def) (metis append_take_drop_id)

lemma below_parent: "below (base @ [i]) q \<Longrightarrow> below base q"
  by (auto simp: below_iff)

text \<open>An invariant of the state directory alone, for programs over the activator's state.\<close>

definition disk_inv :: "(cap_fs \<Rightarrow> bool) \<Rightarrow> cap_state \<Rightarrow> bool" where
  "disk_inv P s \<longleftrightarrow> P (w_fs (ca_world s))"

lemma on_world_inv: "preserves (fs_inv P) m \<Longrightarrow> preserves (disk_inv P) (on_world m)"
  by (auto simp: preserves_def on_world_def disk_inv_def fs_inv_def split: prod.splits)

lemma on_disk_inv: "preserves P m \<Longrightarrow> preserves (disk_inv P) (on_disk m)"
  unfolding on_disk_def by (intro on_world_inv on_fs_inv)

lemma on_disk_reads [preserves_intros]:
  "preserves (disk_inv P) (on_disk (readCapabilityRequests d))" "preserves (disk_inv P) (on_disk (readActivatedCapabilities d))"
  by (intro on_disk_inv preservesI, simp)+

lemma cache_inv [preserves_intros]: "preserves (disk_inv P) (modify_m (\<lambda>s. s\<lparr>ca_cache := f s\<rparr>))"
  by (intro preserves_modify) (simp add: disk_inv_def)

lemma world_ops_inv [preserves_intros]:
  "preserves (disk_inv P) (on_world (audit_if opts k pl))" "preserves (disk_inv P) (on_world (now_m opts))"
  "preserves (disk_inv P) (on_world consult)" "preserves (disk_inv P) (on_world (runPreflight imp d))"
  unfolding runPreflight_def by (intro on_world_inv preserves_intros)+

lemma preserves_case_list [preserves_intros]:
  "preserves P m \<Longrightarrow> (\<And>y ys. preserves P (k y ys)) \<Longrightarrow> preserves P (case xs of [] \<Rightarrow> m | y # ys \<Rightarrow> k y ys)"
  by (cases xs) simp_all

lemma preserves_case_state_file [preserves_intros]:
  "(\<And>x. preserves P (a x)) \<Longrightarrow> (\<And>x. preserves P (b x)) \<Longrightarrow> (\<And>x. preserves P (c x)) \<Longrightarrow> preserves P d \<Longrightarrow>
     preserves P (case f of ProjectFile x \<Rightarrow> a x | TaskFile x \<Rightarrow> b x | OtherFile x \<Rightarrow> c x | UnreadableFile \<Rightarrow> d)"
  by (cases f) simp_all

lemma preserves_case_cap_file [preserves_intros]:
  "(\<And>x. preserves P (a x)) \<Longrightarrow> (\<And>x. preserves P (b x)) \<Longrightarrow> preserves P c \<Longrightarrow> (\<And>x. preserves P (d x)) \<Longrightarrow>
     preserves P e \<Longrightarrow> preserves P g \<Longrightarrow>
     preserves P (case f of RequestsFile x \<Rightarrow> a x | ActivationsFile x \<Rightarrow> b x | OtherJson \<Rightarrow> c | SourceFile x \<Rightarrow> d x
       | SymbolicLink \<Rightarrow> e | SpecialFile \<Rightarrow> g)"
  by (cases f) simp_all

lemma preserves_case_run_export [preserves_intros]:
  "(\<And>x. preserves P (a x)) \<Longrightarrow> preserves P b \<Longrightarrow> preserves P c \<Longrightarrow> (\<And>x. preserves P (d x)) \<Longrightarrow>
     preserves P (case r of RunFunction x \<Rightarrow> a x | RunMissing \<Rightarrow> b | RunNull \<Rightarrow> c | RunOfType x \<Rightarrow> d x)"
  by (cases r) simp_all

lemma loadCapability_inv: "preserves (disk_inv P) (loadCapability opts i d)"
  unfolding loadCapability_def Let_def by (intro preserves_intros)

lemma hot_load_inv [preserves_intros]: "preserves (disk_inv P) (hot_load opts r)"
  unfolding hot_load_def by (intro preserves_intros loadCapability_inv)

lemma set_trim_dashes: "set (trim_dashes t) \<subseteq> set t"
  by (auto simp: trim_dashes_def dest!: set_dropWhileD)

lemma slug_chars: "c \<in> set (sanitizeCapabilityId i) \<Longrightarrow> slug_char c"
proof -
  have runs: "c \<in> set (dash_runs b t) \<Longrightarrow> slug_char c" for b t
    by (induction b t rule: dash_runs.induct) (auto simp: slug_char_def split: if_splits)
  assume "c \<in> set (sanitizeCapabilityId i)"
  then show ?thesis
    using runs [of False "map ascii_lower i"] set_trim_dashes [of "dash_runs False (map ascii_lower i)"]
    by (auto simp: sanitizeCapabilityId_def Let_def slug_char_def split: if_splits dest: in_set_takeD)
qed

lemma slug_nonempty: "sanitizeCapabilityId i \<noteq> []"
  by (simp add: sanitizeCapabilityId_def Let_def)

text \<open>The only files an activation may touch.\<close>

definition outside :: "cap_opts \<Rightarrow> path \<Rightarrow> bool" where
  "outside opts q \<longleftrightarrow> \<not> below (active_root opts) q \<and> q \<noteq> resolveActivatedCapabilitiesPath (cp_stateDir opts)"

lemma install_outside:
  "preserves (disk_inv (\<lambda>fs. \<forall>q. outside opts q \<longrightarrow> read_file fs q = read_file fs0 q)) (install opts request existing entries pf)"
proof -
  have copy: "preserves (\<lambda>fs. \<forall>q. outside opts q \<longrightarrow> read_file fs q = read_file fs0 q)
      (modify_m (copy_entries src (active_root opts @ [i]) entries))" for src i
    by (rule preserves_modify) (metis below_parent copy_entries_frame outside_def)
  have "preserves (\<lambda>fs. \<forall>q. outside opts q \<longrightarrow> read_file fs q = read_file fs0 q)
      (writeActivatedCapabilities (cp_stateDir opts) rs)" for rs
    by (rule preservesI) (simp add: writeActivatedCapabilities_def outside_def)
  with copy show ?thesis unfolding install_def Let_def by (intro preserves_intros on_disk_inv) auto
qed

lemma activate_outside:
  "preserves (disk_inv (\<lambda>fs. \<forall>q. outside opts q \<longrightarrow> read_file fs q = read_file fs0 q)) (activateCapability opts requestId)"
  unfolding activateCapability_def Let_def by (intro preserves_intros install_outside)

lemma bind_m_Inr: "bind_m m k s = (Inr x, s') \<longleftrightarrow> (\<exists>y s1. m s = (Inr y, s1) \<and> k y s1 = (Inr x, s'))"
  by (auto simp: bind_m_apply split: prod.splits sum.splits)

lemma on_disk_read:
  "(\<And>fs. snd (m fs) = fs) \<Longrightarrow> on_disk m s = (Inr y, s1) \<longleftrightarrow> fst (m (w_fs (ca_world s))) = Inr y \<and> s1 = s"
  by (auto simp: on_disk_def on_world_def on_fs_apply split: prod.splits)

lemma on_world_Inr: "on_world m s = (Inr y, s1) \<longleftrightarrow> (\<exists>w. m (ca_world s) = (Inr y, w) \<and> s1 = s\<lparr>ca_world := w\<rparr>)"
  by (auto simp: on_world_def split: prod.splits)

lemma runPreflight_Inr:
  "runPreflight imp d w = (Inr y, w') \<Longrightarrow> w_fs w' = w_fs w \<and> (\<exists>call. y = preflight_verdict (preflight_checks d (w_fs w) (imp call)))"
proof -
  assume run: "runPreflight imp d w = (Inr y, w')"
  have "preserves (fs_inv (\<lambda>fs. fs = w_fs w)) (runPreflight imp d)"
    unfolding runPreflight_def by (intro preserves_intros)
  then have "w_fs w' = w_fs w" using run preservesD [of _ _ w] by (fastforce simp: fs_inv_def)
  moreover have "preserves (fs_inv (\<lambda>fs. fs = w_fs w)) (consult :: (cap_world, nat) prog)" by (intro preserves_intros)
  then have "w_fs (snd (consult w)) = w_fs w" by (auto simp: fs_inv_def dest: preservesD)
  ultimately show ?thesis using run by (auto simp: runPreflight_def bind_m_Inr)
qed

lemma install_record:
  "install opts request existing entries pf s = (Inr out, s') \<Longrightarrow>
     \<exists>r. out = ActivationOk r True (Some pf) \<and> av_id r = sanitizeCapabilityId (cq_integration request)
       \<and> av_fromRequestId r = cq_id request \<and> av_status r = ActivationActive \<and> av_activeDir r = active_root opts @ [av_id r]"
  by (auto simp: install_def Let_def seq_m_def bind_m_Inr)

lemma activate_new:
  assumes run: "activateCapability opts requestId s = (Inr (ActivationOk r True pf), s')"
  shows "\<exists>requests request existing entries p w.
      fst (readCapabilityRequests (cp_stateDir opts) (w_fs (ca_world s))) = Inr requests
    \<and> find (\<lambda>q. cq_id q = requestId) requests = Some request \<and> cq_status request = ReqFulfilled
    \<and> fst (readActivatedCapabilities (cp_stateDir opts) (w_fs (ca_world s))) = Inr existing
    \<and> find (is_active (sanitizeCapabilityId (cq_integration request))) existing = None
    \<and> entries = readdirSync (w_fs (ca_world s)) (source_root opts @ [sanitizeCapabilityId (cq_integration request)])
    \<and> entries \<noteq> []
    \<and> List.map_filter (suspicious (w_fs (ca_world s)) (source_root opts @ [sanitizeCapabilityId (cq_integration request)])) entries = []
    \<and> (pf_ok p \<or> cp_force opts)
    \<and> runPreflight (cp_import opts) (source_root opts @ [sanitizeCapabilityId (cq_integration request)]) (ca_world s) = (Inr p, w)
    \<and> install opts request existing entries p (s\<lparr>ca_world := w\<rparr>) = (Inr (ActivationOk r True pf), s')"
proof -
  let ?fs = "w_fs (ca_world s)"
  obtain requests where reqs: "fst (readCapabilityRequests (cp_stateDir opts) ?fs) = Inr requests"
    using run by (auto simp: activateCapability_def bind_m_Inr on_disk_read)
  obtain request where req: "find (\<lambda>q. cq_id q = requestId) requests = Some request" "cq_status request = ReqFulfilled"
    using run reqs by (auto simp: activateCapability_def bind_m_Inr on_disk_read split: option.splits if_splits)
  obtain existing where old: "fst (readActivatedCapabilities (cp_stateDir opts) ?fs) = Inr existing"
    "find (is_active (sanitizeCapabilityId (cq_integration request))) existing = None"
    using run reqs req by (auto simp: activateCapability_def bind_m_Inr on_disk_read Let_def split: option.splits)
  let ?dir = "source_root opts @ [sanitizeCapabilityId (cq_integration request)]"
  obtain p w where "readdirSync ?fs ?dir \<noteq> []" "List.map_filter (suspicious ?fs ?dir) (readdirSync ?fs ?dir) = []"
    "pf_ok p \<or> cp_force opts" "runPreflight (cp_import opts) ?dir (ca_world s) = (Inr p, w)"
    "install opts request existing (readdirSync ?fs ?dir) p (s\<lparr>ca_world := w\<rparr>) = (Inr (ActivationOk r True pf), s')"
    using run reqs req old
    by (auto simp: activateCapability_def bind_m_Inr on_disk_read on_world_Inr Let_def split: if_splits list.splits)
  with reqs req old show ?thesis by blast
qed

lemma install_returns:
  assumes quiet: "\<And>n. e_auditThrows opts n = None"
  shows "\<exists>r s'. install opts request existing entries pf s = (Inr (ActivationOk r True (Some pf)), s')
    \<and> fst (readActivatedCapabilities (cp_stateDir opts) (w_fs (ca_world s'))) =
      Inr (filter (\<lambda>e. \<not> is_active (sanitizeCapabilityId (cq_integration request)) e) existing @ [r])"
proof -
  have "\<exists>w'. audit_if opts k pl w = (Inr (), w') \<and> w_fs w' = w_fs w" for k pl and w :: cap_world
    by (rule audit_if_quiet [OF quiet]) blast
  then obtain g where audit: "audit_if opts k pl w = (Inr (), g k pl w)" "w_fs (g k pl w) = w_fs w"
    for k pl and w :: cap_world by metis
  have "\<exists>s'. hot_load opts r s = (Inr (), s') \<and> w_fs (ca_world s') = w_fs (ca_world s)" for r s
  proof -
    have "\<exists>s'. hot_load opts r s = (Inr (), s')"
      by (auto simp: hot_load_def when_m_apply catch_m_apply seq_m_apply on_world_def audit split: prod.splits sum.splits)
    moreover have "w_fs (ca_world (snd (hot_load opts r s))) = w_fs (ca_world s)"
      using preservesD [OF hot_load_inv [of "\<lambda>fs. fs = w_fs (ca_world s)" opts r], of s] by (simp add: disk_inv_def)
    ultimately show ?thesis by force
  qed
  then obtain h where "hot_load opts r s = (Inr (), h r s)" "w_fs (ca_world (h r s)) = w_fs (ca_world s)" for r s by metis
  then show ?thesis
    by (simp add: install_def Let_def seq_m_apply bind_m_apply on_world_def on_disk_def on_fs_apply audit now_m_def
      writeActivatedCapabilities_def readActivatedCapabilities_def write_records_def split: prod.splits)
qed

lemma activate_succeeds:
  fixes opts s request
  defines "fs \<equiv> w_fs (ca_world s)" and "d \<equiv> source_root opts @ [sanitizeCapabilityId (cq_integration request)]"
  assumes quiet: "\<And>n. e_auditThrows opts n = None"
    and requests: "fst (readCapabilityRequests (cp_stateDir opts) fs) = Inr requests"
      "find (\<lambda>r. cq_id r = requestId) requests = Some request" "cq_status request = ReqFulfilled"
    and records: "fst (readActivatedCapabilities (cp_stateDir opts) fs) = Inr existing"
      "find (is_active (sanitizeCapabilityId (cq_integration request))) existing = None"
    and files: "map_of (fs_dirs fs) d \<noteq> None" "\<And>e. suspicious fs d e = None"
      "read_file fs (d @ [''index.mjs'']) = Some (OtherFile (SourceFile body))"
    and code: "\<And>call. \<exists>code. cp_import opts call body = Inr (RunFunction code)"
  shows "\<exists>r pf s'. activateCapability opts requestId s = (Inr (ActivationOk r True pf), s')
    \<and> fst (readActivatedCapabilities (cp_stateDir opts) (w_fs (ca_world s'))) =
        Inr (filter (\<lambda>e. \<not> is_active (sanitizeCapabilityId (cq_integration request)) e) existing @ [r])"
proof -
  let ?c = "w_ids (ca_world s)" and ?w = "(ca_world s)\<lparr>w_ids := Suc (w_ids (ca_world s))\<rparr>"
  let ?p = "preflight_verdict (preflight_checks d fs (cp_import opts ?c))"
  have ok: "pf_ok ?p" using files(3) code [of ?c] by (auto simp: preflight_ok_iff)
  have preflight: "on_world (runPreflight (cp_import opts) d) s = (Inr ?p, s\<lparr>ca_world := ?w\<rparr>)"
    by (simp add: on_world_def runPreflight_def bind_m_apply consult_def fs_def)
  have "''index.mjs'' \<in> set (readdirSync fs d)"
    unfolding readdirSync_iff using files(3) by (rule read_file_exists)
  then have entries: "readdirSync fs d \<noteq> []" by auto
  have clean: "List.map_filter (suspicious fs d) (readdirSync fs d) = []" using files(2) by (simp add: map_filter_def)
  have reads: "on_disk (readCapabilityRequests (cp_stateDir opts)) s = (Inr requests, s)"
    "on_disk (readActivatedCapabilities (cp_stateDir opts)) s = (Inr existing, s)"
    using requests(1) records(1) by (simp_all add: on_disk_read fs_def)
  obtain m where "map_of (fs_dirs fs) d = Some m" using files(1) by blast
  then have "activateCapability opts requestId s = install opts request existing (readdirSync fs d) ?p (s\<lparr>ca_world := ?w\<rparr>)"
    using entries clean ok
    by (simp add: activateCapability_def bind_m_apply reads requests records Let_def preflight d_def [symmetric] fs_def [symmetric])
  then show ?thesis
    using install_returns [OF quiet, of request existing "readdirSync fs d" ?p "s\<lparr>ca_world := ?w\<rparr>"] by (metis (no_types))
qed

section \<open>Activation is confined\<close>


definition sample_cap_opts :: cap_opts where
  "sample_cap_opts = env.extend quiet_env (cap_opts.fields [''state''] None None None True False
     (\<lambda>call body. Inr (RunFunction (\<lambda>input. return_m None))))"

definition sample_cap_state :: cap_state where
  "sample_cap_state = \<lparr>ca_world = sample_cap_world
       (writeFileSync [''state'', ''extensions-generated'', ''crm'', ''index.mjs''] 420 (OtherFile (SourceFile ''run''))
        (mkdirSync [''state'', ''extensions-generated'', ''crm''] 511 (requests_fs [sample_cap_request ''../CRM'' ReqFulfilled]))),
     ca_cache = []\<rparr>"

lemma sample_activation:
  "\<exists>r pf s'. activateCapability sample_cap_opts ''c1'' sample_cap_state = (Inr (ActivationOk r True pf), s')
     \<and> fst (readActivatedCapabilities [''state''] (w_fs (ca_world s'))) = Inr [r]"
proof -
  let ?fs = "w_fs (ca_world sample_cap_state)" and ?dir = "[''state'', ''extensions-generated'', ''crm'']"
  have opts: "cp_stateDir sample_cap_opts = [''state'']" "source_root sample_cap_opts = [''state'', ''extensions-generated'']"
    "e_auditThrows sample_cap_opts n = None" "\<exists>code. cp_import sample_cap_opts call body = Inr (RunFunction code)" for n call body
    by (simp_all add: sample_cap_opts_def quiet_env_def source_root_def env.defs cap_opts.defs)
  have req: "fst (readCapabilityRequests [''state''] ?fs) = Inr [sample_cap_request ''../CRM'' ReqFulfilled]" "fst (readActivatedCapabilities [''state''] ?fs) = Inr []"
    "sanitizeCapabilityId (cq_integration (sample_cap_request ''../CRM'' ReqFulfilled)) = ''crm''" "cq_status (sample_cap_request ''../CRM'' ReqFulfilled) = ReqFulfilled" "cq_id (sample_cap_request ''../CRM'' ReqFulfilled) = ''c1''"
    by code_simp+
  have src: "map_of (fs_dirs ?fs) ?dir \<noteq> None" "read_file ?fs (?dir @ [''index.mjs'']) = Some (OtherFile (SourceFile ''run''))" by code_simp+
  have "suspicious ?fs ?dir e = None" for e
    by (simp add: suspicious_def sample_cap_state_def sample_cap_world_def requests_fs_def MAX_FILE_BYTES_def utf8_size_def)
  then show ?thesis
    using activate_succeeds [of sample_cap_opts sample_cap_state, OF opts(3), of _ "''c1''", unfolded opts, OF req(1) _ req(4) req(2)] src req(3-) opts(4)
    by simp
qed


section \<open>One active record per capability\<close>

text \<open>The operations on the activation records of one state directory, in any order, by any caller.\<close>

inductive cap_step :: "path \<Rightarrow> path \<Rightarrow> cap_state \<Rightarrow> cap_state \<Rightarrow> bool" for dir base where
  step_activate: "cp_stateDir opts = dir \<Longrightarrow> active_root opts = base \<Longrightarrow> cap_step dir base s (snd (activateCapability opts requestId s))"
| step_deactivate: "cp_stateDir opts = dir \<Longrightarrow> active_root opts = base \<Longrightarrow> cap_step dir base s (snd (deactivateCapability opts requestId reason s))"

inductive_cases cap_stepE: "cap_step dir base s s'"

definition one_active :: "activation list \<Rightarrow> bool" where
  "one_active rs \<longleftrightarrow> (\<forall>i. length (filter (is_active i) rs) \<le> 1)"

definition records_ok :: "path \<Rightarrow> cap_fs \<Rightarrow> bool" where
  "records_ok dir fs \<longleftrightarrow> (\<forall>rs. read_file fs (resolveActivatedCapabilitiesPath dir) = Some (OtherFile (ActivationsFile rs)) \<longrightarrow> one_active rs)"

lemma read_records_ok: "records_ok dir fs \<Longrightarrow> fst (readActivatedCapabilities dir fs) = Inr rs \<Longrightarrow> one_active rs"
  by (auto simp: readActivatedCapabilities_def bind_m_apply records_ok_def one_active_def
      split: option.splits bool.splits state_file.splits cap_file.splits)

lemma read_then:
  assumes "\<And>fs. snd (m fs) = fs" and "\<And>fs x. P fs \<Longrightarrow> fst (m fs) = Inr x \<Longrightarrow> Q x"
    and "\<And>x. Q x \<Longrightarrow> preserves (disk_inv P) (k x)"
  shows "preserves (disk_inv P) (bind_m (on_disk m) k)"
  unfolding preserves_def
proof (intro allI impI)
  fix s assume s: "disk_inv P s"
  have "snd (on_disk m s) = s" using assms(1) [of "w_fs (ca_world s)"]
    by (simp add: on_disk_def on_world_def on_fs_apply split: prod.splits)
  moreover have "fst (on_disk m s) = fst (m (w_fs (ca_world s)))"
    by (simp add: on_disk_def on_world_def on_fs_apply split: prod.splits)
  ultimately show "disk_inv P (snd (bind_m (on_disk m) k s))"
    using s assms(2) [of "w_fs (ca_world s)"] assms(3)
    by (cases "on_disk m s") (auto simp: bind_m_apply disk_inv_def preserves_def split: sum.splits)
qed

lemma write_ok: "one_active rs \<Longrightarrow> preserves (records_ok dir) (writeActivatedCapabilities dir rs)"
  by (rule preservesI) (simp add: writeActivatedCapabilities_def records_ok_def)

lemma one_active_insert: "one_active rs \<Longrightarrow> av_id r = i \<Longrightarrow> one_active (filter (\<lambda>e. \<not> is_active i e) rs @ [r])"
  unfolding one_active_def
proof
  fix j assume rs: "\<forall>i. length (filter (is_active i) rs) \<le> 1" and r: "av_id r = i"
  show "length (filter (is_active j) (filter (\<lambda>e. \<not> is_active i e) rs @ [r])) \<le> 1"
  proof (cases "j = i")
    case True
    then have "filter (is_active j) (filter (\<lambda>e. \<not> is_active i e) rs) = []" by (simp add: filter_empty_conv)
    then show ?thesis by simp
  next
    case False
    then have "filter (is_active j) (filter (\<lambda>e. \<not> is_active i e) rs) = filter (is_active j) rs"
      by (auto simp: is_active_def intro: filter_cong)
    moreover have "\<not> is_active j r" using False r by (simp add: is_active_def)
    ultimately show ?thesis using rs by simp
  qed
qed

lemma length_filter_update: "\<not> P u \<Longrightarrow> length (filter P (xs[i := u])) \<le> length (filter P xs)"
  by (induction xs arbitrary: i) (auto split: nat.splits simp: le_SucI)

lemma one_active_rollback: "one_active rs \<Longrightarrow> av_status u = ActivationRolledBack \<Longrightarrow> one_active (rs[i := u])"
  unfolding one_active_def by (metis activation_status.distinct(1) is_active_def le_trans length_filter_update)

text \<open>An active root inside which the records file does not lie, as the default one.\<close>

definition apart :: "path \<Rightarrow> path \<Rightarrow> bool" where
  "apart dir base \<longleftrightarrow> \<not> below base (resolveActivatedCapabilitiesPath dir)"

lemma default_apart: "apart dir (resolveActiveExtensionsRoot dir)"
  by (simp add: apart_def below_iff resolveActiveExtensionsRoot_def resolveActivatedCapabilitiesPath_def)

lemma install_records:
  assumes "one_active existing" "apart (cp_stateDir opts) (active_root opts)"
  shows "preserves (disk_inv (records_ok (cp_stateDir opts))) (install opts request existing entries pf)"
proof -
  have "preserves (records_ok (cp_stateDir opts)) (modify_m (copy_entries src (active_root opts @ [i]) entries))" for src i
    using assms(2) by (intro preserves_modify) (metis apart_def below_parent copy_entries_frame records_ok_def)
  with assms(1) show ?thesis unfolding install_def Let_def
    by (intro preserves_intros on_disk_inv write_ok one_active_insert) simp_all
qed

lemma activate_records:
  assumes "apart (cp_stateDir opts) (active_root opts)"
  shows "preserves (disk_inv (records_ok (cp_stateDir opts))) (activateCapability opts requestId)"
  unfolding activateCapability_def Let_def using assms
  by (intro preserves_intros read_then [where Q = one_active] install_records) (simp_all add: read_records_ok)

lemma unload_inv [preserves_intros]: "preserves (disk_inv P) (unloadCapability i)"
  unfolding unloadCapability_def by (intro preserves_intros)

lemma deactivate_records: "preserves (disk_inv (records_ok (cp_stateDir opts))) (deactivateCapability opts requestId reason)"
proof -
  have "preserves (records_ok (cp_stateDir opts)) (modify_m (rmSync_tree p))" for p
    by (intro preserves_modify) (simp add: records_ok_def)
  then show ?thesis unfolding deactivateCapability_def Let_def
    by (intro read_then [where Q = one_active] preserves_intros on_disk_inv write_ok one_active_rollback) (simp_all add: read_records_ok)
qed

lemma cap_invariant:
  assumes "apart dir base"
  shows "inductive_invariant (\<lambda>s. read_file (w_fs (ca_world s)) (resolveActivatedCapabilitiesPath dir) = None) (cap_step dir base)
    (disk_inv (records_ok dir))"
proof
  show "disk_inv (records_ok dir) s" if "read_file (w_fs (ca_world s)) (resolveActivatedCapabilitiesPath dir) = None" for s
    using that by (simp add: disk_inv_def records_ok_def)
next
  fix s s' assume inv: "disk_inv (records_ok dir) s" and step: "cap_step dir base s s'"
  from step show "disk_inv (records_ok dir) s'"
    by (cases rule: cap_stepE) (use assms inv preservesD [OF activate_records] preservesD [OF deactivate_records] in auto)
qed

text \<open>C35. From an empty records file, whatever activations and rollbacks run, by whichever operator
  and with or without force, the records never name two active activations of one capability: its
  directory under the active root has one owner.\<close>

theorem one_active_record:
  assumes "reachable (\<lambda>s. read_file (w_fs (ca_world s)) (resolveActivatedCapabilitiesPath dir) = None) (cap_step dir base) s"
    and "apart dir base" and "fst (readActivatedCapabilities dir (w_fs (ca_world s))) = Inr records"
  shows "length (filter (is_active i) records) \<le> 1"
  using inductive_invariant.reachable_inv [OF cap_invariant [OF assms(2)] assms(1)] read_records_ok [OF _ assms(3)]
  by (simp add: disk_inv_def one_active_def)

theorem one_active_record_witness:
  "\<exists>r s'. snd (activateCapability sample_cap_opts ''c1'' sample_cap_state) = s'
     \<and> fst (readActivatedCapabilities [''state''] (w_fs (ca_world s'))) = Inr [r] \<and> length (filter (is_active ''crm'') [r]) \<le> 1"
proof -
  let ?base = "[''state'', ''extensions-active'']"
  obtain r pf s' where act: "activateCapability sample_cap_opts ''c1'' sample_cap_state = (Inr (ActivationOk r True pf), s')"
    and read: "fst (readActivatedCapabilities [''state''] (w_fs (ca_world s'))) = Inr [r]"
    using sample_activation by blast
  have dirs: "cp_stateDir sample_cap_opts = [''state'']" "active_root sample_cap_opts = ?base" by code_simp+
  have "read_file (w_fs (ca_world sample_cap_state)) (resolveActivatedCapabilitiesPath [''state'']) = None" by code_simp
  then have "reachable (\<lambda>s. read_file (w_fs (ca_world s)) (resolveActivatedCapabilitiesPath [''state'']) = None) (cap_step [''state''] ?base) s'"
    using step_activate [of sample_cap_opts "[''state'']" ?base sample_cap_state "''c1''"] act by (intro reach_step [OF reach_init]) (simp_all add: dirs)
  moreover have "apart [''state''] ?base" by code_simp
  ultimately have "length (filter (is_active ''crm'') [r]) \<le> 1" using read by (rule one_active_record)
  with act read show ?thesis by auto
qed

end
