(* ===== verification/Research_Workers.thy ===== *)
theory Research_Workers
  imports Daily_Research Llm_Client Capability_Activator
begin

text \<open>
  The workers of the daily-research workflow, \<^verbatim>\<open>src/orchestrator/workers.ts\<close>: researcher, writer,
  editor and publisher, each one call of the model or one write, and the roles the workflow does not
  support. A worker answers by the index of its call, as the runner consults it; the model and the
  function that writes a file are the caller's, and either may fail. The abort signal is not modelled.
\<close>

section \<open>Dependencies and helpers\<close>

text \<open>\<open>wd_writeFile\<close>: the error a write throws, if any.\<close>

record worker_deps =
  wd_llm :: llm_client
  wd_writeFile :: "nat \<Rightarrow> string \<Rightarrow> json \<Rightarrow> string option"

definition worker_failed :: "string \<Rightarrow> worker_outcome" where
  "worker_failed e = WorkerReturned \<lparr>wo_ok = False, wo_result = None, wo_error = Some e, wo_costUsd = None\<rparr>"

definition worker_result :: "json_object \<Rightarrow> worker_output" where
  "worker_result r = \<lparr>wo_ok = True, wo_result = Some (JObj r), wo_error = None, wo_costUsd = None\<rparr>"

text \<open>\<open>(params.key ?? d).trim()\<close>: a value that is neither nullish nor a text has no \<open>trim\<close>, and the worker
  throws.\<close>

definition with_text :: "json_object \<Rightarrow> string \<Rightarrow> string \<Rightarrow> (string \<Rightarrow> worker_outcome) \<Rightarrow> worker_outcome" where
  "with_text params key d k =
     (case map_of params key of
        None \<Rightarrow> k (js_trim d)
      | Some JNull \<Rightarrow> k (js_trim d)
      | Some (JStr s) \<Rightarrow> k (js_trim s)
      | Some _ \<Rightarrow> WorkerThrew ''TypeError'')"

definition withCost :: "worker_output \<Rightarrow> llm_usage option \<Rightarrow> worker_output" where
  "withCost output usage =
     (let costUsd = estimateCostUsd usage
      in if costUsd \<le> 0 then output else output\<lparr>wo_costUsd := Some (FiniteNum costUsd)\<rparr>)"

text \<open>\<open>Object.values\<close>: properties named by array indices come first, in their order.\<close>

definition index_key :: "string \<Rightarrow> bool" where
  "index_key k \<longleftrightarrow> k \<noteq> [] \<and> list_all is_digit k \<and> (k = ''0'' \<or> hd k \<noteq> CHR ''0'') \<and> int (digits_value k) < 2 ^ 32 - 1"

definition object_values :: "(string \<times> 'v) list \<Rightarrow> 'v list" where
  "object_values ob =
     map snd (to_sorted (\<lambda>a b. digits_value (fst a) < digits_value (fst b)) (filter (\<lambda>e. index_key (fst e)) ob)
       @ filter (\<lambda>e. \<not> index_key (fst e)) ob)"

definition collectAllDependencyOutputs :: "worker_input \<Rightarrow> json list" where
  "collectAllDependencyOutputs input =
     List.map_filter (\<lambda>v. case v of Some j \<Rightarrow> if is_object_value j then Some j else None | None \<Rightarrow> None)
       (object_values (wi_dependencyOutputs input))"

definition findFirstDependencyOutput :: "worker_input \<Rightarrow> json option" where
  "findFirstDependencyOutput input =
     (case collectAllDependencyOutputs input of [] \<Rightarrow> None | v # _ \<Rightarrow> Some v)"

text \<open>\<open>value?.key\<close>, when it is truthy.\<close>

definition truthy_field :: "json option \<Rightarrow> string \<Rightarrow> json option" where
  "truthy_field v k =
     (case (case v of None \<Rightarrow> None | Some j \<Rightarrow> json_field j k) of
        Some x \<Rightarrow> if json_truthy x then Some x else None
      | None \<Rightarrow> None)"


section \<open>The workers\<close>

definition researcher_request :: "string \<Rightarrow> llm_request" where
  "researcher_request topic =
     \<lparr>lr_system = Some (''You are a research assistant. Produce 4'' @ EN_DASH @ ''6 concise factual bullet points '' @
        ''about the user-supplied topic. Avoid speculation; mark uncertain claims '' @ ''with [unverified].''),
      lr_user = topic, lr_maxTokens = None, lr_purpose = Some ''researcher''\<rparr>"

definition createResearcher :: "llm_client \<Rightarrow> worker" where
  "createResearcher llm n input =
     with_text (t_input (wi_task input)) ''topic'' [] (\<lambda>topic.
       if topic = [] then worker_failed ''researcher: missing required input.topic''
       else case llm n (researcher_request topic) of
           Inl err \<Rightarrow> worker_failed (''researcher: '' @ err)
         | Inr completion \<Rightarrow>
             WorkerReturned (withCost (worker_result [(''topic'', JStr topic), (''notes'', JStr (ll_text completion))])
               (ll_usage completion)))"

text \<open>A word target that is no number makes the limit \<open>NaN\<close>; so, here, does one that is infinite, which
  no request tells from \<open>NaN\<close>.\<close>

definition writer_tokens :: "json \<Rightarrow> js_number" where
  "writer_tokens wordTarget =
     (case js_ToNumber wordTarget of
        None \<Rightarrow> NaN
      | Some q \<Rightarrow> FiniteNum (max 256 (of_int \<lfloor>q * 4 + 1 / 2\<rfloor>)))"

definition writer_request :: "json \<Rightarrow> string \<Rightarrow> json \<Rightarrow> llm_request" where
  "writer_request wordTarget topic notes =
     \<lparr>lr_system = Some (''You are a tech-newsletter writer. Turn the supplied research notes into '' @
        ''a single ~'' @ js_String wordTarget @ ''-word summary paragraph for a smart, busy reader. '' @
        ''Use plain prose; no headings; no bullet points; no marketing speak.''),
      lr_user = ''Topic: '' @ topic @ [CHR 0x0A, CHR 0x0A] @ ''Notes:'' @ [CHR 0x0A] @ js_String notes,
      lr_maxTokens = Some (writer_tokens wordTarget), lr_purpose = Some ''writer''\<rparr>"

definition createWriter :: "llm_client \<Rightarrow> worker" where
  "createWriter llm n input =
     with_text (t_input (wi_task input)) ''topic'' [] (\<lambda>topic.
       let wordTarget = (case map_of (t_input (wi_task input)) ''wordTarget'' of
             None \<Rightarrow> JNum 120 | Some v \<Rightarrow> if v = JNull then JNum 120 else v)
       in if topic = [] then worker_failed ''writer: missing required input.topic''
          else case truthy_field (findFirstDependencyOutput input) ''notes'' of
              None \<Rightarrow> worker_failed ''writer: no upstream research notes available''
            | Some notes \<Rightarrow>
                (case llm n (writer_request wordTarget topic notes) of
                   Inl err \<Rightarrow> worker_failed (''writer: '' @ err)
                 | Inr completion \<Rightarrow>
                     WorkerReturned (withCost (worker_result [(''topic'', JStr topic), (''summary'', JStr (ll_text completion))])
                       (ll_usage completion))))"

text \<open>\<open>`## ${s.topic}\n\n${s.summary}`\<close>\<close>

definition section_text :: "json \<Rightarrow> string" where
  "section_text s =
     ''## '' @ (case json_field s ''topic'' of None \<Rightarrow> ''undefined'' | Some v \<Rightarrow> js_String v) @ [CHR 0x0A, CHR 0x0A]
       @ (case json_field s ''summary'' of None \<Rightarrow> ''undefined'' | Some v \<Rightarrow> js_String v)"

definition editor_request :: "string \<Rightarrow> json list \<Rightarrow> llm_request" where
  "editor_request title summaries =
     \<lparr>lr_system = Some (''You are a newsletter editor. The user submits a draft of section '' @
        ''headings + paragraphs. Reorganize for flow if needed, fix awkward '' @
        ''phrasing, ensure each section reads as a coherent standalone paragraph. '' @
        ''Add a single one-sentence introduction at the top under a # Title. '' @
        ''Keep all the topics; don'' @ [CHR 0x27] @ ''t drop any sections.''),
      lr_user = ''# '' @ title @ [CHR 0x0A, CHR 0x0A] @ join_with [CHR 0x0A, CHR 0x0A] (map section_text summaries),
      lr_maxTokens = Some (FiniteNum 2048), lr_purpose = Some ''editor''\<rparr>"

definition createEditor :: "llm_client \<Rightarrow> worker" where
  "createEditor llm n input =
     with_text (t_input (wi_task input)) ''title'' ''Daily Brief'' (\<lambda>title.
       let summaries = filter (\<lambda>item. truthy_field (Some item) ''summary'' \<noteq> None) (collectAllDependencyOutputs input)
       in if length summaries = 0 then worker_failed ''editor: no writer outputs to combine''
          else case llm n (editor_request title summaries) of
              Inl err \<Rightarrow> worker_failed (''editor: '' @ err)
            | Inr completion \<Rightarrow>
                WorkerReturned (withCost (worker_result [(''markdown'', JStr (ll_text completion))]) (ll_usage completion)))"

text \<open>\<open>Buffer.byteLength\<close> rejects what is not a text, after the write.\<close>

definition createPublisher :: "(nat \<Rightarrow> string \<Rightarrow> json \<Rightarrow> string option) \<Rightarrow> worker" where
  "createPublisher writeFile n input =
     with_text (t_input (wi_task input)) ''outputPath'' [] (\<lambda>outputPath.
       if outputPath = [] then worker_failed ''publisher: missing required input.outputPath''
       else case truthy_field (findFirstDependencyOutput input) ''markdown'' of
           None \<Rightarrow> worker_failed ''publisher: no editor output to publish''
         | Some markdown \<Rightarrow>
             (case writeFile n outputPath markdown of
                Some err \<Rightarrow> worker_failed (''publisher: '' @ err)
              | None \<Rightarrow>
                  (case markdown of
                     JStr s \<Rightarrow> WorkerReturned (worker_result [(''path'', JStr outputPath), (''bytes'', JNum (int (utf8_size s)))])
                   | _ \<Rightarrow> worker_failed (''publisher: '' @ ''TypeError''))))"

definition createUnsupportedRole :: "string \<Rightarrow> worker" where
  "createUnsupportedRole role n input =
     worker_failed (role @ '': not supported by the daily-research workflow. This role is dispatched via the projects pickup loop instead.'')"

definition createDailyResearchWorkers :: "worker_deps \<Rightarrow> worker_role \<Rightarrow> worker" where
  "createDailyResearchWorkers deps role =
     (case role of
        Researcher \<Rightarrow> createResearcher (wd_llm deps)
      | Writer \<Rightarrow> createWriter (wd_llm deps)
      | Editor \<Rightarrow> createEditor (wd_llm deps)
      | Publisher \<Rightarrow> createPublisher (wd_writeFile deps)
      | EmailHandler \<Rightarrow> createUnsupportedRole ''email-handler''
      | CapabilityBroker \<Rightarrow> createUnsupportedRole ''capability-broker''
      | SelfCoder \<Rightarrow> createUnsupportedRole ''self-coder''
      | CapabilityRunner \<Rightarrow> createUnsupportedRole ''capability-runner'')"

section \<open>What the workers owe each other\<close>

definition text_field :: "string \<Rightarrow> json option \<Rightarrow> bool" where
  "text_field k out \<longleftrightarrow> (\<exists>ob s. out = Some (JObj ob) \<and> map_of ob k = Some (JStr s) \<and> s \<noteq> [])"

definition research_output :: "string \<Rightarrow> worker_role \<Rightarrow> json option \<Rightarrow> bool" where
  "research_output path role out =
     (case role of Researcher \<Rightarrow> text_field ''notes'' out | Writer \<Rightarrow> text_field ''summary'' out | Editor \<Rightarrow> text_field ''markdown'' out
        | Publisher \<Rightarrow> (\<exists>n. out = Some (JObj [(''path'', JStr path), (''bytes'', JNum n)])) | _ \<Rightarrow> False)"

text \<open>A plan whose tasks have usable inputs and depend on the role before theirs.\<close>

definition topic_given :: "json_object \<Rightarrow> bool" where
  "topic_given inp \<longleftrightarrow> (\<exists>s. map_of inp ''topic'' = Some (JStr s) \<and> js_trim s \<noteq> [])"

definition after_role :: "worker_role \<Rightarrow> string list \<Rightarrow> (string \<times> worker_role \<times> json_object \<times> string list) list \<Rightarrow> bool" where
  "after_role role deps steps \<longleftrightarrow> deps \<noteq> [] \<and> (\<forall>d \<in> set deps. \<forall>e \<in> set steps. fst e = d \<longrightarrow> fst (snd e) = role)"

definition research_shape :: "string \<Rightarrow> (string \<times> worker_role \<times> json_object \<times> string list) list \<Rightarrow> bool" where
  "research_shape path steps \<longleftrightarrow> (\<forall>(i, role, inp, deps) \<in> set steps.
     case role of
       Researcher \<Rightarrow> topic_given inp
     | Writer \<Rightarrow> topic_given inp \<and> after_role Researcher deps steps
     | Editor \<Rightarrow> (\<exists>s. map_of inp ''title'' = Some (JStr s)) \<and> after_role Writer deps steps
     | Publisher \<Rightarrow> (\<exists>s. map_of inp ''outputPath'' = Some (JStr s) \<and> js_trim s = path) \<and> path \<noteq> [] \<and> after_role Editor deps steps
     | _ \<Rightarrow> False)"

lemma task_result_worker:
  assumes "re_workers env (t_role t) = Some worker"
  shows "task_result env current t n =
    (case worker n \<lparr>wi_task = t\<lparr>rt_status := TRunning, rt_attempts := rt_attempts t + 1\<rparr>,
        wi_dependencyOutputs = dependencyOutputsFor current (t_id t), wi_runId = run_id current,
        wi_workflowId = run_workflowId current, wi_metadata = run_metadata current\<rparr> of
       WorkerThrew e \<Rightarrow> Inl e
     | WorkerReturned out \<Rightarrow> if wo_ok out then Inr (wo_result out) else Inl (nullish (wo_error out) ''(no error)''))"
  using assms by (simp add: task_result_def execute_task_def call_worker_def bind_m_apply split: worker_outcome.split)

text \<open>The outputs a task is handed are those of its dependencies, and there is one when it has a dependency.\<close>

lemma update_entries: "set (AList.update k v ob) \<subseteq> insert (k, v) (set ob)" "AList.update k v ob \<noteq> []"
  by (induction ob) auto

lemma fold_update_values:
  assumes "\<And>d. d \<in> set ds \<Longrightarrow> \<exists>v. add d = AList.update d v \<and> Q d v"
  shows "ds \<noteq> [] \<or> out \<noteq> [] \<Longrightarrow> fold add ds out \<noteq> []"
    "v \<in> snd ` set (fold add ds out) \<Longrightarrow> v \<in> snd ` set out \<or> (\<exists>d \<in> set ds. Q d v)"
proof -
  have both: "(ds \<noteq> [] \<or> out \<noteq> [] \<longrightarrow> fold add ds out \<noteq> []) \<and> (v \<in> snd ` set (fold add ds out) \<longrightarrow> v \<in> snd ` set out \<or> (\<exists>d \<in> set ds. Q d v))"
    using assms
  proof (induction ds arbitrary: out)
    case (Cons d ds)
    then obtain x where x: "add d = AList.update d x" "Q d x" by (meson list.set_intros(1))
    have mem: "v \<in> snd ` set (AList.update d x out) \<Longrightarrow> v = x \<or> v \<in> snd ` set out"
      using update_entries(1) [of d x out] by force
    have ih: "(ds \<noteq> [] \<or> AList.update d x out \<noteq> [] \<longrightarrow> fold add ds (AList.update d x out) \<noteq> [])
      \<and> (v \<in> snd ` set (fold add ds (AList.update d x out)) \<longrightarrow> v \<in> snd ` set (AList.update d x out) \<or> (\<exists>d \<in> set ds. Q d v))"
      by (rule Cons.IH, rule Cons.prems) simp
    have step: "fold add (d # ds) out = fold add ds (AList.update d x out)" by (simp add: x(1))
    have "v = x \<or> (\<exists>d \<in> set ds. Q d v) \<Longrightarrow> \<exists>d' \<in> set (d # ds). Q d' v" using x(2) by auto
    with ih mem update_entries(2) [of d x out] show ?case unfolding step by blast
  qed simp
  then show "ds \<noteq> [] \<or> out \<noteq> [] \<Longrightarrow> fold add ds out \<noteq> []"
    "v \<in> snd ` set (fold add ds out) \<Longrightarrow> v \<in> snd ` set out \<or> (\<exists>d \<in> set ds. Q d v)" by blast+
qed

lemma dependency_outputs_of:
  assumes run: "distinct_ids run" "t \<in> set (run_tasks run)"
    and deps: "\<forall>d \<in> set (t_dependsOn t). dep_succeeded (run_tasks run) d" "t_dependsOn t \<noteq> []"
  shows "dependencyOutputsFor run (t_id t) \<noteq> []"
    "\<forall>v \<in> snd ` set (dependencyOutputsFor run (t_id t)).
       \<exists>u \<in> set (run_tasks run). t_id u \<in> set (t_dependsOn t) \<and> rt_status u = TSucceeded \<and> v = rt_output u"
proof -
  let ?found = "\<lambda>d. find (\<lambda>u. t_id u = d) (run_tasks run)"
  let ?add = "\<lambda>d out. case ?found d of None \<Rightarrow> out | Some u \<Rightarrow> if rt_status u = TSucceeded then AList.update d (rt_output u) out else out"
  let ?Q = "\<lambda>d v. \<exists>u \<in> set (run_tasks run). t_id u = d \<and> rt_status u = TSucceeded \<and> v = rt_output u"
  have "\<exists>v. ?add d = AList.update d v \<and> ?Q d v" if dep: "d \<in> set (t_dependsOn t)" for d
  proof -
    have "dep_succeeded (run_tasks run) d" using deps(1) dep by blast
    then obtain u where u: "?found d = Some u" "rt_status u = TSucceeded" by (auto simp: dep_succeeded_def split: option.splits)
    then have "u \<in> set (run_tasks run)" "t_id u = d" by (auto simp: find_Some_iff)
    with u show ?thesis by (intro exI [of _ "rt_output u"]) auto
  qed
  note add = this
  have nonempty: "fold ?add (t_dependsOn t) [] \<noteq> []"
    using deps(2) by (intro fold_update_values(1) [where Q = ?Q] add) simp_all
  have vals_of: "\<exists>d \<in> set (t_dependsOn t). ?Q d v" if "v \<in> snd ` set (fold ?add (t_dependsOn t) [])" for v
    using fold_update_values(2) [where Q = ?Q, OF add that] by simp
  obtain u where "?found (t_id t) = Some u" using run(2) by (cases "?found (t_id t)") (auto simp: find_None_iff)
  moreover from this have "u \<in> set (run_tasks run)" "t_id u = t_id t" by (auto simp: find_Some_iff)
  then have "u = t" using same_id_same_task [OF run(1) _ run(2)] by blast
  ultimately have "dependencyOutputsFor run (t_id t) = fold ?add (t_dependsOn t) []" by (simp add: dependencyOutputsFor_def)
  with nonempty vals_of show "dependencyOutputsFor run (t_id t) \<noteq> []"
    "\<forall>v \<in> snd ` set (dependencyOutputsFor run (t_id t)).
       \<exists>u \<in> set (run_tasks run). t_id u \<in> set (t_dependsOn t) \<and> rt_status u = TSucceeded \<and> v = rt_output u"
    by metis+
qed

lemma set_object_values: "set (object_values ob) = snd ` set ob"
  by (auto simp: object_values_def)

text \<open>When every dependency output has a text in one field, the workers find it.\<close>

lemma collected:
  assumes "wi_dependencyOutputs input \<noteq> []" "\<forall>v \<in> snd ` set (wi_dependencyOutputs input). text_field k v"
  shows "collectAllDependencyOutputs input \<noteq> []"
    "\<forall>j \<in> set (collectAllDependencyOutputs input). \<exists>s. json_field j k = Some (JStr s) \<and> s \<noteq> []"
proof -
  let ?pick = "\<lambda>v. case v of Some j \<Rightarrow> if is_object_value j then Some j else None | None \<Rightarrow> None"
  have vals: "\<forall>v \<in> set (object_values (wi_dependencyOutputs input)). text_field k v" "object_values (wi_dependencyOutputs input) \<noteq> []"
    using assms set_object_values [of "wi_dependencyOutputs input"] by (simp, auto)
  have pick: "\<exists>j s. ?pick v = Some j \<and> json_field j k = Some (JStr s) \<and> s \<noteq> []" if "text_field k v" for v
    using that by (auto simp: text_field_def obj_get_def)
  obtain v vs where "object_values (wi_dependencyOutputs input) = v # vs" using vals(2) by (cases "object_values (wi_dependencyOutputs input)") auto
  then show "collectAllDependencyOutputs input \<noteq> []"
    using vals(1) pick [of v] by (auto simp: collectAllDependencyOutputs_def map_filter_simps)
  show "\<forall>j \<in> set (collectAllDependencyOutputs input). \<exists>s. json_field j k = Some (JStr s) \<and> s \<noteq> []"
    using vals(1) pick by (force simp: collectAllDependencyOutputs_def map_filter_def)
qed

lemma first_found:
  assumes "wi_dependencyOutputs input \<noteq> []" "\<forall>v \<in> snd ` set (wi_dependencyOutputs input). text_field k v"
  shows "\<exists>s. truthy_field (findFirstDependencyOutput input) k = Some (JStr s) \<and> s \<noteq> []"
  using collected [OF assms]
  by (cases "collectAllDependencyOutputs input") (auto simp: findFirstDependencyOutput_def truthy_field_def)

section \<open>The workers keep the runner's contract\<close>

text \<open>A model that always answers with some text, and writes that do not fail.\<close>

definition reliable_deps :: "worker_deps \<Rightarrow> bool" where
  "reliable_deps deps \<longleftrightarrow> (\<forall>n req. \<exists>c. wd_llm deps n req = Inr c \<and> ll_text c \<noteq> []) \<and> (\<forall>n p m. wd_writeFile deps n p m = None)"

definition research_env :: "runner_env \<Rightarrow> worker_deps \<Rightarrow> runner_env" where
  "research_env env deps = env\<lparr>re_workers := \<lambda>role. Some (createDailyResearchWorkers deps role)\<rparr>"

lemma withCost_fields [simp]: "wo_ok (withCost out usage) = wo_ok out" "wo_result (withCost out usage) = wo_result out"
  by (simp_all add: withCost_def Let_def)

text \<open>The four workers, on inputs of the shape of the plan.\<close>

lemma researcher_delivers:
  assumes "reliable_deps deps" "topic_given (t_input (wi_task input))"
  shows "\<exists>out. createResearcher (wd_llm deps) n input = WorkerReturned out \<and> wo_ok out \<and> text_field ''notes'' (wo_result out)"
proof -
  obtain s where s: "map_of (t_input (wi_task input)) ''topic'' = Some (JStr s)" "js_trim s \<noteq> []"
    using assms(2) by (auto simp: topic_given_def)
  obtain c where "wd_llm deps n (researcher_request (js_trim s)) = Inr c" "ll_text c \<noteq> []"
    using assms(1) unfolding reliable_deps_def by blast
  with s show ?thesis by (simp add: createResearcher_def with_text_def worker_result_def text_field_def)
qed

lemma writer_delivers:
  assumes "reliable_deps deps" "topic_given (t_input (wi_task input))"
    and "wi_dependencyOutputs input \<noteq> []" "\<forall>v \<in> snd ` set (wi_dependencyOutputs input). text_field ''notes'' v"
  shows "\<exists>out. createWriter (wd_llm deps) n input = WorkerReturned out \<and> wo_ok out \<and> text_field ''summary'' (wo_result out)"
proof -
  obtain s where s: "map_of (t_input (wi_task input)) ''topic'' = Some (JStr s)" "js_trim s \<noteq> []"
    using assms(2) by (auto simp: topic_given_def)
  obtain m where m: "truthy_field (findFirstDependencyOutput input) ''notes'' = Some (JStr m)"
    using first_found [OF assms(3,4)] by blast
  let ?target = "case map_of (t_input (wi_task input)) ''wordTarget'' of None \<Rightarrow> JNum 120 | Some v \<Rightarrow> if v = JNull then JNum 120 else v"
  obtain c where "wd_llm deps n (writer_request ?target (js_trim s) (JStr m)) = Inr c" "ll_text c \<noteq> []"
    using assms(1) unfolding reliable_deps_def by blast
  with s m show ?thesis by (simp add: createWriter_def with_text_def Let_def worker_result_def text_field_def)
qed

lemma editor_delivers:
  assumes "reliable_deps deps" "map_of (t_input (wi_task input)) ''title'' = Some (JStr title)"
    and "wi_dependencyOutputs input \<noteq> []" "\<forall>v \<in> snd ` set (wi_dependencyOutputs input). text_field ''summary'' v"
  shows "\<exists>out. createEditor (wd_llm deps) n input = WorkerReturned out \<and> wo_ok out \<and> text_field ''markdown'' (wo_result out)"
proof -
  note all = collected [OF assms(3,4)]
  then have "filter (\<lambda>item. truthy_field (Some item) ''summary'' \<noteq> None) (collectAllDependencyOutputs input) = collectAllDependencyOutputs input"
    by (force simp: truthy_field_def intro: filter_True)
  moreover obtain c where "wd_llm deps n (editor_request (js_trim title) (collectAllDependencyOutputs input)) = Inr c" "ll_text c \<noteq> []"
    using assms(1) unfolding reliable_deps_def by blast
  ultimately show ?thesis
    using assms(2) all(1) by (simp add: createEditor_def with_text_def Let_def worker_result_def text_field_def)
qed

lemma publisher_delivers:
  assumes "reliable_deps deps" "map_of (t_input (wi_task input)) ''outputPath'' = Some (JStr p)" "js_trim p \<noteq> []"
    and "wi_dependencyOutputs input \<noteq> []" "\<forall>v \<in> snd ` set (wi_dependencyOutputs input). text_field ''markdown'' v"
  shows "\<exists>out k. createPublisher (wd_writeFile deps) n input = WorkerReturned out \<and> wo_ok out
    \<and> wo_result out = Some (JObj [(''path'', JStr (js_trim p)), (''bytes'', JNum k)])"
proof -
  obtain markdown where "truthy_field (findFirstDependencyOutput input) ''markdown'' = Some (JStr markdown)"
    using first_found [OF assms(4,5)] by blast
  then show ?thesis using assms(1-3) by (simp add: createPublisher_def with_text_def worker_result_def reliable_deps_def)
qed

text \<open>What the next task is handed.\<close>

lemma next_outputs:
  assumes sound: "settled_well (research_output path) a" and nxt: "nextRunnableTask a = Some t"
    and after: "after_role role (t_dependsOn t) (plan_of (run_tasks a))"
  shows "dependencyOutputsFor (markTaskRunning a (t_id t) ts) (t_id t) \<noteq> []"
    "\<forall>v \<in> snd ` set (dependencyOutputsFor (markTaskRunning a (t_id t) ts) (t_id t)). research_output path role v"
proof -
  let ?a = "markTaskRunning a (t_id t) ts"
  have t: "t \<in> set (run_tasks a)" "rt_status t = TPending" "\<forall>d \<in> set (t_dependsOn t). dep_succeeded (run_tasks a) d"
    using nextRunnable_Some [OF nxt] by (auto simp: list_all_iff runnable_def)
  have ids: "distinct_ids a" using sound by (simp add: settled_well_def)
  have tasks: "run_tasks ?a = map (\<lambda>u. if t_id u = t_id t then u\<lparr>rt_status := TRunning, rt_startedAt := Some (nullish (rt_startedAt u) ts),
      rt_attempts := rt_attempts u + 1\<rparr> else u) (run_tasks a)"
    by (simp add: markTaskRunning_def run_tasks_updateTask)
  then have ids': "distinct_ids ?a" using ids by (simp add: distinct_ids_def comp_def if_distrib cong: if_cong)
  define t' where "t' = t\<lparr>rt_status := TRunning, rt_startedAt := Some (nullish (rt_startedAt t) ts), rt_attempts := rt_attempts t + 1\<rparr>"
  have t': "t' \<in> set (run_tasks ?a)" "t_id t' = t_id t" "t_dependsOn t' = t_dependsOn t"
    using t(1) unfolding tasks by (auto simp: t'_def intro!: image_eqI [of _ _ t])
  let ?mark = "\<lambda>u. if t_id u = t_id t then u\<lparr>rt_status := TRunning, rt_startedAt := Some (nullish (rt_startedAt u) ts),
      rt_attempts := rt_attempts u + 1\<rparr> else u"
  have same: "u \<in> set (run_tasks ?a) \<and> rt_status u = TSucceeded \<longleftrightarrow> u \<in> set (run_tasks a) \<and> rt_status u = TSucceeded" for u
  proof
    assume "u \<in> set (run_tasks ?a) \<and> rt_status u = TSucceeded"
    then show "u \<in> set (run_tasks a) \<and> rt_status u = TSucceeded" unfolding tasks by (auto split: if_splits)
  next
    assume u: "u \<in> set (run_tasks a) \<and> rt_status u = TSucceeded"
    then have "t_id u \<noteq> t_id t" using same_id_same_task [OF ids _ t(1)] t(2) by force
    then have "u \<in> ?mark ` set (run_tasks a)" using u by (intro image_eqI [of u ?mark u]) simp_all
    then show "u \<in> set (run_tasks ?a) \<and> rt_status u = TSucceeded" using u by (simp only: tasks set_map simp_thms)
  qed
  have deps: "\<forall>d \<in> set (t_dependsOn t'). dep_succeeded (run_tasks ?a) d"
    using t(3) same unfolding t'(3) dep_succeeded_iff [OF ids] dep_succeeded_iff [OF ids'] by blast
  have "t_dependsOn t' \<noteq> []" using after by (simp add: after_role_def t'(3))
  note outs = dependency_outputs_of [OF ids' t'(1) deps this, unfolded t'(2,3)]
  show "dependencyOutputsFor ?a (t_id t) \<noteq> []" by (rule outs(1))
  show "\<forall>v \<in> snd ` set (dependencyOutputsFor ?a (t_id t)). research_output path role v"
  proof
    fix v assume "v \<in> snd ` set (dependencyOutputsFor ?a (t_id t))"
    with outs(2) obtain u where u: "u \<in> set (run_tasks ?a)" "t_id u \<in> set (t_dependsOn t)" "rt_status u = TSucceeded" "v = rt_output u" by blast
    then have ua: "u \<in> set (run_tasks a)" using same by blast
    then have "(t_id u, t_role u, t_input u, t_dependsOn u) \<in> set (plan_of (run_tasks a))" by (auto simp: plan_of_def)
    then have "t_role u = role" using after u(2) unfolding after_role_def by (metis fst_conv snd_conv)
    then show "research_output path role v" using sound ua u(3,4) by (auto simp: settled_well_def)
  qed
qed

interpretation daily: sound_tasks "research_env env deps" "research_output path"
  "\<lambda>steps. reliable_deps deps \<and> research_shape path steps" for env deps path
proof
  fix a t ts n
  assume sound: "settled_well (research_output path) a" and nxt: "nextRunnableTask a = Some t"
    and shape: "reliable_deps deps \<and> research_shape path (plan_of (run_tasks a))"
  let ?input = "\<lparr>wi_task = t\<lparr>rt_status := TRunning, rt_attempts := rt_attempts t + 1\<rparr>,
     wi_dependencyOutputs = dependencyOutputsFor (markTaskRunning a (t_id t) ts) (t_id t), wi_runId = run_id (markTaskRunning a (t_id t) ts),
     wi_workflowId = run_workflowId (markTaskRunning a (t_id t) ts), wi_metadata = run_metadata (markTaskRunning a (t_id t) ts)\<rparr>"
  have "(t_id t, t_role t, t_input t, t_dependsOn t) \<in> set (plan_of (run_tasks a))"
    using nextRunnable_Some [OF nxt] by (auto simp: plan_of_def)
  then have entry: "case t_role t of Researcher \<Rightarrow> topic_given (t_input t)
     | Writer \<Rightarrow> topic_given (t_input t) \<and> after_role Researcher (t_dependsOn t) (plan_of (run_tasks a))
     | Editor \<Rightarrow> (\<exists>s. map_of (t_input t) ''title'' = Some (JStr s)) \<and> after_role Writer (t_dependsOn t) (plan_of (run_tasks a))
     | Publisher \<Rightarrow> (\<exists>s. map_of (t_input t) ''outputPath'' = Some (JStr s) \<and> js_trim s = path) \<and> path \<noteq> []
         \<and> after_role Editor (t_dependsOn t) (plan_of (run_tasks a))
     | _ \<Rightarrow> False"
    using shape by (auto simp: research_shape_def)
  note outs = next_outputs [OF sound nxt, where ts = ts, unfolded research_output_def]
  have "\<exists>out. createDailyResearchWorkers deps (t_role t) n ?input = WorkerReturned out \<and> wo_ok out \<and> research_output path (t_role t) (wo_result out)"
  proof (cases "t_role t")
    case Researcher
    with entry shape show ?thesis
      using researcher_delivers [of deps ?input n] by (auto simp: createDailyResearchWorkers_def research_output_def)
  next
    case Writer
    with entry shape outs [of Researcher] show ?thesis
      using writer_delivers [of deps ?input n] by (auto simp: createDailyResearchWorkers_def research_output_def)
  next
    case Editor
    with entry shape outs [of Writer] show ?thesis
      using editor_delivers [of deps ?input _ n] by (auto simp: createDailyResearchWorkers_def research_output_def)
  next
    case Publisher
    with entry obtain p where p: "map_of (t_input t) ''outputPath'' = Some (JStr p)" "js_trim p = path" "path \<noteq> []"
      and after: "after_role Editor (t_dependsOn t) (plan_of (run_tasks a))" by auto
    with Publisher shape outs [OF after] show ?thesis
      using publisher_delivers [of deps ?input p n] by (auto simp: createDailyResearchWorkers_def research_output_def)
  qed (use entry in simp_all)
  then obtain out where "createDailyResearchWorkers deps (t_role t) n ?input = WorkerReturned out" "wo_ok out"
    "research_output path (t_role t) (wo_result out)" by blast
  then show "\<exists>out. task_result (research_env env deps) (markTaskRunning a (t_id t) ts) t n = Inr out \<and> research_output path (t_role t) out"
    using task_result_worker [of "research_env env deps" t "createDailyResearchWorkers deps (t_role t)" "markTaskRunning a (t_id t) ts" n]
    by (simp add: research_env_def)
qed

section \<open>The newsletter end to end\<close>

definition plan_row :: "task_def \<Rightarrow> string \<times> worker_role \<times> json_object \<times> string list" where
  "plan_row t = (t_id t, t_role t, t_input t, t_dependsOn t)"

lemma plan_of_created: "plan_of (map taskRecordFromDefinition ts) = map plan_row ts"
  by (simp add: plan_of_def comp_def taskRecordFromDefinition_def plan_row_def)

text \<open>The tasks of the plan, one kind at a time.\<close>

lemma plan_tasks:
  assumes "planDailyResearchWorkflow config = Inr flow" "t \<in> set (wf_tasks flow)"
  obtains (research) tp i where "tp \<in> set (dc_topics config)" "t = research_task tp i"
  | (writing) tp i where "tp \<in> set (dc_topics config)" "t = write_task (dc_wordTarget config) tp i"
  | (edit) "t_id t = ''edit''" "t_role t = Editor" "\<exists>s. t_input t = [(''title'', JStr s)]"
      "t_dependsOn t = map write_id [0..<length (dc_topics config)]" "dc_topics config \<noteq> []"
  | (publish) "t_id t = ''publish''" "t_role t = Publisher" "t_input t = [(''outputPath'', JStr (dc_outputPath config))]"
      "t_dependsOn t = [''edit'']"
proof -
  let ?idx = "[0..<length (dc_topics config)]"
  have "t \<in> set (map2 research_task (dc_topics config) ?idx) \<or> t \<in> set (map2 (write_task (dc_wordTarget config)) (dc_topics config) ?idx)
      \<or> t = \<lparr>t_id = ''edit'', t_role = Editor, t_summary = ''Combine + polish all summaries'',
           t_input = [(''title'', JStr (nullish (dc_title config) ''Daily Brief''))], t_dependsOn = map write_id ?idx\<rparr>
      \<or> t = \<lparr>t_id = ''publish'', t_role = Publisher, t_summary = ''Write to '' @ dc_outputPath config,
           t_input = [(''outputPath'', JStr (dc_outputPath config))], t_dependsOn = [''edit'']\<rparr>" and topics: "dc_topics config \<noteq> []"
    using assms by (auto simp: planDailyResearchWorkflow_def Let_def split: if_splits)
  then consider (r) "t \<in> set (map2 research_task (dc_topics config) ?idx)"
    | (w) "t \<in> set (map2 (write_task (dc_wordTarget config)) (dc_topics config) ?idx)"
    | (e) "t = \<lparr>t_id = ''edit'', t_role = Editor, t_summary = ''Combine + polish all summaries'',
           t_input = [(''title'', JStr (nullish (dc_title config) ''Daily Brief''))], t_dependsOn = map write_id ?idx\<rparr>"
    | (p) "t = \<lparr>t_id = ''publish'', t_role = Publisher, t_summary = ''Write to '' @ dc_outputPath config,
           t_input = [(''outputPath'', JStr (dc_outputPath config))], t_dependsOn = [''edit'']\<rparr>" by blast
  then show ?thesis
  proof cases
    case r
    then show ?thesis using research by (auto dest: set_zip_leftD)
  next
    case w
    then show ?thesis using writing by (auto dest: set_zip_leftD)
  next
    case e
    then show ?thesis using edit topics by simp
  next
    case p
    then show ?thesis using publish by simp
  qed
qed

lemma plan_has_shape:
  assumes plan: "planDailyResearchWorkflow config = Inr flow"
    and topics: "\<forall>tp \<in> set (dc_topics config). js_trim tp \<noteq> []" and out: "js_trim (dc_outputPath config) \<noteq> []"
  shows "research_shape (js_trim (dc_outputPath config)) (map plan_row (wf_tasks flow))"
proof -
  let ?rows = "map plan_row (wf_tasks flow)"
  have research: "fst (snd e) = Researcher" if "e \<in> set ?rows" "fst e = research_id i" for e i
  proof -
    from that obtain t where t: "t \<in> set (wf_tasks flow)" "e = plan_row t" by auto
    from plan t(1) show ?thesis by (cases rule: plan_tasks) (use that(2) t(2) in \<open>auto simp: plan_row_def plan_ids_differ [symmetric]\<close>)
  qed
  have writer: "fst (snd e) = Writer" if "e \<in> set ?rows" "fst e = write_id i" for e i
  proof -
    from that obtain t where t: "t \<in> set (wf_tasks flow)" "e = plan_row t" by auto
    from plan t(1) show ?thesis by (cases rule: plan_tasks) (use that(2) t(2) in \<open>auto simp: plan_row_def plan_ids_differ [symmetric]\<close>)
  qed
  have editor: "fst (snd e) = Editor" if "e \<in> set ?rows" "fst e = ''edit''" for e
  proof -
    from that obtain t where t: "t \<in> set (wf_tasks flow)" "e = plan_row t" by auto
    from plan t(1) show ?thesis by (cases rule: plan_tasks) (use that(2) t(2) in \<open>auto simp: plan_row_def plan_ids_differ [symmetric]\<close>)
  qed
  show ?thesis unfolding research_shape_def
  proof
    fix e assume "e \<in> set ?rows"
    then obtain t where t: "t \<in> set (wf_tasks flow)" "e = plan_row t" by auto
    from plan t(1) show "case e of (i, role, inp, deps) \<Rightarrow> (case role of
       Researcher \<Rightarrow> topic_given inp
     | Writer \<Rightarrow> topic_given inp \<and> after_role Researcher deps ?rows
     | Editor \<Rightarrow> (\<exists>s. map_of inp ''title'' = Some (JStr s)) \<and> after_role Writer deps ?rows
     | Publisher \<Rightarrow> (\<exists>s. map_of inp ''outputPath'' = Some (JStr s) \<and> js_trim s = js_trim (dc_outputPath config))
         \<and> js_trim (dc_outputPath config) \<noteq> [] \<and> after_role Editor deps ?rows
     | _ \<Rightarrow> False)"
    proof (cases rule: plan_tasks)
      case (research tp i)
      then show ?thesis using topics t(2) by (simp add: plan_row_def research_task_def topic_given_def)
    next
      case (writing tp i)
      have "after_role Researcher [research_id i] ?rows" using research by (simp only: after_role_def) simp
      then show ?thesis using writing topics t(2) by (simp add: plan_row_def write_task_def topic_given_def)
    next
      case edit
      have "after_role Writer (t_dependsOn t) ?rows" unfolding after_role_def
      proof (intro conjI ballI impI)
        show "t_dependsOn t \<noteq> []" using edit(4,5) by simp
        fix d e assume e: "d \<in> set (t_dependsOn t)" "e \<in> set ?rows" "fst e = d"
        then obtain i where "fst e = write_id i" using edit(4) by auto
        with e(2) show "fst (snd e) = Writer" by (rule writer)
      qed
      then show ?thesis using edit t(2) by (auto simp: plan_row_def)
    next
      case publish
      have "after_role Editor [''edit''] ?rows" using editor by (simp only: after_role_def) simp
      then show ?thesis using publish out t(2) by (simp add: plan_row_def)
    qed
  qed
qed

text \<open>The newsletter workflow end to end, with the repository's own plan, runner and workers. Given
  topics and an output path that are not blank, a model that answers every request with some text and
  writes that succeed, a run that is not aborted ends succeeded and stored: each of the \<open>2n + 2\<close> tasks is
  attempted exactly once and succeeds, every researcher, writer and editor hands on text, and the
  publisher reports the output path.\<close>

lemma daily_research_publishes:
  assumes plan: "planDailyResearchWorkflow config = Inr flow"
    and topics: "\<forall>tp \<in> set (dc_topics config). js_trim tp \<noteq> []" and out: "js_trim (dc_outputPath config) \<noteq> []"
    and deps: "reliable_deps deps" and safe: "safe_id runId" and quiet: "\<forall>p. \<not> re_aborted env p"
  shows "\<exists>final w'.
     runOrchestratorRun (research_env env deps) (createRunFromWorkflow runId flow now) w =
       (Inr (final, 2 * length (dc_topics config) + 2), w')
     \<and> run_status final = RunSucceeded
     \<and> (\<forall>t \<in> set (run_tasks final). rt_status t = TSucceeded \<and> research_output (js_trim (dc_outputPath config)) (t_role t) (rt_output t))
     \<and> length (run_tasks final) = 2 * length (dc_topics config) + 2
     \<and> stored_run (re_dir env) (rw_fs w') runId = Some final"
proof -
  let ?run = "createRunFromWorkflow runId flow now" and ?n = "length (dc_topics config)"
  have id: "run_id ?run = runId" and tasks: "run_tasks ?run = map taskRecordFromDefinition (wf_tasks flow)"
    by (simp_all add: createRunFromWorkflow_def)
  have edges: "edges (run_tasks ?run) = plan_edges ?n"
    using plan_shape(1) [OF plan] by (simp add: edges_def tasks comp_def)
  have "distinct (map fst (edges (run_tasks ?run)))" unfolding edges by (rule plan_edges_distinct)
  then have sound: "settled_well (research_output (js_trim (dc_outputPath config))) ?run"
    by (auto simp: settled_well_def distinct_ids_def edges_def tasks comp_def)
  have shape: "reliable_deps deps \<and> research_shape (js_trim (dc_outputPath config)) (plan_of (run_tasks ?run))"
    using deps plan_has_shape [OF plan topics out] by (simp add: tasks plan_of_created)
  have count: "pending_count ?run = 2 * ?n + 2"
    using plan_shape(3) [OF plan] by (simp add: pending_count_def tasks filter_map comp_def)
  have count2: "length ts = 2 * ?n + 2" if "plan_of ts = plan_of (run_tasks ?run)" for ts
    using arg_cong [OF that, of length] plan_shape(3) [OF plan] by (simp add: plan_of_def tasks)
  have topo: "topo_from [] (edges (run_tasks ?run))" by (simp add: edges plan_edges_topo)
  have calm: "\<forall>p. \<not> re_aborted (research_env env deps) p" "re_dir (research_env env deps) = re_dir env"
    using quiet by (simp_all add: research_env_def)
  have "safe_id (run_id ?run)" using safe id by simp
  from daily.topo_run_succeeds [OF this sound shape topo calm(1), of w] show ?thesis
    unfolding count id calm(2) using count2 by blast
qed

end
