(* ===== verification/Gateway_Http.thy ===== *)
theory Gateway_Http
  imports File_System Goal_Evaluator
begin

text \<open>
  The gateway's helpers for JSON endpoints: replies (\<^verbatim>\<open>src/gateway/http-common.ts\<close>) and the
  handshake every POST endpoint goes through (\<^verbatim>\<open>src/gateway/http-endpoint-helpers.ts\<close>). A request
  carries what the layers below found: the outcome of the gateway's authorisation, the operator scope
  the caller lacks for the method an endpoint requires, and the outcome of reading the body. Also here:
  \<open>decodeURIComponent\<close>, with which endpoints read the parts of a path.
\<close>

section \<open>Requests and replies\<close>

datatype gateway_auth = AuthPassed | AuthFailed | AuthRateLimited "nat option"

record gateway_request =
  gq_method :: string
  gq_pathname :: string
  gq_auth :: gateway_auth
  gq_missingScope :: "string option"
  gq_body :: "string + json"

datatype reply_body = JsonBody json | TextBody string | NoBody

record gateway_reply =
  gr_status :: nat
  gr_headers :: "(string \<times> string) list"
  gr_body :: reply_body

text \<open>What a handler leaves behind: it did not take the request, it took it and sent nothing, or its reply.\<close>

datatype gateway_outcome = NotHandled | NothingSent | Sent gateway_reply

definition sendJson :: "nat \<Rightarrow> json_object \<Rightarrow> gateway_reply" where
  "sendJson status body = \<lparr>gr_status = status, gr_headers = [(''Content-Type'', ''application/json; charset=utf-8'')], gr_body = JsonBody (JObj body)\<rparr>"

definition sendText :: "nat \<Rightarrow> (string \<times> string) list \<Rightarrow> string \<Rightarrow> gateway_reply" where
  "sendText status headers body = \<lparr>gr_status = status, gr_headers = headers @ [(''Content-Type'', ''text/plain; charset=utf-8'')], gr_body = TextBody body\<rparr>"

definition sendMethodNotAllowed :: "string \<Rightarrow> gateway_reply" where
  "sendMethodNotAllowed allow = sendText 405 [(''Allow'', allow)] ''Method Not Allowed''"

definition error_object :: "string \<Rightarrow> string \<Rightarrow> json_object" where
  "error_object message type = [(''error'', JObj [(''message'', JStr message), (''type'', JStr type)])]"

definition sendUnauthorized :: gateway_reply where
  "sendUnauthorized = sendJson 401 (error_object ''Unauthorized'' ''unauthorized'')"

definition sendRateLimited :: "nat option \<Rightarrow> gateway_reply" where
  "sendRateLimited retryAfterMs =
     (let r = sendJson 429 (error_object ''Too many failed authentication attempts. Please try again later.'' ''rate_limited'')
      in r\<lparr>gr_headers :=
         (case retryAfterMs of
            Some ms \<Rightarrow> if ms > 0 then [(''Retry-After'', show_nat ((ms + 999) div 1000))] else []
          | None \<Rightarrow> []) @ gr_headers r\<rparr>)"

definition sendGatewayAuthFailure :: "gateway_auth \<Rightarrow> gateway_reply option" where
  "sendGatewayAuthFailure authResult =
     (case authResult of AuthPassed \<Rightarrow> None | AuthRateLimited ms \<Rightarrow> Some (sendRateLimited ms) | AuthFailed \<Rightarrow> Some sendUnauthorized)"

definition sendInvalidRequest :: "string \<Rightarrow> gateway_reply" where
  "sendInvalidRequest message = sendJson 400 (error_object message ''invalid_request_error'')"

definition readJsonBodyOrError :: "string + json \<Rightarrow> gateway_reply + json" where
  "readJsonBodyOrError body =
     (case body of
        Inl e \<Rightarrow>
          Inl (if e = ''payload too large'' then sendJson 413 (error_object ''Payload too large'' ''invalid_request_error'')
               else if e = ''request body timeout'' then sendJson 408 (error_object ''Request body timeout'' ''invalid_request_error'')
               else sendInvalidRequest e)
      | Inr v \<Rightarrow> Inr v)"

section \<open>The handshake of a POST endpoint\<close>

datatype handshake = OtherPath | AlreadyReplied gateway_reply | Accepted json

definition missing_scope :: "string \<Rightarrow> gateway_reply" where
  "missing_scope scope = sendJson 403 [(''ok'', JBool False),
     (''error'', JObj [(''type'', JStr ''forbidden''), (''message'', JStr (''missing scope: '' @ scope))])]"

definition handleGatewayPostJsonEndpoint :: "gateway_request \<Rightarrow> string \<Rightarrow> bool \<Rightarrow> handshake" where
  "handleGatewayPostJsonEndpoint req pathname requiresOperatorMethod =
     (if gq_pathname req \<noteq> pathname then OtherPath
      else if gq_method req \<noteq> ''POST'' then AlreadyReplied (sendMethodNotAllowed ''POST'')
      else case sendGatewayAuthFailure (gq_auth req) of
          Some failure \<Rightarrow> AlreadyReplied failure
        | None \<Rightarrow>
            (case (if requiresOperatorMethod then gq_missingScope req else None) of
               Some scope \<Rightarrow> AlreadyReplied (missing_scope scope)
             | None \<Rightarrow>
                 (case readJsonBodyOrError (gq_body req) of
                    Inl failure \<Rightarrow> AlreadyReplied failure
                  | Inr body \<Rightarrow> Accepted body)))"

text \<open>Only an authorised POST with a readable body gets past the handshake.\<close>

lemma handshake_accepted:
  "handleGatewayPostJsonEndpoint req pathname needed = Accepted body \<Longrightarrow>
     gq_pathname req = pathname \<and> gq_method req = ''POST'' \<and> gq_auth req = AuthPassed \<and> gq_body req = Inr body
     \<and> (needed \<longrightarrow> gq_missingScope req = None)"
  by (auto simp: handleGatewayPostJsonEndpoint_def sendGatewayAuthFailure_def readJsonBodyOrError_def
      split: if_splits gateway_auth.splits option.splits sum.splits)

section \<open>Percent-encoding\<close>

text \<open>The bytes \<open>%XX\<close> at the front of a text, at most \<open>n\<close> of them, and what follows.\<close>

fun percent_bytes :: "nat \<Rightarrow> string \<Rightarrow> nat list \<times> string" where
  "percent_bytes (Suc n) (p # a # b # s) =
     (case (hex_value a, hex_value b) of
        (Some h, Some l) \<Rightarrow>
          if p = CHR ''%'' then let rest = percent_bytes n s in ((16 * h + l) # fst rest, snd rest) else ([], p # a # b # s)
      | _ \<Rightarrow> ([], p # a # b # s))"
| "percent_bytes _ s = ([], s)"

definition continuation :: "nat \<Rightarrow> bool" where
  "continuation b \<longleftrightarrow> 128 \<le> b \<and> b < 192"

text \<open>How many bytes a lead byte announces.\<close>

definition utf8_length :: "nat \<Rightarrow> nat option" where
  "utf8_length b = (if b < 128 then Some 1 else if 194 \<le> b \<and> b < 224 then Some 2 else if 224 \<le> b \<and> b < 240 then Some 3
     else if 240 \<le> b \<and> b < 245 then Some 4 else None)"

text \<open>The code point of a well-formed sequence: no overlong form, no surrogate, nothing above the last plane.\<close>

fun utf8_code :: "nat list \<Rightarrow> nat option" where
  "utf8_code [a] = (if a < 128 then Some a else None)"
| "utf8_code [a, b] = (if continuation b then Some ((a - 192) * 64 + (b - 128)) else None)"
| "utf8_code [a, b, c] =
     (if continuation b \<and> continuation c \<and> (a = 224 \<longrightarrow> 160 \<le> b) \<and> (a = 237 \<longrightarrow> b < 160)
      then Some ((a - 224) * 4096 + (b - 128) * 64 + (c - 128)) else None)"
| "utf8_code [a, b, c, d] =
     (if continuation b \<and> continuation c \<and> continuation d \<and> (a = 240 \<longrightarrow> 144 \<le> b) \<and> (a = 244 \<longrightarrow> b < 144)
      then Some ((a - 240) * 262144 + (b - 128) * 4096 + (c - 128) * 64 + (d - 128)) else None)"
| "utf8_code _ = None"

text \<open>A code point above 255 is outside the texts of this development; each of its code units is
  represented by the unit \<open>0x1A\<close>.\<close>

definition code_units :: "nat \<Rightarrow> string" where
  "code_units n = (if n < 256 then [char_of n] else if n < 65536 then [CHR 0x1A] else [CHR 0x1A, CHR 0x1A])"

lemma percent_bytes_shorter: "length (snd (percent_bytes n s)) + 3 * length (fst (percent_bytes n s)) = length s"
  by (induction n s rule: percent_bytes.induct) (simp_all add: Let_def split: option.split)

text \<open>\<open>decodeURIComponent\<close>: \<open>Inl\<close> is the \<open>URIError\<close> of a malformed sequence.\<close>

function decodeURIComponent :: "string \<Rightarrow> string + string" where
  "decodeURIComponent [] = Inr []"
| "decodeURIComponent (c # s) =
     (if c \<noteq> CHR ''%'' then (case decodeURIComponent s of Inl e \<Rightarrow> Inl e | Inr t \<Rightarrow> Inr (c # t))
      else case fst (percent_bytes 1 (c # s)) of
          [] \<Rightarrow> Inl ''URI malformed''
        | byte # _ \<Rightarrow>
            (case utf8_length byte of
               None \<Rightarrow> Inl ''URI malformed''
             | Some k \<Rightarrow>
                 let seq = percent_bytes k (c # s)
                 in if length (fst seq) \<noteq> k \<or> k = 0 then Inl ''URI malformed''
                    else case utf8_code (fst seq) of
                        None \<Rightarrow> Inl ''URI malformed''
                      | Some n \<Rightarrow> (case decodeURIComponent (snd seq) of Inl e \<Rightarrow> Inl e | Inr t \<Rightarrow> Inr (code_units n @ t))))"
  by pat_completeness auto
termination
proof (relation "measure length")
  fix c s and bs :: "nat list" and k seq n
  assume "seq = percent_bytes k (c # s)" "\<not> (length (fst seq) \<noteq> k \<or> k = 0)"
  then show "(snd seq, c # s) \<in> measure length"
    using percent_bytes_shorter [of k "c # s"] by simp
qed simp_all

lemma decode_plain: "CHR ''%'' \<notin> set s \<Longrightarrow> decodeURIComponent s = Inr s"
  by (induction s) auto

end
