(* ===== verification/Orchestrator_Http.thy ===== *)
theory Orchestrator_Http
  imports Research_Workers Gateway_Http
begin

text \<open>
  The HTTP API of the orchestrator, \<^verbatim>\<open>src/gateway/orchestrator-http.ts\<close>: listing runs, reading
  one, and starting a daily-research run. Starting returns at once and leaves the run to itself; here
  the run is carried through before the reply, so the world a start leaves is the one the polling reads
  will find. The client of the language model is built at each start and may be refused. A reply that
  carries runs holds the records that are serialised.
\<close>

section \<open>Options, outcomes, routes\<close>

text \<open>\<open>ox_env\<close> gives the runner's clock, hash and log behaviour; the directories and the origin of a run
  are set by the handler.\<close>

record orch_opts =
  ox_stateDir :: path
  ox_env :: runner_env
  ox_llm :: "string + llm_client"
  ox_writeFile :: "nat \<Rightarrow> string \<Rightarrow> json \<Rightarrow> string option"
  ox_dateNow :: "nat \<Rightarrow> nat"
  ox_uuid :: "nat \<Rightarrow> string"
  ox_auditDisabled :: bool

datatype orch_outcome =
    OrchNotHandled
  | OrchNothingSent
  | OrchReply gateway_reply
  | RunsReply "run list"
  | RunReply run

definition RUNS_PATH :: string where
  "RUNS_PATH = ''/v1/orchestrator/runs''"

definition isOrchestratorRunsPath :: "string \<Rightarrow> bool" where
  "isOrchestratorRunsPath pathname \<longleftrightarrow> pathname = RUNS_PATH \<or> starts_with (RUNS_PATH @ ''/'') pathname"

definition resolveOrchestratorDir :: "orch_opts \<Rightarrow> path" where
  "resolveOrchestratorDir opts = ox_stateDir opts @ [''orchestrator'']"

definition isSafeRunId :: "string \<Rightarrow> bool" where
  "isSafeRunId runId \<longleftrightarrow> runId \<noteq> [] \<and> list_all id_char runId"

definition on_runs :: "(run_file fs, 'a) prog \<Rightarrow> (runner_world, 'a) prog" where
  "on_runs m = (\<lambda>w. case m (rw_fs w) of (r, fs) \<Rightarrow> (r, w\<lparr>rw_fs := fs\<rparr>))"

section \<open>Reading\<close>

definition authorizeGetForOrchestrator :: "gateway_request \<Rightarrow> (runner_world, orch_outcome) prog \<Rightarrow> (runner_world, orch_outcome) prog" where
  "authorizeGetForOrchestrator req handler =
     (case sendGatewayAuthFailure (gq_auth req) of
        Some failure \<Rightarrow> return_m (OrchReply failure)
      | None \<Rightarrow>
          (case gq_missingScope req of
             Some scope \<Rightarrow> return_m (OrchReply (missing_scope scope))
           | None \<Rightarrow> handler))"

text \<open>The comparator answers \<open>1\<close> when the first run is older and \<open>-1\<close> otherwise.\<close>

definition newer_run_first :: "run \<Rightarrow> run \<Rightarrow> bool" where
  "newer_run_first a b \<longleftrightarrow> \<not> run_createdAt a < run_createdAt b"

definition handleListRuns :: "orch_opts \<Rightarrow> gateway_request \<Rightarrow> (runner_world, orch_outcome) prog" where
  "handleListRuns opts req =
     authorizeGetForOrchestrator req
      (bind_m (get_m (\<lambda>w. listRunIds (resolveOrchestratorDir opts) (rw_fs w))) (\<lambda>ids.
       bind_m (map_m (\<lambda>i. on_runs (loadRun (resolveOrchestratorDir opts) i)) ids) (\<lambda>loaded.
       return_m (RunsReply (to_sorted newer_run_first (List.map_filter id loaded))))))"

definition handleGetRun :: "orch_opts \<Rightarrow> gateway_request \<Rightarrow> string \<Rightarrow> (runner_world, orch_outcome) prog" where
  "handleGetRun opts req runId =
     authorizeGetForOrchestrator req
      (if \<not> isSafeRunId runId then return_m (OrchReply (sendInvalidRequest ''invalid run id''))
       else bind_m (on_runs (loadRun (resolveOrchestratorDir opts) runId)) (\<lambda>run.
         case run of
           None \<Rightarrow> return_m (OrchReply (sendJson 404 (error_object (''run not found: '' @ runId) ''invalid_request_error'')))
         | Some r \<Rightarrow> return_m (RunReply r)))"

section \<open>Starting a run\<close>

definition topics_of :: "json \<Rightarrow> string list" where
  "topics_of body =
     filter (\<lambda>t. t \<noteq> [])
       (case json_field body ''topics'' of
          Some (JArr ts) \<Rightarrow> map (\<lambda>t. js_trim (js_String t)) ts
        | Some (JStr s) \<Rightarrow> map js_trim (split_comma [] s)
        | _ \<Rightarrow> [])"

definition text_or :: "json \<Rightarrow> string \<Rightarrow> string \<Rightarrow> string" where
  "text_or body key d = (case json_field body key of Some (JStr s) \<Rightarrow> if js_trim s \<noteq> [] then s else d | _ \<Rightarrow> d)"

definition word_target_of :: "json \<Rightarrow> nat" where
  "word_target_of body =
     (case json_field body ''wordTarget'' of
        Some v \<Rightarrow>
          (case json_number v of
             Some q \<Rightarrow> if js_finite q then nat (max 40 (min 600 \<lfloor>q + 1 / 2\<rfloor>)) else 120
           | None \<Rightarrow> 120)
      | None \<Rightarrow> 120)"

definition run_id_of :: "orch_opts \<Rightarrow> nat \<Rightarrow> json \<Rightarrow> string" where
  "run_id_of opts n body =
     (case json_field body ''runId'' of
        Some (JStr s) \<Rightarrow> if isSafeRunId s then s else ''run-'' @ show_nat (ox_dateNow opts n) @ ''-'' @ take 6 (ox_uuid opts n)
      | _ \<Rightarrow> ''run-'' @ show_nat (ox_dateNow opts n) @ ''-'' @ take 6 (ox_uuid opts n))"

definition config_of :: "orch_opts \<Rightarrow> nat \<Rightarrow> json \<Rightarrow> daily_config" where
  "config_of opts n body =
     (let runId = run_id_of opts n body
      in \<lparr>dc_runId = runId, dc_topics = topics_of body,
          dc_outputPath = text_or body ''outputPath'' (path_text (resolveOrchestratorDir opts @ [''runs'', runId @ ''.md''])),
          dc_title = Some (text_or body ''title'' ''Daily Brief''), dc_wordTarget = Some (word_target_of body)\<rparr>)"

text \<open>What \<open>runAsHttp\<close> and the options of \<open>runOrchestratorRun\<close> make of the runner's environment.\<close>

definition run_env :: "orch_opts \<Rightarrow> origin_context option \<Rightarrow> runner_env" where
  "run_env opts origin = (ox_env opts)
     \<lparr>re_dir := resolveOrchestratorDir opts,
      re_auditLogPath := (if ox_auditDisabled opts then None else Some (path_text (ox_stateDir opts @ [''audit.log'']))),
      re_aborted := (\<lambda>_. False), re_origin := origin\<rparr>"

definition handleStartRun :: "orch_opts \<Rightarrow> gateway_request \<Rightarrow> (runner_world, orch_outcome) prog" where
  "handleStartRun opts req =
     (case handleGatewayPostJsonEndpoint req RUNS_PATH True of
        OtherPath \<Rightarrow> return_m OrchNotHandled
      | AlreadyReplied r \<Rightarrow> return_m (OrchReply r)
      | Accepted body \<Rightarrow>
          if topics_of body = [] then return_m (OrchReply (sendInvalidRequest ''topics is required (string or string[])''))
          else bind_m (get_m rw_clock) (\<lambda>n.
            let config = config_of opts n body; runId = dc_runId config
            in case ox_llm opts of
                 Inl err \<Rightarrow> return_m (OrchReply (sendInvalidRequest err))
               | Inr llm \<Rightarrow>
                   bind_m (lift_m (planDailyResearchWorkflow config)) (\<lambda>flow.
                   bind_m (read_now (ox_env opts)) (\<lambda>ts.
                   seq_m (runAsHttp ''orchestrator-run'' [(''runId'', runId)]
                       (\<lambda>origin. catch_m
                         (seq_m (runOrchestratorRun (research_env (run_env opts origin) \<lparr>wd_llm = llm, wd_writeFile = ox_writeFile opts\<rparr>)
                             (createRunFromWorkflow runId flow ts)) (return_m ()))
                         (\<lambda>err. return_m ())) None)
                    (bind_m (lift_m (resolveRunPath (resolveOrchestratorDir opts) runId)) (\<lambda>runPath.
                     return_m (OrchReply (sendJson 202
                       [(''runId'', JStr runId), (''workflowId'', JStr (wf_id flow)), (''runPath'', JStr (path_text runPath)),
                        (''outputPath'', JStr (dc_outputPath config))]))))))))"

definition ascii_upper :: "char \<Rightarrow> char" where
  "ascii_upper c = (let n = of_char c :: nat in if 97 \<le> n \<and> n \<le> 122 then char_of (n - 32) else c)"

definition handleOrchestratorRequest :: "orch_opts \<Rightarrow> gateway_request \<Rightarrow> (runner_world, orch_outcome) prog" where
  "handleOrchestratorRequest opts req =
     (let verb = map ascii_upper (gq_method req); pathname = gq_pathname req
      in if verb = ''GET'' \<and> pathname = RUNS_PATH then handleListRuns opts req
         else if verb = ''GET'' \<and> starts_with (RUNS_PATH @ ''/'') pathname
           then handleGetRun opts req (drop (length (RUNS_PATH @ ''/'')) pathname)
         else if verb = ''POST'' \<and> pathname = RUNS_PATH then handleStartRun opts req
         else return_m OrchNotHandled)"

section \<open>Facts\<close>

lemma trim_nonempty: "c \<in> set s \<Longrightarrow> \<not> js_whitespace c \<Longrightarrow> js_trim s \<noteq> []"
  by (auto simp: js_trim_def dropWhile_eq_Nil_conv dest: set_dropWhileD)
    (metis (no_types, lifting) Un_iff set_append set_rev set_takeWhileD takeWhile_dropWhile_id)

lemma trimmed_head:
  assumes "js_trim s \<noteq> []"
  shows "\<exists>c \<in> set (js_trim s). \<not> js_whitespace c"
proof -
  let ?xs = "dropWhile js_whitespace (rev (dropWhile js_whitespace s))"
  have "?xs \<noteq> []" using assms by (simp add: js_trim_def)
  then have "\<not> js_whitespace (hd ?xs)" "hd ?xs \<in> set ?xs" by (rule hd_dropWhile, rule hd_in_set)
  then show ?thesis unfolding js_trim_def set_rev by blast
qed

lemma topics_not_blank:
  assumes "tp \<in> set (topics_of body)"
  shows "js_trim tp \<noteq> []"
proof -
  have "\<exists>u. tp = js_trim u \<and> tp \<noteq> []"
  proof (cases "json_field body ''topics''")
    case (Some v)
    with assms show ?thesis by (cases v) (auto simp: topics_of_def)
  qed (use assms in \<open>simp add: topics_of_def\<close>)
  then show ?thesis using trimmed_head trim_nonempty by metis
qed

lemma output_not_blank: "js_trim (dc_outputPath (config_of opts n body)) \<noteq> []"
proof -
  have "CHR ''/'' \<in> set (path_text (p @ [x, y]))" for p x y by (simp add: path_text_def)
  moreover have "\<not> js_whitespace (CHR ''/'')" by code_simp
  ultimately have "js_trim (path_text (p @ [x, y])) \<noteq> []" for p x y by (rule trim_nonempty)
  then show ?thesis by (simp add: config_of_def Let_def text_or_def split: option.split json.split)
qed

text \<open>A request past the handshake and the scope check.\<close>

definition cleared :: "gateway_request \<Rightarrow> bool" where
  "cleared req \<longleftrightarrow> gq_auth req = AuthPassed \<and> gq_missingScope req = None"

lemma authorize_cleared: "cleared req \<Longrightarrow> authorizeGetForOrchestrator req handler = handler"
  by (simp add: authorizeGetForOrchestrator_def cleared_def sendGatewayAuthFailure_def)

lemma get_run_route:
  assumes "cleared req" "gq_method req = ''GET''" "gq_pathname req = RUNS_PATH @ ''/'' @ i" "safe_id i"
    and "stored_run (resolveOrchestratorDir opts) (rw_fs w) i = Some r"
  shows "handleOrchestratorRequest opts req w = (Inr (RunReply r), w)"
proof -
  have "map ascii_upper ''GET'' = ''GET''" by code_simp
  then have verb: "map ascii_upper (gq_method req) = ''GET''" by (simp only: assms(2))
  have "isSafeRunId i" using assms(4) by (simp add: safe_id_def isSafeRunId_def)
  moreover have "loadRun (resolveOrchestratorDir opts) i (rw_fs w) = (Inr (Some r), rw_fs w)"
    using assms(4,5) read_file_exists
    by (auto simp: stored_run_safe loadRun_def resolveRunPath_safe split: option.splits run_file.splits)
  ultimately have "handleGetRun opts req i w = (Inr (RunReply r), w)"
    by (simp add: handleGetRun_def authorize_cleared [OF assms(1)] bind_m_apply on_runs_def)
  moreover have "starts_with (RUNS_PATH @ ''/'') (gq_pathname req)" "drop (length (RUNS_PATH @ ''/'')) (gq_pathname req) = i"
    "gq_pathname req \<noteq> RUNS_PATH"
    by (simp_all add: assms(3) starts_with_def)
  ultimately show ?thesis using verb unfolding handleOrchestratorRequest_def Let_def by simp
qed

text \<open>The handler's own check lets a leading dot through, which the store refuses by throwing.\<close>

lemma dotted_run_id_throws:
  assumes "cleared req" "isSafeRunId i" "hd i = CHR ''.''"
  shows "\<exists>e. handleGetRun opts req i w = (Inl e, w)"
proof -
  have "\<not> safe_id i" using assms(3) by (simp add: safe_id_def)
  then obtain e where "resolveRunPath (resolveOrchestratorDir opts) i = Inl e"
    by (cases "resolveRunPath (resolveOrchestratorDir opts) i") (auto simp: resolveRunPath_iff)
  then show ?thesis using assms(2) by (simp add: handleGetRun_def authorize_cleared [OF assms(1)] bind_m_apply on_runs_def loadRun_def)
qed

section \<open>A started run can be read back, finished\<close>

lemma start_run_accepted:
  assumes "cleared req" "gq_method req = ''POST''" "gq_pathname req = RUNS_PATH" "gq_body req = Inr body"
  shows "handleGatewayPostJsonEndpoint req RUNS_PATH True = Accepted body"
  using assms by (simp add: cleared_def handleGatewayPostJsonEndpoint_def sendGatewayAuthFailure_def readJsonBodyOrError_def)

lemma post_route:
  assumes "gq_method req = ''POST''" "gq_pathname req = RUNS_PATH"
  shows "handleOrchestratorRequest opts req = handleStartRun opts req"
proof -
  have "map ascii_upper ''POST'' = ''POST''" by code_simp
  then have "map ascii_upper (gq_method req) = ''POST''" by (simp only: assms(1))
  then show ?thesis using assms(2) unfolding handleOrchestratorRequest_def Let_def by simp
qed


definition sample_orch :: orch_opts where
  "sample_orch = \<lparr>ox_stateDir = [''state''], ox_env = sample_env, ox_llm = Inr (\<lambda>n req. Inr \<lparr>ll_text = ''text'', ll_usage = None\<rparr>),
     ox_writeFile = (\<lambda>n p m. None), ox_dateNow = (\<lambda>_. 7), ox_uuid = (\<lambda>_. ''abcdef01''), ox_auditDisabled = False\<rparr>"

definition sample_start :: "gateway_request" where
  "sample_start = \<lparr>gq_method = ''POST'', gq_pathname = RUNS_PATH, gq_auth = AuthPassed, gq_missingScope = None,
     gq_body = Inr (JObj [(''topics'', JStr ''Bun, Rust''), (''wordTarget'', JNum 9)])\<rparr>"

definition sample_poll :: "string \<Rightarrow> gateway_request" where
  "sample_poll i = \<lparr>gq_method = ''GET'', gq_pathname = RUNS_PATH @ ''/'' @ i, gq_auth = AuthPassed, gq_missingScope = None, gq_body = Inr JNull\<rparr>"


end
