(* ===== verification/Goal_Loop.thy ===== *)
theory Goal_Loop
  imports Goal_Evaluator
begin

text \<open>
  The goal loop, \<^verbatim>\<open>src/projects/goal-loop.ts\<close>: one iteration of a project (evaluate, act on
  the verdict, store the verdict), the pass over every active project, and the module's timer and
  re-entrancy flag. The two models, the expert registry, the LLM factory and the time since an
  earlier evaluation are fields of the options; the state directory is the world's.
\<close>

section \<open>Options\<close>

definition GOAL_DEFAULT_INTERVAL_MS :: int where
  "GOAL_DEFAULT_INTERVAL_MS = 5 * 60000"

definition MIN_INTERVAL_MS :: int where
  "MIN_INTERVAL_MS = 30000"

definition GOAL_DEFAULT_MAX_ITERATIONS :: nat where
  "GOAL_DEFAULT_MAX_ITERATIONS = 10"

definition EVAL_COOLDOWN_MS :: int where
  "EVAL_COOLDOWN_MS = 20000"

text \<open>\<open>g_sinceMs n ts\<close> is \<open>Date.now() - new Date(ts).getTime()\<close> at the \<open>n\<close>-th clock reading,
  \<open>None\<close> for \<open>NaN\<close>; \<open>g_llmError\<close> is the error the client factory throws.\<close>

record goal_opts = env +
  g_evalLlm :: eval_llm
  g_planLlm :: "nat \<Rightarrow> plan_request \<Rightarrow> string + string"
  g_listExperts :: "string + string list"
  g_llmError :: "string option"
  g_sinceMs :: "nat \<Rightarrow> string \<Rightarrow> int option"

datatype goal_action = ActAchieved | ActBlocked | ActReplanned | ActIdle

section \<open>One iteration\<close>

definition shouldReplan :: "task list \<Rightarrow> bool" where
  "shouldReplan tasks \<longleftrightarrow>
     (if tasks = [] then True
      else \<not> list_ex (\<lambda>t. tk_status t = Queued \<or> tk_status t = InProgress \<or> tk_status t = Review) tasks)"

definition resolveAssignedExperts :: "('e goal_opts_scheme) \<Rightarrow> project \<Rightarrow> string + string list" where
  "resolveAssignedExperts opts project =
     map_sum id (\<lambda>all. case pr_assignedExperts project of
         None \<Rightarrow> all | Some assigned \<Rightarrow> if assigned = [] then all else filter (\<lambda>e. e \<in> set assigned) all)
       (g_listExperts opts)"

definition goal_run_id :: "nat \<Rightarrow> string" where
  "goal_run_id iteration = ''goal-loop-'' @ show_nat iteration"

text \<open>The body of the \<open>try\<close> up to \<open>action = "replanned"\<close>: the number of tasks stored, if any. The
  tasks are stored without an audit log path.\<close>

definition replan :: "('e goal_opts_scheme) \<Rightarrow> project \<Rightarrow> task list \<Rightarrow> nat \<Rightarrow> ('x world, nat option) prog" where
  "replan opts project tasks iterationCount =
     bind_m (lift_m (resolveAssignedExperts opts project)) (\<lambda>experts.
     bind_m (get_m w_clock) (\<lambda>call.
     bind_m (lift_m (plan (g_planLlm opts call) None experts
         \<lparr>pq_projectId = pr_id project, pq_prompt = pr_goal project,
          pq_origin = PlannerOrigin (goal_run_id (iterationCount + 1)), pq_existing = tasks, pq_priorContext = None\<rparr>))
       (\<lambda>planResult.
     if pl_tasks planResult = [] then return_m None
     else seq_m (persistPlan (opts\<lparr>e_auditLogPath := None\<rparr>) (pr_id project) planResult
            (PlannerOrigin (goal_run_id (iterationCount + 1))) None)
          (return_m (Some (length (pl_tasks planResult)))))))"

definition replan_action :: "('e goal_opts_scheme) \<Rightarrow> project \<Rightarrow> task list \<Rightarrow> nat \<Rightarrow> ('x world, goal_action) prog" where
  "replan_action opts project tasks iterationCount =
     bind_m (catch_m (replan opts project tasks iterationCount) (\<lambda>err. return_m None)) (\<lambda>stored.
       case stored of
         None \<Rightarrow> return_m ActIdle
       | Some emitted \<Rightarrow>
           seq_m (catch_m
               (audit_if opts KIterationStarted
                 [(''projectId'', JStr (pr_id project)), (''iteration'', JNum (int (iterationCount + 1))),
                  (''tasksEmitted'', JNum (int emitted))])
               (\<lambda>err. return_m ()))
             (return_m ActReplanned))"

definition stuck_event :: "project \<Rightarrow> nat \<Rightarrow> string \<Rightarrow> json_object" where
  "stuck_event project iterationCount reason =
     [(''projectId'', JStr (pr_id project)), (''iteration'', JNum (int iterationCount)), (''reason'', JStr reason)]"

definition goal_verdict_action ::
  "('e goal_opts_scheme) \<Rightarrow> project \<Rightarrow> task list \<Rightarrow> bool \<Rightarrow> goal_evaluation \<Rightarrow> ('x world, project_status \<times> goal_action) prog" where
  "goal_verdict_action opts project tasks forceReplan evaluation =
     (let maxIterations = nullish (pr_maxIterations project) GOAL_DEFAULT_MAX_ITERATIONS;
          iterationCount = nullish (pr_iterationCount project) 0
      in if ge_status evaluation = GoalAchieved then
           seq_m (audit_if opts KGoalAchieved (stuck_event project iterationCount (ge_reason evaluation)))
             (return_m (Achieved, ActAchieved))
         else if ge_status evaluation = GoalBlocked then
           seq_m (audit_if opts KStuck (stuck_event project iterationCount (ge_reason evaluation)))
             (return_m (NeedsInput, ActBlocked))
         else if iterationCount \<ge> maxIterations then
           seq_m (audit_if opts KStuck (stuck_event project iterationCount
               (''Iteration cap ('' @ show_nat maxIterations @ '') reached without convergence.'')))
             (return_m (NeedsInput, ActBlocked))
         else if shouldReplan tasks \<or> forceReplan then
           bind_m (replan_action opts project tasks iterationCount) (\<lambda>action. return_m (pr_status project, action))
         else return_m (pr_status project, ActIdle))"

definition runOneIteration ::
  "('e goal_opts_scheme) \<Rightarrow> project \<Rightarrow> task list \<Rightarrow> bool \<Rightarrow> ('x world, goal_evaluation \<times> goal_action) prog" where
  "runOneIteration opts project tasks forceReplan =
     (let iterationCount = nullish (pr_iterationCount project) 0
      in bind_m (evaluateGoal opts (g_evalLlm opts) project tasks iterationCount) (\<lambda>evaluation.
         bind_m (goal_verdict_action opts project tasks forceReplan evaluation) (\<lambda>(nextStatus, action).
         seq_m (on_fs (saveProject (e_projectsDir opts)
             (project\<lparr>pr_status := nextStatus, pr_goalEvaluation := Some evaluation,
                pr_iterationCount := Some (iterationCount + 1)\<rparr>)))
           (return_m (evaluation, action)))))"

section \<open>The pass over the projects\<close>

text \<open>\<open>lastEval && Date.now() - new Date(lastEval).getTime() < EVAL_COOLDOWN_MS\<close>\<close>

definition cooling_down :: "('e goal_opts_scheme) \<Rightarrow> nat \<Rightarrow> project \<Rightarrow> bool" where
  "cooling_down opts n project =
     (case pr_goalEvaluation project of
        None \<Rightarrow> False
      | Some ev \<Rightarrow> ge_evaluatedAt ev \<noteq> [] \<and>
          (case g_sinceMs opts n (ge_evaluatedAt ev) of None \<Rightarrow> False | Some ms \<Rightarrow> ms < EVAL_COOLDOWN_MS))"

definition goal_project :: "('e goal_opts_scheme) \<Rightarrow> string \<Rightarrow> ('x world, unit) prog" where
  "goal_project opts i =
     bind_m (on_fs (loadProject (e_projectsDir opts) i)) (\<lambda>loaded.
       case loaded of
         None \<Rightarrow> return_m ()
       | Some project \<Rightarrow>
           when_m (pr_status project = Active)
            (bind_m (on_fs (listTasks (e_projectsDir opts) i)) (\<lambda>tasks.
             bind_m (get_m w_clock) (\<lambda>n.
             when_m (\<not> cooling_down opts n project)
              (case g_llmError opts of
                 Some e \<Rightarrow> throw_m e
               | None \<Rightarrow> catch_m (seq_m (runOneIteration opts project tasks False) (return_m ()))
                           (\<lambda>err. return_m ()))))))"

definition goal_pass :: "('e goal_opts_scheme) \<Rightarrow> ('x world, unit) prog" where
  "goal_pass opts = bind_m (get_m (\<lambda>w. listProjectIds (e_projectsDir opts) (w_fs w))) (\<lambda>ids. for_m ids (goal_project opts))"

section \<open>Timer and re-entrancy\<close>

text \<open>The module's state: the interval of the timer when one is set, and the flag a pass sets
  while it runs.\<close>

record goal_loop_state =
  gl_timer :: "int option"
  gl_ticking :: bool

definition startGoalLoop :: "bool \<Rightarrow> int option \<Rightarrow> goal_loop_state \<Rightarrow> bool \<times> goal_loop_state" where
  "startGoalLoop enabled intervalMs s =
     (if \<not> enabled then (False, s)
      else if gl_timer s \<noteq> None then (True, s)
      else (True, s\<lparr>gl_timer := Some (max MIN_INTERVAL_MS (nullish intervalMs GOAL_DEFAULT_INTERVAL_MS))\<rparr>))"

definition stopGoalLoop :: "goal_loop_state \<Rightarrow> goal_loop_state" where
  "stopGoalLoop s = (if gl_timer s \<noteq> None then s\<lparr>gl_timer := None\<rparr> else s)"

definition tickGoalLoop :: "('e goal_opts_scheme) \<Rightarrow> (goal_loop_state \<times> 'x world, unit) prog" where
  "tickGoalLoop opts = (\<lambda>(s, w).
     if gl_ticking s then (Inr (), (s, w))
     else case goal_pass opts w of (r, w') \<Rightarrow> (r, (s\<lparr>gl_ticking := False\<rparr>, w')))"

section \<open>What an iteration does\<close>

lemma replan_action_returns: "\<exists>a w'. replan_action opts project tasks n w = (Inr a, w')"
  by (simp add: replan_action_def bind_m_apply seq_m_apply catch_m_apply split: prod.split sum.split option.split)

lemma replan_action_wf:
  "preserves (fs_inv (store_wf (e_projectsDir opts) p)) (replan_action opts project tasks n)"
  using persistPlan_wf [of "opts\<lparr>e_auditLogPath := None\<rparr>" p]
  unfolding replan_action_def replan_def by (intro preserves_intros) auto

definition iteration_cap :: "project \<Rightarrow> nat" where
  "iteration_cap project = nullish (pr_maxIterations project) GOAL_DEFAULT_MAX_ITERATIONS"

definition iterations_done :: "project \<Rightarrow> nat" where
  "iterations_done project = nullish (pr_iterationCount project) 0"

lemma verdict_action_returns:
  assumes quiet: "\<And>n. e_auditThrows opts n = None"
    and wf: "store_wf (e_projectsDir opts) p (w_fs w)"
  obtains st a w' where "goal_verdict_action opts project tasks force ev w = (Inr (st, a), w')"
    "store_wf (e_projectsDir opts) p (w_fs w')"
    "st = pr_status project \<or> st = Achieved \<or> st = NeedsInput"
    "iteration_cap project \<le> iterations_done project \<Longrightarrow> st \<noteq> Active"
proof -
  note cap = iteration_cap_def iterations_done_def
  have audit: "\<exists>w'. audit_if opts k pl w = (Inr (), w') \<and> w_fs w' = w_fs w" for k pl
    by (rule audit_if_quiet [OF quiet, of k pl w]) blast
  consider (stop) k pl r where "goal_verdict_action opts project tasks force ev w =
      seq_m (audit_if opts k pl) (return_m r) w" "fst r = Achieved \<or> fst r = NeedsInput"
    | (replan) "goal_verdict_action opts project tasks force ev w = bind_m (replan_action opts project tasks
        (iterations_done project)) (\<lambda>action. return_m (pr_status project, action)) w"
        "\<not> iteration_cap project \<le> iterations_done project"
    | (idle) "goal_verdict_action opts project tasks force ev w = return_m (pr_status project, ActIdle) w"
        "\<not> iteration_cap project \<le> iterations_done project"
    unfolding goal_verdict_action_def Let_def cap by (cases "ge_status ev") (force split: if_splits)+
  then show ?thesis
  proof cases
    case stop
    from audit [of k pl] obtain w' where "audit_if opts k pl w = (Inr (), w')" "w_fs w' = w_fs w" by blast
    with stop wf that [of "fst r" "snd r" w'] show ?thesis by (auto simp: seq_m_apply)
  next
    case replan
    obtain a w' where "replan_action opts project tasks (iterations_done project) w = (Inr a, w')"
      using replan_action_returns by blast
    moreover from this have "store_wf (e_projectsDir opts) p (w_fs w')"
      using preservesD [OF replan_action_wf, of opts p w project tasks "iterations_done project"] wf
      by (simp add: fs_inv_def)
    ultimately show ?thesis using replan that [of "pr_status project" a w'] by (simp add: bind_m_apply)
  next
    case idle
    then show ?thesis using wf that [of "pr_status project" ActIdle w] by simp
  qed
qed

lemma iteration_saves:
  assumes quiet: "\<And>n. e_auditThrows opts n = None"
    and answers: "\<And>n pr ts i. \<exists>c. g_evalLlm opts n pr ts i = Inr c"
    and wf: "store_wf (e_projectsDir opts) p (w_fs w)" and p: "pr_id project = p"
  obtains ev st a w' where "runOneIteration opts project tasks force w = (Inr (ev, a), w')"
    "stored_project (e_projectsDir opts) (w_fs w') p = Some (project\<lparr>pr_status := st, pr_goalEvaluation := Some ev,
       pr_iterationCount := Some (Suc (iterations_done project))\<rparr>)"
    "iteration_cap project \<le> iterations_done project \<Longrightarrow> st \<noteq> Active"
    "store_wf (e_projectsDir opts) p (w_fs w')"
proof -
  obtain ev w1 where ev: "evaluateGoal opts (g_evalLlm opts) project tasks (iterations_done project) w = (Inr ev, w1)"
      and w1: "w_fs w1 = w_fs w"
    using answers [of "w_clock w" project tasks "iterations_done project"]
    by (force simp: evaluateGoal_def bind_m_apply now_m_def Let_def)
  obtain st a w2 where act: "goal_verdict_action opts project tasks force ev w1 = (Inr (st, a), w2)"
      and wf2: "store_wf (e_projectsDir opts) p (w_fs w2)"
      and cap: "iteration_cap project \<le> iterations_done project \<Longrightarrow> st \<noteq> Active"
    using verdict_action_returns [OF quiet, where w = w1 and p = p and project = project and tasks = tasks
        and force = force and ev = ev] wf w1 by metis
  let ?updated = "project\<lparr>pr_status := st, pr_goalEvaluation := Some ev, pr_iterationCount := Some (Suc (iterations_done project))\<rparr>"
  have safe: "safe_id (pr_id ?updated)" using wf p by (simp add: store_wf_def)
  obtain fs3 where save: "saveProject (e_projectsDir opts) ?updated (w_fs w2) = (Inr (), fs3)"
    by (simp add: saveProject_safe [OF safe])
  have "stored_project (e_projectsDir opts) fs3 p = Some ?updated"
    using saveProject_safe [OF safe, of "e_projectsDir opts" "w_fs w2"] save p safe by (auto simp: stored_project_iff)
  moreover have "store_wf (e_projectsDir opts) p fs3"
    using saveProject_frame(2) [OF safe wf2] save by simp
  ultimately show ?thesis
    using that [of ev a "w2\<lparr>w_fs := fs3\<rparr>" st] ev act save cap
    by (simp add: runOneIteration_def iterations_done_def Let_def bind_m_apply seq_m_apply on_fs_apply)
qed

text \<open>What the loop relies on: the log is writable, the client can be made, the evaluator answers
  (with any text), and the last evaluation is long enough ago.\<close>

definition goal_env_ok :: "('e goal_opts_scheme) \<Rightarrow> bool" where
  "goal_env_ok opts \<longleftrightarrow>
     (\<forall>n. e_auditThrows opts n = None) \<and> g_llmError opts = None
     \<and> (\<forall>n pr ts i. \<exists>c. g_evalLlm opts n pr ts i = Inr c)
     \<and> (\<forall>n pr. \<not> cooling_down opts n pr)"

definition after_passes :: "('e goal_opts_scheme) \<Rightarrow> string \<Rightarrow> nat \<Rightarrow> 'x world \<Rightarrow> 'x world" where
  "after_passes opts p n w = ((\<lambda>w. snd (goal_project opts p w)) ^^ n) w"

lemma goal_project_active:
  assumes ok: "goal_env_ok opts" and wf: "store_wf (e_projectsDir opts) p (w_fs w)"
    and stored: "stored_project (e_projectsDir opts) (w_fs w) p = Some project"
    and p: "pr_id project = p" and active: "pr_status project = Active"
  obtains ev st w' where "goal_project opts p w = (Inr (), w')"
    "stored_project (e_projectsDir opts) (w_fs w') p = Some (project\<lparr>pr_status := st, pr_goalEvaluation := Some ev,
       pr_iterationCount := Some (Suc (iterations_done project))\<rparr>)"
    "iteration_cap project \<le> iterations_done project \<Longrightarrow> st \<noteq> Active"
    "store_wf (e_projectsDir opts) p (w_fs w')"
proof -
  have safe: "safe_id p" using wf by (simp add: store_wf_def)
  let ?tasks = "task_list (e_projectsDir opts) p (w_fs w)"
  obtain ev st a w' where it: "runOneIteration opts project ?tasks False w = (Inr (ev, a), w')"
    and rest: "stored_project (e_projectsDir opts) (w_fs w') p = Some (project\<lparr>pr_status := st, pr_goalEvaluation := Some ev,
       pr_iterationCount := Some (Suc (iterations_done project))\<rparr>)"
    "iteration_cap project \<le> iterations_done project \<Longrightarrow> st \<noteq> Active" "store_wf (e_projectsDir opts) p (w_fs w')"
    using iteration_saves [of opts p w project ?tasks False] ok wf p unfolding goal_env_ok_def by metis
  have "goal_project opts p w = (Inr (), w')"
    using ok it active stored
    by (simp add: goal_project_def bind_m_apply on_fs_apply loadProject_safe [OF safe] listTasks_wf [OF wf]
        when_m_apply goal_env_ok_def catch_m_apply seq_m_apply)
  with rest that show ?thesis by blast
qed

lemma goal_project_inactive:
  assumes "safe_id p" "stored_project (e_projectsDir opts) (w_fs w) p = Some project" "pr_status project \<noteq> Active"
  shows "goal_project opts p w = (Inr (), w)"
  using assms by (simp add: goal_project_def bind_m_apply on_fs_apply loadProject_safe when_m_apply)

lemma inactive_stays:
  assumes "safe_id p" "stored_project (e_projectsDir opts) (w_fs w) p = Some project" "pr_status project \<noteq> Active"
  shows "after_passes opts p n w = w"
  by (induction n) (simp_all add: after_passes_def goal_project_inactive [OF assms])

section \<open>Properties\<close>


definition sample_goal :: project where
  "sample_goal = \<lparr>pr_id = ''p1'', pr_name = ''P'', pr_goal = ''ship'', pr_owner = ''o'', pr_createdAt = ''t'',
     pr_status = Active, pr_channels = [], pr_assignedExperts = None, pr_goalEvaluation = None,
     pr_iterationCount = Some 4, pr_maxIterations = Some 5, pr_metadata = None\<rparr>"

definition sample_goal_opts :: goal_opts where
  "sample_goal_opts = env.extend sample_penv
     (goal_opts.fields (\<lambda>n pr ts i. Inr \<lparr>ec_text = ''still working'', ec_model = None\<rparr>) (\<lambda>n req. Inl ''no model'')
       (Inr []) None (\<lambda>n ts. None))"

definition sample_goal_world :: "unit world" where
  "sample_goal_world = empty_world\<lparr>w_fs := snd (saveProject [''projects''] sample_goal empty_fs)\<rparr>"


end
