(* ===== verification/Channel_Inbox.thy ===== *)
theory Channel_Inbox
  imports Planner
begin

text \<open>
  The router of inbound channel messages, \<^verbatim>\<open>src/projects/channel-inbox.ts\<close>, with the event
  of \<^verbatim>\<open>src/plugin-sdk/channel-inbound-listener.ts\<close>: the first active project bound to the
  message's channel gets a plan whose tasks carry the channel as their origin. The planner's
  model is a field of the options.
\<close>

section \<open>Definitions\<close>

record channel_inbound_event =
  ci_channel :: string
  ci_accountId :: "string option"
  ci_from :: "string option"
  ci_fromDisplayName :: "string option"
  ci_to :: "string option"
  ci_threadId :: "string option"
  ci_text :: string
  ci_messageId :: "string option"
  ci_ts :: nat

record route_opts = env +
  ri_planLlm :: "nat \<Rightarrow> plan_request \<Rightarrow> string + string"

datatype route_result = RouteOk string nat | NoBinding | EmptyPrompt | PlannerError string

definition binding_matches :: "channel_inbound_event \<Rightarrow> channel_binding \<Rightarrow> bool" where
  "binding_matches evt binding \<longleftrightarrow>
     cb_channel binding = ci_channel evt
     \<and> (\<not> truthy (cb_accountId binding) \<or> \<not> truthy (ci_accountId evt) \<or> cb_accountId binding = ci_accountId evt)"

fun first_bound :: "path \<Rightarrow> channel_inbound_event \<Rightarrow> string list \<Rightarrow> ('x state_fs, project option) prog" where
  "first_bound dir evt [] = return_m None"
| "first_bound dir evt (projectId # ids) =
     bind_m (loadProject dir projectId) (\<lambda>loaded.
       case loaded of
         None \<Rightarrow> first_bound dir evt ids
       | Some project \<Rightarrow>
           if pr_status project \<noteq> Active then first_bound dir evt ids
           else if list_ex (binding_matches evt) (pr_channels project) then return_m (Some project)
           else first_bound dir evt ids)"

definition findProjectForChannel :: "path \<Rightarrow> channel_inbound_event \<Rightarrow> ('x state_fs, project option) prog" where
  "findProjectForChannel dir evt = bind_m (get_m (listProjectIds dir)) (first_bound dir evt)"

definition some_truthy :: "string option \<Rightarrow> string option" where
  "some_truthy s = (if truthy s then s else None)"

definition inbound_origin :: "channel_inbound_event \<Rightarrow> task_origin" where
  "inbound_origin evt = ChannelOrigin \<lparr>ch_channel = ci_channel evt, ch_accountId = some_truthy (ci_accountId evt),
     ch_threadId = some_truthy (ci_threadId evt), ch_authorDisplayName = some_truthy (ci_fromDisplayName evt)\<rparr>"

definition plan_inbound :: "('e route_opts_scheme) \<Rightarrow> channel_inbound_event \<Rightarrow> project \<Rightarrow> task list \<Rightarrow> ('x world, route_result) prog" where
  "plan_inbound opts evt project existing =
     catch_m
      (bind_m consult (\<lambda>call.
       bind_m (lift_m (plan (ri_planLlm opts call) None []
           \<lparr>pq_projectId = pr_id project, pq_prompt = js_trim (ci_text evt), pq_origin = inbound_origin evt,
            pq_existing = existing, pq_priorContext = None\<rparr>)) (\<lambda>result.
       bind_m (persistPlan opts (pr_id project) result (inbound_origin evt) None) (\<lambda>created.
       return_m (RouteOk (pr_id project) (length created))))))
      (\<lambda>err. return_m (PlannerError err))"

definition routeInboundMessage :: "('e route_opts_scheme) \<Rightarrow> channel_inbound_event \<Rightarrow> ('x world, route_result) prog" where
  "routeInboundMessage opts evt =
     (if js_trim (ci_text evt) = [] then return_m EmptyPrompt
      else bind_m (on_fs (findProjectForChannel (e_projectsDir opts) evt)) (\<lambda>found.
        case found of
          None \<Rightarrow> return_m NoBinding
        | Some project \<Rightarrow>
            bind_m (on_fs (listTasks (e_projectsDir opts) (pr_id project))) (plan_inbound opts evt project)))"

text \<open>\<open>bindChannelInboxToProjects\<close>: the listener routes each event and drops what it throws.\<close>

definition inbox_listener :: "('e route_opts_scheme) \<Rightarrow> channel_inbound_event \<Rightarrow> ('x world, unit) prog" where
  "inbox_listener opts evt = catch_m (seq_m (routeInboundMessage opts evt) (return_m ())) (\<lambda>err. return_m ())"

section \<open>Facts\<close>

definition bound_to :: "channel_inbound_event \<Rightarrow> project \<Rightarrow> bool" where
  "bound_to evt project \<longleftrightarrow> pr_status project = Active \<and> list_ex (binding_matches evt) (pr_channels project)"

lemma first_bound_stored:
  assumes "list_all safe_id ids"
  shows "first_bound dir evt ids fs = (Inr (find (bound_to evt) (List.map_filter (stored_project dir fs) ids)), fs)"
  using assms
  by (induction ids) (auto simp: bind_m_apply loadProject_safe bound_to_def map_filter_simps split: option.splits)

lemma first_bound_reads: "snd (first_bound dir evt ids fs) = fs"
proof (induction ids)
  case (Cons i ids)
  have "snd (loadProject dir i fs) = fs" using preservesD [OF loadProject_keeps, of "\<lambda>s. s = fs" fs dir i] by simp
  with Cons show ?case by (auto simp: bind_m_apply split: prod.splits sum.splits option.splits)
qed simp

text \<open>The tasks that differ from \<open>fs0\<close> all belong to the project and carry the origin.\<close>

definition only_new_from :: "path \<Rightarrow> string \<Rightarrow> task_origin \<Rightarrow> 'x state_fs \<Rightarrow> 'x state_fs \<Rightarrow> bool" where
  "only_new_from dir p og fs0 fs \<longleftrightarrow>
     (\<forall>k. stored_task dir fs k \<noteq> stored_task dir fs0 k \<longrightarrow>
        fst k = p \<and> (\<exists>t. stored_task dir fs k = Some t \<and> tk_origin t = og))
     \<and> (\<forall>i. stored_project dir fs i = stored_project dir fs0 i)"

lemma only_new_refl: "only_new_from dir p og fs fs"
  by (simp add: only_new_from_def)

lemma planned_origin: "tk_origin (planned_task pid og pre m d ts) = og" "tk_projectId (planned_task pid og pre m d ts) = pid"
  by (cases d, simp add: planned_task_def createTaskRecord_def Let_def)+

lemma persistPlan_only_new:
  "preserves (fs_inv (only_new_from (e_projectsDir env) p og fs0)) (persistPlan env p result og pre)"
proof -
  have "preserves (only_new_from (e_projectsDir env) p og fs0) (saveTask (e_projectsDir env) (planned_task p og pre m d ts))" for pre m d ts
    by (rule preservesI) (auto simp: only_new_from_def stored_saveTask planned_origin)
  then show ?thesis by (intro persistPlan_keeps on_fs_inv preserves_intros)
qed

lemma plan_inbound_only_new:
  "preserves (fs_inv (only_new_from (e_projectsDir opts) (pr_id project) (inbound_origin evt) fs0)) (plan_inbound opts evt project existing)"
  unfolding plan_inbound_def by (intro preserves_intros persistPlan_only_new)

lemma plan_inbound_result:
  "\<exists>r w'. plan_inbound opts evt project existing w = (Inr r, w') \<and> (\<forall>i n. r = RouteOk i n \<longrightarrow> i = pr_id project)
     \<and> r \<noteq> NoBinding \<and> r \<noteq> EmptyPrompt"
  by (simp add: plan_inbound_def catch_m_apply bind_m_apply split: prod.split sum.split)

section \<open>Properties\<close>

text \<open>C26. Routing a channel message: the receiving project is the first one, in id order, that is active
  and bound to the message's channel (and account, when both name one); without one, or without
  text, nothing happens at all. Whatever the planner answers, every task that appears or changes
  belongs to that project and carries the message's channel as its origin, and no project record
  changes; so a channel message can never create work that counts as the operator's.\<close>

theorem inbound_message_routed:
  assumes "list_all safe_id (listProjectIds (e_projectsDir opts) (w_fs w))" and "js_trim (ci_text evt) \<noteq> []"
  shows "let run = routeInboundMessage opts evt w;
             chosen = find (bound_to evt) (List.map_filter (stored_project (e_projectsDir opts) (w_fs w))
               (listProjectIds (e_projectsDir opts) (w_fs w)))
    in case chosen of
         None \<Rightarrow> run = (Inr NoBinding, w)
       | Some project \<Rightarrow>
           only_new_from (e_projectsDir opts) (pr_id project) (inbound_origin evt) (w_fs w) (w_fs (snd run))
           \<and> (case fst run of
                Inr (RouteOk i n) \<Rightarrow> i = pr_id project
              | Inr (PlannerError e) \<Rightarrow> True
              | Inr _ \<Rightarrow> False
              | Inl e \<Rightarrow> fst (listTasks (e_projectsDir opts) (pr_id project) (w_fs w)) = Inl e)"
proof -
  let ?dir = "e_projectsDir opts"
  let ?chosen = "find (bound_to evt) (List.map_filter (stored_project ?dir (w_fs w)) (listProjectIds ?dir (w_fs w)))"
  have find: "findProjectForChannel ?dir evt (w_fs w) = (Inr ?chosen, w_fs w)"
    using first_bound_stored [OF assms(1)] by (simp add: findProjectForChannel_def bind_m_apply)
  show ?thesis
  proof (cases ?chosen)
    case None
    with find assms(2) show ?thesis by (simp add: routeInboundMessage_def bind_m_apply on_fs_apply)
  next
    case (Some project)
    have reads: "snd (listTasks ?dir (pr_id project) (w_fs w)) = w_fs w"
      using preservesD [OF listTasks_keeps, of "\<lambda>s. s = w_fs w" "w_fs w" ?dir "pr_id project"] by simp
    show ?thesis
    proof (cases "fst (listTasks ?dir (pr_id project) (w_fs w))")
      case (Inl e)
      with Some find assms(2) reads show ?thesis
        by (simp add: routeInboundMessage_def bind_m_apply on_fs_apply only_new_refl)
    next
      case (Inr tasks)
      have run: "routeInboundMessage opts evt w = plan_inbound opts evt project tasks w"
        using Some find assms(2) reads Inr by (simp add: routeInboundMessage_def bind_m_apply on_fs_apply)
      have "only_new_from ?dir (pr_id project) (inbound_origin evt) (w_fs w) (w_fs (snd (plan_inbound opts evt project tasks w)))"
        using preservesD [OF plan_inbound_only_new, of opts project evt "w_fs w" w tasks] by (simp add: fs_inv_def only_new_refl)
      then show ?thesis
        using plan_inbound_result [of opts evt project tasks w] Some run
        by (auto split: route_result.splits)
    qed
  qed
qed

definition sample_bound :: project where
  "sample_bound = \<lparr>pr_id = ''p1'', pr_name = ''P'', pr_goal = ''ship'', pr_owner = ''o'', pr_createdAt = ''t'',
     pr_status = Active, pr_channels = [\<lparr>cb_channel = ''slack'', cb_accountId = None, cb_defaultThreadId = None\<rparr>],
     pr_assignedExperts = None, pr_goalEvaluation = None, pr_iterationCount = None, pr_maxIterations = None, pr_metadata = None\<rparr>"

definition sample_message :: channel_inbound_event where
  "sample_message = \<lparr>ci_channel = ''slack'', ci_accountId = Some ''T1'', ci_from = None, ci_fromDisplayName = None, ci_to = None,
     ci_threadId = Some ''9'', ci_text = '' please ship '', ci_messageId = None, ci_ts = 0\<rparr>"

definition sample_route_opts :: route_opts where
  "sample_route_opts = env.extend sample_penv (route_opts.fields (\<lambda>n req. Inr sample_reply))"

theorem inbound_message_routed_witness:
  "only_new_from [''projects''] ''p1'' (inbound_origin sample_message)
     (snd (saveProject [''projects''] sample_bound (empty_fs :: unit state_fs)))
     (w_fs (snd (routeInboundMessage sample_route_opts sample_message
        (empty_world\<lparr>w_fs := snd (saveProject [''projects''] sample_bound empty_fs)\<rparr>))))"
proof -
  let ?fs = "snd (saveProject [''projects''] sample_bound (empty_fs :: unit state_fs))"
  have "listProjectIds [''projects''] ?fs = [''p1'']" "safe_id ''p1''"
    "find (bound_to sample_message) (List.map_filter (stored_project [''projects''] ?fs) [''p1'']) = Some sample_bound"
    "js_trim (ci_text sample_message) \<noteq> []" "e_projectsDir sample_route_opts = [''projects'']" "pr_id sample_bound = ''p1''"
    by code_simp+
  then show ?thesis
    using inbound_message_routed [of sample_route_opts "empty_world\<lparr>w_fs := ?fs\<rparr>" sample_message] by (simp add: Let_def)
qed

end
