(* ===== verification/Projects_Http.thy ===== *)
theory Projects_Http
  imports Goal_Evaluator Origin_Context
begin

text \<open>
  The HTTP API of the projects board, \<^verbatim>\<open>src/gateway/projects-http.ts\<close>: routing, the nine
  handlers and their helpers. A request carries what the gateway's authorisation and body
  helpers found; a handler returns the response it sends, \<open>None\<close> when a helper has already
  replied. The bodies of responses are the values that are serialised. The planning job a request
  may leave in the background is run before the response. The runtime's first-touch start is the
  pickup loop and the inbox of the other theories and is not repeated here.
\<close>

section \<open>Requests, responses, routes\<close>

text \<open>\<open>rq_authorized\<close>: the gateway's authorisation helper let the request pass;
  \<open>rq_missingScope\<close>: the scope the caller lacks; \<open>rq_body\<close>: the parsed body of a POST the helper
  passed on.\<close>

record http_request =
  rq_method :: string
  rq_pathname :: string
  rq_authorized :: bool
  rq_missingScope :: "string option"
  rq_body :: "json option"

datatype http_body =
    ErrorBody string string
  | ProjectsBody "project list"
  | ProjectBody project "task list option"
  | TaskBody task
  | PlanBody plan_result
  | AcceptedBody string
  | CommittedBody nat

record http_response =
  rs_status :: nat
  rs_body :: http_body

text \<open>\<open>hx_persistUntyped\<close> stands for what \<open>persistPlan\<close> does with submitted drafts outside the type
  \<open>TaskDraft\<close>, which the code casts to it unchecked.\<close>

record 'x http_opts = env +
  hx_llmError :: "string option"
  hx_planLlm :: "nat \<Rightarrow> plan_request \<Rightarrow> string + string"
  hx_listExperts :: "string + string list"
  hx_dateNow :: "nat \<Rightarrow> nat"
  hx_persistUntyped :: "string \<Rightarrow> json list \<Rightarrow> ('x world, nat) prog"

datatype projects_route =
    RouteList | RouteCreate
  | RouteGet string | RouteArchive string | RouteFromPrompt string | RouteCommitPlan string
  | RouteApprove string string | RouteRetry string string | RouteBlock string string

definition PROJECTS_ROOT :: string where
  "PROJECTS_ROOT = ''/v1/projects''"

definition isProjectsPath :: "string \<Rightarrow> bool" where
  "isProjectsPath pathname \<longleftrightarrow> pathname = PROJECTS_ROOT \<or> starts_with (PROJECTS_ROOT @ ''/'') pathname"

text \<open>\<open>tail.split("/").filter(Boolean)\<close>\<close>

definition path_segments :: "string \<Rightarrow> string list" where
  "path_segments s = filter (\<lambda>g. g \<noteq> []) (split_segments [] s)"

definition parseProjectsRoute :: "string \<Rightarrow> string \<Rightarrow> projects_route option" where
  "parseProjectsRoute method pathname =
     (if pathname = PROJECTS_ROOT then
        (if method = ''GET'' then Some RouteList else if method = ''POST'' then Some RouteCreate else None)
      else if \<not> starts_with (PROJECTS_ROOT @ ''/'') pathname then None
      else case path_segments (drop (length (PROJECTS_ROOT @ ''/'')) pathname) of
          [p] \<Rightarrow> if method = ''GET'' then Some (RouteGet p) else if method = ''DELETE'' then Some (RouteArchive p) else None
        | [p, k, a] \<Rightarrow>
            if k = ''tasks'' \<and> method = ''POST'' then
              (if a = ''from-prompt'' then Some (RouteFromPrompt p)
               else if a = ''commit-plan'' then Some (RouteCommitPlan p) else None)
            else None
        | [p, k, t, a] \<Rightarrow>
            if k = ''tasks'' \<and> method = ''POST'' then
              (if a = ''approve'' then Some (RouteApprove p t) else if a = ''retry'' then Some (RouteRetry p t)
               else if a = ''block'' then Some (RouteBlock p t) else None)
            else None
        | _ \<Rightarrow> None)"

section \<open>Helpers\<close>

definition isSafeId :: "string \<Rightarrow> bool" where
  "isSafeId s \<longleftrightarrow> s \<noteq> [] \<and> list_all id_char s"

definition reply :: "nat \<Rightarrow> http_body \<Rightarrow> ('x world, http_response option) prog" where
  "reply status body = return_m (Some \<lparr>rs_status = status, rs_body = body\<rparr>)"

definition bad_request :: "string \<Rightarrow> ('x world, http_response option) prog" where
  "bad_request message = reply 400 (ErrorBody ''invalid_request_error'' message)"

definition not_found :: "string \<Rightarrow> ('x world, http_response option) prog" where
  "not_found message = reply 404 (ErrorBody ''invalid_request_error'' message)"

definition authorizeGetForProjects ::
  "http_request \<Rightarrow> ('x world, http_response option) prog \<Rightarrow> ('x world, http_response option) prog" where
  "authorizeGetForProjects req handler =
     (if \<not> rq_authorized req then return_m None
      else case rq_missingScope req of
          Some scope \<Rightarrow> reply 403 (ErrorBody ''forbidden'' (''missing scope: '' @ scope))
        | None \<Rightarrow> handler)"

text \<open>\<open>const body = await readPostBody(...); if (!body) return true;\<close> A body that is \<open>false\<close>, \<open>0\<close> or
  the empty text gets no reply at all.\<close>

definition readPostBody :: "http_request \<Rightarrow> (json \<Rightarrow> ('x world, http_response option) prog) \<Rightarrow> ('x world, http_response option) prog" where
  "readPostBody req handler =
     (case rq_body req of
        None \<Rightarrow> return_m None
      | Some v \<Rightarrow> let body = (if v = JNull then JObj [] else v)
                 in if json_truthy body then handler body else return_m None)"

definition binding_of :: "json \<Rightarrow> channel_binding option" where
  "binding_of entry =
     (let channel = trimmed_field entry ''channel'';
          kept = (\<lambda>k. case json_field entry k of Some (JStr s) \<Rightarrow> if js_trim s \<noteq> [] then Some s else None | _ \<Rightarrow> None)
      in if \<not> is_object_value entry \<or> channel = [] then None
         else Some \<lparr>cb_channel = channel, cb_accountId = kept ''accountId'', cb_defaultThreadId = kept ''defaultThreadId''\<rparr>)"

definition parseChannels :: "json option \<Rightarrow> channel_binding list" where
  "parseChannels raw = (case raw of Some (JArr entries) \<Rightarrow> List.map_filter binding_of entries | _ \<Rightarrow> [])"

section \<open>Reading\<close>

text \<open>The comparator answers \<open>1\<close> when the first project is older and \<open>-1\<close> otherwise.\<close>

definition newer_first :: "project \<Rightarrow> project \<Rightarrow> bool" where
  "newer_first a b \<longleftrightarrow> \<not> pr_createdAt a < pr_createdAt b"

definition handleListProjects :: "('x, 'e) http_opts_scheme \<Rightarrow> http_request \<Rightarrow> ('x world, http_response option) prog" where
  "handleListProjects opts req =
     authorizeGetForProjects req
      (bind_m (get_m (\<lambda>w. listProjectIds (e_projectsDir opts) (w_fs w))) (\<lambda>ids.
       bind_m (map_m (\<lambda>i. on_fs (loadProject (e_projectsDir opts) i)) ids) (\<lambda>loaded.
       reply 200 (ProjectsBody (to_sorted newer_first (List.map_filter id loaded))))))"

definition handleGetProject :: "('x, 'e) http_opts_scheme \<Rightarrow> http_request \<Rightarrow> string \<Rightarrow> ('x world, http_response option) prog" where
  "handleGetProject opts req projectId =
     authorizeGetForProjects req
      (if \<not> isSafeId projectId then bad_request ''invalid project id''
       else bind_m (on_fs (loadProject (e_projectsDir opts) projectId)) (\<lambda>loaded.
         case loaded of
           None \<Rightarrow> not_found (''project not found: '' @ projectId)
         | Some project \<Rightarrow>
             bind_m (on_fs (listTasks (e_projectsDir opts) projectId)) (\<lambda>tasks.
             reply 200 (ProjectBody project (Some tasks)))))"

section \<open>Projects\<close>

definition handleCreateProject :: "('x, 'e) http_opts_scheme \<Rightarrow> http_request \<Rightarrow> ('x world, http_response option) prog" where
  "handleCreateProject opts req =
     readPostBody req (\<lambda>body.
       let name = trimmed_field body ''name'';
           goal = trimmed_field body ''goal'';
           owner = (case json_field body ''owner'' of Some (JStr s) \<Rightarrow> js_trim s | _ \<Rightarrow> ''operator'');
           requestedId = (case json_field body ''id'' of Some (JStr s) \<Rightarrow> if isSafeId s then Some s else None | _ \<Rightarrow> None);
           channels = parseChannels (json_field body ''channels'')
       in if name = [] then bad_request ''name is required''
          else bind_m (case requestedId of
                 Some i \<Rightarrow> return_m i
               | None \<Rightarrow>
                   bind_m (get_m w_clock) (\<lambda>n.
                   bind_m (randomUUID opts) (\<lambda>u.
                   return_m (''proj-'' @ show_nat (hx_dateNow opts n) @ ''-'' @ take 6 u)))) (\<lambda>projectId.
            bind_m (now_m opts) (\<lambda>ts.
            let project = \<lparr>pr_id = projectId, pr_name = name, pr_goal = (if goal \<noteq> [] then goal else name), pr_owner = owner,
                  pr_createdAt = ts, pr_status = Active, pr_channels = channels, pr_assignedExperts = None,
                  pr_goalEvaluation = None, pr_iterationCount = None, pr_maxIterations = None, pr_metadata = None\<rparr>
            in seq_m (on_fs (saveProject (e_projectsDir opts) project))
              (seq_m (audit_if opts KProjectCreated
                 [(''projectId'', JStr projectId), (''name'', JStr name), (''owner'', JStr owner),
                  (''channels'', JArr (map (\<lambda>c. JStr (cb_channel c)) channels))])
               (reply 201 (ProjectBody project None))))))"

definition handleArchiveProject :: "('x, 'e) http_opts_scheme \<Rightarrow> http_request \<Rightarrow> string \<Rightarrow> ('x world, http_response option) prog" where
  "handleArchiveProject opts req projectId =
     authorizeGetForProjects req
      (if \<not> isSafeId projectId then bad_request ''invalid project id''
       else bind_m (on_fs (loadProject (e_projectsDir opts) projectId)) (\<lambda>loaded.
         case loaded of
           None \<Rightarrow> not_found (''project not found: '' @ projectId)
         | Some project \<Rightarrow>
             let archived = project\<lparr>pr_status := Archived\<rparr>
             in seq_m (on_fs (saveProject (e_projectsDir opts) archived))
               (seq_m (audit_if opts KProjectArchived [(''projectId'', JStr projectId)])
                (reply 200 (ProjectBody archived None)))))"

section \<open>Plans\<close>

definition plan_request_of :: "string \<Rightarrow> string \<Rightarrow> task list \<Rightarrow> plan_request" where
  "plan_request_of projectId prompt existing =
     \<lparr>pq_projectId = projectId, pq_prompt = prompt, pq_origin = OperatorOrigin, pq_existing = existing, pq_priorContext = None\<rparr>"

text \<open>\<open>new Set(project?.assignedExperts ?? allExperts.map((e) => e.id))\<close>\<close>

definition roster :: "string list \<Rightarrow> project option \<Rightarrow> string list" where
  "roster allExperts project =
     filter (\<lambda>e. e \<in> set (nullish (case project of None \<Rightarrow> None | Some pr \<Rightarrow> pr_assignedExperts pr) allExperts)) allExperts"

definition plan_prompt :: "('x, 'e) http_opts_scheme \<Rightarrow> string \<Rightarrow> string \<Rightarrow> string list \<Rightarrow> ('x world, plan_result) prog" where
  "plan_prompt opts projectId prompt experts =
     bind_m (on_fs (listTasks (e_projectsDir opts) projectId)) (\<lambda>existing.
     bind_m consult (\<lambda>call.
     lift_m (plan (hx_planLlm opts call) None experts (plan_request_of projectId prompt existing))))"

definition handleFromPrompt :: "('x, 'e) http_opts_scheme \<Rightarrow> http_request \<Rightarrow> string \<Rightarrow> ('x world, http_response option) prog" where
  "handleFromPrompt opts req projectId =
     readPostBody req (\<lambda>body.
       if \<not> isSafeId projectId then bad_request ''invalid project id''
       else bind_m (on_fs (loadProject (e_projectsDir opts) projectId)) (\<lambda>loaded.
         case loaded of
           None \<Rightarrow> not_found (''project not found: '' @ projectId)
         | Some project \<Rightarrow>
             let prompt = trimmed_field body ''prompt'';
                 isPreview = (json_field body ''preview'' \<noteq> Some (JBool False))
             in if prompt = [] then bad_request ''prompt is required''
                else case hx_llmError opts of
                    Some e \<Rightarrow> bad_request e
                  | None \<Rightarrow>
                      bind_m (lift_m (hx_listExperts opts)) (\<lambda>allExperts.
                      bind_m (on_fs (loadProject (e_projectsDir opts) projectId)) (\<lambda>projectForExperts.
                      let experts = roster allExperts projectForExperts
                      in if isPreview then
                           catch_m
                            (bind_m (runAsHttp ''projects-plan-preview'' [(''projectId'', projectId)]
                                (\<lambda>slot. plan_prompt opts projectId prompt experts) None) (\<lambda>result.
                             reply 200 (PlanBody result)))
                            bad_request
                         else
                           seq_m (runAsHttp ''projects-plan'' [(''projectId'', projectId)]
                               (\<lambda>slot. catch_m
                                 (bind_m (plan_prompt opts projectId prompt experts) (\<lambda>result.
                                  seq_m (persistPlan opts projectId result OperatorOrigin None) (return_m ())))
                                 (\<lambda>err. return_m ())) None)
                             (reply 202 (AcceptedBody projectId))))))"

text \<open>The local id a submitted task goes by: \<open>t._localId ?? t.id\<close>, when it is a non-empty text.\<close>

definition present_id :: "json \<Rightarrow> string option" where
  "present_id t =
     (case (case json_field t ''_localId'' of Some v \<Rightarrow> if v = JNull then json_field t ''id'' else Some v
            | None \<Rightarrow> json_field t ''id'') of
        Some (JStr s) \<Rightarrow> if s \<noteq> [] then Some s else None
      | _ \<Rightarrow> None)"

definition kept_deps :: "string list \<Rightarrow> json \<Rightarrow> string list" where
  "kept_deps present raw =
     (case json_field raw ''dependsOn'' of
        Some (JArr ds) \<Rightarrow> List.map_filter (\<lambda>d. case d of JStr s \<Rightarrow> if s \<in> set present then Some s else None | _ \<Rightarrow> None) ds
      | _ \<Rightarrow> [])"

definition sanitize_task :: "string list \<Rightarrow> json \<Rightarrow> json option" where
  "sanitize_task present raw =
     (case raw of
        JObj ob \<Rightarrow>
          if trimmed_field raw ''title'' = [] \<or> trimmed_field raw ''description'' = [] \<or> trimmed_field raw ''role'' = [] then None
          else Some (JObj (obj_spread ob [(''dependsOn'', JArr (map JStr (kept_deps present raw)))]))
      | _ \<Rightarrow> None)"

definition string_values :: "json list \<Rightarrow> string list" where
  "string_values vs = List.map_filter (\<lambda>v. case v of JStr s \<Rightarrow> Some s | _ \<Rightarrow> None) vs"

text \<open>A submitted task as a draft, when every field \<open>persistPlan\<close> reads has its declared type; \<open>None\<close>
  otherwise.\<close>

definition typed_draft :: "json \<Rightarrow> planned_draft option" where
  "typed_draft raw =
     (let text = (\<lambda>k. case json_field raw k of None \<Rightarrow> Some None | Some JNull \<Rightarrow> Some None | Some (JStr s) \<Rightarrow> Some (Some s) | _ \<Rightarrow> None)
      in case (json_field raw ''title'', json_field raw ''description'', json_field raw ''role'', json_field raw ''dependsOn'') of
           (Some (JStr title), Some (JStr description), Some (JStr role), Some (JArr deps)) \<Rightarrow>
             (case (role_of role, text ''priority'', text ''expertId'', text ''_localId'',
                    (case json_field raw ''input'' of None \<Rightarrow> Some [] | Some (JObj ob) \<Rightarrow> Some ob | _ \<Rightarrow> None)) of
                (Some r, Some pr, Some expertId, Some localId, Some input) \<Rightarrow>
                  if pr \<noteq> None \<and> priority_of (the pr) = None then None
                  else Some \<lparr>d_title = title, d_description = description, d_role = r,
                    d_dependsOn = string_values deps, d_input = input,
                    d_priority = (case pr of None \<Rightarrow> None | Some q \<Rightarrow> priority_of q),
                    d_requiresApproval = (if json_field raw ''requiresApproval'' = Some (JBool True) then Some True else None),
                    d_expertId = expertId, d_localId = localId\<rparr>
              | _ \<Rightarrow> None)
         | _ \<Rightarrow> None)"

definition commit_tasks :: "('x, 'e) http_opts_scheme \<Rightarrow> string \<Rightarrow> json list \<Rightarrow> ('x world, nat) prog" where
  "commit_tasks opts projectId sanitized =
     (case those (map typed_draft sanitized) of
        Some drafts \<Rightarrow> bind_m (persistPlan opts projectId \<lparr>pl_tasks = drafts, pl_summary = None\<rparr> OperatorOrigin None)
                         (\<lambda>created. return_m (length created))
      | None \<Rightarrow> hx_persistUntyped opts projectId sanitized)"

definition handleCommitPlan :: "('x, 'e) http_opts_scheme \<Rightarrow> http_request \<Rightarrow> string \<Rightarrow> ('x world, http_response option) prog" where
  "handleCommitPlan opts req projectId =
     readPostBody req (\<lambda>body.
       if \<not> isSafeId projectId then bad_request ''invalid project id''
       else bind_m (on_fs (loadProject (e_projectsDir opts) projectId)) (\<lambda>loaded.
         case loaded of
           None \<Rightarrow> not_found (''project not found: '' @ projectId)
         | Some project \<Rightarrow>
             (case (case json_field body ''plan'' of Some v \<Rightarrow> json_field v ''tasks'' | None \<Rightarrow> None) of
                Some (JArr tasks) \<Rightarrow>
                  if tasks = [] then bad_request ''plan must include at least one task''
                  else if JNull \<in> set tasks then throw_m ''TypeError''
                  else let sanitized = List.map_filter (sanitize_task (List.map_filter present_id tasks)) tasks
                       in if sanitized = [] then bad_request ''no valid tasks in plan''
                          else catch_m
                            (bind_m (commit_tasks opts projectId sanitized) (\<lambda>n. reply 201 (CommittedBody n)))
                            bad_request
              | _ \<Rightarrow> bad_request ''plan.tasks[] is required'')))"

section \<open>Tasks\<close>

definition with_task ::
  "('x, 'e) http_opts_scheme \<Rightarrow> string \<Rightarrow> string \<Rightarrow> (task \<Rightarrow> ('x world, http_response option) prog) \<Rightarrow> ('x world, http_response option) prog" where
  "with_task opts projectId taskId handler =
     (if \<not> isSafeId projectId \<or> \<not> isSafeId taskId then bad_request ''invalid id''
      else bind_m (on_fs (loadTask (e_projectsDir opts) projectId taskId)) (\<lambda>loaded.
        case loaded of
          None \<Rightarrow> not_found (''task not found: '' @ taskId)
        | Some task \<Rightarrow> handler task))"

definition store_next :: "('x, 'e) http_opts_scheme \<Rightarrow> projects_audit_kind \<Rightarrow> json_object \<Rightarrow> task \<Rightarrow> ('x world, http_response option) prog" where
  "store_next opts kind payload task_next =
     seq_m (on_fs (saveTask (e_projectsDir opts) task_next))
       (seq_m (audit_if opts kind payload) (reply 200 (TaskBody task_next)))"

definition handleApproveTask :: "('x, 'e) http_opts_scheme \<Rightarrow> http_request \<Rightarrow> string \<Rightarrow> string \<Rightarrow> ('x world, http_response option) prog" where
  "handleApproveTask opts req projectId taskId =
     authorizeGetForProjects req
      (with_task opts projectId taskId (\<lambda>task.
         if tk_status task \<noteq> Backlog
         then reply 409 (ErrorBody ''conflict'' (''task is not in backlog (status='' @ task_status_name (tk_status task) @ '')''))
         else store_next opts KTaskApproved [(''projectId'', JStr projectId), (''taskId'', JStr taskId)] (approveTaskForQueue task)))"

definition handleRetryTask :: "('x, 'e) http_opts_scheme \<Rightarrow> http_request \<Rightarrow> string \<Rightarrow> string \<Rightarrow> ('x world, http_response option) prog" where
  "handleRetryTask opts req projectId taskId =
     authorizeGetForProjects req
      (with_task opts projectId taskId (\<lambda>task.
         store_next opts KTaskQueued [(''projectId'', JStr projectId), (''taskId'', JStr taskId)] (resetTaskForRetry_t task)))"

definition block_reason :: "json \<Rightarrow> string" where
  "block_reason body = (case json_field body ''reason'' of Some (JStr s) \<Rightarrow> if js_trim s \<noteq> [] then s else ''blocked'' | _ \<Rightarrow> ''blocked'')"

definition handleBlockTask :: "('x, 'e) http_opts_scheme \<Rightarrow> http_request \<Rightarrow> string \<Rightarrow> string \<Rightarrow> ('x world, http_response option) prog" where
  "handleBlockTask opts req projectId taskId =
     readPostBody req (\<lambda>body.
       with_task opts projectId taskId (\<lambda>task.
         store_next opts KTaskBlocked
           [(''projectId'', JStr projectId), (''taskId'', JStr taskId), (''reason'', JStr (block_reason body))]
           (markTaskBlocked task (block_reason body))))"

section \<open>The entry point\<close>

text \<open>\<open>None\<close>: the path is not one of this module, the gateway tries the next one.\<close>

definition handle_route :: "('x, 'e) http_opts_scheme \<Rightarrow> http_request \<Rightarrow> projects_route \<Rightarrow> ('x world, http_response option) prog" where
  "handle_route opts req route =
     (case route of
        RouteList \<Rightarrow> handleListProjects opts req
      | RouteCreate \<Rightarrow> handleCreateProject opts req
      | RouteGet p \<Rightarrow> handleGetProject opts req p
      | RouteArchive p \<Rightarrow> handleArchiveProject opts req p
      | RouteFromPrompt p \<Rightarrow> handleFromPrompt opts req p
      | RouteCommitPlan p \<Rightarrow> handleCommitPlan opts req p
      | RouteApprove p t \<Rightarrow> handleApproveTask opts req p t
      | RouteRetry p t \<Rightarrow> handleRetryTask opts req p t
      | RouteBlock p t \<Rightarrow> handleBlockTask opts req p t)"

definition upper_char :: "char \<Rightarrow> char" where
  "upper_char c = (let n = of_char c :: nat in if 97 \<le> n \<and> n \<le> 122 then char_of (n - 32) else c)"

definition handleProjectsRequest :: "('x, 'e) http_opts_scheme \<Rightarrow> http_request \<Rightarrow> ('x world, http_response option option) prog" where
  "handleProjectsRequest opts req =
     (case parseProjectsRoute (map upper_char (rq_method req)) (rq_pathname req) of
        None \<Rightarrow> return_m None
      | Some route \<Rightarrow> bind_m (handle_route opts req route) (\<lambda>sent. return_m (Some sent)))"

section \<open>Facts\<close>

lemma isSafeId_iff: "isSafeId s \<longleftrightarrow> safe_id s \<or> (list_all id_char s \<and> s \<noteq> [] \<and> hd s = CHR ''.'')"
  by (auto simp: isSafeId_def safe_id_def)

lemma with_task_safe:
  assumes "safe_id p" "safe_id i"
  shows "with_task opts p i handler w =
    (case stored_task (e_projectsDir opts) (w_fs w) (p, i) of
       None \<Rightarrow> (Inr (Some \<lparr>rs_status = 404, rs_body = ErrorBody ''invalid_request_error'' (''task not found: '' @ i)\<rparr>), w)
     | Some t \<Rightarrow> handler t w)"
  using assms
  by (simp add: with_task_def isSafeId_iff bind_m_apply on_fs_apply loadTask_safe not_found_def reply_def split: option.split)

lemma store_next_quiet:
  assumes quiet: "\<And>n. e_auditThrows opts n = None" and wf: "store_wf (e_projectsDir opts) p (w_fs w)"
    and key: "tk_projectId u = p" "tk_id u = i" "safe_id i"
  shows "\<exists>w'. store_next opts k pl u w = (Inr (Some \<lparr>rs_status = 200, rs_body = TaskBody u\<rparr>), w')
    \<and> w_fs w' = snd (saveTask (e_projectsDir opts) u (w_fs w))"
proof -
  have p: "safe_id p" using wf by (simp add: store_wf_def)
  let ?fs = "snd (saveTask (e_projectsDir opts) u (w_fs w))"
  have "fst (saveTask (e_projectsDir opts) u (w_fs w)) = Inr ()" using p key by (simp add: saveTask_safe)
  then have save: "on_fs (saveTask (e_projectsDir opts) u) w = (Inr (), w\<lparr>w_fs := ?fs\<rparr>)" by (simp add: on_fs_apply)
  obtain w' where "audit_if opts k pl (w\<lparr>w_fs := ?fs\<rparr>) = (Inr (), w')" "w_fs w' = ?fs"
    by (rule audit_if_quiet [OF quiet, of k pl "w\<lparr>w_fs := ?fs\<rparr>"]) simp
  with save show ?thesis by (simp add: store_next_def seq_m_apply reply_def)
qed

section \<open>The task endpoints against their specification\<close>

datatype task_endpoint = ApproveEndpoint | RetryEndpoint | BlockEndpoint

text \<open>What an endpoint promises: the next state of the task, or a conflict.\<close>

definition endpoint_spec :: "task_endpoint \<Rightarrow> json \<Rightarrow> task \<Rightarrow> task option" where
  "endpoint_spec e body t =
     (case e of
        ApproveEndpoint \<Rightarrow> if tk_status t = Backlog then Some (approveTaskForQueue t) else None
      | RetryEndpoint \<Rightarrow> Some (resetTaskForRetry_t t)
      | BlockEndpoint \<Rightarrow> Some (markTaskBlocked t (block_reason body)))"

definition endpoint_path :: "task_endpoint \<Rightarrow> string \<Rightarrow> string \<Rightarrow> projects_route" where
  "endpoint_path e p i = (case e of ApproveEndpoint \<Rightarrow> RouteApprove p i | RetryEndpoint \<Rightarrow> RouteRetry p i | BlockEndpoint \<Rightarrow> RouteBlock p i)"

lemma endpoint_spec_ids: "endpoint_spec e body t = Some u \<Longrightarrow> tk_id u = tk_id t \<and> tk_projectId u = tk_projectId t"
  by (auto simp: endpoint_spec_def approveTaskForQueue_def resetTaskForRetry_t_def markTaskBlocked_def
      resetClaim_def markTaskQueued_def Let_def split: task_endpoint.splits if_splits)

lemma endpoint_runs:
  assumes "rq_authorized req" "rq_missingScope req = None" "rq_body req = Some (JObj ob)" "safe_id p" "safe_id i"
  shows "\<exists>k pl. handle_route opts req (endpoint_path e p i) w =
    (case stored_task (e_projectsDir opts) (w_fs w) (p, i) of
       None \<Rightarrow> (Inr (Some \<lparr>rs_status = 404, rs_body = ErrorBody ''invalid_request_error'' (''task not found: '' @ i)\<rparr>), w)
     | Some t \<Rightarrow>
         (case endpoint_spec e (JObj ob) t of
            None \<Rightarrow> (Inr (Some \<lparr>rs_status = 409, rs_body = ErrorBody ''conflict''
                (''task is not in backlog (status='' @ task_status_name (tk_status t) @ '')'')\<rparr>), w)
          | Some u \<Rightarrow> store_next opts k pl u w))"
proof (cases e)
  case ApproveEndpoint
  then show ?thesis
    using assms by (intro exI [of _ KTaskApproved] exI [of _ "[(''projectId'', JStr p), (''taskId'', JStr i)]"])
      (simp add: handle_route_def endpoint_path_def handleApproveTask_def authorizeGetForProjects_def with_task_safe
        endpoint_spec_def reply_def split: option.split)
next
  case RetryEndpoint
  then show ?thesis
    using assms by (intro exI [of _ KTaskQueued] exI [of _ "[(''projectId'', JStr p), (''taskId'', JStr i)]"])
      (simp add: handle_route_def endpoint_path_def handleRetryTask_def authorizeGetForProjects_def with_task_safe
        endpoint_spec_def split: option.split)
next
  case BlockEndpoint
  then show ?thesis
    using assms
    by (intro exI [of _ KTaskBlocked] exI [of _ "[(''projectId'', JStr p), (''taskId'', JStr i), (''reason'', JStr (block_reason (JObj ob)))]"])
      (simp add: handle_route_def endpoint_path_def handleBlockTask_def readPostBody_def with_task_safe
        endpoint_spec_def Let_def split: option.split)
qed

section \<open>Properties\<close>


definition sample_http_opts :: "unit http_opts" where
  "sample_http_opts = env.extend sample_penv
     (http_opts.fields None (\<lambda>n req. Inr sample_reply) (Inr []) (\<lambda>n. n) (\<lambda>p ts. return_m 0))"

definition sample_request :: http_request where
  "sample_request = \<lparr>rq_method = ''POST'', rq_pathname = ''/v1/projects/p1/tasks/t1/approve'', rq_authorized = True,
     rq_missingScope = None, rq_body = Some (JObj [])\<rparr>"


end
