(* ===== verification/Self_Coder_Loop.thy ===== *)
theory Self_Coder_Loop
  imports Capability_Store
begin

text \<open>
  The self-coder loop, \<^verbatim>\<open>src/projects/self-coder-loop.ts\<close>: a pass gives every open capability
  request one task on the board of the project that asked for it, and the operator has to approve
  that task before it runs.
\<close>

section \<open>Operations\<close>

definition SELF_CODER_DEFAULT_INTERVAL_MS :: int where
  "SELF_CODER_DEFAULT_INTERVAL_MS = 60000"

definition SELF_CODER_MIN_INTERVAL_MS :: int where
  "SELF_CODER_MIN_INTERVAL_MS = 10000"

definition SELF_CODER_EXPERT_ID :: string where
  "SELF_CODER_EXPERT_ID = ''engineering-self-coder''"

definition resolveProjectsDir :: "path \<Rightarrow> path" where
  "resolveProjectsDir stateDir = stateDir @ [''projects'']"

definition codes_for :: "cap_request \<Rightarrow> task \<Rightarrow> bool" where
  "codes_for request t \<longleftrightarrow> tk_role t = SelfCoder \<and> map_of (tk_input t) ''requestId'' = Some (JStr (cq_id request))"

definition self_coder_draft :: "cap_request \<Rightarrow> task_draft" where
  "self_coder_draft request =
     \<lparr>d_title = ''Self-code: '' @ cq_integration request,
      d_description = ''Generate a brand-new capability for the integration '' @ [CHR 0x22] @ cq_integration request @ [CHR 0x22]
        @ ''. Reason: '' @ cq_why request @ ''.'',
      d_role = SelfCoder, d_dependsOn = [], d_input = [(''requestId'', JStr (cq_id request))], d_priority = Some High,
      d_requiresApproval = Some True, d_expertId = Some SELF_CODER_EXPERT_ID\<rparr>"

definition self_coder_task_id :: "cap_request \<Rightarrow> string" where
  "self_coder_task_id request =
     ''task-sc-'' @ (if take 4 (cq_id request) = ''cap-'' then drop 4 (cq_id request) else cq_id request)"

definition maybeCreateSelfCoderTask :: "'e env_scheme \<Rightarrow> path \<Rightarrow> cap_request \<Rightarrow> (cap_world, unit) prog" where
  "maybeCreateSelfCoderTask env projectsDir request =
     bind_m (on_fs (loadProject projectsDir (cq_projectId request))) (\<lambda>found.
       case found of
         None \<Rightarrow> return_m ()
       | Some project \<Rightarrow>
           bind_m (on_fs (listTasks projectsDir (cq_projectId request))) (\<lambda>tasks.
           if list_ex (codes_for request) tasks then return_m ()
           else
             bind_m (now_m env) (\<lambda>ts.
             let r = createTaskRecord (self_coder_task_id request) (pr_id project) (self_coder_draft request)
                   (PlannerOrigin ''self-coder-loop'') ts
             in seq_m (on_fs (saveTask projectsDir r))
               (audit_if env KTaskCreated
                 [(''projectId'', JStr (pr_id project)), (''taskId'', JStr (tk_id r)), (''role'', JStr (role_name (tk_role r))),
                  (''expertId'', JStr SELF_CODER_EXPERT_ID), (''requestId'', JStr (cq_id request)),
                  (''integration'', JStr (cq_integration request)),
                  (''origin'', JObj [(''kind'', JStr ''self-coder-loop'')])]))))"

definition coding_step :: "'e env_scheme \<Rightarrow> path \<Rightarrow> cap_request \<Rightarrow> (cap_world, unit) prog" where
  "coding_step env projectsDir request = catch_m (maybeCreateSelfCoderTask env projectsDir request) (\<lambda>err. return_m ())"

definition open_requests :: "cap_request list \<Rightarrow> cap_request list" where
  "open_requests requests = filter (\<lambda>r. cq_status r = ReqOpen) requests"

definition self_coder_pass :: "'e env_scheme \<Rightarrow> path \<Rightarrow> (cap_world, unit) prog" where
  "self_coder_pass env stateDir =
     bind_m (on_fs (readCapabilityRequests stateDir)) (\<lambda>requests.
     for_m (open_requests requests) (coding_step env (resolveProjectsDir stateDir)))"

text \<open>The module's state: the interval of the timer when one is set, and the flag a pass sets.\<close>

record self_coder_state =
  sc_timer :: "int option"
  sc_ticking :: bool

definition startSelfCoderLoop :: "bool \<Rightarrow> int option \<Rightarrow> self_coder_state \<Rightarrow> bool \<times> self_coder_state" where
  "startSelfCoderLoop enabled intervalMs s =
     (if \<not> enabled then (False, s)
      else if sc_timer s \<noteq> None then (True, s)
      else (True, s\<lparr>sc_timer := Some (max SELF_CODER_MIN_INTERVAL_MS (nullish intervalMs SELF_CODER_DEFAULT_INTERVAL_MS))\<rparr>))"

definition stopSelfCoderLoop :: "self_coder_state \<Rightarrow> self_coder_state" where
  "stopSelfCoderLoop s = (if sc_timer s \<noteq> None then s\<lparr>sc_timer := None\<rparr> else s)"

definition tickSelfCoderLoop :: "'e env_scheme \<Rightarrow> path \<Rightarrow> (self_coder_state \<times> cap_world, unit) prog" where
  "tickSelfCoderLoop env stateDir = (\<lambda>(s, w).
     if sc_ticking s then (Inr (), (s, w))
     else case self_coder_pass env stateDir w of (r, w') \<Rightarrow> (r, (s\<lparr>sc_ticking := False\<rparr>, w')))"

definition listOpenCapabilityRequests :: "path \<Rightarrow> (cap_fs, cap_request list) prog" where
  "listOpenCapabilityRequests stateDir =
     bind_m (readCapabilityRequests stateDir) (\<lambda>all.
     return_m (filter (\<lambda>r. cq_status r = ReqOpen \<or> cq_status r = ReqInProgress) all))"

definition listProjectCapabilityRequests :: "path \<Rightarrow> string \<Rightarrow> (cap_fs, cap_request list) prog" where
  "listProjectCapabilityRequests stateDir projectId =
     bind_m (readCapabilityRequests stateDir) (\<lambda>all. return_m (filter (\<lambda>r. cq_projectId r = projectId) all))"

section \<open>Facts\<close>

definition request_key :: "cap_request \<Rightarrow> string \<times> string" where
  "request_key r = (cq_projectId r, self_coder_task_id r)"

text \<open>The board can take the request's task: its listing is readable, the project is stored under its
  own id, the task's id is a file name, and what is stored under it, if anything, is this task.\<close>

definition ready :: "path \<Rightarrow> 'x state_fs \<Rightarrow> cap_request \<Rightarrow> bool" where
  "ready dir fs r \<longleftrightarrow> store_wf dir (cq_projectId r) fs \<and> safe_id (self_coder_task_id r)
     \<and> (case stored_project dir fs (cq_projectId r) of None \<Rightarrow> True | Some project \<Rightarrow> pr_id project = cq_projectId r)
     \<and> (case stored_task dir fs (request_key r) of None \<Rightarrow> True | Some t \<Rightarrow> codes_for r t)"

definition covered :: "path \<Rightarrow> 'x state_fs \<Rightarrow> cap_request \<Rightarrow> bool" where
  "covered dir fs r \<longleftrightarrow> stored_project dir fs (cq_projectId r) = None
     \<or> list_ex (codes_for r) (task_list dir (cq_projectId r) fs)"

definition coded :: "cap_request \<Rightarrow> string \<Rightarrow> task" where
  "coded r ts = createTaskRecord (self_coder_task_id r) (cq_projectId r) (self_coder_draft r) (PlannerOrigin ''self-coder-loop'') ts"

lemma coded_simps [simp]:
  "tk_id (coded r ts) = self_coder_task_id r" "tk_projectId (coded r ts) = cq_projectId r" "codes_for r (coded r ts)"
  by (simp_all add: coded_def createTaskRecord_def Let_def self_coder_draft_def codes_for_def)

lemma covered_stored:
  "store_wf dir (cq_projectId r) fs \<Longrightarrow> covered dir fs r \<longleftrightarrow>
     stored_project dir fs (cq_projectId r) = None \<or> (\<exists>i t. stored_task dir fs (cq_projectId r, i) = Some t \<and> codes_for r t)"
  by (auto simp: covered_def list_ex_iff task_list_iff) (use stored_task_keyed(1) task_list_iff in metis)

lemma covered_skips:
  assumes "store_wf dir (cq_projectId r) (w_fs w)" "covered dir (w_fs w) r"
  shows "maybeCreateSelfCoderTask env dir r w = (Inr (), w)"
proof -
  have "safe_id (cq_projectId r)" using assms(1) by (simp add: store_wf_def)
  then show ?thesis
    using assms(2) listTasks_wf [OF assms(1)]
    by (auto simp: maybeCreateSelfCoderTask_def bind_m_apply on_fs_apply loadProject_safe covered_def split: option.splits)
qed

lemma uncovered_creates:
  assumes "ready dir (w_fs w) r" "\<not> covered dir (w_fs w) r"
  shows "w_fs (snd (maybeCreateSelfCoderTask env dir r w)) = snd (saveTask dir (coded r (e_now env (w_clock w))) (w_fs w))"
proof -
  have wf: "store_wf dir (cq_projectId r) (w_fs w)" "safe_id (cq_projectId r)" "safe_id (self_coder_task_id r)"
    using assms(1) by (simp_all add: ready_def store_wf_def)
  obtain project where "stored_project dir (w_fs w) (cq_projectId r) = Some project" "pr_id project = cq_projectId r"
    using assms by (auto simp: ready_def covered_def split: option.splits)
  moreover have "fst (saveTask dir (coded r ts) fs) = Inr ()" for ts and fs :: cap_fs
    using wf by (simp add: saveTask_safe)
  ultimately show ?thesis
    using assms(2) listTasks_wf [OF wf(1)] wf
    by (simp add: maybeCreateSelfCoderTask_def bind_m_apply seq_m_apply on_fs_apply loadProject_safe covered_def Let_def now_m_def
        audit_if_fs flip: coded_def)
qed

lemma coding_effect:
  fixes env :: "'e env_scheme"
  assumes "ready dir (w_fs w) r" "ready dir (w_fs w) q" "request_key r = request_key q \<Longrightarrow> r = q"
  defines "fs' \<equiv> w_fs (snd (maybeCreateSelfCoderTask env dir r w))"
  shows "ready dir fs' q" "covered dir (w_fs w) q \<Longrightarrow> covered dir fs' q" "covered dir fs' r"
    "length p \<le> Suc (length dir) \<Longrightarrow> read_file fs' p = read_file (w_fs w) p"
proof -
  have wf: "store_wf dir (cq_projectId r) (w_fs w)" "store_wf dir (cq_projectId q) (w_fs w)" "safe_id (cq_projectId r)" "safe_id (self_coder_task_id r)"
    using assms(1,2) by (simp_all add: ready_def store_wf_def)
  have "ready dir fs' q \<and> (covered dir (w_fs w) q \<longrightarrow> covered dir fs' q) \<and> covered dir fs' r
      \<and> (length p \<le> Suc (length dir) \<longrightarrow> read_file fs' p = read_file (w_fs w) p)" for p
  proof (cases "covered dir (w_fs w) r")
    case True
    then show ?thesis
      using assms(2) covered_skips [OF wf(1) True, of env] by (simp add: fs'_def)
  next
    case False
    let ?t = "coded r (e_now env (w_clock w))"
    have fs': "fs' = snd (saveTask dir ?t (w_fs w))" using uncovered_creates [OF assms(1) False] by (simp add: fs'_def)
    have free: "stored_task dir (w_fs w) (request_key r) = None"
      using False assms(1) by (auto simp: covered_stored [OF wf(1)] ready_def request_key_def split: option.splits)
    have stored: "stored_task dir fs' k = (if k = request_key r then Some ?t else stored_task dir (w_fs w) k)"
      "stored_project dir fs' i = stored_project dir (w_fs w) i" for k i
      using wf by (simp_all add: fs' stored_saveTask request_key_def)
    have wf': "store_wf dir (cq_projectId r) fs'" "store_wf dir (cq_projectId q) fs'"
      using wf by (simp_all add: fs' store_wf_saveTask)
    have "case stored_task dir fs' (request_key q) of None \<Rightarrow> True | Some t \<Rightarrow> codes_for q t"
    proof (cases "request_key q = request_key r")
      case True
      then show ?thesis using assms(3) by (simp add: stored)
    next
      case False
      then show ?thesis using assms(2) by (simp add: stored ready_def)
    qed
    then have "ready dir fs' q" using assms(2) wf'(2) unfolding ready_def stored(2) by blast
    moreover have "covered dir (w_fs w) q \<longrightarrow> covered dir fs' q"
      unfolding covered_stored [OF wf(2)] covered_stored [OF wf'(2)] stored using free by (metis option.distinct(1))
    moreover have "covered dir fs' r"
      by (auto simp: covered_stored [OF wf'(1)] stored request_key_def)
    ultimately show ?thesis by (auto simp: fs' read_saveTask)
  qed
  then show "ready dir fs' q" "covered dir (w_fs w) q \<Longrightarrow> covered dir fs' q" "covered dir fs' r"
    "length p \<le> Suc (length dir) \<Longrightarrow> read_file fs' p = read_file (w_fs w) p" by blast+
qed

lemma coding_step_world: "coding_step env dir r w = (Inr (), snd (maybeCreateSelfCoderTask env dir r w))"
  by (simp add: coding_step_def catch_m_apply split: prod.split sum.split)

lemma coding_loop:
  fixes env :: "'e env_scheme"
  assumes "inj_on request_key (set rs)" "set xs \<subseteq> set rs" "\<forall>r \<in> set rs. ready dir (w_fs w) r"
  defines "w' \<equiv> snd (for_m xs (coding_step env dir) w)"
  shows "(\<forall>r \<in> set rs. ready dir (w_fs w') r \<and> (covered dir (w_fs w) r \<longrightarrow> covered dir (w_fs w') r))
    \<and> (\<forall>r \<in> set xs. covered dir (w_fs w') r)
    \<and> (\<forall>p. length p \<le> Suc (length dir) \<longrightarrow> read_file (w_fs w') p = read_file (w_fs w) p)"
  using assms(2,3) unfolding w'_def
proof (induction xs arbitrary: w)
  case (Cons x xs)
  let ?w = "snd (maybeCreateSelfCoderTask env dir x w)"
  have x: "x \<in> set rs" using Cons.prems by simp
  have eff: "ready dir (w_fs ?w) r" "covered dir (w_fs w) r \<Longrightarrow> covered dir (w_fs ?w) r" "covered dir (w_fs ?w) x"
    "length p \<le> Suc (length dir) \<Longrightarrow> read_file (w_fs ?w) p = read_file (w_fs w) p" if "r \<in> set rs" for r p
    using coding_effect [where env = env and dir = dir and w = w and r = x and q = r] that x Cons.prems(2) assms(1) by (auto dest: inj_onD)
  have "(\<forall>r \<in> set rs. ready dir (w_fs (snd (for_m xs (coding_step env dir) ?w))) r
        \<and> (covered dir (w_fs ?w) r \<longrightarrow> covered dir (w_fs (snd (for_m xs (coding_step env dir) ?w))) r))
    \<and> (\<forall>r \<in> set xs. covered dir (w_fs (snd (for_m xs (coding_step env dir) ?w))) r)
    \<and> (\<forall>p. length p \<le> Suc (length dir) \<longrightarrow> read_file (w_fs (snd (for_m xs (coding_step env dir) ?w))) p = read_file (w_fs ?w) p)"
    using Cons.prems(1) eff(1) by (intro Cons.IH) auto
  with eff x show ?case by (simp add: seq_m_apply coding_step_world [of env dir x w])
qed simp

lemma covered_loop:
  "\<forall>r \<in> set xs. ready dir (w_fs w) r \<and> covered dir (w_fs w) r \<Longrightarrow> for_m xs (coding_step env dir) w = (Inr (), w)"
proof (induction xs)
  case (Cons x xs)
  then show ?case by (simp add: seq_m_apply coding_step_world [of env dir x w] covered_skips ready_def)
qed simp

lemma reread:
  assumes "fst (readCapabilityRequests d fs) = Inr requests" "read_file fs' (resolveCapabilityRequestsPath d) = read_file fs (resolveCapabilityRequestsPath d)"
    "requests \<noteq> []"
  shows "fst (readCapabilityRequests d fs') = Inr requests"
  using assms by (auto simp: readCapabilityRequests_def bind_m_apply split: option.splits bool.splits state_file.splits cap_file.splits)

section \<open>Properties\<close>

text \<open>A pass is idempotent: when the boards the open requests name are in order and no two of the
  requests share a task id on one board, a second pass right after the first changes nothing at all, and
  after the first every open request whose project exists has a self-coder task. (Two requests that
  do share an id overwrite each other's task on every pass.)\<close>

lemma self_coder_idempotent:
  assumes read: "fst (readCapabilityRequests stateDir (w_fs w)) = Inr requests"
    and boards: "\<forall>r \<in> set (open_requests requests). ready (resolveProjectsDir stateDir) (w_fs w) r"
    and keys: "inj_on request_key (set (open_requests requests))"
  shows "self_coder_pass env stateDir (snd (self_coder_pass env stateDir w)) = (Inr (), snd (self_coder_pass env stateDir w))
    \<and> (\<forall>r \<in> set (open_requests requests). covered (resolveProjectsDir stateDir) (w_fs (snd (self_coder_pass env stateDir w))) r)"
proof -
  let ?dir = "resolveProjectsDir stateDir" and ?w = "snd (self_coder_pass env stateDir w)"
  have pass: "self_coder_pass env stateDir v = for_m (open_requests rs) (coding_step env ?dir) v"
    if "fst (readCapabilityRequests stateDir (w_fs v)) = Inr rs" for v rs
    using that by (simp add: self_coder_pass_def bind_m_apply on_fs_apply)
  have loop: "(\<forall>r \<in> set (open_requests requests). ready ?dir (w_fs ?w) r \<and> covered ?dir (w_fs ?w) r)"
    "length p \<le> Suc (length ?dir) \<Longrightarrow> read_file (w_fs ?w) p = read_file (w_fs w) p" for p
    using coding_loop [OF keys subset_refl boards, of env] pass [OF read] by auto
  have "self_coder_pass env stateDir ?w = (Inr (), ?w)"
  proof (cases "requests = []")
    case True
    then have "?w = w" using pass [OF read] by (simp add: open_requests_def)
    with True pass [OF read] show ?thesis by (simp add: open_requests_def)
  next
    case False
    then have "fst (readCapabilityRequests stateDir (w_fs ?w)) = Inr requests"
      by (intro reread [OF read] loop(2)) (simp_all add: resolveCapabilityRequestsPath_def resolveProjectsDir_def)
    then show ?thesis using pass covered_loop [OF loop(1)] by simp
  qed
  with loop(1) show ?thesis by blast
qed

definition sample_board :: cap_world where
  "sample_board = sample_cap_world (snd (saveProject [''state'', ''projects''] sample_cap_project
     (requests_fs [sample_cap_request ''stripe'' ReqOpen])))"

lemma sample_board_facts:
  "fst (readCapabilityRequests [''state''] (w_fs sample_board)) = Inr [sample_cap_request ''stripe'' ReqOpen]"
  "open_requests [sample_cap_request ''stripe'' ReqOpen] = [sample_cap_request ''stripe'' ReqOpen]"
  "ready (resolveProjectsDir [''state'']) (w_fs sample_board) (sample_cap_request ''stripe'' ReqOpen)"
  by code_simp+

lemma self_coder_idempotent_witness:
  "self_coder_pass quiet_env [''state''] (snd (self_coder_pass quiet_env [''state''] sample_board)) =
     (Inr (), snd (self_coder_pass quiet_env [''state''] sample_board))"
  using self_coder_idempotent [of "[''state'']" sample_board "[sample_cap_request ''stripe'' ReqOpen]" quiet_env] sample_board_facts by simp

text \<open>A pass puts nothing on a board that could run by itself: every task it adds or replaces is
  the self-coder task of an open request, in the backlog, gated on the operator's approval, and the
  pickup loop will not take it.\<close>

lemma self_coder_needs_approval:
  assumes read: "fst (readCapabilityRequests stateDir (w_fs w)) = Inr requests"
    and new: "stored_task (resolveProjectsDir stateDir) (w_fs (snd (self_coder_pass env stateDir w))) k = Some t"
      "stored_task (resolveProjectsDir stateDir) (w_fs w) k \<noteq> Some t"
  shows "(\<exists>r \<in> set (open_requests requests). codes_for r t) \<and> tk_status t = Backlog \<and> tk_requiresApproval t = Some True
    \<and> \<not> isTaskEligibleForPickup t tasks"
proof -
  let ?dir = "resolveProjectsDir stateDir"
  let ?ok = "\<lambda>fs. \<forall>t. stored_task ?dir fs k = Some t \<longrightarrow> stored_task ?dir (w_fs w) k = Some t
      \<or> ((\<exists>r \<in> set (open_requests requests). codes_for r t) \<and> tk_status t = Backlog \<and> tk_requiresApproval t = Some True)"
  have save: "preserves ?ok (saveTask ?dir (createTaskRecord (self_coder_task_id r) i (self_coder_draft r) og ts))"
    if "r \<in> set (open_requests requests)" for r i og ts
    by (rule preservesI) (use that in \<open>auto simp: stored_saveTask createTaskRecord_def Let_def self_coder_draft_def codes_for_def\<close>)
  have "preserves (fs_inv ?ok) (coding_step env ?dir r)" if "r \<in> set (open_requests requests)" for r
    unfolding coding_step_def maybeCreateSelfCoderTask_def Let_def
    by (intro preserves_intros on_fs_inv save that loadProject_keeps listTasks_keeps)
  then have "preserves (fs_inv ?ok) (for_m (open_requests requests) (coding_step env ?dir))" by (rule preserves_for)
  then have "fs_inv ?ok (snd (self_coder_pass env stateDir w))"
    using read preservesD [of "fs_inv ?ok" _ w] by (simp add: self_coder_pass_def bind_m_apply on_fs_apply fs_inv_def)
  then show ?thesis using new by (auto simp: fs_inv_def isTaskEligibleForPickup_def)
qed

lemma self_coder_needs_approval_witness:
  "\<exists>t. stored_task [''state'', ''projects''] (w_fs (snd (self_coder_pass quiet_env [''state''] sample_board))) (''p1'', ''task-sc-c1'') = Some t
     \<and> tk_status t = Backlog \<and> \<not> isTaskEligibleForPickup t []"
proof -
  let ?dir = "[''state'', ''projects'']"
  have dir: "resolveProjectsDir [''state''] = ?dir" by (simp add: resolveProjectsDir_def)
  have "stored_task ?dir (w_fs sample_board) (''p1'', ''task-sc-c1'') = None" by code_simp
  moreover have "stored_task ?dir (w_fs (snd (self_coder_pass quiet_env [''state''] sample_board))) (''p1'', ''task-sc-c1'') \<noteq> None" by code_simp
  then obtain t where "stored_task ?dir (w_fs (snd (self_coder_pass quiet_env [''state''] sample_board))) (''p1'', ''task-sc-c1'') = Some t" by blast
  ultimately show ?thesis
    using self_coder_needs_approval [OF sample_board_facts(1), of quiet_env "(''p1'', ''task-sc-c1'')" t "[]"] dir by auto
qed

end
