(* ===== verification/Evaluator.thy ===== *)
theory Evaluator
  imports Goal_Evaluator Cost
begin

text \<open>
  The evaluator the pickup loop's idle handler consults, \<^verbatim>\<open>src/projects/evaluator.ts\<close>: the
  checks it makes before asking the model, the summaries of the board, and reading the reply.
  The model's answer is an argument; it is asked with the two summaries and the iteration. The
  arrow and the dash of the texts are code units above 255 and are represented by the units
  \<open>0x1A\<close> and \<open>0x97\<close>. An iteration is the JSON number the project's metadata holds.
\<close>

section \<open>Summaries of the board\<close>

definition ARROW :: string where
  "ARROW = [CHR 0x1A]"

definition EM_DASH :: string where
  "EM_DASH = [CHR 0x97]"

definition renderOutputBlurb :: "json option \<Rightarrow> string" where
  "renderOutputBlurb output =
     (case output of
        None \<Rightarrow> []
      | Some JNull \<Rightarrow> []
      | Some (JStr s) \<Rightarrow> truncate_text s 280
      | Some v \<Rightarrow>
          if is_object_value v then
            (case List.map_filter (\<lambda>key. case json_field v key of
                 Some (JStr s) \<Rightarrow> if js_trim s \<noteq> [] then Some s else None | _ \<Rightarrow> None)
               [''summary'', ''text'', ''notes'', ''markdown'', ''result''] of
               s # _ \<Rightarrow> truncate_text s 280
             | [] \<Rightarrow> truncate_text (stringify v) 280)
          else truncate_text (stringify v) 280)"

definition summary_line :: "nat \<Rightarrow> task \<Rightarrow> string" where
  "summary_line i t =
     (let outputBlurb = renderOutputBlurb (tk_output t);
          head = show_nat (i + 1) @ ''. ['' @ role_name (tk_role t) @ ''] '' @ tk_title t
            @ '' ('' @ task_status_name (tk_status t) @ '')''
      in if outputBlurb \<noteq> [] then head @ [CHR 0x0A] @ ''   '' @ ARROW @ '' '' @ outputBlurb else head)"

definition summarizeTasks :: "task list \<Rightarrow> string" where
  "summarizeTasks tasks =
     (if tasks = [] then ''(none)''
      else join_with [CHR 0x0A] (map2 summary_line [0..<length tasks] tasks))"

section \<open>Reading the reply\<close>

datatype verdict = VAchieved | VNeedsMore | VStuck

record evaluation_outcome =
  eo_verdict :: verdict
  eo_feedback :: string
  eo_priorResultsSummary :: string
  eo_costUsd :: "rat option"

record raw_evaluation =
  rw_verdict :: "string option"
  rw_feedback :: "string option"
  rw_summary :: "string option"

text \<open>\<open>/^```(?:json)?\s*([\s\S]*?)\s*```$/\<close> on the trimmed text.\<close>

definition whole_fence :: "string \<Rightarrow> string option" where
  "whole_fence s =
     (if 6 \<le> length s \<and> starts_with ''```'' s \<and> ends_with ''```'' s then
        let inner = take (length s - 6) (drop 3 s)
        in Some (rtrim (dropWhile js_whitespace (if starts_with ''json'' inner then drop 4 inner else inner)))
      else None)"

definition string_field :: "json \<Rightarrow> string \<Rightarrow> string option" where
  "string_field v k = (case json_field v k of Some (JStr s) \<Rightarrow> Some s | _ \<Rightarrow> None)"

definition parse_evaluation :: "string \<Rightarrow> raw_evaluation" where
  "parse_evaluation text =
     (let trimmed = js_trim text;
          body = nullish (whole_fence trimmed) trimmed;
          prose = \<lparr>rw_verdict = Some ''needs-more'', rw_feedback = Some body, rw_summary = None\<rparr>
      in case json_parse body of
           None \<Rightarrow> prose
         | Some parsed \<Rightarrow>
             if is_object_value parsed then
               \<lparr>rw_verdict = string_field parsed ''verdict'', rw_feedback = string_field parsed ''feedback'',
                rw_summary = string_field parsed ''summary''\<rparr>
             else prose)"

definition normalizeVerdict :: "string option \<Rightarrow> verdict" where
  "normalizeVerdict input =
     (let v = js_lower (nullish input [])
      in if v = ''achieved'' then VAchieved else if v = ''stuck'' then VStuck else VNeedsMore)"

definition defaultFeedbackFor :: "verdict \<Rightarrow> string" where
  "defaultFeedbackFor v =
     (case v of VAchieved \<Rightarrow> ''Goal achieved.''
      | VStuck \<Rightarrow> ''Loop is stuck '' @ EM_DASH @ '' operator review needed.''
      | VNeedsMore \<Rightarrow> ''Plan more work toward the goal.'')"

section \<open>The evaluation\<close>

definition EVALUATOR_MAX_ITERATIONS :: nat where
  "EVALUATOR_MAX_ITERATIONS = 5"

definition defaultMaxIterations :: nat where
  "defaultMaxIterations = EVALUATOR_MAX_ITERATIONS"

text \<open>\<open>iteration >= max\<close> for the number in the metadata.\<close>

definition reaches :: "json \<Rightarrow> nat \<Rightarrow> bool" where
  "reaches iteration limit = (case json_number iteration of None \<Rightarrow> False | Some q \<Rightarrow> of_nat limit \<le> q)"

type_synonym board_llm = "project \<Rightarrow> json \<Rightarrow> string \<Rightarrow> string \<Rightarrow> string + string \<times> llm_usage option"

definition evaluate :: "board_llm \<Rightarrow> nat option \<Rightarrow> project \<Rightarrow> task list \<Rightarrow> json \<Rightarrow> evaluation_outcome" where
  "evaluate llm maxIterations project tasks iteration =
     (let completedTasks = filter (\<lambda>t. tk_status t = Done) tasks;
          failedTasks = filter (\<lambda>t. tk_status t = Failed \<or> tk_status t = Blocked) tasks;
          reviewTasks = filter (\<lambda>t. tk_status t = Review) tasks;
          limit = nullish maxIterations EVALUATOR_MAX_ITERATIONS;
          completedSummary = summarizeTasks completedTasks
      in if reviewTasks \<noteq> [] then
           \<lparr>eo_verdict = VStuck,
            eo_feedback = show_nat (length reviewTasks) @ '' task(s) need operator approval before the loop can continue.'',
            eo_priorResultsSummary = completedSummary, eo_costUsd = None\<rparr>
         else if reaches iteration limit then
           \<lparr>eo_verdict = VStuck,
            eo_feedback = ''Hit iteration cap of '' @ show_nat limit @ '' without reaching the goal. Operator review needed.'',
            eo_priorResultsSummary = completedSummary, eo_costUsd = None\<rparr>
         else case llm project iteration completedSummary (summarizeTasks failedTasks) of
             Inl err \<Rightarrow> \<lparr>eo_verdict = VStuck, eo_feedback = ''Evaluator failed: '' @ err,
               eo_priorResultsSummary = completedSummary, eo_costUsd = None\<rparr>
           | Inr (text, usage) \<Rightarrow>
               let parsed = parse_evaluation text;
                   v = normalizeVerdict (rw_verdict parsed);
                   feedback = js_trim (nullish (rw_feedback parsed) []);
                   summary = js_trim (nullish (rw_summary parsed) [])
               in \<lparr>eo_verdict = v, eo_feedback = (if feedback \<noteq> [] then feedback else defaultFeedbackFor v),
                   eo_priorResultsSummary = (if summary \<noteq> [] then summary else completedSummary),
                   eo_costUsd = (case usage of None \<Rightarrow> None | Some u \<Rightarrow> Some (estimateCostUsd (Some u)))\<rparr>)"

end
