(* ===== verification/Goal_Handler.thy ===== *)
theory Goal_Handler
  imports Evaluator Pickup_Loop
begin

text \<open>
  The handler the gateway plugs into the pickup loop's idle hook, \<open>buildGoalLoopHandler\<close> of
  \<^verbatim>\<open>src/gateway/projects-runtime.ts\<close>: evaluate the board, then close the project, hand it to
  the operator, or plan the next round. The two models are fields of the options.
\<close>

section \<open>Definitions\<close>

record handler_opts = env +
  h_boardLlm :: "nat \<Rightarrow> board_llm"
  h_planLlm :: "nat \<Rightarrow> plan_request \<Rightarrow> string + string"

definition readIteration :: "project \<Rightarrow> json" where
  "readIteration project =
     (case (case pr_metadata project of None \<Rightarrow> None | Some md \<Rightarrow> obj_get md ''iteration'') of
        None \<Rightarrow> JNum 0
      | Some raw \<Rightarrow>
          (case json_number raw of
             None \<Rightarrow> JNum 0
           | Some q \<Rightarrow> if js_finite q \<and> 0 \<le> q then raw else JNum 0))"

text \<open>\<open>iteration + 1\<close> on the number \<open>readIteration\<close> returns, which is not negative.\<close>

fun next_number :: "json \<Rightarrow> json" where
  "next_number (JNum n) = JNum (n + 1)"
| "next_number (JDec neg i z d) = JDec neg (Suc i) z d"
| "next_number v = v"

definition with_iteration :: "project \<Rightarrow> json \<Rightarrow> string \<Rightarrow> project" where
  "with_iteration project iteration note_text =
     project\<lparr>pr_metadata := Some (obj_spread (nullish (pr_metadata project) [])
       [(''iteration'', iteration), (''lastEvaluation'', JStr note_text)])\<rparr>"

definition verdict_name :: "verdict \<Rightarrow> string" where
  "verdict_name v = (case v of VAchieved \<Rightarrow> ''achieved'' | VNeedsMore \<Rightarrow> ''needs-more'' | VStuck \<Rightarrow> ''stuck'')"

definition outcome_audit :: "('e handler_opts_scheme) \<Rightarrow> project \<Rightarrow> json \<Rightarrow> evaluation_outcome \<Rightarrow> ('x world, unit) prog" where
  "outcome_audit opts project iteration outcome =
     audit_if opts
       (case eo_verdict outcome of VAchieved \<Rightarrow> KGoalAchieved | VStuck \<Rightarrow> KStuck | VNeedsMore \<Rightarrow> KIterationStarted)
       ([(''projectId'', JStr (pr_id project)), (''iteration'', iteration),
         (''verdict'', JStr (verdict_name (eo_verdict outcome))), (''feedback'', JStr (eo_feedback outcome))]
        @ (case eo_costUsd outcome of None \<Rightarrow> [] | Some c \<Rightarrow> [(''costUsd'', usd_json c)]))"

definition next_round :: "('e handler_opts_scheme) \<Rightarrow> project \<Rightarrow> json \<Rightarrow> evaluation_outcome \<Rightarrow> ('x world, unit) prog" where
  "next_round opts project iteration outcome =
     (let nextIteration = next_number iteration;
          origin = PlannerOrigin (''iter-'' @ stringify nextIteration)
      in bind_m (on_fs (loadProject (e_projectsDir opts) (pr_id project))) (\<lambda>fresh.
         let projectAfter = nullish fresh project
         in bind_m (on_fs (listTasks (e_projectsDir opts) (pr_id project))) (\<lambda>existing.
            bind_m consult (\<lambda>call.
            bind_m (lift_m (plan (h_planLlm opts call) None []
                \<lparr>pq_projectId = pr_id project, pq_prompt = pr_goal projectAfter, pq_origin = origin,
                 pq_existing = existing,
                 pq_priorContext = Some \<lparr>pc_iteration = nextIteration, pc_goal = pr_goal projectAfter,
                   pc_evaluatorFeedback = eo_feedback outcome, pc_priorResultsSummary = eo_priorResultsSummary outcome\<rparr>\<rparr>))
              (\<lambda>planResult.
            if pl_tasks planResult = [] then
              on_fs (saveProject (e_projectsDir opts) (with_iteration (projectAfter\<lparr>pr_status := NeedsInput\<rparr>) nextIteration
                ''Evaluator wanted more work but the planner produced no new tasks. Operator needed.''))
            else
              seq_m (persistPlan opts (pr_id project) planResult origin None)
               (on_fs (saveProject (e_projectsDir opts) (with_iteration projectAfter nextIteration (eo_feedback outcome)))))))))"

definition handle_idle :: "('e handler_opts_scheme) \<Rightarrow> project \<Rightarrow> task list \<Rightarrow> ('x world, unit) prog" where
  "handle_idle opts project tasks =
     (let iteration = readIteration project
      in bind_m consult (\<lambda>call.
         let outcome = evaluate (h_boardLlm opts call) (Some defaultMaxIterations) project tasks iteration
         in seq_m (outcome_audit opts project iteration outcome)
             (case eo_verdict outcome of
                VAchieved \<Rightarrow> on_fs (saveProject (e_projectsDir opts)
                  (with_iteration (project\<lparr>pr_status := Achieved\<rparr>) iteration (eo_feedback outcome)))
              | VStuck \<Rightarrow> on_fs (saveProject (e_projectsDir opts)
                  (with_iteration (project\<lparr>pr_status := NeedsInput\<rparr>) iteration (eo_feedback outcome)))
              | VNeedsMore \<Rightarrow> next_round opts project iteration outcome)))"

definition buildGoalLoopHandler :: "('e handler_opts_scheme) \<Rightarrow> project \<Rightarrow> task list \<Rightarrow> ('x world, unit) prog" where
  "buildGoalLoopHandler opts project tasks = catch_m (handle_idle opts project tasks) (\<lambda>err. return_m ())"

section \<open>Facts\<close>

lemma handler_returns: "\<exists>w'. buildGoalLoopHandler opts project tasks w = (Inr (), w')"
  by (simp add: buildGoalLoopHandler_def catch_m_apply split: prod.split sum.split)

lemma outcome_audit_quiet:
  assumes "\<And>n. e_auditThrows opts n = None"
  obtains w' where "outcome_audit opts project iteration outcome w = (Inr (), w')" "w_fs w' = w_fs w"
  unfolding outcome_audit_def by (rule audit_if_quiet [OF assms]) blast

text \<open>Before the model is asked: tasks under review, or the cap.\<close>

lemma evaluate_stops:
  assumes "list_ex (\<lambda>t. tk_status t = Review) tasks \<or> reaches iteration (nullish limit EVALUATOR_MAX_ITERATIONS)"
  shows "eo_verdict (evaluate llm limit project tasks iteration) = VStuck"
    "evaluate llm limit project tasks iteration = evaluate llm' limit project tasks iteration"
  using assms by (auto simp: evaluate_def Let_def filter_empty_conv list_ex_iff)

lemma stopped_handler:
  assumes quiet: "\<And>n. e_auditThrows opts n = None" and safe: "safe_id (pr_id project)"
    and stop: "list_ex (\<lambda>t. tk_status t = Review) tasks \<or> reaches (readIteration project) defaultMaxIterations"
  shows "stored_project (e_projectsDir opts) (w_fs (snd (buildGoalLoopHandler opts project tasks w))) (pr_id project) =
    Some (with_iteration (project\<lparr>pr_status := NeedsInput\<rparr>) (readIteration project)
      (eo_feedback (evaluate llm (Some defaultMaxIterations) project tasks (readIteration project))))"
proof -
  let ?it = "readIteration project" and ?m = "Some defaultMaxIterations"
  let ?out = "evaluate (h_boardLlm opts (w_ids w)) ?m project tasks ?it"
  from stop have stop': "list_ex (\<lambda>t. tk_status t = Review) tasks \<or> reaches ?it (nullish ?m EVALUATOR_MAX_ITERATIONS)" by simp
  have v: "eo_verdict ?out = VStuck" and out: "?out = evaluate llm ?m project tasks ?it"
    by (rule evaluate_stops [OF stop'])+
  obtain w1 where w1: "outcome_audit opts project ?it ?out (w\<lparr>w_ids := Suc (w_ids w)\<rparr>) = (Inr (), w1)"
    by (rule outcome_audit_quiet [OF quiet])
  let ?new = "with_iteration (project\<lparr>pr_status := NeedsInput\<rparr>) ?it (eo_feedback ?out)"
  have id: "pr_id ?new = pr_id project" by (simp add: with_iteration_def)
  have "buildGoalLoopHandler opts project tasks w = (Inr (), w1\<lparr>w_fs := snd (saveProject (e_projectsDir opts) ?new (w_fs w1))\<rparr>)"
    using w1 v saveProject_safe [of ?new "e_projectsDir opts" "w_fs w1"] safe
    by (simp add: buildGoalLoopHandler_def handle_idle_def consult_def bind_m_apply seq_m_apply catch_m_apply
        on_fs_apply Let_def id)
  then show ?thesis
    using safe by (simp add: saveProject_safe id stored_project_iff out [symmetric])
qed

text \<open>A round whose plan is rejected ends in the handler's \<open>catch\<close> with nothing written.\<close>

lemma rejected_round:
  assumes quiet: "\<And>n. e_auditThrows opts n = None" and wf: "store_wf (e_projectsDir opts) (pr_id project) (w_fs w)"
    and more_work: "eo_verdict (evaluate (h_boardLlm opts (w_ids w)) (Some defaultMaxIterations) project tasks (readIteration project)) = VNeedsMore"
    and rejected: "\<And>n req. \<exists>e. plan (h_planLlm opts n) None [] req = Inl e"
  obtains w' where "buildGoalLoopHandler opts project tasks w = (Inr (), w')" "w_fs w' = w_fs w" "w_ids w' = w_ids w + 2"
proof -
  let ?out = "evaluate (h_boardLlm opts (w_ids w)) (Some defaultMaxIterations) project tasks (readIteration project)"
  have safe: "safe_id (pr_id project)" using wf by (simp add: store_wf_def)
  have "\<exists>w1. outcome_audit opts project (readIteration project) ?out (w\<lparr>w_ids := Suc (w_ids w)\<rparr>) = (Inr (), w1)
      \<and> w_fs w1 = w_fs w \<and> w_ids w1 = Suc (w_ids w)"
    using quiet by (simp add: outcome_audit_def audit_if_def emitProjectsAuditEvent_def Let_def)
  then obtain w1 where w1: "outcome_audit opts project (readIteration project) ?out (w\<lparr>w_ids := Suc (w_ids w)\<rparr>) = (Inr (), w1)"
    "w_fs w1 = w_fs w" "w_ids w1 = Suc (w_ids w)" by blast
  obtain err where err: "\<And>n req. plan (h_planLlm opts n) None [] req = Inl (err n req)" using rejected by metis
  have "\<exists>e. next_round opts project (readIteration project) ?out w1 = (Inl e, w1\<lparr>w_ids := Suc (w_ids w1)\<rparr>)"
    using wf by (simp add: next_round_def consult_def bind_m_apply on_fs_apply loadProject_safe [OF safe] w1(2) [symmetric] Let_def
        listTasks_wf err)
  then obtain e where "next_round opts project (readIteration project) ?out w1 = (Inl e, w1\<lparr>w_ids := Suc (w_ids w1)\<rparr>)" ..
  then have "buildGoalLoopHandler opts project tasks w = (Inr (), w1\<lparr>w_ids := Suc (w_ids w1)\<rparr>)"
    using w1 more_work
    by (simp add: buildGoalLoopHandler_def handle_idle_def consult_def bind_m_apply seq_m_apply catch_m_apply Let_def)
  with w1 that show ?thesis by simp
qed

lemma handler_keeps:
  assumes "\<And>t. preserves P (on_fs (saveTask (e_projectsDir opts) t))"
    "\<And>pr. preserves P (on_fs (saveProject (e_projectsDir opts) pr))"
    "\<And>m. (\<And>fs. snd (m fs) = fs) \<Longrightarrow> preserves P (on_fs (m :: ('x state_fs, task list) prog))"
    "\<And>m. (\<And>fs. snd (m fs) = fs) \<Longrightarrow> preserves P (on_fs (m :: ('x state_fs, project option) prog))"
    "\<And>k p. preserves P (emitProjectsAuditEvent opts k p)"
    "preserves P (now_m opts)" "preserves P (randomUUID opts)" "preserves P consult"
  shows "preserves P (buildGoalLoopHandler opts project tasks)"
proof -
  have "snd (listTasks d i fs) = fs" "snd (loadProject d i fs) = fs" for d i and fs :: "'x state_fs"
    using preservesD [OF listTasks_keeps, of "\<lambda>s. s = fs" fs d i] preservesD [OF loadProject_keeps, of "\<lambda>s. s = fs" fs d i]
    by simp_all
  then have reads: "preserves P (on_fs (listTasks d i))" "preserves P (on_fs (loadProject d i))" for d i
    by (intro assms(3,4); simp)+
  have "preserves P (next_round opts project it outcome)" for it outcome
    unfolding next_round_def Let_def by (intro preserves_intros persistPlan_keeps assms reads)
  moreover have "preserves P (outcome_audit opts project it outcome)" for it outcome
    unfolding outcome_audit_def by (intro preserves_intros assms)
  ultimately show ?thesis
    unfolding buildGoalLoopHandler_def handle_idle_def Let_def
    by (intro preserves_intros assms) (auto split: verdict.split intro!: assms)
qed

lemma idle_hook_runs:
  assumes "po_onProjectIdle opts = Some hook" "store_wf (e_projectsDir opts) p (w_fs w)"
    "stored_project (e_projectsDir opts) (w_fs w) p = Some project" "pr_status project = Active"
    "isProjectIdle_tick (task_list (e_projectsDir opts) p (w_fs w))"
  shows "idle_hook opts p w = hook project (task_list (e_projectsDir opts) p (w_fs w)) w"
proof -
  have "safe_id p" using assms(2) by (simp add: store_wf_def)
  with assms show ?thesis
    by (simp add: idle_hook_def bind_m_apply on_fs_apply loadProject_safe listTasks_wf when_m_apply)
qed

section \<open>Properties\<close>

text \<open>C25. The round budget: with a writable log, once five rounds are recorded in the project's metadata,
  or while a task waits for review, the handler hands the project to the operator, whatever the two
  models would answer, keeps the recorded round number and never throws.\<close>

theorem handler_stops_at_cap:
  assumes "\<And>n. e_auditThrows opts n = None" and "safe_id (pr_id project)"
    and "list_ex (\<lambda>t. tk_status t = Review) tasks \<or> reaches (readIteration project) 5"
  shows "\<exists>note_text. \<forall>boardLlm planLlm. \<forall>w :: 'x world. let run = buildGoalLoopHandler (opts\<lparr>h_boardLlm := boardLlm, h_planLlm := planLlm\<rparr>) project tasks w
    in fst run = Inr () \<and> stored_project (e_projectsDir opts) (w_fs (snd run)) (pr_id project) =
        Some (with_iteration (project\<lparr>pr_status := NeedsInput\<rparr>) (readIteration project) note_text)"
proof -
  define note_text where "note_text = eo_feedback (evaluate (\<lambda>_ _ _ _. Inl []) (Some defaultMaxIterations) project tasks (readIteration project))"
  have "stored_project (e_projectsDir opts) (w_fs (snd (buildGoalLoopHandler (opts\<lparr>h_boardLlm := b, h_planLlm := p\<rparr>) project tasks w)))
      (pr_id project) = Some (with_iteration (project\<lparr>pr_status := NeedsInput\<rparr>) (readIteration project) note_text)" for b p and w :: "'x world"
    unfolding note_text_def
    using stopped_handler [of "opts\<lparr>h_boardLlm := b, h_planLlm := p\<rparr>" project tasks w "\<lambda>_ _ _ _. Inl []"] assms
    by (simp add: defaultMaxIterations_def EVALUATOR_MAX_ITERATIONS_def)
  moreover have "fst (buildGoalLoopHandler o' project tasks w) = Inr ()" for o' :: "'a handler_opts_scheme" and w :: "'x world"
    using handler_returns [of o' project tasks w] by auto
  ultimately show ?thesis by (intro exI [of _ note_text]) (simp add: Let_def)
qed

definition sample_handler_opts :: "handler_opts" where
  "sample_handler_opts = env.extend sample_penv
     (handler_opts.fields (\<lambda>n pr it d f. Inr (''keep going'', None)) (\<lambda>n req. Inr ''{}''))"

theorem handler_stops_at_cap_witness:
  "\<exists>note_text. stored_project [''projects'']
     (w_fs (snd (buildGoalLoopHandler sample_handler_opts (sample_project\<lparr>pr_metadata := Some [(''iteration'', JNum 5)]\<rparr>) [] sample_w))) ''p1'' =
     Some (with_iteration (sample_project\<lparr>pr_metadata := Some [(''iteration'', JNum 5)], pr_status := NeedsInput\<rparr>) (JNum 5) note_text)"
proof -
  let ?p = "sample_project\<lparr>pr_metadata := Some [(''iteration'', JNum 5)]\<rparr>"
  have it: "readIteration ?p = JNum 5" by (simp add: readIteration_def js_finite_def)
  have "\<And>n. e_auditThrows sample_handler_opts n = None" "safe_id (pr_id ?p)"
    by (simp_all add: sample_handler_opts_def env.defs handler_opts.defs sample_penv_def sample_project_def safe_id_def id_char_def)
  moreover have "reaches (readIteration ?p) 5" unfolding it by (simp add: reaches_def)
  moreover have "e_projectsDir sample_handler_opts = [''projects'']" "pr_id ?p = ''p1''"
    by (simp_all add: sample_handler_opts_def env.defs sample_penv_def sample_project_def)
  moreover have "sample_handler_opts\<lparr>h_boardLlm := h_boardLlm sample_handler_opts, h_planLlm := h_planLlm sample_handler_opts\<rparr> = sample_handler_opts"
    by simp
  ultimately show ?thesis
    using handler_stops_at_cap [of sample_handler_opts ?p "[]"] unfolding Let_def it by metis
qed

text \<open>C40. A rejected plan repeats for ever: on an idle active project whose evaluation asks for more work,
  when the planner's replies are not accepted (an empty plan is one such reply) the hook writes nothing,
  so the round number never grows and the cap is never reached; every tick consults both models
  again.\<close>

theorem rejected_replan_repeats:
  assumes "po_onProjectIdle opts = Some (buildGoalLoopHandler hopts)" and "e_projectsDir hopts = e_projectsDir opts"
    and "\<And>n. e_auditThrows hopts n = None"
    and "store_wf (e_projectsDir opts) p (w_fs w)" and "stored_project (e_projectsDir opts) (w_fs w) p = Some project"
    and "pr_id project = p" and "pr_status project = Active" and "isProjectIdle_tick (task_list (e_projectsDir opts) p (w_fs w))"
    and "\<And>n. eo_verdict (evaluate (h_boardLlm hopts n) (Some defaultMaxIterations) project
          (task_list (e_projectsDir opts) p (w_fs w)) (readIteration project)) = VNeedsMore"
    and "\<And>n req. \<exists>e. plan (h_planLlm hopts n) None [] req = Inl e"
  shows "w_fs (((\<lambda>w. snd (idle_hook opts p w)) ^^ k) w) = w_fs w \<and> w_ids (((\<lambda>w. snd (idle_hook opts p w)) ^^ k) w) = w_ids w + 2 * k"
proof (induction k)
  case (Suc k)
  let ?v = "((\<lambda>w. snd (idle_hook opts p w)) ^^ k) w"
  have fs: "w_fs ?v = w_fs w" using Suc by simp
  have wf: "store_wf (e_projectsDir hopts) (pr_id project) (w_fs ?v)" using assms(2,4,6) fs by simp
  obtain w' where "buildGoalLoopHandler hopts project (task_list (e_projectsDir opts) p (w_fs w)) ?v = (Inr (), w')"
    "w_fs w' = w_fs ?v" "w_ids w' = w_ids ?v + 2"
    using rejected_round [OF assms(3) wf assms(9,10)] by metis
  then have "snd (idle_hook opts p ?v) = w'"
    using idle_hook_runs [OF assms(1), of p ?v project] assms(4,5,7,8) fs by simp
  with \<open>w_fs w' = w_fs ?v\<close> \<open>w_ids w' = w_ids ?v + 2\<close> Suc show ?case by simp
qed simp

definition sample_idle_fs :: "unit state_fs" where
  "sample_idle_fs = snd (saveTask [''projects''] (markTaskDone (sample_waiting None) None ''t'')
     (snd (saveProject [''projects''] sample_project empty_fs)))"

theorem rejected_replan_repeats_witness:
  "w_ids (((\<lambda>w. snd (idle_hook ((sample_opts (\<lambda>_. None))\<lparr>po_onProjectIdle := Some (buildGoalLoopHandler sample_handler_opts)\<rparr>) ''p1'' w)) ^^ 7)
     (sample_w\<lparr>w_fs := sample_idle_fs\<rparr>)) = 14"
proof -
  let ?o = "(sample_opts (\<lambda>_. None))\<lparr>po_onProjectIdle := Some (buildGoalLoopHandler sample_handler_opts)\<rparr>"
  let ?w = "sample_w\<lparr>w_fs := sample_idle_fs\<rparr>"
  let ?tasks = "[markTaskDone (sample_waiting None) None ''t'']"
  have dirs: "e_projectsDir ?o = [''projects'']" "e_projectsDir sample_handler_opts = [''projects'']"
    by (simp_all add: sample_opts_def sample_handler_opts_def env.defs sample_penv_def)
  have board: "store_wf [''projects''] ''p1'' sample_idle_fs" "stored_project [''projects''] sample_idle_fs ''p1'' = Some sample_project"
    "task_list [''projects''] ''p1'' sample_idle_fs = ?tasks" "isProjectIdle_tick ?tasks" "pr_id sample_project = ''p1''"
    "pr_status sample_project = Active" "w_ids sample_w = 0"
    by code_simp+
  have more_work: "eo_verdict (evaluate (h_boardLlm sample_handler_opts n) (Some defaultMaxIterations) sample_project ?tasks
      (readIteration sample_project)) = VNeedsMore" for n
  proof -
    have "h_boardLlm sample_handler_opts n = (\<lambda>pr it d f. Inr (''keep going'', None))"
      by (simp add: sample_handler_opts_def env.defs handler_opts.defs)
    moreover have "eo_verdict (evaluate (\<lambda>pr it d f. Inr (''keep going'', None)) (Some defaultMaxIterations) sample_project ?tasks
      (readIteration sample_project)) = VNeedsMore" by code_simp
    ultimately show ?thesis by simp
  qed
  have "parsePlannerResponse ''{}'' 8 [] = Inl ''planner response missing tasks[]''" by code_simp
  then have rejected: "\<exists>e. plan (h_planLlm sample_handler_opts n) None [] req = Inl e" for n req
    by (simp add: plan_def sample_handler_opts_def env.defs handler_opts.defs DEFAULT_MAX_TASKS_def)
  show ?thesis
    using rejected_replan_repeats [of ?o sample_handler_opts "''p1''" ?w sample_project 7]
    using board more_work rejected
    by (simp add: dirs) (simp add: sample_handler_opts_def env.defs handler_opts.defs sample_penv_def)
qed

end
