(* ===== verification/Project_Workers.thy ===== *)
theory Project_Workers
  imports Capability_Activator Runner
begin

text \<open>
  The workers of the board that are written in the repository itself and need no language model: the
  capability broker of \<^verbatim>\<open>src/projects/capability-broker.ts\<close>, the dispatcher of activated
  capabilities of \<^verbatim>\<open>src/projects/capability-runner-worker.ts\<close>, and the adapter of
  \<^verbatim>\<open>src/projects/orchestrator-worker-adapter.ts\<close> that runs an orchestrator worker on a
  project task. All three are instances of the worker type of the pickup loop.
\<close>

section \<open>The capability broker\<close>

record broker_opts = env +
  bk_stateDir :: path

definition readStr :: "json option \<Rightarrow> string option" where
  "readStr input =
     (case input of
        Some (JStr s) \<Rightarrow> (let trimmed = js_trim s in if length trimmed = 0 then None else Some trimmed)
      | _ \<Rightarrow> None)"

definition worker_error :: "string \<Rightarrow> project_worker_output" where
  "worker_error e = \<lparr>pwo_ok = False, pwo_result = None, pwo_error = Some e, pwo_toReview = None, pwo_costUsd = None\<rparr>"

definition worker_ok :: "json option \<Rightarrow> project_worker_output" where
  "worker_ok r = \<lparr>pwo_ok = True, pwo_result = r, pwo_error = None, pwo_toReview = None, pwo_costUsd = None\<rparr>"

definition quoted :: "string \<Rightarrow> string" where
  "quoted s = [CHR 0x22] @ s @ [CHR 0x22]"

definition known_capability :: "string \<Rightarrow> capability_entry option" where
  "known_capability integration =
     (case findCapability integration of Some e \<Rightarrow> Some e | None \<Rightarrow> findCapability (''channel:'' @ integration))"

definition awaiting_capability :: "project \<Rightarrow> cap_request \<Rightarrow> project" where
  "awaiting_capability project request =
     project\<lparr>pr_status := NeedsInput,
       pr_metadata := Some (obj_spread (nullish (pr_metadata project) [])
         [(''lastEvaluation'', JStr (''Needs capability: '' @ cq_integration request @ ''. Reason: '' @ cq_why request)),
          (''pendingCapabilityRequestId'', JStr (cq_id request))])\<rparr>"

definition requested_fields :: "cap_request \<Rightarrow> json_object" where
  "requested_fields request =
     [(''integration'', JStr (cq_integration request)), (''why'', JStr (cq_why request))] @ opt_field ''sketch'' (cq_sketch request)"

text \<open>Recording a request: the file, the event, the project, the answer.\<close>

definition record_request :: "broker_opts \<Rightarrow> project \<Rightarrow> cap_request \<Rightarrow> (cap_world, project_worker_output) prog" where
  "record_request opts project request =
     bind_m (catch_m (seq_m (on_fs (appendCapabilityRequest (bk_stateDir opts) request)) (return_m None)) (\<lambda>err. return_m (Some err)))
      (\<lambda>failed. case failed of
         Some err \<Rightarrow> return_m (worker_error (''failed to record capability request: '' @ err))
       | None \<Rightarrow>
           seq_m (audit_if opts KCapRequested
             ([(''projectId'', JStr (pr_id project)), (''taskId'', JStr (cq_taskId request)), (''requestId'', JStr (cq_id request))]
              @ requested_fields request))
          (seq_m (on_fs (saveProject (e_projectsDir opts) (awaiting_capability project request)))
           (return_m (worker_ok (Some (JObj [(''capabilityRequested'', JObj ((''id'', JStr (cq_id request)) # requested_fields request))]))))))"

definition createCapabilityBrokerWorker :: "broker_opts \<Rightarrow> cap_file project_worker" where
  "createCapabilityBrokerWorker opts input = (\<lambda>origin.
     let t = pi_task input; project = pi_project input;
         integration = readStr (map_of (tk_input t) ''integration'');
         why = readStr (map_of (tk_input t) ''why'')
     in case (integration, why) of
          (Some integration, Some why) \<Rightarrow>
            (let sketch = readStr (map_of (tk_input t) ''sketch'')
             in case known_capability integration of
                  Some existing \<Rightarrow>
                    return_m (worker_error (''Capability '' @ quoted integration @ '' already exists in the catalog ('' @ ce_id existing
                      @ '', '' @ capability_kind_name (ce_kind existing)
                      @ ''). Pivot the plan to use it instead of requesting a new one.''))
                | None \<Rightarrow>
                    bind_m (randomUUID opts) (\<lambda>uuid.
                    bind_m (now_m opts) (\<lambda>ts.
                    record_request opts project
                      \<lparr>cq_id = ''cap-'' @ take 8 uuid, cq_projectId = pr_id project, cq_taskId = tk_id t,
                       cq_integration = integration, cq_why = why, cq_sketch = sketch, cq_createdAt = ts,
                       cq_status = ReqOpen, cq_resolution = None\<rparr>)))
        | _ \<Rightarrow> return_m (worker_error ''capability-broker requires { integration, why } in task.input''))"

section \<open>The capability runner\<close>

text \<open>\<open>lookup\<close> is the loader's \<open>getCapability\<close> when the worker is called.\<close>

definition run_args :: "json option \<Rightarrow> json" where
  "run_args args = (case args of Some (JObj fs) \<Rightarrow> JObj fs | Some (JArr xs) \<Rightarrow> JArr xs | _ \<Rightarrow> JObj [])"

definition createCapabilityRunnerWorker :: "(string \<Rightarrow> loaded_capability option) \<Rightarrow> cap_file project_worker" where
  "createCapabilityRunnerWorker lookup input = (\<lambda>origin.
     let capabilityId = (case map_of (tk_input (pi_task input)) ''capability'' of Some (JStr s) \<Rightarrow> js_trim s | _ \<Rightarrow> [])
     in if capabilityId = [] then
          return_m (worker_error ''capability-runner requires { capability: string } in task.input'')
        else case lookup capabilityId of
            None \<Rightarrow> return_m (worker_error (''capability '' @ quoted capabilityId
              @ '' is not loaded. Either it was never activated (see /v1/capabilities), it was deactivated, or activation persisted but the gateway hasn'' @ [CHR 0x27] @ ''t picked it up yet.''))
          | Some loaded \<Rightarrow>
              catch_m
                (bind_m (lc_run loaded (run_args (map_of (tk_input (pi_task input)) ''args''))) (\<lambda>result. return_m (worker_ok result)))
                (\<lambda>err. return_m (worker_error (''capability '' @ quoted capabilityId @ '' threw: '' @ err))))"

section \<open>Orchestrator workers on project tasks\<close>

definition orchestratorStatusForProjectTask :: "task_status \<Rightarrow> run_task_status" where
  "orchestratorStatusForProjectTask status =
     (case status of InProgress \<Rightarrow> TRunning | Done \<Rightarrow> TSucceeded | Failed \<Rightarrow> TFailed | Review \<Rightarrow> TRunning
        | Blocked \<Rightarrow> TFailed | Backlog \<Rightarrow> TPending | Queued \<Rightarrow> TPending)"

definition toOrchestratorTask :: "task \<Rightarrow> run_task" where
  "toOrchestratorTask t =
     \<lparr>t_id = tk_id t, t_role = tk_role t,
      t_summary = (if tk_description t \<noteq> [] \<and> tk_description t \<noteq> tk_title t
        then tk_title t @ '' '' @ [CHR 0x97] @ '' '' @ tk_description t else tk_title t),
      t_input = tk_input t, t_dependsOn = tk_dependsOn t, rt_status = orchestratorStatusForProjectTask (tk_status t),
      rt_startedAt = truthy_only (tk_startedAt t), rt_completedAt = truthy_only (tk_completedAt t),
      rt_output = tk_output t, rt_error = truthy_only (tk_error t), rt_attempts = tk_attempts t\<rparr>"

text \<open>An orchestrator worker answers by the index of the call, as in the runner; the abort signal is
  the worker's own concern.\<close>

definition adaptOrchestratorWorker :: "worker \<Rightarrow> 'x project_worker" where
  "adaptOrchestratorWorker wk input = (\<lambda>origin.
     bind_m consult (\<lambda>call.
       case wk call \<lparr>wi_task = toOrchestratorTask (pi_task input), wi_dependencyOutputs = pi_dependencyOutputs input,
              wi_runId = ''project-'' @ pr_id (pi_project input), wi_workflowId = ''project-'' @ pr_id (pi_project input),
              wi_metadata = pr_metadata (pi_project input)\<rparr> of
         WorkerThrew e \<Rightarrow> throw_m e
       | WorkerReturned out \<Rightarrow>
           return_m \<lparr>pwo_ok = wo_ok out, pwo_result = wo_result out, pwo_error = wo_error out, pwo_toReview = None,
             pwo_costUsd = (case wo_costUsd out of Some (FiniteNum c) \<Rightarrow> (if c > 0 then Some (FiniteNum c) else None)
               | Some PosInfinity \<Rightarrow> Some PosInfinity | _ \<Rightarrow> None)\<rparr>))"

definition adaptOrchestratorWorkerRegistry :: "(worker_role \<Rightarrow> worker) \<Rightarrow> (worker_role \<times> 'x project_worker) list" where
  "adaptOrchestratorWorkerRegistry registry =
     map (\<lambda>r. (r, adaptOrchestratorWorker (registry r)))
       [Researcher, Writer, Editor, Publisher, EmailHandler, CapabilityBroker, SelfCoder, CapabilityRunner]"

section \<open>A gap reaches the operator\<close>

lemma append_request:
  assumes "fst (readCapabilityRequests d fs) = Inr rs"
  shows "fst (appendCapabilityRequest d r fs) = Inr ()"
    "read_file (snd (appendCapabilityRequest d r fs)) q =
       (if q = resolveCapabilityRequestsPath d then Some (OtherFile (RequestsFile (rs @ [r]))) else read_file fs q)"
  using assms by (simp_all add: appendCapabilityRequest_def bind_m_apply split: prod.splits sum.splits)
    (metis fst_conv snd_conv readRequests_reads read_write_records write_records_ok sum.inject(2) sum.distinct(1))+

lemma record_request_effect:
  assumes "fst (readCapabilityRequests (bk_stateDir opts) (w_fs w)) = Inr rs" and "safe_id (pr_id project)"
    and quiet: "\<And>n. e_auditThrows opts n = None" and dir: "e_projectsDir opts = bk_stateDir opts @ [x]"
  obtains out w' where "record_request opts project request w = (Inr out, w')" "pwo_ok out"
    "fst (readCapabilityRequests (bk_stateDir opts) (w_fs w')) = Inr (rs @ [request])"
    "stored_project (e_projectsDir opts) (w_fs w') (pr_id project) = Some (awaiting_capability project request)"
    "\<forall>k. stored_task (e_projectsDir opts) (w_fs w') k = stored_task (e_projectsDir opts) (w_fs w) k"
proof -
  let ?w = "w\<lparr>w_fs := snd (appendCapabilityRequest (bk_stateDir opts) request (w_fs w))\<rparr>"
  let ?new = "awaiting_capability project request"
  have id: "pr_id ?new = pr_id project" by (simp add: awaiting_capability_def)
  obtain w1 where audit: "audit_if opts KCapRequested
      ([(''projectId'', JStr (pr_id project)), (''taskId'', JStr (cq_taskId request)), (''requestId'', JStr (cq_id request))]
        @ requested_fields request) ?w = (Inr (), w1)" "w_fs w1 = w_fs ?w"
    by (rule audit_if_quiet [OF quiet])
  let ?w' = "w1\<lparr>w_fs := snd (saveProject (e_projectsDir opts) ?new (w_fs w1))\<rparr>"
  have files: "read_file (w_fs ?w') q = (if q = e_projectsDir opts @ [pr_id project, ''project.json''] then Some (ProjectFile ?new)
      else if q = resolveCapabilityRequestsPath (bk_stateDir opts) then Some (OtherFile (RequestsFile (rs @ [request]))) else read_file (w_fs w) q)" for q
    using assms(2) append_request(2) [OF assms(1)] by (simp add: audit(2) saveProject_safe id)
  have "record_request opts project request w = (Inr (worker_ok (Some (JObj [(''capabilityRequested'',
      JObj ((''id'', JStr (cq_id request)) # requested_fields request))]))), ?w')"
    using assms(2) append_request(1) [OF assms(1)] audit(1)
    by (simp add: record_request_def bind_m_apply seq_m_apply catch_m_apply on_fs_apply saveProject_safe id)
  moreover have "fst (readCapabilityRequests (bk_stateDir opts) (w_fs ?w')) = Inr (rs @ [request])"
    using files [of "resolveCapabilityRequestsPath (bk_stateDir opts)"] dir
    by (simp add: readCapabilityRequests_def resolveCapabilityRequestsPath_def bind_m_apply)
  moreover have "stored_project (e_projectsDir opts) (w_fs ?w') (pr_id project) = Some ?new"
    using assms(2) files by (simp add: stored_project_iff)
  moreover have "stored_task (e_projectsDir opts) (w_fs ?w') k = stored_task (e_projectsDir opts) (w_fs w) k" for k
    using files by (cases k, intro option_ext) (auto simp: stored_task_iff dir resolveCapabilityRequestsPath_def)
  ultimately show ?thesis using that by (simp add: worker_ok_def)
qed

text \<open>When a task names an integration that is neither a capability of the catalog nor one of its
  channels, the broker records exactly one more request, open and naming the project and the task,
  turns the project to \<open>needs-input\<close>, reports success, and touches no task. A known capability is
  turned down and nothing changes.\<close>

lemma broker_records_gap:
  assumes "readStr (map_of (tk_input (pi_task input)) ''integration'') = Some integration"
    and "readStr (map_of (tk_input (pi_task input)) ''why'') = Some why"
    and "fst (readCapabilityRequests (bk_stateDir opts) (w_fs w)) = Inr rs" and "safe_id (pr_id (pi_project input))"
    and quiet: "\<And>n. e_auditThrows opts n = None" and dir: "e_projectsDir opts = bk_stateDir opts @ [x]"
  shows "case known_capability integration of
      Some e \<Rightarrow> \<exists>out. createCapabilityBrokerWorker opts input origin w = (Inr out, w) \<and> \<not> pwo_ok out
    | None \<Rightarrow> \<exists>out request w'. createCapabilityBrokerWorker opts input origin w = (Inr out, w') \<and> pwo_ok out
        \<and> fst (readCapabilityRequests (bk_stateDir opts) (w_fs w')) = Inr (rs @ [request])
        \<and> cq_status request = ReqOpen \<and> cq_integration request = integration \<and> cq_why request = why
        \<and> cq_projectId request = pr_id (pi_project input) \<and> cq_taskId request = tk_id (pi_task input)
        \<and> stored_project (e_projectsDir opts) (w_fs w') (pr_id (pi_project input)) = Some (awaiting_capability (pi_project input) request)
        \<and> pr_status (awaiting_capability (pi_project input) request) = NeedsInput
        \<and> (\<forall>k. stored_task (e_projectsDir opts) (w_fs w') k = stored_task (e_projectsDir opts) (w_fs w) k)"
proof (cases "known_capability integration")
  case None
  let ?w = "w\<lparr>w_ids := Suc (w_ids w), w_clock := Suc (w_clock w)\<rparr>"
  let ?r = "\<lparr>cq_id = ''cap-'' @ take 8 (e_uuid opts (w_ids w)), cq_projectId = pr_id (pi_project input), cq_taskId = tk_id (pi_task input),
     cq_integration = integration, cq_why = why, cq_sketch = readStr (map_of (tk_input (pi_task input)) ''sketch''),
     cq_createdAt = e_now opts (w_clock w), cq_status = ReqOpen, cq_resolution = None\<rparr>"
  have "fst (readCapabilityRequests (bk_stateDir opts) (w_fs ?w)) = Inr rs" using assms(3) by simp
  then obtain out w' where "record_request opts (pi_project input) ?r ?w = (Inr out, w')" "pwo_ok out"
    "fst (readCapabilityRequests (bk_stateDir opts) (w_fs w')) = Inr (rs @ [?r])"
    "stored_project (e_projectsDir opts) (w_fs w') (pr_id (pi_project input)) = Some (awaiting_capability (pi_project input) ?r)"
    "\<forall>k. stored_task (e_projectsDir opts) (w_fs w') k = stored_task (e_projectsDir opts) (w_fs ?w) k"
    by (rule record_request_effect [OF _ assms(4) quiet dir, where request = ?r])
  moreover from this(1) have "createCapabilityBrokerWorker opts input origin w = (Inr out, w')"
    using assms(1,2) None by (simp add: createCapabilityBrokerWorker_def Let_def bind_m_apply randomUUID_def now_m_def)
  moreover have "pr_status (awaiting_capability (pi_project input) ?r) = NeedsInput" by (simp add: awaiting_capability_def)
  ultimately show ?thesis unfolding None option.case by (intro exI [of _ out] exI [of _ ?r] exI [of _ w']) simp
next
  case (Some e)
  then show ?thesis using assms(1,2) by (simp add: createCapabilityBrokerWorker_def Let_def worker_error_def)
qed

definition sample_broker :: broker_opts where
  "sample_broker = env.extend quiet_env (broker_opts.fields [''state''])"

definition sample_gap :: project_worker_input where
  "sample_gap = \<lparr>pi_task = (sample_waiting None)\<lparr>tk_input := [(''integration'', JStr '' stripe ''), (''why'', JStr ''payments'')]\<rparr>,
     pi_project = sample_cap_project, pi_dependencyOutputs = []\<rparr>"

lemma broker_records_gap_witness:
  "\<exists>request w'. snd (createCapabilityBrokerWorker sample_broker sample_gap None (sample_cap_world (requests_fs []))) = w'
     \<and> fst (readCapabilityRequests [''state''] (w_fs w')) = Inr [request] \<and> cq_integration request = ''stripe''"
proof -
  have facts: "readStr (map_of (tk_input (pi_task sample_gap)) ''integration'') = Some ''stripe''"
    "readStr (map_of (tk_input (pi_task sample_gap)) ''why'') = Some ''payments''" "known_capability ''stripe'' = None"
    "fst (readCapabilityRequests (bk_stateDir sample_broker) (w_fs (sample_cap_world (requests_fs [])))) = Inr []"
    "safe_id (pr_id (pi_project sample_gap))" "e_projectsDir sample_broker = bk_stateDir sample_broker @ [''projects'']"
    "bk_stateDir sample_broker = [''state'']"
    by code_simp+
  have "\<And>n. e_auditThrows sample_broker n = None" by (simp add: sample_broker_def env.defs quiet_env_def)
  from broker_records_gap [OF facts(1,2,4,5) this facts(6), of None] show ?thesis
    unfolding facts(3) option.case by (auto simp: facts(7))
qed

end
