(* ===== verification/Projects_Runtime.thy ===== *)
theory Projects_Runtime
  imports Goal_Handler Channel_Inbox Project_Workers
begin

text \<open>
  How the gateway assembles the board, \<^verbatim>\<open>src/gateway/projects-runtime.ts\<close>: which worker
  serves which role, the hook for idle projects, the options of the pickup loop, and the restoring of
  activated capabilities at boot. The client of the language model and of the mail service are not
  part of the repository's logic: the workers built on them, and the two models of the goal handler,
  are fields of \<open>runtime_llm\<close>.
\<close>

section \<open>Assembly\<close>

record runtime_llm =
  rl_workers :: "worker_role \<Rightarrow> worker"
  rl_emailHandler :: "cap_file project_worker"
  rl_selfCoder :: "cap_file project_worker"
  rl_boardLlm :: "nat \<Rightarrow> board_llm"
  rl_planLlm :: "nat \<Rightarrow> plan_request \<Rightarrow> string + string"

text \<open>\<open>ro_llm\<close> is \<open>None\<close> when no client could be made; \<open>ro_lookup\<close> is the loader's
  \<open>getCapability\<close> and \<open>ro_send\<close> what the durable message service answers.\<close>

record runtime_opts = env +
  ro_stateDir :: path
  ro_claimedBy :: "string option"
  ro_llm :: "runtime_llm option"
  ro_send :: channel_send
  ro_lock :: "nat \<Rightarrow> lock_answer"
  ro_lookup :: "string \<Rightarrow> loaded_capability option"

definition refuse_worker :: "'x project_worker" where
  "refuse_worker input = (\<lambda>origin. return_m (worker_error (''no LLM available '' @ [CHR 0x97]
     @ '' set ANTHROPIC_API_KEY (env or keychain) and restart the gateway'')))"

definition buildNoLlmWorkerRegistry :: "(worker_role \<times> 'x project_worker) list" where
  "buildNoLlmWorkerRegistry =
     map (\<lambda>r. (r, refuse_worker))
       [Researcher, Writer, Editor, Publisher, EmailHandler, CapabilityBroker, SelfCoder, CapabilityRunner]"

definition overrideEmailHandler ::
  "(worker_role \<times> 'x project_worker) list \<Rightarrow> 'x project_worker \<Rightarrow> (worker_role \<times> 'x project_worker) list" where
  "overrideEmailHandler registry emailHandler = AList.update EmailHandler emailHandler registry"

definition broker_of :: "runtime_opts \<Rightarrow> cap_file project_worker" where
  "broker_of opts = createCapabilityBrokerWorker (env.extend (env.truncate opts) (broker_opts.fields (ro_stateDir opts)))"

definition runtime_workers :: "runtime_opts \<Rightarrow> (worker_role \<times> cap_file project_worker) list" where
  "runtime_workers opts =
     (let runnerWorker = createCapabilityRunnerWorker (ro_lookup opts)
      in case ro_llm opts of
           Some llm \<Rightarrow>
             AList.update CapabilityRunner runnerWorker
              (AList.update SelfCoder (rl_selfCoder llm)
               (AList.update CapabilityBroker (broker_of opts)
                (overrideEmailHandler (adaptOrchestratorWorkerRegistry (rl_workers llm)) (rl_emailHandler llm))))
         | None \<Rightarrow>
             AList.update CapabilityRunner runnerWorker
              (AList.update CapabilityBroker (broker_of opts) buildNoLlmWorkerRegistry))"

definition handler_of :: "runtime_opts \<Rightarrow> runtime_llm \<Rightarrow> project \<Rightarrow> task list \<Rightarrow> (cap_world, unit) prog" where
  "handler_of opts llm =
     buildGoalLoopHandler (env.extend (env.truncate opts) (handler_opts.fields (rl_boardLlm llm) (rl_planLlm llm)))"

definition runtime_pickup :: "runtime_opts \<Rightarrow> cap_file pickup_opts" where
  "runtime_pickup opts =
     env.extend (env.truncate opts)
      (pickup_opts.fields (runtime_workers opts) (nullish (ro_claimedBy opts) ''gateway'') (Some (ro_send opts)) (ro_lock opts)
        (map_option (handler_of opts) (ro_llm opts)))"

definition runtime_inbox :: "runtime_opts \<Rightarrow> channel_inbound_event \<Rightarrow> (cap_world, unit) prog" where
  "runtime_inbox opts evt =
     (case ro_llm opts of
        Some llm \<Rightarrow> inbox_listener (env.extend (env.truncate opts) (route_opts.fields (rl_planLlm llm))) evt
      | None \<Rightarrow> return_m ())"

text \<open>What the runtime then runs: ticks of the pickup loop and inbound channel messages, in any order.\<close>

datatype runtime_event = PickupTick | Inbound channel_inbound_event

definition startProjectsRuntime :: "runtime_opts \<Rightarrow> runtime_event \<Rightarrow> (cap_world, unit) prog" where
  "startProjectsRuntime opts ev =
     (case ev of PickupTick \<Rightarrow> runPickupTick (runtime_pickup opts) | Inbound evt \<Rightarrow> runtime_inbox opts evt)"

section \<open>Boot\<close>

definition restore_one :: "cap_opts \<Rightarrow> activation \<Rightarrow> (cap_state, unit) prog" where
  "restore_one opts r = catch_m (seq_m (loadCapability opts (av_id r) (av_activeDir r)) (return_m ())) (\<lambda>err. return_m ())"

definition restore_capabilities :: "cap_opts \<Rightarrow> (cap_state, unit) prog" where
  "restore_capabilities opts =
     catch_m (bind_m (on_disk (listLiveCapabilities (cp_stateDir opts))) (\<lambda>live. for_m live (restore_one opts)))
       (\<lambda>err. return_m ())"

definition snapshotLiveCapabilities :: "cap_state \<Rightarrow> (string \<times> string) list" where
  "snapshotLiveCapabilities s =
     map (\<lambda>entry. (lc_id entry, ''Self-coded capability loaded from '' @ path_text (lc_activeDir entry) @ ''.'')) (listLoaded s)"

section \<open>Invariants of the assembled board\<close>

lemma env_extend_simps [simp]:
  "e_projectsDir (env.extend e m) = e_projectsDir e" "e_auditLogPath (env.extend e m) = e_auditLogPath e"
  "e_now (env.extend e m) = e_now e" "e_sha (env.extend e m) = e_sha e" "e_auditTs (env.extend e m) = e_auditTs e"
  "e_auditThrows (env.extend e m) = e_auditThrows e" "e_uuid (env.extend e m) = e_uuid e"
  by (simp_all add: env.defs)

lemma env_truncate_simps [simp]:
  "e_projectsDir (env.truncate e) = e_projectsDir e" "e_auditLogPath (env.truncate e) = e_auditLogPath e"
  "e_now (env.truncate e) = e_now e" "e_sha (env.truncate e) = e_sha e" "e_auditTs (env.truncate e) = e_auditTs e"
  "e_auditThrows (env.truncate e) = e_auditThrows e" "e_uuid (env.truncate e) = e_uuid e"
  by (simp_all add: env.defs)

lemma env_extend_ops:
  "emitProjectsAuditEvent (env.extend e m) k pl = emitProjectsAuditEvent e k pl" "now_m (env.extend e m) = now_m e"
  "randomUUID (env.extend e m) = randomUUID e"
  by (simp_all add: fun_eq_iff emitProjectsAuditEvent_def now_m_def randomUUID_def Let_def split: option.split)

lemma on_fs_reads: "(\<And>fs. snd (m fs) = fs) \<Longrightarrow> preserves P (on_fs m)"
  by (rule preservesI) (simp add: on_fs_apply)

text \<open>What an invariant of the world has to survive for the workers and the goal handler the gateway
  registers to keep it: the writes they make.\<close>

locale board_invariant =
  fixes e :: env and stateDir :: path and P :: "cap_world \<Rightarrow> bool"
  assumes emit: "preserves P (emitProjectsAuditEvent e k payload)"
    and reads_clock: "preserves P (now_m e)" "preserves P (randomUUID e)" "preserves P consult"
    and saves: "preserves P (on_fs (saveTask (e_projectsDir e) t))" "preserves P (on_fs (saveProject (e_projectsDir e) project))"
    and requests: "preserves P (on_fs (appendCapabilityRequest stateDir request))"
begin

lemma broker_keeps: "preserves P (createCapabilityBrokerWorker (env.extend e (broker_opts.fields stateDir)) input origin)"
proof -
  have dir: "bk_stateDir (env.extend e (broker_opts.fields stateDir)) = stateDir" by (simp add: env.defs broker_opts.defs)
  have "preserves P (record_request (env.extend e (broker_opts.fields stateDir)) project request)" for project request
    unfolding record_request_def dir by (intro preserves_intros) (simp_all add: emit saves requests env_extend_ops)
  then show ?thesis
    unfolding createCapabilityBrokerWorker_def Let_def by (intro preserves_intros) (simp_all add: reads_clock env_extend_ops)
qed

lemma handler_keeps_it: "preserves P (buildGoalLoopHandler (env.extend e (handler_opts.fields b p)) project tasks)"
  by (rule handler_keeps) (simp_all add: env_extend_ops emit reads_clock saves on_fs_reads)

lemma adapter_keeps: "preserves P (adaptOrchestratorWorker wk input origin)"
  unfolding adaptOrchestratorWorker_def by (intro preserves_intros reads_clock)

lemma runner_keeps:
  assumes "\<And>i c args. lookup i = Some c \<Longrightarrow> preserves P (lc_run c args)"
  shows "preserves P (createCapabilityRunnerWorker lookup input origin)"
  unfolding createCapabilityRunnerWorker_def Let_def by (intro preserves_intros assms)

lemma inbox_keeps: "preserves P (inbox_listener (env.extend e (route_opts.fields l)) evt)"
proof -
  have "preserves P (on_fs (findProjectForChannel d evt))" for d
    by (rule on_fs_reads) (simp add: findProjectForChannel_def bind_m_apply first_bound_reads)
  moreover have "snd (listTasks d i fs) = fs" for d i and fs :: cap_fs
    using preservesD [OF listTasks_keeps, of "\<lambda>s. s = fs" fs d i] by simp
  then have "preserves P (on_fs (listTasks d i))" for d i by (rule on_fs_reads)
  moreover have "preserves P (plan_inbound (env.extend e (route_opts.fields l)) evt project existing)" for project existing
    unfolding plan_inbound_def
    by (intro preserves_intros persistPlan_keeps) (simp_all add: env_extend_ops emit reads_clock saves)
  ultimately show ?thesis unfolding inbox_listener_def routeInboundMessage_def by (intro preserves_intros)
qed

lemma refuse_keeps: "preserves P (refuse_worker input origin)"
  unfolding refuse_worker_def by (intro preserves_intros)

end

definition foreign_keeps :: "runtime_opts \<Rightarrow> (cap_world \<Rightarrow> bool) \<Rightarrow> bool" where
  "foreign_keeps opts P \<longleftrightarrow>
     (\<forall>i c args. ro_lookup opts i = Some c \<longrightarrow> preserves P (lc_run c args))
     \<and> (\<forall>llm input slot. ro_llm opts = Some llm \<longrightarrow> preserves P (rl_emailHandler llm input slot) \<and> preserves P (rl_selfCoder llm input slot))"

lemma set_update: "(k, v) \<in> set (AList.update i x xs) \<Longrightarrow> v = x \<or> (k, v) \<in> set xs"
  by (induction xs) (auto split: if_splits)

lemma runtime_plugins_keep:
  assumes "board_invariant (env.truncate opts) (ro_stateDir opts) P" "foreign_keeps opts P"
  shows "plugins_keep (runtime_pickup opts) P"
proof -
  note inv = board_invariant.broker_keeps [OF assms(1)] board_invariant.handler_keeps_it [OF assms(1)]
    board_invariant.adapter_keeps [OF assms(1)] board_invariant.runner_keeps [OF assms(1)] board_invariant.refuse_keeps [OF assms(1)]
  have "preserves P (worker input slot)" if "(role, worker) \<in> set (runtime_workers opts)" for role worker input slot
    using that assms(2) inv
    by (auto simp: runtime_workers_def Let_def overrideEmailHandler_def adaptOrchestratorWorkerRegistry_def buildNoLlmWorkerRegistry_def
        broker_of_def foreign_keeps_def dest!: set_update split: option.splits)
  moreover have "preserves P (handler_of opts llm project tasks)" for llm project tasks
    unfolding handler_of_def by (rule inv)
  ultimately show ?thesis
    by (auto simp: plugins_keep_def runtime_pickup_def env.defs pickup_opts.defs split: option.splits)
qed

lemma append_request_wf: "preserves (store_wf (d @ [x]) p) (appendCapabilityRequest d r)"
proof (rule preservesI)
  fix fs :: cap_fs assume wf: "store_wf (d @ [x]) p fs"
  show "store_wf (d @ [x]) p (snd (appendCapabilityRequest d r fs))"
  proof (cases "fst (readCapabilityRequests d fs)")
    case (Inl err)
    then have "readCapabilityRequests d fs = (Inl err, fs)" by (metis readRequests_reads prod.collapse)
    then have "snd (appendCapabilityRequest d r fs) = fs" by (simp add: appendCapabilityRequest_def bind_m_apply)
    with wf show ?thesis by simp
  next
    case (Inr rs)
    then have "readCapabilityRequests d fs = (Inr rs, fs)" by (metis readRequests_reads prod.collapse)
    then have fs': "snd (appendCapabilityRequest d r fs) = chmodSync (resolveCapabilityRequestsPath d) 384
        (writeFileSync (resolveCapabilityRequestsPath d) 384 (OtherFile (RequestsFile (rs @ [r]))) (mkdirSync d 511 fs))"
      by (simp add: appendCapabilityRequest_def bind_m_apply write_records_def)
    have "existsSync (snd (appendCapabilityRequest d r fs)) (d @ y # z # zs) \<longleftrightarrow> existsSync fs (d @ y # z # zs)"
      "read_file (snd (appendCapabilityRequest d r fs)) (d @ y # z # zs) = read_file fs (d @ y # z # zs)" for y z zs
      using ancestors_length [of "d @ y # z # zs" d] by (auto simp: fs' resolveCapabilityRequestsPath_def)
    with wf show ?thesis by (simp add: store_wf_iff good_entry_def listed_task_def)
  qed
qed

lemma saveProject_keeps_wf: "preserves (store_wf dir p) (saveProject dir r)"
proof (rule preservesI)
  fix fs :: "'x state_fs" assume wf: "store_wf dir p fs"
  show "store_wf dir p (snd (saveProject dir r fs))"
  proof (cases "safe_id (pr_id r)")
    case True
    then show ?thesis using wf by (rule saveProject_frame(2))
  next
    case False
    then obtain err where "sanitizeId (pr_id r) = Inl err" using sanitizeId_unsafe by blast
    with wf show ?thesis by (simp add: saveProject_def resolve_defs bind_m_apply)
  qed
qed

interpretation log_board: board_invariant e stateDir "log_ok e" for e stateDir
  by unfold_locales (intro preserves_intros)+

interpretation store_board:
  board_invariant "e\<lparr>e_projectsDir := stateDir @ [''projects'']\<rparr>" stateDir "fs_inv (store_wf (stateDir @ [''projects'']) p)" for e stateDir p
  by unfold_locales (auto intro!: preserves_intros on_fs_inv append_request_wf saveProject_keeps_wf)

lemma runtime_event_keeps:
  assumes "board_invariant (env.truncate opts) (ro_stateDir opts) P" "preserves P (runPickupTick (runtime_pickup opts))"
  shows "preserves P (startProjectsRuntime opts ev)"
  using assms board_invariant.inbox_keeps [OF assms(1)]
  by (cases ev) (auto simp: startProjectsRuntime_def runtime_inbox_def preserves_return split: option.split)

lemma events_keep:
  "(\<And>ev. preserves P (step ev)) \<Longrightarrow> P w \<Longrightarrow> P (fold (\<lambda>ev w. snd (step ev w)) evs w)"
  by (induction evs arbitrary: w) (simp_all add: preservesD)


definition sample_runtime :: runtime_opts where
  "sample_runtime = env.extend quiet_env (runtime_opts.fields [''state''] None None (\<lambda>n p. None) (\<lambda>n. LockAcquired) (\<lambda>i. None))"


end
