(* ===== verification/Self_Coder.thy ===== *)
theory Self_Coder
  imports Project_Workers Evaluator Llm_Client
begin

text \<open>
  The worker that writes a capability, \<^verbatim>\<open>src/projects/self-coder.ts\<close>: it reads the request its
  task names, asks the model for files, writes them below one directory of the generated tree, marks
  the request fulfilled and stops at review. The model's answer is a field of the options. Writing is
  done on the state directory's files, where a name may already be a directory or a directory's name
  a file; the links of the tree are not followed, since no part of the program creates one. Paths are
  those of a POSIX system; \<open>sc_cwd\<close> is the working directory of the process.
\<close>

section \<open>Options\<close>

record self_coder_opts = env +
  sc_llm :: llm_client
  sc_stateDir :: path
  sc_cwd :: path
  sc_generatedRoot :: "path option"

record self_coder_file =
  sf_path :: string
  sf_contents :: string

definition DEFAULT_GENERATED_ROOT_NAME :: path where
  "DEFAULT_GENERATED_ROOT_NAME = [''extensions'', ''.generated'']"

definition SELF_CODER_MAX_TOKENS :: js_number where
  "SELF_CODER_MAX_TOKENS = FiniteNum 4096"

section \<open>The contract with the model\<close>

definition SELF_CODER_SYSTEM_PROMPT :: string where
  "SELF_CODER_SYSTEM_PROMPT = join_with [CHR 0x0A]
     [''You are the self-coder for Alien '' @ EM_DASH @ '' an autonomous AI workforce. Your job is to write a brand-new capability stub when the planner has identified a gap.'',
      [],
      ''You output strict JSON in this exact shape, no prose, no fences:'',
      [],
      ''{'',
      ''  '' @ [CHR 0x22] @ ''files'' @ [CHR 0x22] @ '': ['',
      ''    { '' @ [CHR 0x22] @ ''path'' @ [CHR 0x22] @ '': '' @ [CHR 0x22] @ ''index.mjs'' @ [CHR 0x22] @ '',  '' @ [CHR 0x22] @ ''contents'' @ [CHR 0x22] @ '': '' @ [CHR 0x22] @ ''<ESM JavaScript module with JSDoc>'' @ [CHR 0x22] @ '' },'',
      ''    { '' @ [CHR 0x22] @ ''path'' @ [CHR 0x22] @ '': '' @ [CHR 0x22] @ ''types.d.ts'' @ [CHR 0x22] @ '', '' @ [CHR 0x22] @ ''contents'' @ [CHR 0x22] @ '': '' @ [CHR 0x22] @ ''<TypeScript .d.ts type declarations, for human review>'' @ [CHR 0x22] @ '' },'',
      ''    { '' @ [CHR 0x22] @ ''path'' @ [CHR 0x22] @ '': '' @ [CHR 0x22] @ ''README.md'' @ [CHR 0x22] @ '',  '' @ [CHR 0x22] @ ''contents'' @ [CHR 0x22] @ '': '' @ [CHR 0x22] @ ''<markdown notes>'' @ [CHR 0x22] @ '' }'',
      ''  ]'',
      ''}'',
      [],
      ''Hard rules:'',
      ''1. The three files above are required. Do not add others.'',
      ''2. index.mjs must export a function `export async function run(input, deps)`'',
      ''   that accepts the input the planner will pass and returns the output'',
      ''   the planner expects. Use JSDoc types referring to types.d.ts so the'',
      ''   reviewer gets type hints without a compile step. The file must be'',
      ''   valid ECMAScript so '' @ [CHR 0x27] @ ''await import(file://.../index.mjs)'' @ [CHR 0x27] @ '' loads it.'',
      ''3. Implementations are STUBS for v0.1. Return mock/placeholder data and'',
      ''   leave a clear '' @ [CHR 0x22] @ ''TODO'' @ [CHR 0x22] @ '' comment in the body '' @ EM_DASH @ '' DO NOT actually call any'',
      ''   external API, write to disk, or invoke deps you weren'' @ [CHR 0x27] @ ''t given. The'',
      ''   operator will review and harden the stub before activation.'',
      ''4. types.d.ts exports two named types: `Input` and `Output`. Mirror the'',
      ''   sketch the operator provided. (Editor-only; not executed.)'',
      ''5. README.md explains in plain English: what the capability does, what'',
      ''   the planner can pass it, what gets returned, what the operator still'',
      ''   needs to wire up (auth, API client init, error handling).'',
      ''6. All file paths are relative to the sandbox dir. Never use `..` or'',
      ''   absolute paths '' @ EM_DASH @ '' your output is rejected if you try to escape.'',
      ''7. No imports outside the sandbox (no `../../src/...`). Use only the'',
      ''   `deps` parameter and the standard JS globals available to ESM.'']"

definition renderSelfCoderUserPrompt :: "cap_request \<Rightarrow> string" where
  "renderSelfCoderUserPrompt req = join_with [CHR 0x0A]
     [''Capability request:'',
      ''  integration: '' @ cq_integration req,
      ''  why: '' @ cq_why req,
      (if truthy (cq_sketch req) then ''  sketch: '' @ the (cq_sketch req)
       else ''  sketch: (none '' @ EM_DASH @ '' design a minimal sensible surface)''),
      [],
      ''Generate the three files. Return strict JSON.'']"

text \<open>An entry of \<open>files\<close> that is not a pair of strings is dropped, and so is a reply without files.\<close>

definition self_coder_entry :: "json \<Rightarrow> self_coder_file option" where
  "self_coder_entry entry =
     (case (json_field entry ''path'', json_field entry ''contents'') of
        (Some (JStr p), Some (JStr c)) \<Rightarrow> Some \<lparr>sf_path = p, sf_contents = c\<rparr>
      | _ \<Rightarrow> None)"

definition parseSelfCoderResponse :: "string \<Rightarrow> self_coder_file list" where
  "parseSelfCoderResponse text =
     (let trimmed = js_trim text; body = nullish (whole_fence trimmed) trimmed
      in case json_parse body of
           Some parsed \<Rightarrow>
             (case json_field parsed ''files'' of
                Some (JArr raw) \<Rightarrow> List.map_filter self_coder_entry raw
              | _ \<Rightarrow> [])
         | None \<Rightarrow> [])"

section \<open>The sandbox\<close>

definition sanitizeId_coder :: "string \<Rightarrow> string" where
  "sanitizeId_coder i =
     (let cleaned = take 64 (trim_dashes (dash_runs False (map ascii_lower i)))
      in if 0 < length cleaned then cleaned else ''unnamed'')"

definition resolveSafeChildPath :: "path \<Rightarrow> string \<Rightarrow> path option" where
  "resolveSafeChildPath rootDir child =
     (if starts_with ''/'' child then None
      else let resolved = path_resolve rootDir child; rel = join_with ''/'' (path_relative rootDir resolved)
           in if starts_with ''..'' rel \<or> starts_with ''/'' rel then None else Some resolved)"

text \<open>\<open>fs.mkdir(p, { recursive: true })\<close> and \<open>fs.writeFile(p, contents, { mode: 0o644 })\<close>, with the errors
  that a file in the place of a directory, a directory in the place of the file, and a zero character
  in the path give.\<close>

definition make_dir :: "path \<Rightarrow> (cap_fs, unit) prog" where
  "make_dir p =
     bind_m (get_m (\<lambda>fs. list_ex (\<lambda>a. read_file fs a \<noteq> None) (ancestors p))) (\<lambda>blocked.
       if list_ex (\<lambda>seg. CHR 0x00 \<in> set seg) p then throw_m ''ERR_INVALID_ARG_VALUE''
       else if blocked then throw_m ''ENOTDIR'' else modify_m (mkdirSync p 511))"

definition write_text :: "path \<Rightarrow> string \<Rightarrow> (cap_fs, unit) prog" where
  "write_text p contents =
     bind_m (get_m (\<lambda>fs. map_of (fs_dirs fs) p \<noteq> None)) (\<lambda>isDir.
       if list_ex (\<lambda>seg. CHR 0x00 \<in> set seg) p then throw_m ''ERR_INVALID_ARG_VALUE''
       else if isDir then throw_m ''EISDIR''
       else modify_m (writeFileSync p 420 (OtherFile (SourceFile contents))))"

text \<open>The loop over the files; \<open>Some\<close> names the first path that would leave the sandbox.\<close>

primrec write_files :: "path \<Rightarrow> self_coder_file list \<Rightarrow> (cap_fs, string option) prog" where
  "write_files targetDir [] = return_m None"
| "write_files targetDir (file # files) =
     (case resolveSafeChildPath targetDir (sf_path file) of
        None \<Rightarrow> return_m (Some (sf_path file))
      | Some safePath \<Rightarrow>
          seq_m (make_dir (butlast safePath))
         (seq_m (write_text safePath (sf_contents file))
          (write_files targetDir files)))"

definition fulfil :: "string \<Rightarrow> path \<Rightarrow> cap_request \<Rightarrow> cap_request" where
  "fulfil requestId targetDir r =
     (if cq_id r = requestId
      then r\<lparr>cq_status := ReqFulfilled, cq_resolution := Some (''Generated stub at '' @ path_text targetDir)\<rparr>
      else r)"

definition markFulfilled :: "path \<Rightarrow> string \<Rightarrow> path \<Rightarrow> (cap_fs, unit) prog" where
  "markFulfilled stateDir requestId targetDir =
     bind_m (readCapabilityRequests stateDir) (\<lambda>allRequests.
       modify_m (\<lambda>fs. chmodSync (resolveCapabilityRequestsPath stateDir) 384
         (writeFileSync (resolveCapabilityRequestsPath stateDir) 384
           (OtherFile (RequestsFile (map (fulfil requestId targetDir) allRequests))) fs)))"

text \<open>Where the endpoint and the activator look, and where the worker writes unless told otherwise.\<close>

definition defaultGeneratedRoot :: "path \<Rightarrow> path" where
  "defaultGeneratedRoot stateRoot = stateRoot @ [''extensions-generated'']"

definition generated_root :: "self_coder_opts \<Rightarrow> path" where
  "generated_root opts = nullish (sc_generatedRoot opts) (sc_cwd opts @ DEFAULT_GENERATED_ROOT_NAME)"

section \<open>The worker\<close>

text \<open>The \<open>try\<close> block around the writes: the error to report, if any.\<close>

definition write_generation :: "self_coder_opts \<Rightarrow> string \<Rightarrow> path \<Rightarrow> self_coder_file list \<Rightarrow> (cap_fs, string option) prog" where
  "write_generation opts requestId targetDir files =
     catch_m
       (seq_m (make_dir targetDir)
       (bind_m (write_files targetDir files) (\<lambda>escaped.
          case escaped of
            Some p \<Rightarrow> return_m (Some (''LLM tried to write outside the sandbox ('' @ p @ ''); aborting.''))
          | None \<Rightarrow> seq_m (markFulfilled (sc_stateDir opts) requestId targetDir) (return_m None))))
       (\<lambda>err. return_m (Some (''file write failed: '' @ err)))"

definition self_coder_cost :: "llm_usage option \<Rightarrow> rat option" where
  "self_coder_cost usage = (case usage of None \<Rightarrow> None | Some u \<Rightarrow> Some (estimateCostUsd (Some u)))"

definition generated_event :: "project_worker_input \<Rightarrow> cap_request \<Rightarrow> path \<Rightarrow> self_coder_file list \<Rightarrow> llm_usage option \<Rightarrow> json_object" where
  "generated_event input request targetDir files usage =
     [(''projectId'', JStr (pr_id (pi_project input))), (''taskId'', JStr (tk_id (pi_task input))),
      (''requestId'', JStr (cq_id request)), (''integration'', JStr (cq_integration request)),
      (''targetDir'', JStr (path_text targetDir)), (''fileCount'', JNum (int (length files))),
      (''files'', JArr (map (\<lambda>f. JStr (sf_path f)) files))]
     @ (case self_coder_cost usage of None \<Rightarrow> [] | Some c \<Rightarrow> [(''costUsd'', usd_json c)])"

definition generated_output :: "cap_request \<Rightarrow> path \<Rightarrow> self_coder_file list \<Rightarrow> llm_usage option \<Rightarrow> project_worker_output" where
  "generated_output request targetDir files usage =
     \<lparr>pwo_ok = True,
      pwo_result = Some (JObj [(''capabilityGenerated'', JObj
        [(''requestId'', JStr (cq_id request)), (''integration'', JStr (cq_integration request)),
         (''targetDir'', JStr (path_text targetDir)), (''files'', JArr (map (\<lambda>f. JStr (sf_path f)) files))])]),
      pwo_error = None, pwo_toReview = Some True, pwo_costUsd = map_option FiniteNum (self_coder_cost usage)\<rparr>"

definition self_coder_request :: "cap_request \<Rightarrow> llm_request" where
  "self_coder_request request =
     \<lparr>lr_system = Some SELF_CODER_SYSTEM_PROMPT, lr_user = renderSelfCoderUserPrompt request,
      lr_maxTokens = Some SELF_CODER_MAX_TOKENS, lr_purpose = Some ''self-coder''\<rparr>"

text \<open>From the request on.\<close>

definition generate :: "self_coder_opts \<Rightarrow> project_worker_input \<Rightarrow> cap_request \<Rightarrow> (cap_world, project_worker_output) prog" where
  "generate opts input request =
     (let targetDir = generated_root opts @ [sanitizeId_coder (cq_integration request)]
      in bind_m consult (\<lambda>call.
         case sc_llm opts call (self_coder_request request) of
           Inl err \<Rightarrow> return_m (worker_error (''LLM call failed: '' @ err))
         | Inr completion \<Rightarrow>
             let files = parseSelfCoderResponse (ll_text completion)
             in if length files = 0 then return_m (worker_error ''LLM returned no files; nothing was generated.'')
                else bind_m (on_fs (write_generation opts (cq_id request) targetDir files)) (\<lambda>failed.
                  case failed of
                    Some e \<Rightarrow> return_m (worker_error e)
                  | None \<Rightarrow>
                      seq_m (audit_if opts KCapCodeGenerated (generated_event input request targetDir files (ll_usage completion)))
                        (return_m (generated_output request targetDir files (ll_usage completion))))))"

definition createSelfCoderWorker :: "self_coder_opts \<Rightarrow> cap_file project_worker" where
  "createSelfCoderWorker opts input = (\<lambda>origin.
     let requestId = (case map_of (tk_input (pi_task input)) ''requestId'' of Some (JStr s) \<Rightarrow> js_trim s | _ \<Rightarrow> [])
     in if requestId = [] then return_m (worker_error ''self-coder requires { requestId } in task.input'')
        else bind_m (on_fs (readCapabilityRequests (sc_stateDir opts))) (\<lambda>requests.
          case find (\<lambda>r. cq_id r = requestId) requests of
            None \<Rightarrow> return_m (worker_error (''capability request not found: '' @ requestId @ ''. Records live at ''
              @ path_text (resolveCapabilityRequestsPath (sc_stateDir opts)) @ ''.''))
          | Some request \<Rightarrow>
              if cq_status request = ReqFulfilled then
                return_m (worker_error (''capability request '' @ requestId
                  @ '' is already fulfilled. Inspect the prior output before regenerating.''))
              else generate opts input request))"

section \<open>Facts\<close>

lemma sanitizeId_coder_agrees: "sanitizeId_coder i = sanitizeCapabilityId i"
  by (simp add: sanitizeId_coder_def sanitizeCapabilityId_def)

lemma starts_with_append: "starts_with p (p @ s)"
  by (simp add: starts_with_def)

lemma join_with_starts: "xs \<noteq> [] \<Longrightarrow> starts_with (hd xs) (join_with sep xs)"
  by (cases xs; cases "tl xs") (auto simp: starts_with_def)

text \<open>What the check promises: a path it returns is below the sandbox.\<close>

lemma safe_child_below: "resolveSafeChildPath d child = Some p \<Longrightarrow> below d p"
proof (rule path_relative_below, rule ccontr)
  assume ok: "resolveSafeChildPath d child = Some p"
    and "\<not> (path_relative d p = [] \<or> hd (path_relative d p) \<noteq> ''..'')"
  then have "starts_with ''..'' (join_with ''/'' (path_relative d p))"
    using join_with_starts [of "path_relative d p" "''/''"] by simp
  with ok show False by (auto simp: resolveSafeChildPath_def Let_def split: if_splits)
qed

lemma split_plain: "CHR ''/'' \<notin> set s \<Longrightarrow> split_segments acc s = [acc @ s]"
  by (induction s arbitrary: acc) auto

lemma safe_child_plain: "safe_id n \<Longrightarrow> resolveSafeChildPath d n = Some (d @ [n])"
proof -
  assume n: "safe_id n"
  then obtain c t where cs: "n = c # t" "c \<noteq> CHR ''.''" "c \<noteq> CHR ''/''"
    using safe_id_no_escape(1) [OF n] by (cases n) (auto simp: safe_id_def)
  then have "path_resolve d n = d @ [n]"
    using safe_id_no_escape [OF n] by (simp add: path_resolve_def split_plain resolve_segment_def)
  moreover have "\<not> starts_with ''/'' n" "\<not> starts_with ''..'' n" using cs by (simp_all add: starts_with_def)
  ultimately show ?thesis by (simp add: resolveSafeChildPath_def path_relative_append)
qed

text \<open>A property of the disk that the two primitive writes keep below the sandbox is kept by the loop.\<close>

lemma write_files_preserves:
  assumes "\<And>p. below d p \<Longrightarrow> preserves P (make_dir (butlast p))"
    and "\<And>p f. below d p \<Longrightarrow> f \<in> set files \<Longrightarrow> preserves P (write_text p (sf_contents f))"
  shows "preserves P (write_files d files)"
  using assms(2)
proof (induction files)
  case (Cons f files)
  then have "preserves P (write_files d files)" by simp
  then show ?case using Cons.prems
    by (auto split: option.split intro!: preserves_intros assms(1) dest: safe_child_below)
qed (simp add: preserves_return)

lemma make_dir_apply:
  "make_dir p fs =
     (if list_ex (\<lambda>seg. CHR 0x00 \<in> set seg) p then (Inl ''ERR_INVALID_ARG_VALUE'', fs)
      else if list_ex (\<lambda>a. read_file fs a \<noteq> None) (ancestors p) then (Inl ''ENOTDIR'', fs)
      else (Inr (), mkdirSync p 511 fs))"
  by (simp add: make_dir_def bind_m_apply)

lemma write_text_apply:
  "write_text p c fs =
     (if list_ex (\<lambda>seg. CHR 0x00 \<in> set seg) p then (Inl ''ERR_INVALID_ARG_VALUE'', fs)
      else if map_of (fs_dirs fs) p \<noteq> None then (Inl ''EISDIR'', fs)
      else (Inr (), writeFileSync p 420 (OtherFile (SourceFile c)) fs))"
  by (simp add: write_text_def bind_m_apply)

lemma markFulfilled_apply:
  "markFulfilled d i t fs =
     (case fst (readCapabilityRequests d fs) of
        Inl e \<Rightarrow> (Inl e, fs)
      | Inr rs \<Rightarrow> (Inr (), chmodSync (resolveCapabilityRequestsPath d) 384 (writeFileSync (resolveCapabilityRequestsPath d) 384
          (OtherFile (RequestsFile (map (fulfil i t) rs))) fs)))"
  using readRequests_reads [of d fs]
  by (cases "readCapabilityRequests d fs") (auto simp: markFulfilled_def bind_m_apply split: sum.splits)

lemmas write_applies = make_dir_apply write_text_apply markFulfilled_apply

lemma read_file_mkdir_fun: "read_file (mkdirSync p m fs) = read_file fs"
  by (rule ext) simp

lemma make_dir_files: "preserves (\<lambda>fs. Q (read_file fs)) (make_dir p)"
  by (rule preservesI) (simp add: make_dir_apply read_file_mkdir_fun)

text \<open>Files outside the sandbox are not touched by the loop.\<close>

lemma write_files_frame: "preserves (\<lambda>fs. \<forall>q. \<not> below d q \<longrightarrow> read_file fs q = f q) (write_files d files)"
proof (rule write_files_preserves)
  show "preserves (\<lambda>fs. \<forall>q. \<not> below d q \<longrightarrow> read_file fs q = f q) (write_text p (sf_contents g))" if "below d p" for p g
    using that by (intro preservesI) (auto simp: write_text_apply)
qed (rule make_dir_files)

lemma write_generation_frame:
  "preserves (\<lambda>fs. \<forall>q. \<not> below d q \<and> q \<noteq> resolveCapabilityRequestsPath (sc_stateDir opts) \<longrightarrow> read_file fs q = f q)
     (write_generation opts i d files)"
proof -
  let ?P = "\<lambda>fs. \<forall>q. \<not> below d q \<and> q \<noteq> resolveCapabilityRequestsPath (sc_stateDir opts) \<longrightarrow> read_file fs q = f q"
  have loop: "preserves ?P (write_files d files)"
  proof (rule write_files_preserves)
    show "preserves ?P (write_text p (sf_contents g))" if "below d p" for p g
      using that by (intro preservesI) (auto simp: write_text_apply)
  qed (rule make_dir_files)
  have "preserves ?P (markFulfilled (sc_stateDir opts) i d)"
    by (rule preservesI) (simp add: markFulfilled_apply split: sum.split)
  with loop show ?thesis unfolding write_generation_def by (intro preserves_intros make_dir_files)
qed

text \<open>What is on disk after the loop: each path holds the last file written to it.\<close>

lemma find_snoc: "find P (xs @ [x]) = (case find P xs of Some y \<Rightarrow> Some y | None \<Rightarrow> if P x then Some x else None)"
  by (induction xs) simp_all

lemma write_files_reads:
  "write_files d files fs = (Inr None, fs') \<Longrightarrow>
     read_file fs' q =
       (case find (\<lambda>f. resolveSafeChildPath d (sf_path f) = Some q) (rev files) of
          Some f \<Rightarrow> Some (OtherFile (SourceFile (sf_contents f)))
        | None \<Rightarrow> read_file fs q)"
proof (induction files arbitrary: fs)
  case (Cons f files)
  then obtain p fs1 where p: "resolveSafeChildPath d (sf_path f) = Some p"
    and rest: "write_files d files fs1 = (Inr None, fs')"
    and fs1: "fs1 = writeFileSync p 420 (OtherFile (SourceFile (sf_contents f))) (mkdirSync (butlast p) 511 fs)"
    by (auto simp: seq_m_apply write_applies split: option.splits if_splits)
  show ?case using Cons.IH [OF rest] by (auto simp: find_snoc p fs1 split: option.split)
qed simp

text \<open>The ways a run of the worker ends: before the writes, or with the outcome of \<open>write_generation\<close>.\<close>

definition task_request_id :: "project_worker_input \<Rightarrow> string" where
  "task_request_id input = (case map_of (tk_input (pi_task input)) ''requestId'' of Some (JStr s) \<Rightarrow> js_trim s | _ \<Rightarrow> [])"

definition target_dir :: "self_coder_opts \<Rightarrow> cap_request \<Rightarrow> path" where
  "target_dir opts request = generated_root opts @ [sanitizeId_coder (cq_integration request)]"

lemma generate_ends:
  assumes "generate opts input request w = (res, w')"
  obtains (stopped) out where "w_fs w' = w_fs w" "res = Inr out" "\<not> pwo_ok out"
      "\<And>c. sc_llm opts (w_ids w) (self_coder_request request) = Inr c \<Longrightarrow> parseSelfCoderResponse (ll_text c) = []"
  | (written) completion failed fs' where
      "sc_llm opts (w_ids w) (self_coder_request request) = Inr completion" "parseSelfCoderResponse (ll_text completion) \<noteq> []"
      "write_generation opts (cq_id request) (target_dir opts request) (parseSelfCoderResponse (ll_text completion)) (w_fs w) = (Inr failed, fs')"
      "w_fs w' = fs'"
      "\<And>out. res = Inr out \<Longrightarrow> pwo_ok out \<Longrightarrow>
         failed = None \<and> out = generated_output request (target_dir opts request) (parseSelfCoderResponse (ll_text completion)) (ll_usage completion)"
      "failed = None \<Longrightarrow> (\<And>n. e_auditThrows opts n = None) \<Longrightarrow> \<exists>out. res = Inr out \<and> pwo_ok out"
proof (cases "sc_llm opts (w_ids w) (self_coder_request request)")
  case (Inl e)
  with assms stopped show ?thesis by (auto simp: generate_def Let_def bind_m_apply consult_def worker_error_def)
next
  case (Inr completion)
  let ?files = "parseSelfCoderResponse (ll_text completion)" and ?d = "target_dir opts request"
  let ?w = "w\<lparr>w_ids := Suc (w_ids w)\<rparr>"
  show ?thesis
  proof (cases "?files = []")
    case True
    with assms Inr stopped show ?thesis by (auto simp: generate_def Let_def bind_m_apply consult_def worker_error_def)
  next
    case False
    have "\<exists>failed fs'. write_generation opts (cq_id request) ?d ?files (w_fs w) = (Inr failed, fs')"
      by (auto simp: write_generation_def catch_m_apply split: prod.splits sum.splits)
    then obtain failed fs' where wg: "write_generation opts (cq_id request) ?d ?files (w_fs w) = (Inr failed, fs')" by blast
    let ?ev = "generated_event input request ?d ?files (ll_usage completion)"
    have step: "(res, w') = (case failed of Some e \<Rightarrow> (Inr (worker_error e), ?w\<lparr>w_fs := fs'\<rparr>)
        | None \<Rightarrow> seq_m (audit_if opts KCapCodeGenerated ?ev) (return_m (generated_output request ?d ?files (ll_usage completion))) (?w\<lparr>w_fs := fs'\<rparr>))"
      using assms Inr False wg
      by (auto simp: generate_def target_dir_def [symmetric] Let_def bind_m_apply consult_def on_fs_apply split: option.split)
    have fs: "w_fs w' = fs'"
      using step audit_if_fs [of opts KCapCodeGenerated ?ev "?w\<lparr>w_fs := fs'\<rparr>"]
      by (auto simp: seq_m_apply split: option.splits prod.splits sum.splits)
    show ?thesis
    proof (rule written [OF Inr False wg fs])
      show "failed = None \<and> out = generated_output request ?d ?files (ll_usage completion)" if "res = Inr out" "pwo_ok out" for out
        using step that by (auto simp: seq_m_apply worker_error_def split: option.splits prod.splits sum.splits)
      show "\<exists>out. res = Inr out \<and> pwo_ok out" if none: "failed = None" and quiet: "\<And>n. e_auditThrows opts n = None"
      proof -
        obtain w1 where "audit_if opts KCapCodeGenerated ?ev (?w\<lparr>w_fs := fs'\<rparr>) = (Inr (), w1)"
          by (rule audit_if_quiet [OF quiet])
        with step none show ?thesis by (simp add: seq_m_apply generated_output_def)
      qed
    qed
  qed
qed

lemma self_coder_ends:
  assumes "createSelfCoderWorker opts input origin w = (res, w')"
  obtains (stopped) "w_fs w' = w_fs w" "\<And>out. res = Inr out \<Longrightarrow> \<not> pwo_ok out"
  | (generated) requests request where
      "fst (readCapabilityRequests (sc_stateDir opts) (w_fs w)) = Inr requests"
      "find (\<lambda>r. cq_id r = task_request_id input) requests = Some request" "cq_status request \<noteq> ReqFulfilled"
      "generate opts input request w = (res, w')"
proof (cases "task_request_id input = []")
  case True
  with assms stopped show ?thesis by (auto simp: createSelfCoderWorker_def task_request_id_def [symmetric] worker_error_def)
next
  case False
  show ?thesis
  proof (cases "fst (readCapabilityRequests (sc_stateDir opts) (w_fs w))")
    case (Inl e)
    with False assms stopped show ?thesis
      by (auto simp: createSelfCoderWorker_def task_request_id_def [symmetric] Let_def bind_m_apply on_fs_apply)
  next
    case (Inr requests)
    with False assms stopped generated show ?thesis
      by (auto simp: createSelfCoderWorker_def task_request_id_def [symmetric] Let_def bind_m_apply on_fs_apply worker_error_def
          split: option.splits if_splits)
  qed
qed

text \<open>Inputs the witnesses share: a reply with one file, a request and a task that names it.\<close>

definition sample_completion :: "string \<Rightarrow> llm_result" where
  "sample_completion name = \<lparr>ll_text = stringify (JObj [(''files'', JArr [JObj [(''path'', JStr name), (''contents'', JStr ''run'')]])]), ll_usage = None\<rparr>"

definition sample_coder :: "string \<Rightarrow> path option \<Rightarrow> self_coder_opts" where
  "sample_coder name base = env.extend quiet_env (self_coder_opts.fields (\<lambda>call req. Inr (sample_completion name)) [''state''] [''work''] base)"

definition sample_build :: project_worker_input where
  "sample_build = \<lparr>pi_task = (sample_waiting None)\<lparr>tk_input := [(''requestId'', JStr '' c1 '')]\<rparr>,
     pi_project = sample_cap_project, pi_dependencyOutputs = []\<rparr>"

definition sample_requests_world :: cap_world where
  "sample_requests_world = sample_cap_world (requests_fs [sample_cap_request ''CRM'' ReqOpen])"

section \<open>Generation is confined\<close>

text \<open>C5. Whatever the model answers and whatever paths its files name, a run of the self-coder changes
  no file but those below one directory of the generated tree, named by lower-case letters, digits and
  dashes only, and the requests file; and when it reports success, it stops at review.\<close>

theorem generation_confined:
  assumes run: "createSelfCoderWorker opts input origin w = (res, w')"
  shows "(\<exists>slug. slug \<noteq> [] \<and> list_all slug_char slug
      \<and> (\<forall>q. \<not> below (generated_root opts @ [slug]) q \<and> q \<noteq> resolveCapabilityRequestsPath (sc_stateDir opts) \<longrightarrow>
           read_file (w_fs w') q = read_file (w_fs w) q))
    \<and> (\<forall>out. res = Inr out \<longrightarrow> pwo_ok out \<longrightarrow> pwo_toReview out = Some True)"
proof -
  have slug: "sanitizeId_coder i \<noteq> [] \<and> list_all slug_char (sanitizeId_coder i)" for i
    using slug_nonempty slug_chars by (auto simp: sanitizeId_coder_agrees list_all_iff)
  from run show ?thesis
  proof (cases rule: self_coder_ends)
    case stopped
    then show ?thesis using slug by auto
  next
    case (generated requests request)
    from generated(4) show ?thesis
    proof (cases rule: generate_ends)
      case (stopped out)
      then show ?thesis using slug by auto
    next
      case (written completion failed fs')
      let ?d = "generated_root opts @ [sanitizeId_coder (cq_integration request)]"
      have "\<forall>q. \<not> below ?d q \<and> q \<noteq> resolveCapabilityRequestsPath (sc_stateDir opts) \<longrightarrow> read_file (w_fs w') q = read_file (w_fs w) q"
        using preservesD [OF write_generation_frame [of ?d opts "read_file (w_fs w)"], of "w_fs w"] written(3,4)
        unfolding target_dir_def by (metis snd_conv)
      moreover have "pwo_toReview out = Some True" if "res = Inr out" "pwo_ok out" for out
        using written(5) [OF that] by (simp add: generated_output_def)
      ultimately show ?thesis using slug by blast
    qed
  qed
qed

theorem generation_confined_witness:
  "\<exists>out w'. createSelfCoderWorker (sample_coder ''../../escape'' None) sample_build None sample_requests_world = (Inr out, w')
     \<and> \<not> pwo_ok out \<and> read_file (w_fs w') [''work'', ''escape''] = read_file (w_fs sample_requests_world) [''work'', ''escape'']"
proof -
  let ?opts = "sample_coder ''../../escape'' None"
  obtain res w' where run: "createSelfCoderWorker ?opts sample_build None sample_requests_world = (res, w')" by fastforce
  from generation_confined [OF this] obtain slug where
    frame: "\<And>q. \<not> below (generated_root ?opts @ [slug]) q \<Longrightarrow> q \<noteq> resolveCapabilityRequestsPath (sc_stateDir ?opts) \<Longrightarrow>
      read_file (w_fs w') q = read_file (w_fs sample_requests_world) q" by blast
  have "generated_root ?opts = [''work'', ''extensions'', ''.generated'']" "sc_stateDir ?opts = [''state'']" by code_simp+
  then have "read_file (w_fs w') [''work'', ''escape''] = read_file (w_fs sample_requests_world) [''work'', ''escape'']"
    by (intro frame) (simp_all add: below_def resolveCapabilityRequestsPath_def)
  moreover have "case fst (createSelfCoderWorker ?opts sample_build None sample_requests_world) of Inl e \<Rightarrow> False | Inr out \<Rightarrow> \<not> pwo_ok out"
    by code_simp
  ultimately show ?thesis using run by (auto split: sum.splits)
qed

section \<open>From a reply to an active capability\<close>

text \<open>A reply the activator can use: plain file names, no oversized file, an \<open>index.mjs\<close>.\<close>

definition plain_reply :: "self_coder_file list \<Rightarrow> bool" where
  "plain_reply files \<longleftrightarrow> list_all (\<lambda>f. safe_id (sf_path f) \<and> int (utf8_size (sf_contents f)) \<le> MAX_FILE_BYTES) files"

definition index_body :: "self_coder_file list \<Rightarrow> string option" where
  "index_body files = map_option sf_contents (find (\<lambda>f. sf_path f = ''index.mjs'') (rev files))"

text \<open>A sandbox directory that is still free: nothing below it, no file where its parents must be.\<close>

definition sandbox_free :: "path \<Rightarrow> path \<Rightarrow> cap_fs \<Rightarrow> bool" where
  "sandbox_free stateDir d fs \<longleftrightarrow>
     list_all (\<lambda>q. \<not> below d q) (map fst (fs_files fs) @ map fst (fs_dirs fs))
     \<and> list_all (\<lambda>a. read_file fs a = None) (ancestors d) \<and> \<not> list_ex (\<lambda>seg. CHR 0x00 \<in> set seg) d
     \<and> \<not> below d (resolveCapabilityRequestsPath stateDir)
     \<and> \<not> below d (resolveActivatedCapabilitiesPath stateDir) \<and> \<not> below (resolveActivatedCapabilitiesPath stateDir) d"

lemma sandbox_free_exists: "sandbox_free sd d fs \<Longrightarrow> below d q \<Longrightarrow> \<not> existsSync fs q"
  by (auto simp: sandbox_free_def existsSync_def list_all_iff map_of_eq_None_iff simp del: not_None_eq)

definition plain_write :: "path \<Rightarrow> self_coder_file \<Rightarrow> cap_fs \<Rightarrow> cap_fs" where
  "plain_write d f fs = writeFileSync (d @ [sf_path f]) 420 (OtherFile (SourceFile (sf_contents f))) (mkdirSync d 511 fs)"

lemma dirs_write [simp]: "fs_dirs (writeFileSync p m c fs) = fs_dirs fs"
  by (simp add: writeFileSync_def)

lemma dirs_mkdir: "map_of (fs_dirs (mkdirSync p m fs)) q = None \<longleftrightarrow> map_of (fs_dirs fs) q = None \<and> q \<notin> set (ancestors p)"
  by (simp add: mkdirSync_def mkdir_fold_keys)

lemma not_ancestor: "d @ [n] \<notin> set (ancestors d)"
  using ancestors_length by fastforce

lemma write_files_plain:
  assumes "plain_reply files" "\<not> list_ex (\<lambda>seg. CHR 0x00 \<in> set seg) d"
    and "list_all (\<lambda>a. read_file fs a = None) (ancestors d)" "\<And>n. map_of (fs_dirs fs) (d @ [n]) = None"
  shows "write_files d files fs = (Inr None, fold (plain_write d) files fs)"
  using assms(1,3,4)
proof (induction files arbitrary: fs)
  case (Cons f files)
  have name: "safe_id (sf_path f)" using Cons.prems(1) by (simp add: plain_reply_def)
  have "map_of (fs_dirs (mkdirSync d 511 fs)) (d @ [sf_path f]) = None"
    using Cons.prems(3) by (simp add: dirs_mkdir not_ancestor)
  then have step: "write_files d (f # files) fs = write_files d files (plain_write d f fs)"
    using assms(2) Cons.prems(2) safe_id_no_escape(3) [OF name]
    by (simp add: safe_child_plain [OF name] seq_m_apply write_applies plain_write_def list_ex_iff list_all_iff)
  have "list_all (\<lambda>a. read_file (plain_write d f fs) a = None) (ancestors d)"
    using Cons.prems(2) not_ancestor by (auto simp: plain_write_def list_all_iff)
  moreover have "map_of (fs_dirs (plain_write d f fs)) (d @ [n]) = None" for n
    using Cons.prems(3) by (simp add: plain_write_def dirs_mkdir not_ancestor)
  ultimately have "write_files d files (plain_write d f fs) = (Inr None, fold (plain_write d) files (plain_write d f fs))"
    using Cons.prems(1) by (intro Cons.IH) (simp_all add: plain_reply_def)
  with step show ?case by simp
qed simp

lemma plain_writes_exist:
  "existsSync (fold (plain_write d) files fs) q \<Longrightarrow>
     existsSync fs q \<or> q \<in> set (ancestors d) \<or> (\<exists>f \<in> set files. q = d @ [sf_path f])"
  by (induction files arbitrary: fs) (fastforce simp: plain_write_def)+

lemma plain_writes_dir: "map_of (fs_dirs fs) d \<noteq> None \<Longrightarrow> map_of (fs_dirs (fold (plain_write d) files fs)) d \<noteq> None"
proof (induction files arbitrary: fs)
  case (Cons f files)
  have "map_of (fs_dirs (plain_write d f fs)) d \<noteq> None"
    using Cons.prems by (simp only: plain_write_def dirs_write dirs_mkdir simp_thms)
  from Cons.IH [OF this] show ?case by simp
qed simp

lemma plain_writes_reads:
  "read_file (fold (plain_write d) files fs) q =
     (case find (\<lambda>f. d @ [sf_path f] = q) (rev files) of
        Some f \<Rightarrow> Some (OtherFile (SourceFile (sf_contents f))) | None \<Rightarrow> read_file fs q)"
  by (induction files arbitrary: fs) (auto simp: find_snoc plain_write_def split: option.split)

lemma plain_writes_frame: "\<not> below d q \<Longrightarrow> read_file (fold (plain_write d) files fs) q = read_file fs q"
  by (induction files arbitrary: fs) (auto simp: plain_write_def below_iff)

lemma requests_file:
  "fst (readCapabilityRequests sd fs) = Inr rs \<Longrightarrow> rs \<noteq> [] \<Longrightarrow>
     read_file fs (resolveCapabilityRequestsPath sd) = Some (OtherFile (RequestsFile rs))"
  by (auto simp: readCapabilityRequests_def bind_m_apply split: option.splits bool.splits state_file.splits cap_file.splits)

lemma requests_read:
  "read_file fs (resolveCapabilityRequestsPath sd) = Some (OtherFile (RequestsFile rs)) \<Longrightarrow> fst (readCapabilityRequests sd fs) = Inr rs"
  by (simp add: readCapabilityRequests_def bind_m_apply)

text \<open>A run on a request that is not fulfilled, in a free sandbox, with a usable reply.\<close>

definition buildable :: "self_coder_opts \<Rightarrow> project_worker_input \<Rightarrow> cap_world \<Rightarrow> cap_request list \<Rightarrow> cap_request \<Rightarrow> llm_result \<Rightarrow> bool" where
  "buildable opts input w requests request completion \<longleftrightarrow>
     task_request_id input \<noteq> [] \<and> fst (readCapabilityRequests (sc_stateDir opts) (w_fs w)) = Inr requests
     \<and> find (\<lambda>r. cq_id r = task_request_id input) requests = Some request \<and> cq_status request \<noteq> ReqFulfilled
     \<and> sandbox_free (sc_stateDir opts) (target_dir opts request) (w_fs w)
     \<and> sc_llm opts (w_ids w) (self_coder_request request) = Inr completion
     \<and> plain_reply (parseSelfCoderResponse (ll_text completion)) \<and> parseSelfCoderResponse (ll_text completion) \<noteq> []"

lemma build_effect:
  assumes build: "buildable opts input w requests request completion" and quiet: "\<And>n. e_auditThrows opts n = None"
  obtains out w' where "createSelfCoderWorker opts input origin w = (Inr out, w')" "pwo_ok out"
    "w_fs w' = snd (markFulfilled (sc_stateDir opts) (task_request_id input) (target_dir opts request)
       (fold (plain_write (target_dir opts request)) (parseSelfCoderResponse (ll_text completion))
         (mkdirSync (target_dir opts request) 511 (w_fs w))))"
    "fst (readCapabilityRequests (sc_stateDir opts) (w_fs w')) = Inr (map (fulfil (task_request_id input) (target_dir opts request)) requests)"
proof -
  let ?d = "target_dir opts request" and ?files = "parseSelfCoderResponse (ll_text completion)" and ?sd = "sc_stateDir opts"
  let ?req = "resolveCapabilityRequestsPath ?sd" and ?i = "task_request_id input"
  let ?fs1 = "mkdirSync ?d 511 (w_fs w)" and ?fs2 = "fold (plain_write ?d) ?files (mkdirSync ?d 511 (w_fs w))"
  from build have reqs: "fst (readCapabilityRequests ?sd (w_fs w)) = Inr requests" "find (\<lambda>r. cq_id r = ?i) requests = Some request"
    "cq_status request \<noteq> ReqFulfilled" and free: "sandbox_free ?sd ?d (w_fs w)" and i: "?i \<noteq> []"
    and llm: "sc_llm opts (w_ids w) (self_coder_request request) = Inr completion" "plain_reply ?files" "?files \<noteq> []"
    by (simp_all add: buildable_def)
  have id: "cq_id request = ?i" using reqs(2) by (auto simp: find_Some_iff)
  have "requests \<noteq> []" using reqs(2) by auto
  then have stored: "read_file (w_fs w) ?req = Some (OtherFile (RequestsFile requests))" using reqs(1) by (intro requests_file)
  have nodir: "map_of (fs_dirs ?fs1) (?d @ [n]) = None" for n
    using sandbox_free_exists [OF free, of "?d @ [n]"] not_ancestor by (simp add: dirs_mkdir below_iff existsSync_def)
  have mk: "make_dir ?d (w_fs w) = (Inr (), ?fs1)"
    using free by (auto simp: make_dir_apply sandbox_free_def list_all_iff list_ex_iff)
  have "write_files ?d ?files ?fs1 = (Inr None, ?fs2)"
    using free nodir llm(2) by (intro write_files_plain) (simp_all add: sandbox_free_def)
  moreover have "\<not> below ?d ?req" using free by (simp add: sandbox_free_def)
  then have req2: "read_file ?fs2 ?req = Some (OtherFile (RequestsFile requests))"
    using stored by (simp add: plain_writes_frame)
  ultimately have wg: "write_generation opts ?i ?d ?files (w_fs w) = (Inr None, snd (markFulfilled ?sd ?i ?d ?fs2))"
    using mk requests_read [OF req2] by (simp add: write_generation_def catch_m_apply seq_m_apply bind_m_apply markFulfilled_apply)
  obtain res w' where gen: "generate opts input request w = (res, w')" by fastforce
  have run: "createSelfCoderWorker opts input origin w = (res, w')"
    using i reqs gen by (simp add: createSelfCoderWorker_def task_request_id_def [symmetric] Let_def bind_m_apply on_fs_apply)
  have "fst (readCapabilityRequests ?sd (snd (markFulfilled ?sd ?i ?d ?fs2))) = Inr (map (fulfil ?i ?d) requests)"
    using requests_read [OF req2] by (intro requests_read) (simp add: markFulfilled_apply)
  moreover from gen have "w_fs w' = snd (markFulfilled ?sd ?i ?d ?fs2) \<and> (\<exists>out. res = Inr out \<and> pwo_ok out)"
  proof (cases rule: generate_ends)
    case (stopped out)
    with llm show ?thesis by blast
  next
    case (written completion' failed fs')
    with llm wg quiet show ?thesis by (simp add: id)
  qed
  ultimately show ?thesis using that run by metis
qed

lemma find_fulfil: "find (\<lambda>r. cq_id r = i) (map (fulfil i d) rs) = map_option (fulfil i d) (find (\<lambda>r. cq_id r = i) rs)"
  by (induction rs) (simp_all add: fulfil_def)

lemma fulfil_same:
  assumes "find (\<lambda>r. cq_id r = i) rs = Some r"
  shows "cq_status (fulfil i d r) = ReqFulfilled" "cq_integration (fulfil i d r) = cq_integration r"
  using assms by (auto simp: fulfil_def find_Some_iff)

text \<open>What the disk shows after a build.\<close>

lemma build_disk:
  assumes build: "buildable opts input w requests request completion" and quiet: "\<And>n. e_auditThrows opts n = None"
  defines "d \<equiv> target_dir opts request" and "files \<equiv> parseSelfCoderResponse (ll_text completion)"
  obtains out w' where "createSelfCoderWorker opts input origin w = (Inr out, w')" "pwo_ok out"
    "fst (readCapabilityRequests (sc_stateDir opts) (w_fs w')) = Inr (map (fulfil (task_request_id input) d) requests)"
    "fst (readActivatedCapabilities (sc_stateDir opts) (w_fs w')) = fst (readActivatedCapabilities (sc_stateDir opts) (w_fs w))"
    "map_of (fs_dirs (w_fs w')) d \<noteq> None"
    "\<And>n. read_file (w_fs w') (d @ [n]) = map_option (\<lambda>f. OtherFile (SourceFile (sf_contents f))) (find (\<lambda>f. sf_path f = n) (rev files))"
    "\<And>q. existsSync (w_fs w') q \<Longrightarrow> existsSync (w_fs w) q \<or> below q d \<or> below d q"
proof -
  let ?sd = "sc_stateDir opts" and ?i = "task_request_id input"
  let ?req = "resolveCapabilityRequestsPath ?sd" and ?act = "resolveActivatedCapabilitiesPath ?sd"
  let ?fs2 = "fold (plain_write d) files (mkdirSync d 511 (w_fs w))"
  obtain out w' where run: "createSelfCoderWorker opts input origin w = (Inr out, w')" "pwo_ok out"
    and fs: "w_fs w' = snd (markFulfilled ?sd ?i d ?fs2)"
    and reqs: "fst (readCapabilityRequests ?sd (w_fs w')) = Inr (map (fulfil ?i d) requests)"
    using build_effect [OF build quiet] unfolding d_def files_def by metis
  from build have free: "sandbox_free ?sd d (w_fs w)" and found: "fst (readCapabilityRequests ?sd (w_fs w)) = Inr requests" "requests \<noteq> []"
    by (auto simp: buildable_def d_def)
  have away: "\<not> below d ?req" "\<not> below d ?act" "\<not> below ?act d" "?req \<noteq> ?act"
    using free by (auto simp: sandbox_free_def resolveCapabilityRequestsPath_def resolveActivatedCapabilitiesPath_def)
  have stored: "read_file (w_fs w) ?req = Some (OtherFile (RequestsFile requests))" using found by (rule requests_file)
  then have "read_file ?fs2 ?req = Some (OtherFile (RequestsFile requests))" using away(1) by (simp add: plain_writes_frame)
  then have fs': "w_fs w' = chmodSync ?req 384 (writeFileSync ?req 384 (OtherFile (RequestsFile (map (fulfil ?i d) requests))) ?fs2)"
    using fs requests_read by (fastforce simp: markFulfilled_apply)
  have pre_d: "q \<in> set (ancestors d) \<Longrightarrow> below q d" for q by (auto simp: ancestors_iff below_def)
  have exists: "existsSync (w_fs w') q \<Longrightarrow> existsSync (w_fs w) q \<or> below q d \<or> below d q" for q
    using plain_writes_exist [of d files "mkdirSync d 511 (w_fs w)" q] stored pre_d read_file_exists
    by (fastforce simp: fs' below_iff)
  have kept: "existsSync (w_fs w) ?act \<Longrightarrow> existsSync (w_fs w') ?act"
  proof -
    have "existsSync fs q \<Longrightarrow> existsSync (fold (plain_write d) gs fs) q" for gs fs q
      by (induction gs arbitrary: fs) (simp_all add: plain_write_def)
    then show "existsSync (w_fs w) ?act \<Longrightarrow> existsSync (w_fs w') ?act" by (simp add: fs')
  qed
  have "existsSync (w_fs w') ?act = existsSync (w_fs w) ?act" using exists [of ?act] kept away by blast
  moreover have "read_file (w_fs w') ?act = read_file (w_fs w) ?act"
    using away by (simp add: fs' plain_writes_frame)
  ultimately have "fst (readActivatedCapabilities ?sd (w_fs w')) = fst (readActivatedCapabilities ?sd (w_fs w))"
    by (simp add: readActivatedCapabilities_def bind_m_apply split: option.split bool.split state_file.split cap_file.split)
  moreover have "map_of (fs_dirs (w_fs w')) d \<noteq> None"
  proof -
    have "d \<noteq> []" by (simp add: d_def target_dir_def)
    then have "map_of (fs_dirs (mkdirSync d 511 (w_fs w))) d \<noteq> None" by (simp only: dirs_mkdir ancestors_self simp_thms)
    then show ?thesis unfolding fs' dirs_chmod dirs_write by (rule plain_writes_dir)
  qed
  moreover have "read_file (w_fs w') (d @ [n]) = map_option (\<lambda>f. OtherFile (SourceFile (sf_contents f))) (find (\<lambda>f. sf_path f = n) (rev files))" for n
  proof -
    have "\<not> existsSync (w_fs w) (d @ [n])" using sandbox_free_exists [OF free] by (simp add: below_iff)
    then have "read_file (w_fs w) (d @ [n]) = None" using read_file_exists by fastforce
    moreover have "?req \<noteq> d @ [n]" using away(1) by (auto simp: below_iff)
    ultimately show ?thesis by (auto simp: fs' plain_writes_reads split: option.split)
  qed
  ultimately show ?thesis using that run reqs exists by metis
qed


lemma sample_buildable:
  "buildable (sample_coder ''index.mjs'' (Some [''state'', ''extensions-generated''])) sample_build sample_requests_world
     [sample_cap_request ''CRM'' ReqOpen] (sample_cap_request ''CRM'' ReqOpen) (sample_completion ''index.mjs'')"
  "buildable (sample_coder ''index.mjs'' None) sample_build sample_requests_world
     [sample_cap_request ''CRM'' ReqOpen] (sample_cap_request ''CRM'' ReqOpen) (sample_completion ''index.mjs'')"
  by code_simp+

lemma sample_coder_quiet: "e_auditThrows (sample_coder name base) n = None"
  by (simp add: sample_coder_def env.defs quiet_env_def)


text \<open>The same build with the roots the program itself uses. Neither the worker's nor the activator's
  options name a generated root, so the worker writes below the working directory and the activator
  reads below the state directory. The build succeeds, the activation of the built capability is
  refused, and building it again is refused too, because the request is already fulfilled: a
  capability built this way cannot become active.\<close>

lemma default_build_not_activatable:
  assumes build: "buildable opts input w requests request completion" and quiet: "\<And>n. e_auditThrows opts n = None"
    and roots: "cp_stateDir aopts = sc_stateDir opts" "sc_generatedRoot opts = None" "cp_generatedRoot aopts = None"
    and apart: "\<not> below (source_root aopts @ [sanitizeId_coder (cq_integration request)]) (target_dir opts request)"
      "\<not> below (target_dir opts request) (source_root aopts @ [sanitizeId_coder (cq_integration request)])"
    and absent: "\<not> existsSync (w_fs w) (source_root aopts @ [sanitizeId_coder (cq_integration request)])"
    and records: "fst (readActivatedCapabilities (sc_stateDir opts) (w_fs w)) = Inr existing"
      "find (is_active (sanitizeCapabilityId (cq_integration request))) existing = None"
  shows "\<exists>out w' why again. createSelfCoderWorker opts input origin w = (Inr out, w') \<and> pwo_ok out
    \<and> activateCapability aopts (task_request_id input) \<lparr>ca_world = w', ca_cache = cache\<rparr> =
        (Inr (ActivationRefused why None), \<lparr>ca_world = w', ca_cache = cache\<rparr>)
    \<and> createSelfCoderWorker opts input origin w' = (Inr again, w') \<and> \<not> pwo_ok again"
proof -
  let ?d = "target_dir opts request" and ?i = "task_request_id input" and ?src = "source_root aopts @ [sanitizeId_coder (cq_integration request)]"
  let ?new = "fulfil ?i ?d request"
  obtain out w' where run: "createSelfCoderWorker opts input origin w = (Inr out, w')" "pwo_ok out"
    and reqs: "fst (readCapabilityRequests (sc_stateDir opts) (w_fs w')) = Inr (map (fulfil ?i ?d) requests)"
    and acts: "fst (readActivatedCapabilities (sc_stateDir opts) (w_fs w')) = fst (readActivatedCapabilities (sc_stateDir opts) (w_fs w))"
    and exists: "\<And>q. existsSync (w_fs w') q \<Longrightarrow> existsSync (w_fs w) q \<or> below q ?d \<or> below ?d q"
    using build_disk [OF build quiet] by metis
  let ?s = "\<lparr>ca_world = w', ca_cache = cache\<rparr>"
  from build have found: "find (\<lambda>r. cq_id r = ?i) requests = Some request" and i: "?i \<noteq> []" by (simp_all add: buildable_def)
  note same = fulfil_same [OF found, of ?d]
  have none: "\<not> existsSync (w_fs w') ?src" using exists [of ?src] apart absent by blast
  then have nodir: "map_of (fs_dirs (w_fs w')) ?src = None" by (simp add: existsSync_def)
  have find: "find (\<lambda>r. cq_id r = ?i) (map (fulfil ?i ?d) requests) = Some ?new" by (simp add: find_fulfil found)
  have reads: "on_disk (readCapabilityRequests (sc_stateDir opts)) ?s = (Inr (map (fulfil ?i ?d) requests), ?s)"
    "on_disk (readActivatedCapabilities (sc_stateDir opts)) ?s = (Inr existing, ?s)"
    using reqs acts records(1) by (simp_all add: on_disk_read)
  have "\<exists>why. activateCapability aopts ?i ?s = (Inr (ActivationRefused why None), ?s)"
    using nodir records(2) by (simp add: activateCapability_def bind_m_apply roots reads find same Let_def sanitizeId_coder_agrees)
  moreover have "\<exists>again. createSelfCoderWorker opts input origin w' = (Inr again, w') \<and> \<not> pwo_ok again"
    using i reqs find same(1)
    by (simp add: createSelfCoderWorker_def task_request_id_def [symmetric] Let_def bind_m_apply on_fs_apply worker_error_def)
  ultimately show ?thesis using run by blast
qed

lemma default_build_not_activatable_witness:
  "\<exists>out w' why. createSelfCoderWorker (sample_coder ''index.mjs'' None) sample_build None sample_requests_world = (Inr out, w') \<and> pwo_ok out
     \<and> activateCapability sample_cap_opts ''c1'' \<lparr>ca_world = w', ca_cache = []\<rparr> =
         (Inr (ActivationRefused why None), \<lparr>ca_world = w', ca_cache = []\<rparr>)"
proof -
  let ?opts = "sample_coder ''index.mjs'' None"
  let ?src = "source_root sample_cap_opts @ [sanitizeId_coder (cq_integration (sample_cap_request ''CRM'' ReqOpen))]"
  have facts: "cp_stateDir sample_cap_opts = sc_stateDir ?opts" "sc_generatedRoot ?opts = None" "cp_generatedRoot sample_cap_opts = None"
    "\<not> below ?src (target_dir ?opts (sample_cap_request ''CRM'' ReqOpen))" "\<not> below (target_dir ?opts (sample_cap_request ''CRM'' ReqOpen)) ?src"
    "\<not> existsSync (w_fs sample_requests_world) ?src"
    "fst (readActivatedCapabilities (sc_stateDir ?opts) (w_fs sample_requests_world)) = Inr []" "task_request_id sample_build = ''c1''"
    by code_simp+
  from default_build_not_activatable [OF sample_buildable(2) sample_coder_quiet facts(1-7), of None "[]"]
  show ?thesis unfolding facts(8) by auto
qed

end
