(* ===== verification/Capabilities_Http.thy ===== *)
theory Capabilities_Http
  imports Gateway_Http Self_Coder
begin

text \<open>
  The HTTP API of the capability subsystem, \<^verbatim>\<open>src/gateway/capabilities-http.ts\<close>: the listings of
  requests and of activations, the trace of a request, activation, rollback, and the build that queues a
  self-coder task. The state is the activator's: the world and the loader's cache. \<open>ch_loader\<close> says
  whether the running gateway has a capability loader. A build writes one project and one task, in the
  store the pickup loop reads.
\<close>

section \<open>Options and routing\<close>

record caps_opts = env +
  ch_stateDir :: path
  ch_loader :: bool
  ch_import :: import_module

text \<open>\<open>projectsDir\<close> and \<open>auditLogPath\<close> are derived from the state directory at every request.\<close>

definition caps_env :: "caps_opts \<Rightarrow> env" where
  "caps_env opts = (env.truncate opts)
     \<lparr>e_projectsDir := ch_stateDir opts @ [''projects''], e_auditLogPath := Some (path_text (ch_stateDir opts @ [''audit.log'']))\<rparr>"

definition activator_opts :: "caps_opts \<Rightarrow> bool \<Rightarrow> cap_opts" where
  "activator_opts opts force =
     env.extend (caps_env opts) (cap_opts.fields (ch_stateDir opts) None None None (ch_loader opts) force (ch_import opts))"

text \<open>\<open>pathname.match(/^\/v1\/capabilities\/([^/]+)\/verb$/)\<close>\<close>

definition capability_match :: "string \<Rightarrow> string \<Rightarrow> string option" where
  "capability_match verb pathname =
     (case split_segments [] pathname of
        [e, v, c, seg, a] \<Rightarrow>
          if e = [] \<and> v = ''v1'' \<and> c = ''capabilities'' \<and> seg \<noteq> [] \<and> a = verb then Some seg else None
      | _ \<Rightarrow> None)"

definition isCapabilitiesPath :: "string \<Rightarrow> bool" where
  "isCapabilitiesPath pathname \<longleftrightarrow>
     pathname = ''/v1/capabilities'' \<or> pathname = ''/v1/capabilities/activated''
     \<or> list_ex (\<lambda>verb. capability_match verb pathname \<noteq> None) [''build'', ''activate'', ''deactivate'', ''trace'']"

section \<open>Replies\<close>

definition request_summary :: "cap_request \<Rightarrow> json" where
  "request_summary r = JObj
     ([(''id'', JStr (cq_id r)), (''projectId'', JStr (cq_projectId r)), (''integration'', JStr (cq_integration r)),
       (''why'', JStr (cq_why r)), (''status'', JStr (request_status_name (cq_status r))), (''createdAt'', JStr (cq_createdAt r))]
      @ opt_field ''sketch'' (cq_sketch r) @ opt_field ''resolution'' (cq_resolution r))"

definition activation_status_name :: "activation_status \<Rightarrow> string" where
  "activation_status_name st = (case st of ActivationActive \<Rightarrow> ''active'' | ActivationRolledBack \<Rightarrow> ''rolled-back'')"

definition activation_summary :: "activation \<Rightarrow> json" where
  "activation_summary a = JObj
     ([(''id'', JStr (av_id a)), (''integration'', JStr (av_integration a)), (''fromRequestId'', JStr (av_fromRequestId a)),
       (''activatedAt'', JStr (av_activatedAt a)), (''activatedBy'', JStr (av_activatedBy a)),
       (''status'', JStr (activation_status_name (av_status a)))]
      @ opt_field ''rollbackAt'' (av_rollbackAt a) @ opt_field ''rollbackReason'' (av_rollbackReason a))"

text \<open>Whole records, as \<open>JSON.stringify\<close> prints them: an absent field is left out.\<close>

definition present_field :: "string \<Rightarrow> string option \<Rightarrow> json_object" where
  "present_field k v = (case v of None \<Rightarrow> [] | Some s \<Rightarrow> [(k, JStr s)])"

definition request_record :: "cap_request \<Rightarrow> json" where
  "request_record r = JObj
     ([(''id'', JStr (cq_id r)), (''projectId'', JStr (cq_projectId r)), (''taskId'', JStr (cq_taskId r)),
       (''integration'', JStr (cq_integration r)), (''why'', JStr (cq_why r))]
      @ present_field ''sketch'' (cq_sketch r)
      @ [(''createdAt'', JStr (cq_createdAt r)), (''status'', JStr (request_status_name (cq_status r)))]
      @ present_field ''resolution'' (cq_resolution r))"

definition activation_record :: "activation \<Rightarrow> json" where
  "activation_record a = JObj
     ([(''id'', JStr (av_id a)), (''integration'', JStr (av_integration a)), (''fromRequestId'', JStr (av_fromRequestId a)),
       (''activatedAt'', JStr (av_activatedAt a)), (''activatedBy'', JStr (av_activatedBy a)),
       (''sourceDir'', JStr (path_text (av_sourceDir a))), (''activeDir'', JStr (path_text (av_activeDir a))),
       (''status'', JStr (activation_status_name (av_status a)))]
      @ present_field ''rollbackAt'' (av_rollbackAt a) @ present_field ''rollbackReason'' (av_rollbackReason a))"

definition preflight_json :: "preflight_outcome \<Rightarrow> json" where
  "preflight_json p = JObj
     [(''ok'', JBool (pf_ok p)),
      (''checks'', JArr (map (\<lambda>c. JObj ([(''name'', JStr (preflight_check_name (pf_name c))), (''passed'', JBool (pf_passed c))]
         @ present_field ''detail'' (pf_detail c) @ (if pf_warningOnly c then [(''warningOnly'', JBool True)] else []))) (pf_checks p))),
      (''errorSummary'', JStr (pf_errorSummary p))]"

definition preflight_field :: "preflight_outcome option \<Rightarrow> json_object" where
  "preflight_field p = (case p of None \<Rightarrow> [] | Some q \<Rightarrow> [(''preflight'', preflight_json q)])"

definition error_message :: "string \<Rightarrow> json_object" where
  "error_message m = [(''error'', JObj [(''message'', JStr m)])]"

text \<open>\<open>try { reply } catch (err) { 500 }\<close> around the GET handlers, and the bare 405.\<close>

definition only_get :: "gateway_request \<Rightarrow> (cap_state, gateway_reply) prog \<Rightarrow> (cap_state, gateway_outcome) prog" where
  "only_get req handler =
     (if gq_method req \<noteq> ''GET'' then return_m (Sent \<lparr>gr_status = 405, gr_headers = [(''Allow'', ''GET'')], gr_body = NoBody\<rparr>)
      else bind_m (catch_m handler (\<lambda>err. return_m (sendJson 500 (error_message err)))) (\<lambda>r. return_m (Sent r)))"

section \<open>Reading\<close>

definition handleListRequests :: "caps_opts \<Rightarrow> (cap_state, gateway_reply) prog" where
  "handleListRequests opts =
     bind_m (on_disk (readCapabilityRequests (ch_stateDir opts))) (\<lambda>requests.
     return_m (sendJson 200 [(''requests'', JArr (map request_summary requests))]))"

definition handleListActivated :: "caps_opts \<Rightarrow> (cap_state, gateway_reply) prog" where
  "handleListActivated opts =
     bind_m (on_disk (readActivatedCapabilities (ch_stateDir opts))) (\<lambda>activated.
     return_m (sendJson 200 [(''activated'', JArr (map activation_summary activated)),
       (''store'', JStr (path_text (resolveActivatedCapabilitiesPath (ch_stateDir opts))))]))"

definition trace_sources :: "caps_opts \<Rightarrow> json" where
  "trace_sources opts = JObj
     [(''note'', JStr ''Full event timeline lives in the audit log; this trace summarizes the persistent records.''),
      (''sources'', JArr
        [JObj [(''file'', JStr ''capability-requests.json''), (''path'', JStr (path_text (resolveCapabilityRequestsPath (ch_stateDir opts))))],
         JObj [(''file'', JStr ''audit.log''), (''path'', JStr (path_text (ch_stateDir opts @ [''audit.log''])))]])]"

definition handleTrace :: "caps_opts \<Rightarrow> string \<Rightarrow> (cap_state, gateway_reply) prog" where
  "handleTrace opts segment =
     bind_m (lift_m (decodeURIComponent segment)) (\<lambda>requestId.
     bind_m (readReasoningTrace (activator_opts opts False) requestId) (\<lambda>trace.
     return_m (sendJson (if fst trace \<noteq> None then 200 else 404)
       ((case fst trace of None \<Rightarrow> [] | Some r \<Rightarrow> [(''request'', request_record r)])
        @ (case snd trace of None \<Rightarrow> [] | Some a \<Rightarrow> [(''activation'', activation_record a)])
        @ [(''trace'', trace_sources opts)]))))"

section \<open>Activation and rollback\<close>

definition accepted :: "gateway_request \<Rightarrow> (json \<Rightarrow> (cap_state, gateway_reply) prog) \<Rightarrow> (cap_state, gateway_outcome) prog" where
  "accepted req handler =
     (case handleGatewayPostJsonEndpoint req (gq_pathname req) False of
        OtherPath \<Rightarrow> return_m NothingSent
      | AlreadyReplied r \<Rightarrow> return_m (Sent r)
      | Accepted body \<Rightarrow> bind_m (handler body) (\<lambda>r. return_m (Sent r)))"

definition handleActivate :: "caps_opts \<Rightarrow> string \<Rightarrow> json \<Rightarrow> (cap_state, gateway_reply) prog" where
  "handleActivate opts requestId body =
     bind_m (activateCapability (activator_opts opts (json_field body ''force'' = Some (JBool True))) requestId) (\<lambda>outcome.
       case outcome of
         ActivationRefused error preflight \<Rightarrow>
           return_m (sendJson 400 ([(''ok'', JBool False), (''error'', JStr error)] @ preflight_field preflight))
       | ActivationOk record newlyActivated preflight \<Rightarrow>
           bind_m (get_m (\<lambda>s. ch_loader opts \<and> getCapability s (av_id record) \<noteq> None)) (\<lambda>liveNow.
           return_m (sendJson 200
             ([(''ok'', JBool True), (''record'', activation_record record), (''newlyActivated'', JBool newlyActivated),
               (''hotLoaded'', JBool liveNow)]
              @ preflight_field preflight
              @ [(''message'', JStr
                  (if newlyActivated then
                     (if liveNow then ''Activated and hot-loaded into the running gateway.''
                      else ''Activated, but hot-load did not complete '' @ EM_DASH @ '' restart the gateway to load.'')
                   else ''Already active; no-op.''))]))))"

definition handleDeactivate :: "caps_opts \<Rightarrow> string \<Rightarrow> json \<Rightarrow> (cap_state, gateway_reply) prog" where
  "handleDeactivate opts requestId body =
     (let reason = (case json_field body ''reason'' of
            Some (JStr s) \<Rightarrow> if length (js_trim s) > 0 then Some (js_trim s) else None | _ \<Rightarrow> None)
      in bind_m (deactivateCapability (activator_opts opts False) requestId reason) (\<lambda>outcome.
           case outcome of
             Inl error \<Rightarrow> return_m (sendJson 400 [(''ok'', JBool False), (''error'', JStr error)])
           | Inr record \<Rightarrow>
               return_m (sendJson 200 [(''ok'', JBool True), (''record'', activation_record record),
                 (''message'', JStr (''Rolled back. Active-dir copy was removed; the sandbox copy remains for forensics. The cached module reference has been dropped from the running loader (Node ESM cannot truly unload ''
                    @ EM_DASH @ '' restart for a clean slate).''))])))"

section \<open>Builds\<close>

definition build_project_id :: "string \<Rightarrow> string" where
  "build_project_id uuid = ''proj-build-'' @ take 8 uuid"

definition build_task_id :: "string \<Rightarrow> string" where
  "build_task_id uuid = ''task-'' @ take 8 uuid"

definition build_project :: "cap_request \<Rightarrow> string \<Rightarrow> string \<Rightarrow> project" where
  "build_project request projectId ts =
     \<lparr>pr_id = projectId, pr_name = ''Build: '' @ cq_integration request,
      pr_goal = ''Generate a stub extension for capability '' @ quoted (cq_integration request) @ ''. Reason: '' @ cq_why request,
      pr_owner = ''operator'', pr_createdAt = ts, pr_status = Active, pr_channels = [], pr_assignedExperts = None,
      pr_goalEvaluation = None, pr_iterationCount = None, pr_maxIterations = None,
      pr_metadata = Some [(''spawnedFromCapabilityRequest'', JStr (cq_id request))]\<rparr>"

definition build_draft :: "cap_request \<Rightarrow> task_draft" where
  "build_draft request =
     \<lparr>d_title = ''Generate stub for '' @ cq_integration request,
      d_description = ''Self-coder: read capability request '' @ cq_id request @ '' and write the scaffold.'',
      d_role = SelfCoder, d_dependsOn = [], d_input = [(''requestId'', JStr (cq_id request))], d_priority = Some High,
      d_requiresApproval = None, d_expertId = None\<rparr>"

definition queue_build :: "caps_opts \<Rightarrow> cap_request \<Rightarrow> (cap_world, gateway_reply) prog" where
  "queue_build opts request =
     (let env = caps_env opts
      in bind_m (randomUUID env) (\<lambda>u1.
         bind_m (now_m env) (\<lambda>ts1.
         let projectId = build_project_id u1; project = build_project request projectId ts1
         in seq_m (on_fs (saveProject (e_projectsDir env) project))
           (seq_m (emitProjectsAuditEvent env KProjectCreated
              [(''projectId'', JStr projectId), (''name'', JStr (pr_name project)), (''owner'', JStr (pr_owner project)),
               (''channelCount'', JNum 0), (''spawnedFromCapabilityRequest'', JStr (cq_id request))])
           (bind_m (randomUUID env) (\<lambda>u2.
            bind_m (now_m env) (\<lambda>ts2.
            let t = createTaskRecord (build_task_id u2) projectId (build_draft request) OperatorOrigin ts2
            in seq_m (on_fs (saveTask (e_projectsDir env) t))
              (seq_m (emitProjectsAuditEvent env KTaskCreated
                 [(''projectId'', JStr projectId), (''taskId'', JStr (tk_id t)), (''role'', JStr (role_name (tk_role t))),
                  (''priority'', JStr (priority_name (tk_priority t))), (''requiresApproval'', JBool False), (''originKind'', JStr ''operator'')])
               (return_m (sendJson 200
                 [(''ok'', JBool True), (''projectId'', JStr projectId), (''taskId'', JStr (tk_id t)),
                  (''message'', JStr (''Self-coder task queued. The pickup loop will run it on its next tick; the project transitions to ''
                     @ [CHR 0x27] @ ''review'' @ [CHR 0x27] @ '' once generation completes for operator approval.''))])))))))))) "

definition handleBuildCapability :: "caps_opts \<Rightarrow> string \<Rightarrow> (cap_state, gateway_reply) prog" where
  "handleBuildCapability opts requestId =
     (if requestId = [] then return_m (sendJson 400 (error_message ''Missing requestId in path''))
      else catch_m
        (bind_m (on_disk (readCapabilityRequests (ch_stateDir opts))) (\<lambda>requests.
           case find (\<lambda>r. cq_id r = requestId) requests of
             None \<Rightarrow> return_m (sendJson 404 (error_message (''Unknown capability request: '' @ requestId)))
           | Some request \<Rightarrow>
               if cq_status request = ReqFulfilled then
                 return_m (sendJson 409 (error_message (''Capability request '' @ requestId
                   @ '' is already fulfilled. Inspect the prior output before regenerating.'')))
               else on_world (queue_build opts request)))
        (\<lambda>err. return_m (sendJson 500 (error_message err))))"

section \<open>The endpoint\<close>

definition posted :: "gateway_request \<Rightarrow> string \<Rightarrow> (string \<Rightarrow> json \<Rightarrow> (cap_state, gateway_reply) prog) \<Rightarrow> (cap_state, gateway_outcome) prog" where
  "posted req segment handler =
     bind_m (lift_m (decodeURIComponent segment)) (\<lambda>requestId. accepted req (handler requestId))"

definition handleCapabilitiesRequest :: "caps_opts \<Rightarrow> gateway_request \<Rightarrow> (cap_state, gateway_outcome) prog" where
  "handleCapabilitiesRequest opts req =
     (let pathname = gq_pathname req
      in if \<not> isCapabilitiesPath pathname then return_m NotHandled
         else if pathname = ''/v1/capabilities'' then only_get req (handleListRequests opts)
         else if pathname = ''/v1/capabilities/activated'' then only_get req (handleListActivated opts)
         else case capability_match ''trace'' pathname of
             Some segment \<Rightarrow> only_get req (handleTrace opts segment)
           | None \<Rightarrow>
               (case capability_match ''activate'' pathname of
                  Some segment \<Rightarrow> posted req segment (handleActivate opts)
                | None \<Rightarrow>
                    (case capability_match ''deactivate'' pathname of
                       Some segment \<Rightarrow> posted req segment (handleDeactivate opts)
                     | None \<Rightarrow>
                         (case capability_match ''build'' pathname of
                            Some segment \<Rightarrow> posted req segment (\<lambda>requestId body. handleBuildCapability opts requestId)
                          | None \<Rightarrow> return_m NotHandled))))"

section \<open>Facts\<close>

lemma caps_env_simps [simp]:
  "e_projectsDir (caps_env opts) = ch_stateDir opts @ [''projects'']" "e_now (caps_env opts) = e_now opts"
  "e_auditThrows (caps_env opts) = e_auditThrows opts" "e_uuid (caps_env opts) = e_uuid opts"
  by (simp_all add: caps_env_def env.defs)

lemma on_disk_state: "(\<And>fs. snd (m fs) = fs) \<Longrightarrow> snd (on_disk m s) = s"
  by (simp add: on_disk_def on_world_def on_fs_apply split: prod.splits)

text \<open>Programs that only read.\<close>

lemma preserves_same: "(\<And>s0. preserves (\<lambda>s. s = s0) m) \<Longrightarrow> snd (m s) = s"
  using preservesD [of "\<lambda>t. t = s" m s] by simp

lemma reads_state:
  "preserves (\<lambda>s. s = s0) (on_disk (readCapabilityRequests d))" "preserves (\<lambda>s. s = s0) (on_disk (readActivatedCapabilities d))"
  by (intro preservesI; simp add: on_disk_state)+

lemma get_handlers_read:
  "preserves (\<lambda>s. s = s0) (handleListRequests opts)" "preserves (\<lambda>s. s = s0) (handleListActivated opts)"
  "preserves (\<lambda>s. s = s0) (handleTrace opts segment)"
  unfolding handleListRequests_def handleListActivated_def handleTrace_def readReasoningTrace_def
  by (intro preserves_intros reads_state)+

lemma only_get_reads: "(\<And>s0. preserves (\<lambda>s. s = s0) handler) \<Longrightarrow> snd (only_get req handler s) = s"
  by (rule preserves_same) (auto simp: only_get_def intro!: preserves_intros)

lemma posted_refused:
  assumes "gq_auth req \<noteq> AuthPassed \<or> gq_method req \<noteq> ''POST''"
  shows "snd (posted req segment handler s) = s"
proof -
  have "handleGatewayPostJsonEndpoint req p f \<noteq> Accepted body" for p f body
    using assms handshake_accepted by blast
  then show ?thesis
    by (cases "decodeURIComponent segment"; cases "handleGatewayPostJsonEndpoint req (gq_pathname req) False")
      (simp_all add: posted_def bind_m_apply accepted_def)
qed

lemma posted_accepted:
  assumes "gq_method req = ''POST''" "gq_auth req = AuthPassed" "gq_body req = Inr body" "decodeURIComponent segment = Inr requestId"
  shows "posted req segment handler s = (case handler requestId body s of (Inl e, s') \<Rightarrow> (Inl e, s') | (Inr r, s') \<Rightarrow> (Inr (Sent r), s'))"
  using assms by (simp add: posted_def bind_m_apply accepted_def handleGatewayPostJsonEndpoint_def sendGatewayAuthFailure_def
      readJsonBodyOrError_def split: prod.split sum.split)

text \<open>A GET is answered alike whatever credentials it carries.\<close>

lemma capability_get_needs_no_token:
  assumes "gq_method req = ''GET''"
  shows "handleCapabilitiesRequest opts (req\<lparr>gq_auth := a\<rparr>) = handleCapabilitiesRequest opts req"
proof -
  have "only_get (req\<lparr>gq_auth := a\<rparr>) = only_get req" by (simp add: fun_eq_iff only_get_def)
  moreover have "accepted (req\<lparr>gq_auth := a\<rparr>) = accepted req"
    using assms by (simp add: fun_eq_iff accepted_def handleGatewayPostJsonEndpoint_def)
  then have "posted (req\<lparr>gq_auth := a\<rparr>) = posted req" by (simp add: posted_def [abs_def])
  moreover have "gq_pathname (req\<lparr>gq_auth := a\<rparr>) = gq_pathname req" by simp
  ultimately show ?thesis by (simp only: handleCapabilitiesRequest_def)
qed

section \<open>Who may change capabilities\<close>

text \<open>Through this endpoint, nothing of the state (files, audit log, loaded modules) changes unless the
  request is a POST that passed the gateway's authorisation.\<close>

lemma capability_changes_need_operator:
  assumes "gq_auth req \<noteq> AuthPassed \<or> gq_method req \<noteq> ''POST''"
  shows "snd (handleCapabilitiesRequest opts req s) = s"
  using only_get_reads [OF get_handlers_read(1)] only_get_reads [OF get_handlers_read(2)] only_get_reads [OF get_handlers_read(3)]
    posted_refused [OF assms]
  by (simp add: handleCapabilitiesRequest_def Let_def split: option.split)

definition sample_caps_opts :: caps_opts where
  "sample_caps_opts = env.extend quiet_env (caps_opts.fields [''state''] True (\<lambda>call body. Inr (RunFunction (\<lambda>input. return_m None))))"

definition sample_post :: "string \<Rightarrow> gateway_auth \<Rightarrow> gateway_request" where
  "sample_post pathname auth = \<lparr>gq_method = ''POST'', gq_pathname = pathname, gq_auth = auth, gq_missingScope = None, gq_body = Inr (JObj [])\<rparr>"

lemma capability_changes_need_operator_witness:
  "snd (handleCapabilitiesRequest sample_caps_opts (sample_post ''/v1/capabilities/c1/activate'' AuthFailed) sample_cap_state) = sample_cap_state"
  using capability_changes_need_operator [of "sample_post ''/v1/capabilities/c1/activate'' AuthFailed" sample_caps_opts sample_cap_state]
  by (simp add: sample_post_def)

section \<open>A build request becomes a task\<close>

lemma split_then_slash: "CHR ''/'' \<notin> set g \<Longrightarrow> split_segments acc (g @ CHR ''/'' # s) = (acc @ g) # split_segments [] s"
  by (induction g arbitrary: acc) auto

lemma build_route:
  assumes "CHR ''/'' \<notin> set segment" "segment \<noteq> []" "gq_pathname req = ''/v1/capabilities/'' @ segment @ ''/build''"
  shows "handleCapabilitiesRequest opts req = posted req segment (\<lambda>requestId body. handleBuildCapability opts requestId)"
proof -
  have "split_segments [] (''/v1/capabilities/'' @ segment @ ''/build'') = [[], ''v1'', ''capabilities'', segment, ''build'']"
    using split_then_slash [OF assms(1), of "[]" "''build''"] by simp
  then have match: "capability_match verb (''/v1/capabilities/'' @ segment @ ''/build'') = (if verb = ''build'' then Some segment else None)" for verb
    using assms(2) by (simp add: capability_match_def)
  have "''/v1/capabilities/'' @ segment @ ''/build'' \<noteq> ''/v1/capabilities''" by simp
  moreover have "''/v1/capabilities/'' @ segment @ ''/build'' \<noteq> ''/v1/capabilities/activated''"
  proof
    assume "''/v1/capabilities/'' @ segment @ ''/build'' = ''/v1/capabilities/activated''"
    then have "segment @ ''/build'' = ''activated''" by simp
    then have "CHR ''/'' \<in> set ''activated''" by (metis in_set_conv_decomp append.assoc append_Cons)
    then show False by simp
  qed
  ultimately show ?thesis using match by (simp add: handleCapabilitiesRequest_def Let_def isCapabilitiesPath_def assms(3) del: append_Cons)
qed

lemma safe_suffix: "safe_id p \<Longrightarrow> list_all id_char u \<Longrightarrow> safe_id (p @ take n u)"
  by (auto simp: safe_id_def list_all_iff dest: in_set_takeD)

lemma emit_quiet:
  assumes "\<And>n. e_auditThrows env n = None"
  obtains w' where "emitProjectsAuditEvent env k p w = (Inr (), w')" "w_fs w' = w_fs w" "w_ids w' = w_ids w" "w_clock w' = w_clock w"
  using assms by (simp add: emitProjectsAuditEvent_def Let_def)

text \<open>The two records a build writes.\<close>

lemma queue_build_effect:
  fixes opts :: caps_opts and w :: cap_world
  defines "dir \<equiv> ch_stateDir opts @ [''projects'']"
    and "pid \<equiv> build_project_id (e_uuid opts (w_ids w))" and "tid \<equiv> build_task_id (e_uuid opts (Suc (w_ids w)))"
  assumes ids: "\<And>n. list_all id_char (e_uuid opts n)" and quiet: "\<And>n. e_auditThrows opts n = None"
  obtains r w' ts1 ts2 where "queue_build opts request w = (Inr r, w')" "gr_status r = 200"
    "w_fs w' = snd (saveTask dir (createTaskRecord tid pid (build_draft request) OperatorOrigin ts2)
       (snd (saveProject dir (build_project request pid ts1) (w_fs w))))" "safe_id pid" "safe_id tid"
proof -
  let ?env = "caps_env opts"
  have hush: "\<And>n. e_auditThrows ?env n = None" using quiet by simp
  have "safe_id ''proj-build-''" "safe_id ''task-''" by code_simp+
  then have safe: "safe_id pid" "safe_id tid" unfolding pid_def tid_def build_project_id_def build_task_id_def using ids by (simp_all only: safe_suffix)
  let ?ts1 = "e_now opts (w_clock w)"
  let ?w1 = "w\<lparr>w_ids := Suc (w_ids w), w_clock := Suc (w_clock w), w_fs := snd (saveProject dir (build_project request pid ?ts1) (w_fs w))\<rparr>"
  have prid: "pr_id (build_project request pid ?ts1) = pid" by (simp add: build_project_def)
  obtain w2 where w2: "emitProjectsAuditEvent ?env KProjectCreated
      [(''projectId'', JStr pid), (''name'', JStr (pr_name (build_project request pid ?ts1))), (''owner'', JStr (pr_owner (build_project request pid ?ts1))),
       (''channelCount'', JNum 0), (''spawnedFromCapabilityRequest'', JStr (cq_id request))] ?w1 = (Inr (), w2)"
    and keep: "w_fs w2 = w_fs ?w1" "w_ids w2 = w_ids ?w1" "w_clock w2 = w_clock ?w1"
    by (rule emit_quiet [OF hush])
  let ?t = "createTaskRecord tid pid (build_draft request) OperatorOrigin (e_now opts (w_clock w2))"
  let ?w3 = "w2\<lparr>w_ids := Suc (w_ids w2), w_clock := Suc (w_clock w2), w_fs := snd (saveTask dir ?t (w_fs w2))\<rparr>"
  have tk: "tk_id ?t = tid" "tk_projectId ?t = pid" by (simp_all add: createTaskRecord_def Let_def)
  obtain w4 where w4: "emitProjectsAuditEvent ?env KTaskCreated
      [(''projectId'', JStr pid), (''taskId'', JStr (tk_id ?t)), (''role'', JStr (role_name (tk_role ?t))),
       (''priority'', JStr (priority_name (tk_priority ?t))), (''requiresApproval'', JBool False), (''originKind'', JStr ''operator'')] ?w3 = (Inr (), w4)"
    "w_fs w4 = w_fs ?w3"
    by (rule emit_quiet [OF hush])
  have saved: "fst (saveProject dir (build_project request pid ?ts1) (w_fs w)) = Inr ()" "fst (saveTask dir ?t (w_fs w2)) = Inr ()"
    using safe by (simp_all add: saveProject_safe prid saveTask_safe tk)
  have "\<exists>r. queue_build opts request w = (Inr r, w4) \<and> gr_status r = 200"
    unfolding queue_build_def Let_def bind_m_apply seq_m_apply randomUUID_def now_m_def on_fs_apply
    using w2 w4(1) saved keep(2)
    by (simp add: dir_def [symmetric] pid_def [symmetric] tid_def [symmetric] sendJson_def)
  then show ?thesis using that safe w4(2) keep(1) by auto
qed

lemma read_saveProject:
  "safe_id (pr_id p) \<Longrightarrow> read_file (snd (saveProject dir p fs)) q = (if q = dir @ [pr_id p, ''project.json''] then Some (ProjectFile p) else read_file fs q)"
  by (simp add: saveProject_safe)


lemma sample_uuid: "list_all id_char (e_uuid sample_caps_opts n)" "e_auditThrows sample_caps_opts n = None"
proof -
  have "id_char c" if "is_digit c" for c using that by (auto simp: is_digit_def id_char_def Let_def)
  then show "list_all id_char (e_uuid sample_caps_opts n)"
    using show_nat_digits by (auto simp: sample_caps_opts_def env.defs quiet_env_def list_all_iff)
qed (simp add: sample_caps_opts_def env.defs quiet_env_def)


end
