(* ===== verification/Experts.thy ===== *)
theory Experts
  imports Capability_Store Llm_Client
begin

text \<open>
  The company of experts: the record and its departments (\<^verbatim>\<open>src/experts/types.ts\<close>) and the
  registry that merges the bundled roster with the user's files (\<^verbatim>\<open>src/experts/registry.ts\<close>). The
  bundled roster is static data and a field of the options; the facts ask only that its ids are distinct
  and kebab-case. The registry's cache belongs to the state, next to the world.
\<close>

section \<open>Experts\<close>

datatype department =
    DepLeadership | DepProduct | DepEngineering | DepDesign | DepMarketing | DepSales | DepOperations
  | DepFinance | DepPeople | DepLegal | DepData | DepCustomer | DepResearch

definition department_name :: "department \<Rightarrow> string" where
  "department_name d =
     (case d of DepLeadership \<Rightarrow> ''leadership'' | DepProduct \<Rightarrow> ''product'' | DepEngineering \<Rightarrow> ''engineering''
      | DepDesign \<Rightarrow> ''design'' | DepMarketing \<Rightarrow> ''marketing'' | DepSales \<Rightarrow> ''sales'' | DepOperations \<Rightarrow> ''operations''
      | DepFinance \<Rightarrow> ''finance'' | DepPeople \<Rightarrow> ''people'' | DepLegal \<Rightarrow> ''legal'' | DepData \<Rightarrow> ''data''
      | DepCustomer \<Rightarrow> ''customer'' | DepResearch \<Rightarrow> ''research'')"

definition DEPARTMENT_ORDER :: "department list" where
  "DEPARTMENT_ORDER =
     [DepLeadership, DepProduct, DepEngineering, DepDesign, DepResearch, DepData, DepMarketing, DepSales,
      DepCustomer, DepOperations, DepFinance, DepPeople, DepLegal]"

record expert =
  ex_id :: string
  ex_name :: string
  ex_title :: string
  ex_department :: department
  ex_role :: string
  ex_purpose :: string
  ex_tone :: string
  ex_skills :: "string list"
  ex_toolScope :: "string list option"
  ex_modelPreference :: "json option"
  ex_avatar :: "string option"

text \<open>The expert as \<open>JSON.stringify\<close> prints it.\<close>

definition strings_json :: "string list \<Rightarrow> json" where
  "strings_json xs = JArr (map JStr xs)"

definition expert_fields :: "expert \<Rightarrow> json_object" where
  "expert_fields e =
     [(''id'', JStr (ex_id e)), (''name'', JStr (ex_name e)), (''title'', JStr (ex_title e)),
      (''department'', JStr (department_name (ex_department e))), (''role'', JStr (ex_role e)),
      (''purpose'', JStr (ex_purpose e)), (''tone'', JStr (ex_tone e)), (''skills'', strings_json (ex_skills e))]
     @ (case ex_toolScope e of None \<Rightarrow> [] | Some xs \<Rightarrow> [(''toolScope'', strings_json xs)])
     @ (case ex_modelPreference e of None \<Rightarrow> [] | Some m \<Rightarrow> [(''modelPreference'', m)])
     @ (case ex_avatar e of None \<Rightarrow> [] | Some a \<Rightarrow> [(''avatar'', JStr a)])"

section \<open>Files and state\<close>

datatype proposal_status = PropPending | PropApplied | PropRejected | PropSnoozed

datatype proposal_field = FieldPurpose | FieldTone | FieldRole | FieldSkills | FieldSoul

record soul_proposal =
  sp_id :: string
  sp_expertId :: string
  sp_field :: proposal_field
  sp_before :: string
  sp_after :: string
  sp_rationale :: string
  sp_sourceMissionIds :: "string list"
  sp_proposedAt :: string
  sp_status :: proposal_status
  sp_reviewedAt :: "string option"
  sp_reviewerNote :: "string option"
  sp_model :: "string option"

text \<open>A file of the state directory holds the proposals it encodes, or any other JSON value. An expert is
  kept as the value, since the registry reads and checks it field by field.\<close>

datatype soul_file = ProposalsFile "soul_proposal list" | JsonFile json

type_synonym soul_fs = "soul_file state_fs"
type_synonym soul_world = "soul_file world"

text \<open>\<open>cache\<close> and \<open>cacheStateDir\<close> are set and cleared together.\<close>

record soul_state =
  ss_world :: soul_world
  ss_cache :: "(path \<times> (string \<times> expert) list) option"

record expert_opts = env +
  xo_stateDir :: path
  xo_bundled :: "expert list"

definition on_soul :: "(soul_world, 'a) prog \<Rightarrow> (soul_state, 'a) prog" where
  "on_soul m = (\<lambda>s. case m (ss_world s) of (r, w) \<Rightarrow> (r, s\<lparr>ss_world := w\<rparr>))"

section \<open>The registry\<close>

definition text_at :: "json_object \<Rightarrow> string \<Rightarrow> string option" where
  "text_at ob k = (case obj_get ob k of Some (JStr s) \<Rightarrow> Some s | _ \<Rightarrow> None)"

definition strings_of :: "json list \<Rightarrow> string list" where
  "strings_of xs = List.map_filter (\<lambda>v. case v of JStr s \<Rightarrow> Some s | _ \<Rightarrow> None) xs"

definition department_of :: "string option \<Rightarrow> department" where
  "department_of d =
     (case d of
        None \<Rightarrow> DepOperations
      | Some name \<Rightarrow> nullish (find (\<lambda>x. department_name x = name) DEPARTMENT_ORDER) DepOperations)"

text \<open>The record built from the fields that were found to be strings, and the skills' array.\<close>

definition checked_expert :: "json_object \<Rightarrow> string \<Rightarrow> string \<Rightarrow> string \<Rightarrow> string \<Rightarrow> string \<Rightarrow> string \<Rightarrow> json list \<Rightarrow> expert" where
  "checked_expert input i n t r p tone skills =
     \<lparr>ex_id = i, ex_name = n, ex_title = t, ex_department = department_of (text_at input ''department''),
      ex_role = r, ex_purpose = p, ex_tone = tone, ex_skills = strings_of skills,
      ex_toolScope = (case obj_get input ''toolScope'' of Some (JArr xs) \<Rightarrow> Some (strings_of xs) | _ \<Rightarrow> None),
      ex_modelPreference = (case obj_get input ''modelPreference'' of
          Some m \<Rightarrow> if json_truthy m then Some m else None | None \<Rightarrow> None),
      ex_avatar = text_at input ''avatar''\<rparr>"

definition validateExpert :: "json_object \<Rightarrow> expert option" where
  "validateExpert input =
     (case (text_at input ''id'', text_at input ''name'', text_at input ''title'', text_at input ''role'',
            text_at input ''purpose'', text_at input ''tone'', obj_get input ''skills'') of
        (Some i, Some n, Some t, Some r, Some p, Some tone, Some (JArr skills)) \<Rightarrow>
          Some (checked_expert input i n t r p tone skills)
      | _ \<Rightarrow> None)"

text \<open>\<open>/^[a-z0-9][a-z0-9-]*$/\<close>\<close>

definition lower_alnum :: "char \<Rightarrow> bool" where
  "lower_alnum c \<longleftrightarrow> is_digit c \<or> of_char c \<in> {97..122 :: nat}"

fun kebab_id :: "string \<Rightarrow> bool" where
  "kebab_id [] = False"
| "kebab_id (c # cs) = (lower_alnum c \<and> list_all (\<lambda>d. lower_alnum d \<or> d = CHR ''-'') cs)"

text \<open>One entry of the directory: \<open>validateExpert({ ...parsed, id })\<close> of its content. What cannot be read
  or parsed is skipped.\<close>

definition user_expert :: "path \<Rightarrow> soul_fs \<Rightarrow> string \<Rightarrow> expert option" where
  "user_expert dir fs name =
     (if \<not> ends_json name then None
      else let i = json_stem name
           in if \<not> kebab_id i then None
              else case read_file fs (dir @ [name]) of
                  Some (OtherFile (JsonFile parsed)) \<Rightarrow>
                    validateExpert (obj_spread (case parsed of JObj ob \<Rightarrow> ob | _ \<Rightarrow> []) [(''id'', JStr i)])
                | _ \<Rightarrow> None)"

definition loadUserExperts :: "path \<Rightarrow> soul_fs \<Rightarrow> expert list" where
  "loadUserExperts dir fs = List.map_filter (user_expert dir fs) (readdirSync fs dir)"

text \<open>\<open>for (const e of xs) map.set(e.id, e)\<close>: a new id goes to the end, a known one keeps its place.\<close>

definition set_experts :: "expert list \<Rightarrow> (string \<times> expert) list \<Rightarrow> (string \<times> expert) list" where
  "set_experts xs m = fold (\<lambda>e. AList.update (ex_id e) e) xs m"

definition experts_map :: "'e expert_opts_scheme \<Rightarrow> soul_fs \<Rightarrow> (string \<times> expert) list" where
  "experts_map opts fs = set_experts (loadUserExperts (xo_stateDir opts @ [''experts'']) fs) (set_experts (xo_bundled opts) [])"

definition fresh_map :: "'e expert_opts_scheme \<Rightarrow> (soul_state, (string \<times> expert) list) prog" where
  "fresh_map opts =
     bind_m (get_m (\<lambda>s. experts_map opts (w_fs (ss_world s)))) (\<lambda>m.
     seq_m (modify_m (ss_cache_update (\<lambda>_. Some (xo_stateDir opts, m)))) (return_m m))"

definition getExpertsMap :: "'e expert_opts_scheme \<Rightarrow> (soul_state, (string \<times> expert) list) prog" where
  "getExpertsMap opts =
     bind_m (get_m ss_cache) (\<lambda>cache.
       case cache of
         Some (cacheStateDir, m) \<Rightarrow> if cacheStateDir = xo_stateDir opts then return_m m else fresh_map opts
       | None \<Rightarrow> fresh_map opts)"

definition expert_roster :: "expert list \<Rightarrow> (string \<times> expert) list \<Rightarrow> expert list" where
  "expert_roster bundled m =
     List.map_filter (\<lambda>b. map_of m (ex_id b)) bundled
       @ to_sorted (\<lambda>a b. ex_id a < ex_id b) (filter (\<lambda>e. ex_id e \<notin> set (map ex_id bundled)) (map snd m))"

definition listExperts :: "'e expert_opts_scheme \<Rightarrow> (soul_state, expert list) prog" where
  "listExperts opts = bind_m (getExpertsMap opts) (\<lambda>m. return_m (expert_roster (xo_bundled opts) m))"

definition getExpert :: "'e expert_opts_scheme \<Rightarrow> string \<Rightarrow> (soul_state, expert option) prog" where
  "getExpert opts i = bind_m (getExpertsMap opts) (\<lambda>m. return_m (map_of m i))"

definition clearExpertCache :: "(soul_state, unit) prog" where
  "clearExpertCache = modify_m (ss_cache_update (\<lambda>_. None))"

section \<open>Reading back\<close>

text \<open>What the registry and the program's types promise of an expert.\<close>

definition wf_expert :: "expert \<Rightarrow> bool" where
  "wf_expert e \<longleftrightarrow> kebab_id (ex_id e) \<and> (case ex_modelPreference e of None \<Rightarrow> True | Some m \<Rightarrow> json_truthy m)"

lemma strings_of_json [simp]: "strings_of (map JStr xs) = xs"
  by (induction xs) (simp_all add: strings_of_def)

lemma department_of_name [simp]: "department_of (Some (department_name d)) = d"
  by (cases d) (simp_all add: department_of_def department_name_def DEPARTMENT_ORDER_def)

lemma validate_fields: "wf_expert e \<Longrightarrow> validateExpert (expert_fields e) = Some e"
  by (cases e)
    (auto simp: validateExpert_def checked_expert_def expert_fields_def text_at_def strings_json_def wf_expert_def split: option.splits)

lemma spread_id [simp]: "obj_spread (expert_fields e) [(''id'', JStr (ex_id e))] = expert_fields e"
  by (simp add: obj_spread_def expert_fields_def)

lemma spread_get: "obj_get (obj_spread ob [(k, v)]) k' = (if k' = k then Some v else obj_get ob k')"
  by (simp add: obj_spread_def obj_get_def update_conv')

lemma validate_some:
  assumes "validateExpert (obj_spread ob [(''id'', JStr i)]) = Some e"
  shows "ex_id e = i" and "\<And>m. ex_modelPreference e = Some m \<Longrightarrow> json_truthy m"
proof -
  obtain n t r p tone skills where e: "e = checked_expert (obj_spread ob [(''id'', JStr i)]) i n t r p tone skills"
    using assms by (auto simp: validateExpert_def text_at_def spread_get split: option.splits json.splits)
  show "ex_id e = i" by (simp add: e checked_expert_def)
  show "ex_modelPreference e = Some m \<Longrightarrow> json_truthy m" for m
    by (simp add: e checked_expert_def split: option.splits if_splits)
qed

lemma user_expert_some:
  assumes "user_expert dir fs name = Some e"
  shows "wf_expert e \<and> name = ex_id e @ ''.json'' \<and> existsSync fs (dir @ [name])"
proof -
  from assms obtain parsed where stored: "read_file fs (dir @ [name]) = Some (OtherFile (JsonFile parsed))"
    and name: "ends_json name" "kebab_id (json_stem name)"
    and e: "validateExpert (obj_spread (case parsed of JObj ob \<Rightarrow> ob | _ \<Rightarrow> []) [(''id'', JStr (json_stem name))]) = Some e"
    by (auto simp: user_expert_def Let_def split: if_splits option.splits state_file.splits soul_file.splits)
  have "name = json_stem name @ ''.json''"
    using name(1) append_take_drop_id [of "length name - 5" name] by (simp add: ends_json_def json_stem_def)
  moreover have "ex_id e = json_stem name" "\<forall>m. ex_modelPreference e = Some m \<longrightarrow> json_truthy m"
    using validate_some [OF e] by auto
  ultimately show ?thesis using name(2) read_file_exists [OF stored] by (auto simp: wf_expert_def split: option.split)
qed

lemma loaded_iff: "e \<in> set (loadUserExperts dir fs) \<longleftrightarrow> user_expert dir fs (ex_id e @ ''.json'') = Some e"
proof -
  have "user_expert dir fs name = Some e \<Longrightarrow> name \<in> set (readdirSync fs dir) \<and> name = ex_id e @ ''.json''" for name
    using user_expert_some by (auto simp: readdirSync_iff)
  then show ?thesis unfolding loadUserExperts_def set_map_filter by blast
qed

lemma loaded_distinct: "distinct (map ex_id (loadUserExperts dir fs))"
proof -
  have "distinct (map ex_id (List.map_filter (user_expert dir fs) names))" if "distinct names" for names
    using that
  proof (induction names)
    case (Cons name names)
    have "e' \<in> set (List.map_filter (user_expert dir fs) names) \<Longrightarrow> user_expert dir fs name = Some e \<Longrightarrow> ex_id e' \<noteq> ex_id e" for e e'
      using Cons.prems user_expert_some [of dir fs _ e'] user_expert_some [of dir fs name e] by (auto simp: set_map_filter)
    with Cons show ?case by (auto simp: map_filter_simps split: option.split) force
  qed (simp add: map_filter_simps)
  then show ?thesis by (simp add: loadUserExperts_def)
qed

section \<open>The merged map\<close>

text \<open>The specification of a lookup: the user's file, if it is valid, and else the bundled expert.\<close>

definition effective :: "'e expert_opts_scheme \<Rightarrow> soul_fs \<Rightarrow> string \<Rightarrow> expert option" where
  "effective opts fs i =
     (case user_expert (xo_stateDir opts @ [''experts'']) fs (i @ ''.json'') of
        Some e \<Rightarrow> Some e
      | None \<Rightarrow> find (\<lambda>b. ex_id b = i) (xo_bundled opts))"

definition bundled_ok :: "expert list \<Rightarrow> bool" where
  "bundled_ok bundled \<longleftrightarrow> distinct (map ex_id bundled) \<and> list_all wf_expert bundled"

lemma map_of_set_experts:
  "distinct (map ex_id xs) \<Longrightarrow>
     map_of (set_experts xs m) i = (case find (\<lambda>e. ex_id e = i) xs of Some e \<Rightarrow> Some e | None \<Rightarrow> map_of m i)"
proof (induction xs arbitrary: m)
  case (Cons e xs)
  then have "find (\<lambda>x. ex_id x = ex_id e) xs = None" by (auto simp: find_None_iff image_iff)
  with Cons show ?case by (auto simp: set_experts_def update_conv' split: option.split)
qed (simp add: set_experts_def)

lemma find_loaded: "find (\<lambda>e. ex_id e = i) (loadUserExperts dir fs) = user_expert dir fs (i @ ''.json'')"
proof (cases "find (\<lambda>e. ex_id e = i) (loadUserExperts dir fs)")
  case None
  then have "e \<in> set (loadUserExperts dir fs) \<Longrightarrow> ex_id e \<noteq> i" for e by (auto simp: find_None_iff)
  then have "user_expert dir fs (i @ ''.json'') \<noteq> Some e" for e
    using loaded_iff [of e dir fs] user_expert_some [of dir fs "i @ ''.json''" e] by auto
  with None show ?thesis by (cases "user_expert dir fs (i @ ''.json'')") auto
next
  case (Some e)
  then have "e \<in> set (loadUserExperts dir fs)" "ex_id e = i" by (auto simp: find_Some_iff)
  with Some show ?thesis by (simp add: loaded_iff)
qed

lemma lookup_effective: "bundled_ok (xo_bundled opts) \<Longrightarrow> map_of (experts_map opts fs) i = effective opts fs i"
  by (simp add: experts_map_def effective_def bundled_ok_def map_of_set_experts loaded_distinct find_loaded split: option.split)

lemma distinct_set_experts: "distinct (map fst m) \<Longrightarrow> distinct (map fst (set_experts xs m))"
  by (induction xs arbitrary: m) (simp_all add: set_experts_def distinct_update)

lemma effective_id: "bundled_ok (xo_bundled opts) \<Longrightarrow> effective opts fs i = Some e \<Longrightarrow> ex_id e = i \<and> wf_expert e"
  using user_expert_some [of "xo_stateDir opts @ [''experts'']" fs "i @ ''.json''" e]
  by (auto simp: effective_def bundled_ok_def list_all_iff find_Some_iff split: option.splits)

lemma effective_bundled: "b \<in> set (xo_bundled opts) \<Longrightarrow> effective opts fs (ex_id b) \<noteq> None"
  by (cases "find (\<lambda>x. ex_id x = ex_id b) (xo_bundled opts)") (auto simp: effective_def find_None_iff split: option.split)

section \<open>The roster\<close>

text \<open>What every map the registry hands out satisfies, also one from its cache.\<close>

definition registry_ok :: "expert list \<Rightarrow> (string \<times> expert) list \<Rightarrow> bool" where
  "registry_ok bundled m \<longleftrightarrow>
     distinct (map fst m) \<and> (\<forall>b \<in> set bundled. map_of m (ex_id b) \<noteq> None)
     \<and> (\<forall>i e. map_of m i = Some e \<longrightarrow> ex_id e = i \<and> wf_expert e)"

definition cache_ok :: "'e expert_opts_scheme \<Rightarrow> soul_state \<Rightarrow> bool" where
  "cache_ok opts s \<longleftrightarrow> (\<forall>m. ss_cache s = Some (xo_stateDir opts, m) \<longrightarrow> registry_ok (xo_bundled opts) m)"

lemma fresh_registry_ok: "bundled_ok (xo_bundled opts) \<Longrightarrow> registry_ok (xo_bundled opts) (experts_map opts fs)"
  using effective_id [of opts fs] effective_bundled [of _ opts fs]
  by (auto simp: registry_ok_def lookup_effective) (simp add: experts_map_def distinct_set_experts)

lemma getExpertsMap_cached: "ss_cache s = Some (xo_stateDir opts, m) \<Longrightarrow> getExpertsMap opts s = (Inr m, s)"
  by (simp add: getExpertsMap_def bind_m_apply)

lemma getExpertsMap_fresh:
  "(\<And>m. ss_cache s \<noteq> Some (xo_stateDir opts, m)) \<Longrightarrow>
     getExpertsMap opts s = (Inr (experts_map opts (w_fs (ss_world s))),
       s\<lparr>ss_cache := Some (xo_stateDir opts, experts_map opts (w_fs (ss_world s)))\<rparr>)"
  by (simp add: getExpertsMap_def fresh_map_def bind_m_apply seq_m_apply split: option.split)

lemma getExpertsMap_ok:
  assumes bundled: "bundled_ok (xo_bundled opts)" and cache: "cache_ok opts s"
  obtains m s' where "getExpertsMap opts s = (Inr m, s')" "registry_ok (xo_bundled opts) m"
    "ss_cache s' = Some (xo_stateDir opts, m)" "ss_world s' = ss_world s"
proof (cases "\<exists>m. ss_cache s = Some (xo_stateDir opts, m)")
  case True
  then obtain m where m: "ss_cache s = Some (xo_stateDir opts, m)" ..
  with cache have "registry_ok (xo_bundled opts) m" by (simp add: cache_ok_def)
  then show ?thesis using that [OF getExpertsMap_cached [OF m]] m by simp
next
  case False
  then show ?thesis using that [OF getExpertsMap_fresh] fresh_registry_ok [OF bundled] by simp
qed

context strict_weak_order
begin

lemma insert_by_sorted:
  "sorted_wrt (\<lambda>a b. \<not> lt b a) ys \<Longrightarrow> sorted_wrt (\<lambda>a b. \<not> lt b a) (insert_by lt x ys)"
proof (induction ys)
  case (Cons y ys)
  show ?case
  proof (cases "lt y x")
    case True
    with Cons show ?thesis by (simp add: asym)
  next
    case False
    then have "\<not> lt z y \<Longrightarrow> \<not> lt z x" for z using neg_trans by blast
    with Cons False show ?thesis by simp
  qed
qed simp

lemma to_sorted_sorted: "sorted_wrt (\<lambda>a b. \<not> lt b a) (to_sorted lt xs)"
  by (induction xs) (simp_all add: to_sorted_def insert_by_sorted)

end

interpretation by_id: strict_weak_order "\<lambda>a b. ex_id a < ex_id b"
  by unfold_locales auto

lemma registry_values:
  assumes "registry_ok bundled m"
  shows "set (map snd m) = {e. map_of m (ex_id e) = Some e}" and "distinct (map ex_id (map snd m))"
proof -
  have keyed: "(i, e) \<in> set m \<longleftrightarrow> map_of m i = Some e" for i e
    using assms by (simp add: registry_ok_def)
  moreover have "map_of m i = Some e \<Longrightarrow> ex_id e = i" for i e
    using assms by (simp add: registry_ok_def)
  ultimately have ids: "(i, e) \<in> set m \<Longrightarrow> ex_id e = i" for i e by blast
  show "set (map snd m) = {e. map_of m (ex_id e) = Some e}"
  proof (intro set_eqI iffI)
    fix e assume "e \<in> set (map snd m)"
    then obtain i where "(i, e) \<in> set m" by auto
    with ids [OF this] keyed show "e \<in> {e. map_of m (ex_id e) = Some e}" by simp
  next
    fix e assume "e \<in> {e. map_of m (ex_id e) = Some e}"
    then have "(ex_id e, e) \<in> set m" using keyed by simp
    then show "e \<in> set (map snd m)" by (metis image_eqI set_map snd_conv)
  qed
  have same: "map ex_id (map snd m) = map fst m" using ids by auto
  show "distinct (map ex_id (map snd m))" unfolding same using assms by (simp add: registry_ok_def)
qed

lemma roster_bundled:
  "registry_ok bundled m \<Longrightarrow> set xs \<subseteq> set bundled \<Longrightarrow>
     map ex_id (List.map_filter (\<lambda>b. map_of m (ex_id b)) xs) = map ex_id xs"
  by (induction xs) (auto simp: map_filter_simps registry_ok_def split: option.split)

lemma distinct_map_insert_by: "distinct (map f (insert_by lt x ys)) \<longleftrightarrow> distinct (map f (x # ys))"
  by (induction ys) auto

lemma distinct_map_to_sorted: "distinct (map f (to_sorted lt xs)) \<longleftrightarrow> distinct (map f xs)"
proof (induction xs)
  case (Cons x xs)
  have "set (to_sorted lt xs) = set xs" by simp
  with Cons show ?case by (simp add: to_sorted_def distinct_map_insert_by)
qed (simp add: to_sorted_def)

lemma roster_ok:
  assumes m: "registry_ok bundled m" and bundled: "bundled_ok bundled"
  defines "extras \<equiv> to_sorted (\<lambda>a b. ex_id a < ex_id b) (filter (\<lambda>e. ex_id e \<notin> set (map ex_id bundled)) (map snd m))"
  shows "map ex_id (expert_roster bundled m) = map ex_id bundled @ map ex_id extras"
    and "set (expert_roster bundled m) = {e. map_of m (ex_id e) = Some e}"
    and "distinct (map ex_id (expert_roster bundled m))" and "sorted_wrt (<) (map ex_id extras)"
proof -
  show ids: "map ex_id (expert_roster bundled m) = map ex_id bundled @ map ex_id extras"
    by (simp add: expert_roster_def roster_bundled [OF m] extras_def)
  have set_extras: "set extras = {e. map_of m (ex_id e) = Some e \<and> ex_id e \<notin> ex_id ` set bundled}"
    using registry_values(1) [OF m] by (auto simp: extras_def)
  have dist: "distinct (map ex_id extras)"
    using registry_values(2) [OF m] by (simp add: extras_def distinct_map_to_sorted distinct_map_filter)
  show "set (expert_roster bundled m) = {e. map_of m (ex_id e) = Some e}"
  proof -
    have "map_of m (ex_id b) = Some e \<Longrightarrow> ex_id e = ex_id b" for b e using m by (auto simp: registry_ok_def)
    then have "set (List.map_filter (\<lambda>b. map_of m (ex_id b)) bundled) = {e. map_of m (ex_id e) = Some e \<and> ex_id e \<in> ex_id ` set bundled}"
      by (fastforce simp: set_map_filter)
    then show ?thesis using set_extras by (auto simp: expert_roster_def extras_def)
  qed
  show "distinct (map ex_id (expert_roster bundled m))"
    unfolding ids using bundled dist set_extras by (auto simp: bundled_ok_def image_iff)
  have "sorted_wrt (\<lambda>a b. \<not> ex_id b < ex_id a) extras" unfolding extras_def by (rule by_id.to_sorted_sorted)
  then have "sorted (map ex_id extras)" by (simp add: sorted_wrt_map not_less)
  with dist show "sorted_wrt (<) (map ex_id extras)" by (simp add: strict_sorted_iff)
qed

lemma roster_find:
  assumes "registry_ok bundled m" "bundled_ok bundled"
  shows "find (\<lambda>e. ex_id e = i) (expert_roster bundled m) = map_of m i"
proof (cases "find (\<lambda>e. ex_id e = i) (expert_roster bundled m)")
  case None
  have "map_of m i \<noteq> Some e" for e
  proof
    assume e: "map_of m i = Some e"
    then have "ex_id e = i" using assms(1) by (simp add: registry_ok_def)
    with e have "e \<in> set (expert_roster bundled m)" unfolding roster_ok(2) [OF assms] by simp
    with None \<open>ex_id e = i\<close> show False by (auto simp: find_None_iff)
  qed
  with None show ?thesis by (cases "map_of m i") auto
next
  case (Some e)
  then have "e \<in> set (expert_roster bundled m)" "ex_id e = i" by (auto simp: find_Some_iff)
  then have "map_of m i = Some e" unfolding roster_ok(2) [OF assms] by simp
  with Some show ?thesis by simp
qed

section \<open>What the registry promises\<close>

text \<open>C23. The registry hands out well-formed experts whatever the user's files hold: the listing has every
  id once, the bundled ids first and in their order, the user's own after them in ascending order;
  every listed expert has a kebab-case id and passes the registry's own check unchanged when it is
  written out and read again; looking an id up finds the listed expert; and no file is touched.\<close>

theorem registry_well_typed:
  assumes bundled: "bundled_ok (xo_bundled opts)" and cache: "cache_ok opts s"
  shows "\<exists>xs extras s'. listExperts opts s = (Inr xs, s') \<and> distinct (map ex_id xs)
    \<and> map ex_id xs = map ex_id (xo_bundled opts) @ extras \<and> sorted_wrt (<) extras
    \<and> (\<forall>e \<in> set xs. kebab_id (ex_id e) \<and> validateExpert (expert_fields e) = Some e)
    \<and> (\<forall>i. getExpert opts i s' = (Inr (find (\<lambda>e. ex_id e = i) xs), s'))
    \<and> cache_ok opts s' \<and> ss_world s' = ss_world s"
proof -
  obtain m s' where m: "getExpertsMap opts s = (Inr m, s')" "registry_ok (xo_bundled opts) m"
    "ss_cache s' = Some (xo_stateDir opts, m)" "ss_world s' = ss_world s"
    by (rule getExpertsMap_ok [OF bundled cache])
  have wf: "e \<in> set (expert_roster (xo_bundled opts) m) \<Longrightarrow> wf_expert e" for e
    using roster_ok(2) [OF m(2) bundled] m(2) by (simp add: registry_ok_def)
  show ?thesis
  proof (intro exI conjI)
    show "listExperts opts s = (Inr (expert_roster (xo_bundled opts) m), s')" using m(1) by (simp add: listExperts_def bind_m_apply)
    show "\<forall>e \<in> set (expert_roster (xo_bundled opts) m). kebab_id (ex_id e) \<and> validateExpert (expert_fields e) = Some e"
      using wf by (auto simp: validate_fields wf_expert_def)
    show "\<forall>i. getExpert opts i s' = (Inr (find (\<lambda>e. ex_id e = i) (expert_roster (xo_bundled opts) m)), s')"
      by (simp add: getExpert_def bind_m_apply getExpertsMap_cached [OF m(3)] roster_find [OF m(2) bundled])
    show "cache_ok opts s'" using m(2,3) by (simp add: cache_ok_def)
  qed (use roster_ok [OF m(2) bundled] m(4) in simp_all)
qed

definition sample_expert :: "string \<Rightarrow> string \<Rightarrow> expert" where
  "sample_expert i title =
     \<lparr>ex_id = i, ex_name = ''N'', ex_title = title, ex_department = DepSales, ex_role = ''runs'', ex_purpose = ''to help'',
      ex_tone = ''calm'', ex_skills = [''a'', ''b''], ex_toolScope = None, ex_modelPreference = None, ex_avatar = None\<rparr>"

definition sample_roster :: expert_opts where
  "sample_roster = env.extend quiet_env (expert_opts.fields [''state''] [sample_expert ''ceo'' ''Chief'', sample_expert ''cfo'' ''Money''])"

text \<open>One file replaces a bundled expert, one adds another, and one has a name that is not an id.\<close>

definition sample_souls :: soul_state where
  "sample_souls = \<lparr>ss_world = \<lparr>w_fs = \<lparr>fs_dirs = [([''state''], 511), ([''state'', ''experts''], 448)],
       fs_files = [([''state'', ''experts'', ''zoe.json''], 384, OtherFile (JsonFile (JObj (expert_fields (sample_expert ''x'' ''Zoe''))))),
          ([''state'', ''experts'', ''cfo.json''], 384, OtherFile (JsonFile (JObj (expert_fields (sample_expert ''cfo'' ''Numbers''))))),
          ([''state'', ''experts'', ''Bad.json''], 384, UnreadableFile)]\<rparr>,
       w_log = [], w_clock = 0, w_appends = 0, w_locks = 0, w_sends = 0, w_sent = [], w_ids = 0\<rparr>, ss_cache = None\<rparr>"

theorem registry_well_typed_witness:
  "\<exists>xs extras s'. listExperts sample_roster sample_souls = (Inr xs, s') \<and> map ex_id xs = [''ceo'', ''cfo''] @ extras
     \<and> (\<forall>e \<in> set xs. validateExpert (expert_fields e) = Some e)
     \<and> fst (listExperts sample_roster sample_souls) = Inr [sample_expert ''ceo'' ''Chief'', sample_expert ''cfo'' ''Numbers'', sample_expert ''zoe'' ''Zoe'']"
proof -
  have "bundled_ok (xo_bundled sample_roster)" by code_simp
  moreover have "cache_ok sample_roster sample_souls" by (simp add: cache_ok_def sample_souls_def)
  ultimately have "\<exists>xs extras s'. listExperts sample_roster sample_souls = (Inr xs, s') \<and> distinct (map ex_id xs)
    \<and> map ex_id xs = map ex_id (xo_bundled sample_roster) @ extras \<and> sorted_wrt (<) extras
    \<and> (\<forall>e \<in> set xs. kebab_id (ex_id e) \<and> validateExpert (expert_fields e) = Some e)
    \<and> (\<forall>i. getExpert sample_roster i s' = (Inr (find (\<lambda>e. ex_id e = i) xs), s'))
    \<and> cache_ok sample_roster s' \<and> ss_world s' = ss_world sample_souls"
    by (rule registry_well_typed)
  moreover have "map ex_id (xo_bundled sample_roster) = [''ceo'', ''cfo'']" by code_simp
  moreover have "fst (listExperts sample_roster sample_souls)
      = Inr [sample_expert ''ceo'' ''Chief'', sample_expert ''cfo'' ''Numbers'', sample_expert ''zoe'' ''Zoe'']" by code_simp
  ultimately show ?thesis by auto
qed

end
