(* ===== verification/Soul_Proposals.thy ===== *)
theory Soul_Proposals
  imports Experts Evaluator
begin

text \<open>
  How experts change: proposals and their store (\<^verbatim>\<open>src/experts/soul-proposals-store.ts\<close>), applying
  an approved one as an override of the expert's file (\<^verbatim>\<open>src/experts/apply-proposal.ts\<close>), and the
  reflection that asks a model for proposals after a mission (\<^verbatim>\<open>src/experts/reflection.ts\<close>). The model
  is an argument of the reflection.
\<close>

section \<open>The store\<close>

definition resolveSoulProposalsPath :: "path \<Rightarrow> path" where
  "resolveSoulProposalsPath stateDir = stateDir @ [''soul-proposals.json'']"

definition readSoulProposals :: "path \<Rightarrow> (soul_fs, soul_proposal list) prog" where
  "readSoulProposals stateDir =
     bind_m (get_m (\<lambda>fs. (read_file fs (resolveSoulProposalsPath stateDir), existsSync fs (resolveSoulProposalsPath stateDir)))) (\<lambda>found.
       case found of
         (None, True) \<Rightarrow> throw_m ''EISDIR''
       | (None, False) \<Rightarrow> return_m []
       | (Some UnreadableFile, _) \<Rightarrow> throw_m ''SyntaxError''
       | (Some (OtherFile (ProposalsFile ps)), _) \<Rightarrow> return_m ps
       | _ \<Rightarrow> return_m [])"

definition writeAll :: "path \<Rightarrow> soul_proposal list \<Rightarrow> (soul_fs, unit) prog" where
  "writeAll stateDir proposals =
     modify_m (\<lambda>fs. chmodSync (resolveSoulProposalsPath stateDir) 384
       (writeFileSync (resolveSoulProposalsPath stateDir) 384 (OtherFile (ProposalsFile proposals)) (mkdirSync stateDir 511 fs)))"

definition appendSoulProposal :: "path \<Rightarrow> soul_proposal \<Rightarrow> (soul_fs, unit) prog" where
  "appendSoulProposal stateDir proposal =
     bind_m (readSoulProposals stateDir) (\<lambda>existing. writeAll stateDir (existing @ [proposal]))"

definition reviewed :: "proposal_status \<Rightarrow> string option \<Rightarrow> string \<Rightarrow> soul_proposal \<Rightarrow> soul_proposal" where
  "reviewed status reviewerNote ts p =
     p\<lparr>sp_status := status, sp_reviewerNote := (if truthy reviewerNote then reviewerNote else sp_reviewerNote p),
       sp_reviewedAt := Some ts\<rparr>"

text \<open>Every proposal with the id is replaced, each with its own reading of the clock; the last one is the
  answer.\<close>

definition review_item ::
  "'e expert_opts_scheme \<Rightarrow> string \<Rightarrow> proposal_status \<Rightarrow> string option \<Rightarrow> string option \<Rightarrow> soul_proposal \<Rightarrow> (soul_world, soul_proposal) prog" where
  "review_item opts i status reviewerNote reviewedAt p =
     (if sp_id p \<noteq> i then return_m p
      else bind_m (case reviewedAt of Some ts \<Rightarrow> return_m ts | None \<Rightarrow> now_m opts) (\<lambda>ts.
           return_m (reviewed status reviewerNote ts p)))"

definition updateSoulProposalStatus ::
  "'e expert_opts_scheme \<Rightarrow> string \<Rightarrow> proposal_status \<Rightarrow> string option \<Rightarrow> string option \<Rightarrow> (soul_world, soul_proposal option) prog" where
  "updateSoulProposalStatus opts i status reviewerNote reviewedAt =
     bind_m (on_fs (readSoulProposals (xo_stateDir opts))) (\<lambda>existing.
     bind_m (map_m (review_item opts i status reviewerNote reviewedAt) existing) (\<lambda>next_list.
     case rev (filter (\<lambda>p. sp_id p = i) next_list) of
       [] \<Rightarrow> return_m None
     | updated # _ \<Rightarrow> seq_m (on_fs (writeAll (xo_stateDir opts) next_list)) (return_m (Some updated))))"

section \<open>Applying a proposal\<close>

text \<open>\<open>/label\s*:\s*([^\n]+)/i\<close> from one position on. The white space after the colon may run past the end
  of the line; when nothing else follows, the match gives back white space other than a line feed, and
  the group trims to nothing.\<close>

definition captured :: "string \<Rightarrow> string option" where
  "captured r =
     (case dropWhile js_whitespace r of
        [] \<Rightarrow> if list_ex (\<lambda>c. c \<noteq> CHR 0x0A) r then Some [] else None
      | c # t \<Rightarrow> Some (js_trim (takeWhile (\<lambda>d. d \<noteq> CHR 0x0A) (c # t))))"

definition label_at :: "string \<Rightarrow> string \<Rightarrow> string option" where
  "label_at label s =
     (if js_lower (take (length label) s) = js_lower label then
        (case dropWhile js_whitespace (drop (length label) s) of
           [] \<Rightarrow> None
         | c # r \<Rightarrow> if c = CHR '':'' then captured r else None)
      else None)"

fun extract_label :: "string \<Rightarrow> string \<Rightarrow> string option" where
  "extract_label label [] = None"
| "extract_label label (c # s) = (case label_at label (c # s) of Some x \<Rightarrow> Some x | None \<Rightarrow> extract_label label s)"

definition applySoulPatch :: "expert \<Rightarrow> string \<Rightarrow> expert" where
  "applySoulPatch current soul =
     (let skillsStr = extract_label ''Skills'' soul
      in current\<lparr>
        ex_role := nullish (extract_label ''Role'' soul) (ex_role current),
        ex_purpose := nullish (extract_label ''Purpose'' soul) (ex_purpose current),
        ex_tone := nullish (extract_label ''Tone'' soul) (ex_tone current),
        ex_skills := (if truthy skillsStr then comma_items (the skillsStr) else ex_skills current)\<rparr>)"

definition mergeFieldEdit :: "expert \<Rightarrow> soul_proposal \<Rightarrow> expert" where
  "mergeFieldEdit current proposal =
     (case sp_field proposal of
        FieldPurpose \<Rightarrow> current\<lparr>ex_purpose := sp_after proposal\<rparr>
      | FieldTone \<Rightarrow> current\<lparr>ex_tone := sp_after proposal\<rparr>
      | FieldRole \<Rightarrow> current\<lparr>ex_role := sp_after proposal\<rparr>
      | FieldSkills \<Rightarrow> current\<lparr>ex_skills := comma_items (sp_after proposal)\<rparr>
      | FieldSoul \<Rightarrow> applySoulPatch current (sp_after proposal))"

definition write_override :: "path \<Rightarrow> string \<Rightarrow> expert \<Rightarrow> soul_fs \<Rightarrow> soul_fs" where
  "write_override stateDir i e fs =
     (let dir = stateDir @ [''experts'']; filePath = dir @ [i @ ''.json'']
      in chmodSync filePath 384 (writeFileSync filePath 384 (OtherFile (JsonFile (JObj (expert_fields e)))) (mkdirSync dir 448 fs)))"

definition applySoulProposal :: "'e expert_opts_scheme \<Rightarrow> soul_proposal \<Rightarrow> (soul_state, expert) prog" where
  "applySoulProposal opts proposal =
     bind_m (getExpert opts (sp_expertId proposal)) (\<lambda>found.
       case found of
         None \<Rightarrow> throw_m (''apply-proposal: unknown expert id: '' @ sp_expertId proposal)
       | Some current \<Rightarrow>
           let e = mergeFieldEdit current proposal
           in seq_m (on_soul (on_fs (modify_m (write_override (xo_stateDir opts) (sp_expertId proposal) e))))
             (seq_m clearExpertCache (return_m e)))"

section \<open>Reflection\<close>

definition proposal_field_name :: "proposal_field \<Rightarrow> string" where
  "proposal_field_name f =
     (case f of FieldPurpose \<Rightarrow> ''purpose'' | FieldTone \<Rightarrow> ''tone'' | FieldRole \<Rightarrow> ''role'' | FieldSkills \<Rightarrow> ''skills'' | FieldSoul \<Rightarrow> ''soul'')"

definition KNOWN_FIELDS :: "proposal_field list" where
  "KNOWN_FIELDS = [FieldPurpose, FieldTone, FieldRole, FieldSkills, FieldSoul]"

definition readExpertField :: "expert \<Rightarrow> proposal_field \<Rightarrow> string" where
  "readExpertField e f =
     (case f of
        FieldSkills \<Rightarrow> join_with '', '' (ex_skills e)
      | FieldSoul \<Rightarrow> join_with [CHR 0x0A]
          [''Title: '' @ ex_title e, ''Role: '' @ ex_role e, ''Purpose: '' @ ex_purpose e, ''Tone: '' @ ex_tone e,
           ''Skills: '' @ join_with '', '' (ex_skills e)]
      | FieldPurpose \<Rightarrow> ex_purpose e
      | FieldTone \<Rightarrow> ex_tone e
      | FieldRole \<Rightarrow> ex_role e)"

definition REFLECTION_SYSTEM_PROMPT :: string where
  "REFLECTION_SYSTEM_PROMPT = join_with [CHR 0x0A]
     [''You are the Reflection Lead inside Alien '' @ EM_DASH @ '' an AI workforce of named experts.'',
      [],
      ''Your one job: read the mission that just ran and propose small, specific edits to one or more experts'' @ [CHR 0x27] @ '' '' @ [CHR 0x22] @ ''soul'' @ [CHR 0x22] @ '' (their persona prompt) that would help them do BETTER next time. Reflection should be the kind of feedback a senior teammate would give: concrete, kind, focused on lessons that generalize.'',
      [],
      ''Bias toward:'',
      ''- Refining '' @ [CHR 0x22] @ ''purpose'' @ [CHR 0x22] @ '' or '' @ [CHR 0x22] @ ''tone'' @ [CHR 0x22] @ '' by 1'' @ EN_DASH @ ''2 sentences max.'',
      ''- Adding a single new skill tag if a real capability gap appeared.'',
      ''- Skipping experts who performed well (no proposal needed '' @ EM_DASH @ '' silence is fine).'',
      [],
      ''Avoid:'',
      ''- Rewriting an expert wholesale.'',
      ''- Vague edits ('' @ [CHR 0x22] @ ''be more helpful'' @ [CHR 0x22] @ '').'',
      ''- More than 3 proposals per reflection.'',
      [],
      ''Respond with ONLY a JSON object on a single line. No prose. Schema:'',
      [],
      ''{'' @ [CHR 0x22] @ ''proposals'' @ [CHR 0x22] @ '':['',
      ''  {'' @ [CHR 0x22] @ ''expertId'' @ [CHR 0x22] @ '':'' @ [CHR 0x22] @ ''<id from the roster>'' @ [CHR 0x22] @ '','' @ [CHR 0x22] @ ''field'' @ [CHR 0x22] @ '':'' @ [CHR 0x22] @ ''purpose|tone|role|skills|soul'' @ [CHR 0x22] @ '','' @ [CHR 0x22] @ ''after'' @ [CHR 0x22] @ '':'' @ [CHR 0x22] @ ''<full new value for the field>'' @ [CHR 0x22] @ '','' @ [CHR 0x22] @ ''rationale'' @ [CHR 0x22] @ '':'' @ [CHR 0x22] @ ''<one short sentence on why>'' @ [CHR 0x22] @ ''}'',
      '']}'',
      [],
      ''If you have no proposals, return {'' @ [CHR 0x22] @ ''proposals'' @ [CHR 0x22] @ '':[]}.'']"

definition safeString :: "json \<Rightarrow> string" where
  "safeString v = (case v of JStr s \<Rightarrow> s | _ \<Rightarrow> stringify v)"

definition reflection_task_line :: "expert list \<Rightarrow> task \<Rightarrow> string" where
  "reflection_task_line experts t =
     (let owner = (case (if truthy (tk_expertId t) then find (\<lambda>e. Some (ex_id e) = tk_expertId t) experts else None) of
            Some e \<Rightarrow> ex_title e | None \<Rightarrow> role_name (tk_role t));
          out = (case tk_output t of Some v \<Rightarrow> truncate_text (safeString v) 160 | None \<Rightarrow> []);
          err = (if truthy (tk_error t) then '' err='' @ [CHR 0x22] @ truncate_text (the (tk_error t)) 100 @ [CHR 0x22] else []);
          tail = (if out \<noteq> [] then '' '' @ ARROW @ '' '' @ out else [])
      in ''- ['' @ task_status_name (tk_status t) @ ''] ('' @ owner @ '') '' @ tk_title t @ err @ tail)"

definition project_status_name :: "project_status \<Rightarrow> string" where
  "project_status_name s =
     (case s of Active \<Rightarrow> ''active'' | Paused \<Rightarrow> ''paused'' | Archived \<Rightarrow> ''archived'' | Achieved \<Rightarrow> ''achieved'' | NeedsInput \<Rightarrow> ''needs-input'')"

definition verdict_line :: "goal_evaluation option \<Rightarrow> string" where
  "verdict_line ge =
     (case ge of
        Some g \<Rightarrow> ''Evaluator verdict: '' @ goal_status_name (ge_status g) @ '' (confidence ''
          @ show_int \<lfloor>ge_confidence g * 100 + 1 / 2\<rfloor> @ ''%) '' @ EM_DASH @ '' '' @ ge_reason g
      | None \<Rightarrow> ''Evaluator verdict: (not yet evaluated)'')"

definition reflection_prompt :: "project \<Rightarrow> task list \<Rightarrow> expert list \<Rightarrow> string" where
  "reflection_prompt project tasks experts =
     (let taskLines = join_with [CHR 0x0A] (map (reflection_task_line experts)
            (to_sorted (\<lambda>a b. tk_createdAt a < tk_createdAt b) tasks))
      in join_with [CHR 0x0A]
        ([''Mission: '' @ pr_name project, ''Goal: '' @ pr_goal project, ''Status: '' @ project_status_name (pr_status project),
          verdict_line (pr_goalEvaluation project), ''Iterations: '' @ show_nat (nullish (pr_iterationCount project) 0), [],
          ''Experts on this mission:'']
         @ map (\<lambda>e. ''- '' @ ex_id e @ '': '' @ ex_title e @ '' '' @ EM_DASH @ '' '' @ ex_role e) experts
         @ [[], (if tasks = [] then ''No tasks ran on this mission. Skip reflection unless the goal itself was malformed.''
                 else ''Tasks (oldest first):'' @ [CHR 0x0A] @ taskLines), [],
            ''What specifically should change about how each expert worked?'', ''Reply with the JSON {proposals: [...]} only.'']))"

record raw_proposal =
  rp_expertId :: string
  rp_field :: proposal_field
  rp_after :: string
  rp_rationale :: string

definition raw_proposal_of :: "json \<Rightarrow> raw_proposal option" where
  "raw_proposal_of item =
     (case (json_field item ''expertId'', json_field item ''field'', json_field item ''after'') of
        (Some (JStr expertId), Some (JStr field), Some (JStr after)) \<Rightarrow>
          map_option (\<lambda>f. \<lparr>rp_expertId = expertId, rp_field = f, rp_after = after,
              rp_rationale = string_or (json_field item ''rationale'') []\<rparr>)
            (find (\<lambda>f. proposal_field_name f = field) KNOWN_FIELDS)
      | _ \<Rightarrow> None)"

definition parseReflectionResponse :: "string \<Rightarrow> raw_proposal list" where
  "parseReflectionResponse raw =
     (let trimmed = js_trim (strip_close_fence (strip_open_fence (js_trim raw)))
      in case (index_of (CHR ''{'') trimmed, last_index_of (CHR ''}'') trimmed) of
           (Some firstBrace, Some lastBrace) \<Rightarrow>
             if lastBrace \<le> firstBrace then []
             else (case json_parse (slice_text trimmed firstBrace (lastBrace + 1)) of
                 Some parsed \<Rightarrow>
                   (case json_field parsed ''proposals'' of
                      Some (JArr arr) \<Rightarrow> List.map_filter raw_proposal_of arr
                    | _ \<Rightarrow> [])
               | None \<Rightarrow> [])
         | _ \<Rightarrow> [])"

definition reflection_request :: "project \<Rightarrow> task list \<Rightarrow> expert list \<Rightarrow> llm_request" where
  "reflection_request project tasks considered =
     \<lparr>lr_system = Some REFLECTION_SYSTEM_PROMPT, lr_user = reflection_prompt project tasks considered,
      lr_maxTokens = Some (FiniteNum 1024), lr_purpose = Some ''reflection''\<rparr>"

text \<open>One entry of the reply: skipped, or stored and returned.\<close>

definition propose ::
  "'e expert_opts_scheme \<Rightarrow> project \<Rightarrow> expert list \<Rightarrow> llm_usage option \<Rightarrow> raw_proposal \<Rightarrow> (soul_world, soul_proposal option) prog" where
  "propose opts project considered usage raw =
     (case find (\<lambda>e. ex_id e = rp_expertId raw) considered of
        None \<Rightarrow> return_m None
      | Some e \<Rightarrow>
          let before = readExpertField e (rp_field raw); model = Option.bind usage u_model
          in if js_trim (rp_after raw) = [] then return_m None
             else if js_trim (rp_after raw) = js_trim before then return_m None
             else bind_m (randomUUID opts) (\<lambda>u.
                  bind_m (now_m opts) (\<lambda>ts.
                  let proposal = \<lparr>sp_id = ''prop-'' @ take 8 u, sp_expertId = rp_expertId raw, sp_field = rp_field raw,
                        sp_before = before, sp_after = js_trim (rp_after raw), sp_rationale = js_trim (rp_rationale raw),
                        sp_sourceMissionIds = [pr_id project], sp_proposedAt = ts, sp_status = PropPending,
                        sp_reviewedAt = None, sp_reviewerNote = None, sp_model = (if truthy model then model else None)\<rparr>
                  in seq_m (on_fs (appendSoulProposal (xo_stateDir opts) proposal)) (return_m (Some proposal)))))"

definition reflection_experts :: "'e expert_opts_scheme \<Rightarrow> expert list option \<Rightarrow> (soul_state, expert list) prog" where
  "reflection_experts opts experts = (case experts of Some xs \<Rightarrow> return_m xs | None \<Rightarrow> listExperts opts)"

definition considered_experts :: "project \<Rightarrow> expert list \<Rightarrow> expert list" where
  "considered_experts project experts =
     (let assignedIds = (case pr_assignedExperts project of Some (i # is) \<Rightarrow> i # is | _ \<Rightarrow> map ex_id experts)
      in filter (\<lambda>e. ex_id e \<in> set assignedIds) experts)"

text \<open>The proposals of the entries that were not skipped.\<close>

definition kept_items :: "soul_proposal option list \<Rightarrow> soul_proposal list" where
  "kept_items qs = List.map_filter id qs"

definition runReflection ::
  "'e expert_opts_scheme \<Rightarrow> llm_client \<Rightarrow> project \<Rightarrow> task list \<Rightarrow> expert list option \<Rightarrow> (soul_state, soul_proposal list) prog" where
  "runReflection opts llm project tasks given =
     bind_m (reflection_experts opts given) (\<lambda>experts.
       let considered = considered_experts project experts
       in if considered = [] then return_m []
          else bind_m (on_soul consult) (\<lambda>n.
            case llm n (reflection_request project tasks considered) of
              Inl err \<Rightarrow> throw_m err
            | Inr completion \<Rightarrow>
                bind_m (map_m (\<lambda>raw. on_soul (propose opts project considered (ll_usage completion) raw))
                    (parseReflectionResponse (ll_text completion))) (\<lambda>ps.
                return_m (kept_items ps))))"

section \<open>Facts on the store\<close>

lemma on_soul_apply: "on_soul m s = (fst (m (ss_world s)), s\<lparr>ss_world := snd (m (ss_world s))\<rparr>)"
  by (simp add: on_soul_def split: prod.split)

lemma read_written [simp]:
  "fst (readSoulProposals d (snd (writeAll d ps fs))) = Inr ps" "snd (readSoulProposals d fs) = fs"
  by (auto simp: readSoulProposals_def writeAll_def bind_m_apply split: option.split state_file.split soul_file.split bool.split)

lemma append_read:
  assumes "fst (readSoulProposals d fs) = Inr old"
  shows "appendSoulProposal d p fs = (Inr (), snd (writeAll d (old @ [p]) fs))"
proof -
  have "readSoulProposals d fs = (Inr old, fs)" using assms read_written(2) [of d fs] by (metis prod.collapse)
  then show ?thesis by (simp add: appendSoulProposal_def bind_m_apply writeAll_def)
qed

lemma read_other: "q \<noteq> resolveSoulProposalsPath d \<Longrightarrow> read_file (snd (writeAll d ps fs)) q = read_file fs q"
  by (simp add: writeAll_def)

text \<open>How a stored proposal and its successor relate when one id is reviewed.\<close>

definition review_of :: "string \<Rightarrow> proposal_status \<Rightarrow> string option \<Rightarrow> soul_proposal \<Rightarrow> soul_proposal \<Rightarrow> bool" where
  "review_of i status note p q \<longleftrightarrow> (if sp_id p = i then (\<exists>ts. q = reviewed status note ts p) else q = p)"

lemma review_items:
  "\<exists>ys w'. map_m (review_item opts i status note given) xs w = (Inr ys, w') \<and> w_fs w' = w_fs w \<and> list_all2 (review_of i status note) xs ys"
proof (induction xs arbitrary: w)
  case (Cons x xs)
  have "\<exists>y w1. review_item opts i status note given x w = (Inr y, w1) \<and> w_fs w1 = w_fs w \<and> review_of i status note x y"
    by (cases "sp_id x = i"; cases given) (auto simp: review_item_def review_of_def now_m_def bind_m_apply)
  then obtain y w1 where y: "review_item opts i status note given x w = (Inr y, w1)" "w_fs w1 = w_fs w" "review_of i status note x y" by blast
  obtain ys w' where "map_m (review_item opts i status note given) xs w1 = (Inr ys, w')" "w_fs w' = w_fs w1"
    "list_all2 (review_of i status note) xs ys" using Cons [of w1] by blast
  with y show ?case by (intro exI [of _ "y # ys"] exI [of _ w']) (simp add: bind_m_apply)
qed simp

lemma review_of_same: "list_all2 (review_of i status note) xs ys \<Longrightarrow> \<forall>x \<in> set xs. sp_id x \<noteq> i \<Longrightarrow> ys = xs"
  by (induction xs ys rule: list_all2_induct) (simp_all add: review_of_def)

lemma review_of_ids: "list_all2 (review_of i status note) xs ys \<Longrightarrow> map sp_id ys = map sp_id xs"
  by (induction xs ys rule: list_all2_induct) (auto simp: review_of_def reviewed_def split: if_splits)

lemma update_effect:
  assumes "fst (readSoulProposals (xo_stateDir opts) (w_fs w)) = Inr ps"
  obtains ys r w' where "updateSoulProposalStatus opts i status note given w = (Inr r, w')"
    "list_all2 (review_of i status note) ps ys" "fst (readSoulProposals (xo_stateDir opts) (w_fs w')) = Inr ys"
    "r = None \<longleftrightarrow> (\<forall>p \<in> set ps. sp_id p \<noteq> i)"
    "\<forall>q. q \<noteq> resolveSoulProposalsPath (xo_stateDir opts) \<longrightarrow> read_file (w_fs w') q = read_file (w_fs w) q"
proof -
  obtain ys w1 where ys: "map_m (review_item opts i status note given) ps w = (Inr ys, w1)" "w_fs w1 = w_fs w"
    "list_all2 (review_of i status note) ps ys" using review_items by blast
  have start: "updateSoulProposalStatus opts i status note given w =
      (case rev (filter (\<lambda>p. sp_id p = i) ys) of
         [] \<Rightarrow> return_m None
       | updated # _ \<Rightarrow> seq_m (on_fs (writeAll (xo_stateDir opts) ys)) (return_m (Some updated))) w1"
    using assms ys(1) by (simp add: updateSoulProposalStatus_def bind_m_apply on_fs_apply)
  have ids: "(\<forall>p \<in> set ps. sp_id p \<noteq> i) \<longleftrightarrow> (\<forall>p \<in> set ys. sp_id p \<noteq> i)"
    using review_of_ids [OF ys(3)] by (metis (no_types) image_iff list.set_map)
  show ?thesis
  proof (cases "rev (filter (\<lambda>p. sp_id p = i) ys)")
    case Nil
    then have "\<forall>p \<in> set ps. sp_id p \<noteq> i" using ids by (auto simp: filter_empty_conv)
    then show ?thesis using that [of None w1 ys] start Nil ys assms review_of_same [OF ys(3)] by simp
  next
    case (Cons u us)
    then have "u \<in> set (filter (\<lambda>p. sp_id p = i) ys)" by (metis list.set_intros(1) set_rev)
    then have "\<not> (\<forall>p \<in> set ps. sp_id p \<noteq> i)" using ids by auto
    then show ?thesis
      using that [of "Some u" "w1\<lparr>w_fs := snd (writeAll (xo_stateDir opts) ys (w_fs w1))\<rparr>" ys] start Cons ys
      by (simp add: seq_m_apply on_fs_apply read_other) (simp add: writeAll_def)
  qed
qed

section \<open>Applying\<close>

lemma merge_keeps [simp]: "ex_id (mergeFieldEdit e p) = ex_id e" "wf_expert (mergeFieldEdit e p) \<longleftrightarrow> wf_expert e"
  by (simp_all add: mergeFieldEdit_def applySoulPatch_def wf_expert_def Let_def split: proposal_field.split)

lemma stem_append [simp]: "ends_json (i @ ''.json'')" "json_stem (i @ ''.json'') = i"
  by (simp_all add: ends_json_def json_stem_def)

lemma read_override:
  "read_file (write_override d i e fs) q = (if q = d @ [''experts'', i @ ''.json''] then Some (OtherFile (JsonFile (JObj (expert_fields e)))) else read_file fs q)"
  by (simp add: write_override_def Let_def)

lemma user_expert_override:
  assumes "wf_expert e"
  shows "user_expert (d @ [''experts'']) (write_override d (ex_id e) e fs) (i @ ''.json'') =
    (if i = ex_id e then Some e else user_expert (d @ [''experts'']) fs (i @ ''.json''))"
  using assms by (simp add: user_expert_def Let_def read_override validate_fields wf_expert_def)

lemma effective_override:
  "wf_expert e \<Longrightarrow> effective opts (write_override (xo_stateDir opts) (ex_id e) e fs) i = (if i = ex_id e then Some e else effective opts fs i)"
  by (simp add: effective_def user_expert_override)

lemma getExpert_uncached:
  "bundled_ok (xo_bundled opts) \<Longrightarrow> ss_cache s = None \<Longrightarrow> fst (getExpert opts i s) = Inr (effective opts (w_fs (ss_world s)) i)"
  by (simp add: getExpert_def bind_m_apply getExpertsMap_fresh lookup_effective)

text \<open>An applied proposal is in force: after the proposal was applied, the registry finds under the
  expert's id exactly the expert that was found before, with the proposed field changed; every other id
  is found as the files and the bundled roster have it, and no other file has changed.\<close>

lemma applied_proposal_in_force:
  assumes bundled: "bundled_ok (xo_bundled opts)" and cache: "cache_ok opts s"
    and run: "applySoulProposal opts p s = (Inr e, s')"
  shows "\<exists>current. fst (getExpert opts (sp_expertId p) s) = Inr (Some current) \<and> e = mergeFieldEdit current p
    \<and> fst (getExpert opts (sp_expertId p) s') = Inr (Some e)
    \<and> (\<forall>i. i \<noteq> sp_expertId p \<longrightarrow> fst (getExpert opts i s') = Inr (effective opts (w_fs (ss_world s)) i))
    \<and> (\<forall>q. q \<noteq> xo_stateDir opts @ [''experts'', sp_expertId p @ ''.json''] \<longrightarrow>
        read_file (w_fs (ss_world s')) q = read_file (w_fs (ss_world s)) q)"
proof -
  obtain m s1 where m: "getExpertsMap opts s = (Inr m, s1)" "registry_ok (xo_bundled opts) m" "ss_world s1 = ss_world s"
    by (rule getExpertsMap_ok [OF bundled cache])
  obtain current where current: "map_of m (sp_expertId p) = Some current"
    using run m(1) by (auto simp: applySoulProposal_def getExpert_def bind_m_apply split: option.splits)
  then have wf: "ex_id current = sp_expertId p" "wf_expert current" using m(2) by (simp_all add: registry_ok_def)
  have e: "e = mergeFieldEdit current p" "ss_cache s' = None"
    "w_fs (ss_world s') = write_override (xo_stateDir opts) (sp_expertId p) e (w_fs (ss_world s))"
    using run m(1,3) current
    by (auto simp: applySoulProposal_def getExpert_def bind_m_apply seq_m_apply Let_def on_soul_apply on_fs_apply clearExpertCache_def)
  then have "effective opts (w_fs (ss_world s')) i = (if i = sp_expertId p then Some e else effective opts (w_fs (ss_world s)) i)" for i
    using effective_override [of e opts "w_fs (ss_world s)" i] wf by simp
  moreover have "fst (getExpert opts (sp_expertId p) s) = Inr (Some current)" using m(1) current by (simp add: getExpert_def bind_m_apply)
  ultimately show ?thesis using e by (auto simp: getExpert_uncached [OF bundled] read_override)
qed

definition sample_proposal :: "proposal_field \<Rightarrow> string \<Rightarrow> soul_proposal" where
  "sample_proposal f after =
     \<lparr>sp_id = ''prop-1'', sp_expertId = ''cfo'', sp_field = f, sp_before = ''x'', sp_after = after, sp_rationale = [],
      sp_sourceMissionIds = [''p1''], sp_proposedAt = ''t'', sp_status = PropPending, sp_reviewedAt = None,
      sp_reviewerNote = None, sp_model = None\<rparr>"

section \<open>Reading a soul back\<close>

lemma lower_colon: "lower_char (CHR '':'') = CHR '':''"
  by code_simp

text \<open>A match has its label directly before the first colon, as long as that colon follows a word.\<close>

lemma label_before_colon:
  assumes hit: "label_at label (b @ CHR '':'' # r) = Some x" and colon: "CHR '':'' \<notin> set (js_lower label)"
    and word: "CHR '':'' \<notin> set b" "b \<noteq> []" "\<not> js_whitespace (last b)"
  shows "js_lower b = js_lower label"
proof -
  let ?n = "length label"
  have lower: "js_lower (take ?n (b @ CHR '':'' # r)) = js_lower label" using hit by (simp add: label_at_def split: if_splits)
  have short: "?n \<le> length b"
  proof (rule ccontr)
    assume "\<not> ?n \<le> length b"
    then obtain k where "?n - length b = Suc k" by (cases "?n - length b") simp_all
    then have "js_lower label = js_lower (b @ CHR '':'' # take k r)" using lower \<open>\<not> ?n \<le> length b\<close> by simp
    then show False using colon lower_colon by (simp add: js_lower_def)
  qed
  have "drop ?n b = []"
  proof (rule ccontr)
    assume rest: "drop ?n b \<noteq> []"
    then have "last (drop ?n b) = last b" by (simp add: last_drop)
    then have "\<exists>c \<in> set (drop ?n b). \<not> js_whitespace c" using rest word(3) last_in_set by metis
    then have "dropWhile js_whitespace (drop ?n b) \<noteq> []" by (auto simp: dropWhile_eq_Nil_conv)
    then obtain c t where ct: "dropWhile js_whitespace (drop ?n b) = c # t" by (meson list.exhaust)
    then have "c \<in> set b" by (metis in_set_dropD list.set_intros(1) set_dropWhileD)
    then have "c \<noteq> CHR '':''" using word(1) by auto
    moreover have "dropWhile js_whitespace (drop ?n (b @ CHR '':'' # r)) = c # t @ CHR '':'' # r"
      using short ct \<open>\<exists>c \<in> set (drop ?n b). \<not> js_whitespace c\<close> by (auto simp: dropWhile_append)
    ultimately show False using hit by (simp add: label_at_def split: if_splits)
  qed
  with lower short show ?thesis by simp
qed

text \<open>A label that differs in its last four letters from the word before the colon is not found there, and
  one that is that word is found at the word.\<close>

definition ending :: "string \<Rightarrow> string" where
  "ending s = drop (length s - 4) (js_lower s)"

definition heading :: "string \<Rightarrow> bool" where
  "heading h \<longleftrightarrow> 4 \<le> length h \<and> \<not> js_whitespace (last h) \<and> CHR '':'' \<notin> set h \<and> CHR '':'' \<notin> set (js_lower h)"

lemma length_js_lower [simp]: "length (js_lower s) = length s"
  by (simp add: js_lower_def)

lemma ending_suffix: "4 \<le> length h \<Longrightarrow> ending (a @ h) = ending h"
  by (simp add: ending_def js_lower_def drop_map)

lemma colon_no_label: "heading label \<Longrightarrow> label_at label (CHR '':'' # r) = None"
proof -
  assume label: "heading label"
  then obtain c l where "label = c # l" by (cases label) (auto simp: heading_def)
  with label have "lower_char c \<noteq> CHR '':''" by (auto simp: heading_def js_lower_def)
  with \<open>label = c # l\<close> show ?thesis using lower_colon by (auto simp: label_at_def js_lower_def)
qed

lemma other_word:
  assumes h: "heading h" and label: "heading label" and a: "CHR '':'' \<notin> set a" and differ: "js_lower (a @ h) \<noteq> js_lower label"
  shows "label_at label (a @ h @ CHR '':'' # r) = None"
proof (rule ccontr)
  assume "label_at label (a @ h @ CHR '':'' # r) \<noteq> None"
  then obtain x where "label_at label ((a @ h) @ CHR '':'' # r) = Some x" by auto
  moreover have "h \<noteq> []" using h by (auto simp: heading_def)
  ultimately show False using label_before_colon [of label "a @ h" r x] h label a differ by (auto simp: heading_def)
qed

lemma extract_skips:
  assumes h: "heading h" and label: "heading label" and differ: "ending h \<noteq> ending label" and a: "CHR '':'' \<notin> set a"
  shows "extract_label label (a @ h @ CHR '':'' # r) = extract_label label r"
proof -
  have inside: "extract_label label (b @ CHR '':'' # r) = extract_label label r"
    if "\<And>u v. b = u @ v \<Longrightarrow> v \<noteq> [] \<Longrightarrow> label_at label (v @ CHR '':'' # r) = None" for b
    using that
  proof (induction b)
    case (Cons c b)
    have "label_at label ((c # b) @ CHR '':'' # r) = None" by (rule Cons.prems [of "[]"]) simp_all
    moreover have "extract_label label (b @ CHR '':'' # r) = extract_label label r"
      by (rule Cons.IH) (rule Cons.prems [of "c # u" for u], simp_all)
    ultimately show ?case by simp
  qed (simp add: colon_no_label [OF label])
  have "label_at label (v @ CHR '':'' # r) = None" if "a @ h = u @ v" "v \<noteq> []" for u v
  proof (rule ccontr)
    assume "label_at label (v @ CHR '':'' # r) \<noteq> None"
    then obtain x where x: "label_at label (v @ CHR '':'' # r) = Some x" by auto
    have "last v = last h" using that h by (metis heading_def last_appendR list.size(3) not_numeral_le_zero)
    moreover have "CHR '':'' \<notin> set v" using that a h by (metis Un_iff heading_def set_append)
    ultimately have eq: "js_lower v = js_lower label"
      using label_before_colon [OF x] label h that(2) by (simp add: heading_def)
    then have "length v = length label" by (metis length_js_lower)
    with eq have "ending v = ending label" by (simp add: ending_def)
    moreover have "ending v = ending h"
      using ending_suffix [of h a] ending_suffix [of v u] h label that(1) \<open>length v = length label\<close> by (simp add: heading_def)
    ultimately show False using differ by simp
  qed
  then have "extract_label label ((a @ h) @ CHR '':'' # r) = extract_label label r" by (rule inside)
  then show ?thesis by simp
qed

lemma extract_finds:
  assumes h: "heading h" and a: "CHR '':'' \<notin> set a" and r: "captured r = Some x"
  shows "extract_label h (a @ h @ CHR '':'' # r) = Some x"
  using a
proof (induction a)
  case Nil
  have "label_at h (h @ CHR '':'' # r) = Some x" using r h by (simp add: label_at_def js_whitespace_def)
  moreover obtain c t where "h = c # t" using h by (cases h) (auto simp: heading_def)
  ultimately show ?case by simp
next
  case (Cons c a)
  have "js_lower ((c # a) @ h) \<noteq> js_lower h" by (metis length_js_lower length_append add_cancel_left_left length_0_conv list.distinct(1))
  then have "label_at h ((c # a) @ h @ CHR '':'' # r) = None" using other_word [OF h h Cons.prems] by simp
  with Cons show ?case by simp
qed

text \<open>A text that fits on one line of a soul, and an expert all of whose lines do.\<close>

definition plain_line :: "string \<Rightarrow> bool" where
  "plain_line t \<longleftrightarrow> t \<noteq> [] \<and> \<not> js_whitespace (hd t) \<and> \<not> js_whitespace (last t) \<and> CHR '':'' \<notin> set t \<and> CHR 0x0A \<notin> set t"

definition plain_soul :: "expert \<Rightarrow> bool" where
  "plain_soul e \<longleftrightarrow> CHR '':'' \<notin> set (ex_title e) \<and> plain_line (ex_role e) \<and> plain_line (ex_purpose e) \<and> plain_line (ex_tone e)
     \<and> ex_skills e \<noteq> [] \<and> list_all (\<lambda>k. plain_line k \<and> CHR '','' \<notin> set k) (ex_skills e)"

definition rest_of_line :: "string \<Rightarrow> string" where
  "rest_of_line t = CHR '' '' # t @ [CHR 0x0A]"

lemma space_white [simp]: "js_whitespace (CHR '' '')"
  by code_simp

lemma captured_line:
  assumes "plain_line t"
  shows "captured (rest_of_line t @ z) = Some t" and "captured (CHR '' '' # t) = Some t"
proof -
  obtain c u where t: "t = c # u" "\<not> js_whitespace c" using assms by (cases t) (auto simp: plain_line_def)
  have drop: "dropWhile js_whitespace (CHR '' '' # t @ z) = t @ z" for z using t by simp
  have line: "takeWhile (\<lambda>d. d \<noteq> CHR 0x0A) t = t" using assms by (auto simp: plain_line_def takeWhile_eq_all_conv)
  have "takeWhile (\<lambda>d. d \<noteq> CHR 0x0A) (t @ CHR 0x0A # z) = t"
    using assms by (auto simp: plain_line_def takeWhile_append)
  moreover have trim: "js_trim t = t" using assms by (intro js_trim_id) (simp_all add: plain_line_def)
  ultimately show "captured (rest_of_line t @ z) = Some t"
    using drop [of "CHR 0x0A # z"] t(1) by (simp add: captured_def rest_of_line_def)
  show "captured (CHR '' '' # t) = Some t" using drop [of "[]"] t(1) line trim by (simp add: captured_def)
qed

lemma split_piece: "CHR '','' \<notin> set k \<Longrightarrow> split_comma acc (k @ CHR '','' # s) = (acc @ k) # split_comma [] s"
  by (induction k arbitrary: acc) auto

lemma split_last: "CHR '','' \<notin> set k \<Longrightarrow> split_comma acc k = [acc @ k]"
  by (induction k arbitrary: acc) auto

lemma trim_space [simp]: "js_trim (CHR '' '' # k) = js_trim k"
  by (simp add: js_trim_def)

lemma comma_items_join:
  assumes "list_all (\<lambda>k. plain_line k \<and> CHR '','' \<notin> set k) ks"
  shows "ks \<noteq> [] \<Longrightarrow> comma_items (join_with '', '' ks) = ks \<and> comma_items (CHR '' '' # join_with '', '' ks) = ks"
  using assms
proof (induction ks rule: induct_list012)
  case (2 k)
  then have "js_trim k = k" "k \<noteq> []" "CHR '','' \<notin> set (CHR '' '' # k)" by (auto simp: plain_line_def intro: js_trim_id)
  then show ?case using split_last [of k "[]"] split_last [of "CHR '' '' # k" "[]"] by (simp add: comma_items_def)
next
  case (3 k k' ks)
  then have k: "js_trim k = k" "k \<noteq> []" "CHR '','' \<notin> set k" "CHR '','' \<notin> set (CHR '' '' # k)"
    by (auto simp: plain_line_def intro: js_trim_id)
  have rest: "comma_items (CHR '' '' # join_with '', '' (k' # ks)) = k' # ks" using "3.IH" "3.prems" by simp
  then show ?case
    using k split_piece [OF k(3), of "[]" "CHR '' '' # join_with '', '' (k' # ks)"]
      split_piece [OF k(4), of "[]" "CHR '' '' # join_with '', '' (k' # ks)"]
    by (simp add: comma_items_def)
qed simp

lemma plain_join:
  "ks \<noteq> [] \<Longrightarrow> list_all (\<lambda>k. plain_line k \<and> CHR '','' \<notin> set k) ks \<Longrightarrow> plain_line (join_with '', '' ks)"
proof (induction ks rule: induct_list012)
  case (3 k k' ks)
  then have "plain_line (join_with '', '' (k' # ks))" "plain_line k" by simp_all
  then show ?case by (auto simp: plain_line_def)
qed simp_all

lemma headings:
  "heading ''Title'' \<and> heading ''Role'' \<and> heading ''Purpose'' \<and> heading ''Tone'' \<and> heading ''Skills''"
  "distinct (map ending [''Title'', ''Role'', ''Purpose'', ''Tone'', ''Skills''])"
  by code_simp+

lemma soul_text:
  "readExpertField e FieldSoul =
     ''Title'' @ CHR '':'' # rest_of_line (ex_title e) @ ''Role'' @ CHR '':'' # rest_of_line (ex_role e)
     @ ''Purpose'' @ CHR '':'' # rest_of_line (ex_purpose e) @ ''Tone'' @ CHR '':'' # rest_of_line (ex_tone e)
     @ ''Skills'' @ CHR '':'' # CHR '' '' # join_with '', '' (ex_skills e)"
  by (simp add: readExpertField_def rest_of_line_def)



text \<open>A line whose label stands alone takes the next line's text: an empty role is read as the purpose.\<close>

lemma empty_line_reads_next:
  "extract_label ''Role'' (''Role:'' @ [CHR 0x0A] @ ''Purpose: to help'') = Some ''Purpose: to help''"
  by code_simp

text \<open>A soul text without any label changes nothing.\<close>

lemma unlabelled_soul_dropped:
  "mergeFieldEdit (sample_expert ''cfo'' ''Money'') (sample_proposal FieldSoul ''Be bold.'') = sample_expert ''cfo'' ''Money''"
  by code_simp

section \<open>Reflection keeps its promises\<close>

definition sound_proposal :: "project \<Rightarrow> expert list \<Rightarrow> soul_proposal \<Rightarrow> bool" where
  "sound_proposal project considered p \<longleftrightarrow>
     sp_status p = PropPending \<and> sp_sourceMissionIds p = [pr_id project] \<and> sp_after p \<noteq> [] \<and> js_trim (sp_after p) = sp_after p
     \<and> list_ex (\<lambda>e. ex_id e = sp_expertId p \<and> sp_before p = readExpertField e (sp_field p)
          \<and> sp_after p \<noteq> js_trim (readExpertField e (sp_field p))) considered"

lemma propose_effect:
  assumes read: "fst (readSoulProposals (xo_stateDir opts) (w_fs w)) = Inr old"
  obtains q w' where "propose opts project considered usage raw w = (Inr q, w')"
    "fst (readSoulProposals (xo_stateDir opts) (w_fs w')) = Inr (old @ (case q of None \<Rightarrow> [] | Some p \<Rightarrow> [p]))"
    "\<And>p. q = Some p \<Longrightarrow> sound_proposal project considered p"
proof (cases "find (\<lambda>e. ex_id e = rp_expertId raw) considered")
  case None
  then show ?thesis using that [of None w] read by (simp add: propose_def)
next
  case (Some e)
  then have e: "e \<in> set considered" "ex_id e = rp_expertId raw" by (auto simp: find_Some_iff)
  show ?thesis
  proof (cases "js_trim (rp_after raw) = [] \<or> js_trim (rp_after raw) = js_trim (readExpertField e (rp_field raw))")
    case True
    then show ?thesis using that [of None w] read Some by (auto simp: propose_def Let_def)
  next
    case False
    let ?w = "w\<lparr>w_ids := Suc (w_ids w), w_clock := Suc (w_clock w)\<rparr>"
    obtain p where run: "propose opts project considered usage raw w = seq_m (on_fs (appendSoulProposal (xo_stateDir opts) p)) (return_m (Some p)) ?w"
      and p: "sp_status p = PropPending" "sp_sourceMissionIds p = [pr_id project]" "sp_after p = js_trim (rp_after raw)"
        "sp_expertId p = rp_expertId raw" "sp_before p = readExpertField e (rp_field raw)" "sp_field p = rp_field raw"
      using False Some by (simp add: propose_def Let_def bind_m_apply randomUUID_def now_m_def)
    have "fst (readSoulProposals (xo_stateDir opts) (w_fs ?w)) = Inr old" using read by simp
    from append_read [OF this] have "propose opts project considered usage raw w =
        (Inr (Some p), ?w\<lparr>w_fs := snd (writeAll (xo_stateDir opts) (old @ [p]) (w_fs ?w))\<rparr>)"
      by (simp add: run seq_m_apply on_fs_apply)
    moreover have "sound_proposal project considered p"
      using p e False by (auto simp: sound_proposal_def js_trim_idem list_ex_iff)
    ultimately show ?thesis using that by simp
  qed
qed

lemma proposes_effect:
  assumes "fst (readSoulProposals (xo_stateDir opts) (w_fs (ss_world s))) = Inr old"
  shows "\<exists>qs s'. map_m (\<lambda>raw. on_soul (propose opts project considered usage raw)) raws s = (Inr qs, s') \<and> length qs = length raws
    \<and> fst (readSoulProposals (xo_stateDir opts) (w_fs (ss_world s'))) = Inr (old @ kept_items qs)
    \<and> list_all (sound_proposal project considered) (kept_items qs)"
  using assms
proof (induction raws arbitrary: s old)
  case Nil
  then show ?case by (simp add: kept_items_def map_filter_simps)
next
  case (Cons raw raws)
  obtain q w' where q: "propose opts project considered usage raw (ss_world s) = (Inr q, w')"
    "fst (readSoulProposals (xo_stateDir opts) (w_fs w')) = Inr (old @ (case q of None \<Rightarrow> [] | Some p \<Rightarrow> [p]))"
    "\<And>p. q = Some p \<Longrightarrow> sound_proposal project considered p"
    by (rule propose_effect [OF Cons.prems]) blast
  from q(2) have "fst (readSoulProposals (xo_stateDir opts) (w_fs (ss_world (s\<lparr>ss_world := w'\<rparr>)))) = Inr (old @ (case q of None \<Rightarrow> [] | Some p \<Rightarrow> [p]))"
    by simp
  from Cons.IH [OF this] obtain qs s' where rest:
    "map_m (\<lambda>raw. on_soul (propose opts project considered usage raw)) raws (s\<lparr>ss_world := w'\<rparr>) = (Inr qs, s')" "length qs = length raws"
    "fst (readSoulProposals (xo_stateDir opts) (w_fs (ss_world s'))) = Inr ((old @ (case q of None \<Rightarrow> [] | Some p \<Rightarrow> [p])) @ kept_items qs)"
    "list_all (sound_proposal project considered) (kept_items qs)" by blast
  have "on_soul (propose opts project considered usage raw) s = (Inr q, s\<lparr>ss_world := w'\<rparr>)" using q(1) by (simp add: on_soul_apply)
  then have "map_m (\<lambda>raw. on_soul (propose opts project considered usage raw)) (raw # raws) s = (Inr (q # qs), s')"
    using rest(1) by (simp add: bind_m_apply)
  moreover have "kept_items (q # qs) = (case q of None \<Rightarrow> [] | Some p \<Rightarrow> [p]) @ kept_items qs"
    by (simp add: kept_items_def map_filter_simps split: option.split)
  moreover have "list_all (sound_proposal project considered) (case q of None \<Rightarrow> [] | Some p \<Rightarrow> [p])"
    using q(3) by (cases q) simp_all
  ultimately show ?case using rest(2-4) by (intro exI [of _ "q # qs"] exI [of _ s']) (simp del: map_m.simps)
qed

lemma experts_leave_world: "ss_world (snd (reflection_experts opts given s)) = ss_world s"
  by (simp add: reflection_experts_def listExperts_def getExpertsMap_def fresh_map_def bind_m_apply seq_m_apply split: option.split)

lemma text_edit_changes:
  assumes "sound_proposal project considered p" "sp_field p \<in> {FieldPurpose, FieldTone, FieldRole}"
  shows "\<exists>e \<in> set considered. ex_id e = sp_expertId p \<and> mergeFieldEdit e p \<noteq> e"
proof -
  obtain e where e: "e \<in> set considered" "ex_id e = sp_expertId p" "sp_after p \<noteq> js_trim (readExpertField e (sp_field p))"
    and trimmed: "js_trim (sp_after p) = sp_after p"
    using assms(1) by (auto simp: sound_proposal_def list_ex_iff)
  have "readExpertField (mergeFieldEdit e p) (sp_field p) = sp_after p"
    using assms(2) by (auto simp: mergeFieldEdit_def readExpertField_def)
  then have "mergeFieldEdit e p \<noteq> e" using e(3) trimmed by metis
  with e show ?thesis by blast
qed

text \<open>C31. A reflection answers with what it stored: when the proposals file can be read and the model replies,
  reflection returns proposals that are appended to the file in their order, at most one for each
  entry of the reply; each is pending, names the mission and an expert under consideration, records
  that expert's present field, and proposes a trimmed text that is not blank and not the present one.\<close>

theorem reflection_appends_sound_proposals:
  assumes read: "fst (readSoulProposals (xo_stateDir opts) (w_fs (ss_world s))) = Inr old"
    and experts: "fst (reflection_experts opts given s) = Inr experts"
    and reply: "llm (w_ids (ss_world s)) (reflection_request project tasks (considered_experts project experts)) = Inr completion"
  shows "\<exists>ps s'. runReflection opts llm project tasks given s = (Inr ps, s')
    \<and> fst (readSoulProposals (xo_stateDir opts) (w_fs (ss_world s'))) = Inr (old @ ps)
    \<and> length ps \<le> length (parseReflectionResponse (ll_text completion))
    \<and> list_all (sound_proposal project (considered_experts project experts)) ps"
proof -
  obtain s1 where s1: "reflection_experts opts given s = (Inr experts, s1)" "ss_world s1 = ss_world s"
    using experts experts_leave_world [of opts given s] by (metis prod.collapse)
  let ?s = "s1\<lparr>ss_world := (ss_world s)\<lparr>w_ids := Suc (w_ids (ss_world s))\<rparr>\<rparr>" and ?c = "considered_experts project experts"
  have "fst (readSoulProposals (xo_stateDir opts) (w_fs (ss_world ?s))) = Inr old" using read by simp
  from proposes_effect [OF this, of project ?c "ll_usage completion" "parseReflectionResponse (ll_text completion)"]
  obtain qs s' where qs: "map_m (\<lambda>raw. on_soul (propose opts project ?c (ll_usage completion) raw)) (parseReflectionResponse (ll_text completion)) ?s = (Inr qs, s')"
    "length qs = length (parseReflectionResponse (ll_text completion))"
    "fst (readSoulProposals (xo_stateDir opts) (w_fs (ss_world s'))) = Inr (old @ kept_items qs)"
    "list_all (sound_proposal project ?c) (kept_items qs)" by blast
  have short: "length (kept_items xs) \<le> length xs" for xs :: "soul_proposal option list"
    by (induction xs) (auto simp: kept_items_def map_filter_simps split: option.split)
  show ?thesis
  proof (cases "?c = []")
    case True
    then show ?thesis using s1 read by (auto simp: runReflection_def bind_m_apply)
  next
    case False
    have "runReflection opts llm project tasks given s = (Inr (kept_items qs), s')"
      using False s1 reply qs(1) by (simp add: runReflection_def bind_m_apply Let_def on_soul_apply consult_def)
    then show ?thesis using qs(2-4) short [of qs] by auto
  qed
qed

definition sample_reflection :: llm_result where
  "sample_reflection = \<lparr>ll_text = stringify (JObj [(''proposals'', JArr
     [JObj [(''expertId'', JStr ''cfo''), (''field'', JStr ''tone''), (''after'', JStr '' brisk'')],
      JObj [(''expertId'', JStr ''nobody''), (''field'', JStr ''tone''), (''after'', JStr ''brisk'')],
      JObj [(''expertId'', JStr ''cfo''), (''field'', JStr ''role''), (''after'', JStr ''runs '')]])]), ll_usage = None\<rparr>"

theorem reflection_appends_sound_proposals_witness:
  "\<exists>ps s'. runReflection sample_roster (\<lambda>n req. Inr sample_reflection) sample_cap_project [] (Some [sample_expert ''cfo'' ''Money'']) sample_souls = (Inr ps, s')
     \<and> fst (readSoulProposals [''state''] (w_fs (ss_world s'))) = Inr ps \<and> length ps \<le> 3"
proof -
  let ?llm = "\<lambda>(n :: nat) (req :: llm_request). Inr sample_reflection :: string + llm_result"
  have read: "fst (readSoulProposals (xo_stateDir sample_roster) (w_fs (ss_world sample_souls))) = Inr []" by code_simp
  have experts: "fst (reflection_experts sample_roster (Some [sample_expert ''cfo'' ''Money'']) sample_souls) = Inr [sample_expert ''cfo'' ''Money'']"
    by (simp add: reflection_experts_def)
  have "length (parseReflectionResponse (ll_text sample_reflection)) = 3" "xo_stateDir sample_roster = [''state'']" by code_simp+
  with reflection_appends_sound_proposals [OF read experts, of ?llm sample_cap_project "[]" sample_reflection]
  show ?thesis by auto
qed

end
