(* ===== verification/Soul_Http.thy ===== *)
theory Soul_Http
  imports Soul_Proposals Gateway_Http
begin

text \<open>
  The review surface for soul proposals, \<^verbatim>\<open>src/gateway/soul-proposals-http.ts\<close>: the listing, the
  reflection on a project, and the operator's apply, reject and snooze. A request carries the address
  it came from and the text of its body with its size in bytes; the page is static text, a field of
  the options, and so is the outcome of building the language-model client.
\<close>

section \<open>Requests and options\<close>

record soul_request =
  sq_method :: string
  sq_pathname :: string
  sq_remoteAddress :: "string option"
  sq_body :: string
  sq_bodyBytes :: nat

record soul_opts = expert_opts +
  so_client :: "string + llm_client"
  so_page :: string

definition SOUL_API :: string where
  "SOUL_API = ''/v1/soul-proposals''"

definition isSoulProposalsPath :: "string \<Rightarrow> bool" where
  "isSoulProposalsPath pathname \<longleftrightarrow>
     pathname = ''/soul-proposals'' \<or> pathname = SOUL_API \<or> starts_with (SOUL_API @ ''/'') pathname"

definition methodNotAllowed :: "string \<Rightarrow> gateway_reply" where
  "methodNotAllowed allow = \<lparr>gr_status = 405, gr_headers = [(''Allow'', allow)], gr_body = NoBody\<rparr>"

text \<open>\<open>/^[A-Za-z0-9_.-]+$/\<close>\<close>

definition isSafeId_soul :: "string \<Rightarrow> bool" where
  "isSafeId_soul i \<longleftrightarrow> i \<noteq> [] \<and> list_all id_char i"

definition isLoopbackRequest :: "soul_request \<Rightarrow> bool" where
  "isLoopbackRequest req =
     (let addr = nullish (sq_remoteAddress req) []
      in addr = ''127.0.0.1'' \<or> addr = ''::1'' \<or> addr = ''::ffff:127.0.0.1'' \<or> starts_with ''::ffff:127.'' addr)"

text \<open>A body that is absent, too large or no JSON object counts as none.\<close>

definition readJsonBodyTolerant :: "soul_request \<Rightarrow> json_object option" where
  "readJsonBodyTolerant req =
     (if sq_bodyBytes req > 64 * 1024 then None
      else if sq_body req = [] then None
      else case json_parse (sq_body req) of Some (JObj ob) \<Rightarrow> Some ob | _ \<Rightarrow> None)"

section \<open>Replies\<close>

definition soul_error :: "string \<Rightarrow> string \<Rightarrow> json_object" where
  "soul_error type message = [(''error'', JObj [(''type'', JStr type), (''message'', JStr message)])]"

definition proposal_status_name :: "proposal_status \<Rightarrow> string" where
  "proposal_status_name s =
     (case s of PropPending \<Rightarrow> ''pending'' | PropApplied \<Rightarrow> ''applied'' | PropRejected \<Rightarrow> ''rejected'' | PropSnoozed \<Rightarrow> ''snoozed'')"

definition proposal_json :: "soul_proposal \<Rightarrow> json" where
  "proposal_json p = JObj
     ([(''id'', JStr (sp_id p)), (''expertId'', JStr (sp_expertId p)), (''field'', JStr (proposal_field_name (sp_field p))),
       (''before'', JStr (sp_before p)), (''after'', JStr (sp_after p)), (''rationale'', JStr (sp_rationale p)),
       (''sourceMissionIds'', strings_json (sp_sourceMissionIds p)), (''proposedAt'', JStr (sp_proposedAt p)),
       (''status'', JStr (proposal_status_name (sp_status p)))]
      @ (case sp_model p of None \<Rightarrow> [] | Some m \<Rightarrow> [(''model'', JStr m)])
      @ (case sp_reviewerNote p of None \<Rightarrow> [] | Some n \<Rightarrow> [(''reviewerNote'', JStr n)])
      @ (case sp_reviewedAt p of None \<Rightarrow> [] | Some t \<Rightarrow> [(''reviewedAt'', JStr t)]))"

definition sent :: "gateway_reply \<Rightarrow> (soul_state, gateway_outcome) prog" where
  "sent r = return_m (Sent r)"

section \<open>Handlers\<close>

definition handleListProposals :: "'e soul_opts_scheme \<Rightarrow> (soul_state, gateway_outcome) prog" where
  "handleListProposals opts =
     bind_m (on_soul (on_fs (readSoulProposals (xo_stateDir opts)))) (\<lambda>proposals.
     sent (sendJson 200 [(''proposals'', JArr (map proposal_json
       (to_sorted (\<lambda>a b. sp_proposedAt b < sp_proposedAt a) proposals)))]))"

definition reflect_on :: "'e soul_opts_scheme \<Rightarrow> string \<Rightarrow> project \<Rightarrow> (soul_state, gateway_reply) prog" where
  "reflect_on opts projectId project =
     bind_m (lift_m (so_client opts)) (\<lambda>llm.
     bind_m (on_soul (on_fs (listTasks (xo_stateDir opts @ [''projects'']) projectId))) (\<lambda>tasks.
     bind_m (runReflection opts llm project tasks None) (\<lambda>proposals.
     return_m (sendJson 200 [(''ok'', JBool True), (''count'', JNum (int (length proposals))),
       (''proposals'', JArr (map proposal_json proposals))]))))"

definition handleReflect :: "'e soul_opts_scheme \<Rightarrow> string \<Rightarrow> (soul_state, gateway_outcome) prog" where
  "handleReflect opts projectId =
     (if \<not> isSafeId_soul projectId then sent (sendJson 400 (soul_error ''invalid_request'' ''bad project id''))
      else bind_m (on_soul (on_fs (loadProject (xo_stateDir opts @ [''projects'']) projectId))) (\<lambda>found.
        case found of
          None \<Rightarrow> sent (sendJson 404 (soul_error ''not_found'' (''project not found: '' @ projectId)))
        | Some project \<Rightarrow>
            bind_m (catch_m (reflect_on opts projectId project)
              (\<lambda>err. return_m (sendJson 500 [(''ok'', JBool False), (''error'', JStr err)]))) sent))"

definition unknown_proposal :: "string \<Rightarrow> gateway_reply" where
  "unknown_proposal i = sendJson 404 (soul_error ''not_found'' (''unknown proposal: '' @ i))"

definition apply_stored :: "'e soul_opts_scheme \<Rightarrow> string \<Rightarrow> string option \<Rightarrow> (soul_state, gateway_reply) prog" where
  "apply_stored opts i note =
     bind_m (on_soul (on_fs (readSoulProposals (xo_stateDir opts)))) (\<lambda>proposals.
       case find (\<lambda>p. sp_id p = i) proposals of
         None \<Rightarrow> return_m (unknown_proposal i)
       | Some existing \<Rightarrow>
           bind_m (applySoulProposal opts existing) (\<lambda>e.
           bind_m (on_soul (updateSoulProposalStatus opts i PropApplied note None)) (\<lambda>updated.
           return_m (sendJson 200 ([(''ok'', JBool True)]
             @ (case updated of None \<Rightarrow> [] | Some p \<Rightarrow> [(''proposal'', proposal_json p)])
             @ [(''expert'', JObj (expert_fields e))])))))"

definition handleApply :: "'e soul_opts_scheme \<Rightarrow> string \<Rightarrow> string option \<Rightarrow> (soul_state, gateway_outcome) prog" where
  "handleApply opts i note =
     bind_m (catch_m (apply_stored opts i note)
       (\<lambda>err. return_m (sendJson 500 [(''ok'', JBool False), (''error'', JStr err)]))) sent"

definition handleDismiss :: "'e soul_opts_scheme \<Rightarrow> string \<Rightarrow> proposal_status \<Rightarrow> string option \<Rightarrow> (soul_state, gateway_outcome) prog" where
  "handleDismiss opts i status note =
     bind_m (on_soul (updateSoulProposalStatus opts i status note None)) (\<lambda>updated.
       case updated of
         None \<Rightarrow> sent (unknown_proposal i)
       | Some p \<Rightarrow> sent (sendJson 200 [(''ok'', JBool True), (''proposal'', proposal_json p)]))"

text \<open>\<open>tail\<close> is what follows \<open>/v1/soul-proposals/\<close>: an id and an action around its last slash.\<close>

definition handleReview :: "'e soul_opts_scheme \<Rightarrow> soul_request \<Rightarrow> string \<Rightarrow> (soul_state, gateway_outcome) prog" where
  "handleReview opts req tail =
     (case last_index_of (CHR ''/'') tail of
        None \<Rightarrow> return_m NotHandled
      | Some lastSlash \<Rightarrow>
          if lastSlash = 0 then return_m NotHandled
          else let i = take lastSlash tail; action = drop (lastSlash + 1) tail;
                   body = nullish (readJsonBodyTolerant req) [];
                   note = (case obj_get body ''note'' of Some (JStr n) \<Rightarrow> Some n | _ \<Rightarrow> None)
               in if \<not> isSafeId_soul i then sent (sendJson 400 (soul_error ''invalid_request'' ''bad proposal id''))
                  else if action = ''apply'' then handleApply opts i note
                  else if action = ''reject'' then handleDismiss opts i PropRejected note
                  else if action = ''snooze'' then handleDismiss opts i PropSnoozed note
                  else sent (sendJson 400 (soul_error ''invalid_request'' (''unknown action: '' @ action))))"

definition REFLECT_PREFIX :: string where
  "REFLECT_PREFIX = SOUL_API @ ''/reflect/''"

definition handleSoulProposalsRequest :: "'e soul_opts_scheme \<Rightarrow> soul_request \<Rightarrow> (soul_state, gateway_outcome) prog" where
  "handleSoulProposalsRequest opts req =
     (let pathname = sq_pathname req
      in if \<not> isSoulProposalsPath pathname then return_m NotHandled
         else if \<not> isLoopbackRequest req then sent (sendJson 403 (soul_error ''forbidden'' ''Loopback-only''))
         else if pathname = ''/soul-proposals'' then
           (if sq_method req \<noteq> ''GET'' then sent (methodNotAllowed ''GET'')
            else sent \<lparr>gr_status = 200,
              gr_headers = [(''Content-Type'', ''text/html; charset=utf-8''), (''Cache-Control'', ''no-store'')],
              gr_body = TextBody (so_page opts)\<rparr>)
         else if pathname = SOUL_API then
           (if sq_method req \<noteq> ''GET'' then sent (methodNotAllowed ''GET'') else handleListProposals opts)
         else if starts_with REFLECT_PREFIX pathname then
           (if sq_method req \<noteq> ''POST'' then sent (methodNotAllowed ''POST'')
            else handleReflect opts (drop (length REFLECT_PREFIX) pathname))
         else if starts_with (SOUL_API @ ''/'') pathname then
           (if sq_method req \<noteq> ''POST'' then sent (methodNotAllowed ''POST'')
            else handleReview opts req (drop (length (SOUL_API @ ''/'')) pathname))
         else return_m NotHandled)"

section \<open>The history of proposals\<close>

text \<open>What a review leaves of a proposal.\<close>

definition proposal_frame :: "soul_proposal \<Rightarrow> soul_proposal" where
  "proposal_frame p = p\<lparr>sp_status := PropPending, sp_reviewedAt := None, sp_reviewerNote := None\<rparr>"

definition extends_history :: "path \<Rightarrow> soul_proposal list \<Rightarrow> soul_fs \<Rightarrow> bool" where
  "extends_history d old fs \<longleftrightarrow>
     (\<exists>ps. fst (readSoulProposals d fs) = Inr ps \<and> take (length old) (map proposal_frame ps) = map proposal_frame old)"

abbreviation history_inv :: "path \<Rightarrow> soul_proposal list \<Rightarrow> soul_world \<Rightarrow> bool" where
  "history_inv d old w \<equiv> extends_history d old (w_fs w)"

lemma preserves_on_soul: "preserves P m \<Longrightarrow> preserves (\<lambda>s. P (ss_world s)) (on_soul m)"
  by (simp add: preserves_def on_soul_apply)

lemma preserves_on_fs: "preserves P m \<Longrightarrow> preserves (\<lambda>w. P (w_fs w)) (on_fs m)"
  by (simp add: preserves_def on_fs_apply)

lemma frames_append:
  assumes eq: "take (length old) (map proposal_frame ps) = map proposal_frame old"
  shows "take (length old) (map proposal_frame (ps @ qs)) = map proposal_frame old"
proof -
  have "length (take (length old) (map proposal_frame ps)) = length old" unfolding eq by simp
  then have "length old \<le> length ps" by simp
  with eq show ?thesis by simp
qed

lemma append_keeps: "preserves (extends_history d old) (appendSoulProposal d p)"
proof (rule preservesI)
  fix fs assume "extends_history d old fs"
  then obtain ps where ps: "fst (readSoulProposals d fs) = Inr ps" "take (length old) (map proposal_frame ps) = map proposal_frame old"
    by (auto simp: extends_history_def)
  show "extends_history d old (snd (appendSoulProposal d p fs))"
    using frames_append [OF ps(2), of "[p]"] append_read [OF ps(1), of p] by (simp add: extends_history_def)
qed

lemma review_frames: "list_all2 (review_of i status note) xs ys \<Longrightarrow> map proposal_frame ys = map proposal_frame xs"
  by (induction xs ys rule: list_all2_induct) (auto simp: review_of_def reviewed_def proposal_frame_def split: if_splits)

lemma update_keeps: "preserves (history_inv (xo_stateDir opts) old) (updateSoulProposalStatus opts i status note given)"
proof (rule preservesI)
  fix w :: soul_world assume "extends_history (xo_stateDir opts) old (w_fs w)"
  then obtain ps where ps: "fst (readSoulProposals (xo_stateDir opts) (w_fs w)) = Inr ps" "take (length old) (map proposal_frame ps) = map proposal_frame old"
    by (auto simp: extends_history_def)
  obtain ys r w' where "updateSoulProposalStatus opts i status note given w = (Inr r, w')"
    "list_all2 (review_of i status note) ps ys" "fst (readSoulProposals (xo_stateDir opts) (w_fs w')) = Inr ys"
    by (rule update_effect [OF ps(1)])
  then show "extends_history (xo_stateDir opts) old (w_fs (snd (updateSoulProposalStatus opts i status note given w)))"
    using ps(2) review_frames [of i status "note" ps ys] by (simp add: extends_history_def)
qed

lemma override_reads: "readSoulProposals d (write_override d i e fs) = (fst (readSoulProposals d fs), write_override d i e fs)"
proof -
  have "existsSync (write_override d i e fs) (d @ [''soul-proposals.json'']) \<longleftrightarrow> existsSync fs (d @ [''soul-proposals.json''])"
    by (auto simp: write_override_def Let_def ancestors_iff)
  then show ?thesis
    by (auto simp: readSoulProposals_def bind_m_apply read_override resolveSoulProposalsPath_def
        split: option.split state_file.split soul_file.split bool.split)
qed

lemma map_world: "preserves (\<lambda>s. P (ss_world s)) (getExpertsMap opts)"
  by (simp add: preserves_def getExpertsMap_def fresh_map_def bind_m_apply seq_m_apply split: option.split)

lemma experts_keep:
  "preserves (\<lambda>s. P (ss_world s)) (getExpert opts i)" "preserves (\<lambda>s. P (ss_world s)) (listExperts opts)"
  unfolding getExpert_def listExperts_def by (intro preserves_intros map_world)+

lemma apply_keeps: "preserves (\<lambda>s. history_inv (xo_stateDir opts) old (ss_world s)) (applySoulProposal opts p)"
proof -
  have "preserves (extends_history (xo_stateDir opts) old) (modify_m (write_override (xo_stateDir opts) i e))" for i e
    by (rule preserves_modify) (simp add: extends_history_def override_reads)
  then have "preserves (\<lambda>s. history_inv (xo_stateDir opts) old (ss_world s)) (on_soul (on_fs (modify_m (write_override (xo_stateDir opts) i e))))" for i e
    by (intro preserves_on_soul preserves_on_fs)
  moreover have "preserves (\<lambda>s. history_inv (xo_stateDir opts) old (ss_world s)) clearExpertCache"
    unfolding clearExpertCache_def by (rule preserves_modify) simp
  ultimately show ?thesis
    unfolding applySoulProposal_def Let_def by (intro preserves_intros experts_keep)
qed

lemma clock_keeps: "preserves (history_inv d old) (randomUUID opts)" "preserves (history_inv d old) (now_m opts)" "preserves (history_inv d old) consult"
  by (simp_all add: preserves_def randomUUID_def now_m_def consult_def)

lemma propose_keeps: "preserves (history_inv (xo_stateDir opts) old) (propose opts project considered usage raw)"
  unfolding propose_def Let_def by (intro preserves_intros clock_keeps preserves_on_fs append_keeps)

lemma reflection_keeps: "preserves (\<lambda>s. history_inv (xo_stateDir opts) old (ss_world s)) (runReflection opts llm project tasks given)"
  unfolding runReflection_def reflection_experts_def Let_def
  by (intro preserves_intros experts_keep preserves_on_soul clock_keeps propose_keeps)

lemma readSoulProposals_keeps: "preserves P (readSoulProposals d)"
  by (simp add: preserves_def)

lemma soul_handler_keeps: "preserves (\<lambda>s. history_inv (xo_stateDir opts) old (ss_world s)) (handleSoulProposalsRequest opts req)"
proof -
  let ?P = "\<lambda>s. history_inv (xo_stateDir opts) old (ss_world s)"
  have sent: "preserves ?P (sent r)" for r by (simp add: sent_def preserves_return)
  have reads: "preserves ?P (on_soul (on_fs (readSoulProposals (xo_stateDir opts))))"
    by (intro preserves_on_soul preserves_on_fs readSoulProposals_keeps)
  have "preserves ?P (handleListProposals opts)"
    unfolding handleListProposals_def by (intro preserves_intros reads sent)
  moreover have "preserves ?P (handleReflect opts i)" for i
    unfolding handleReflect_def reflect_on_def by (intro preserves_intros sent preserves_on_soul preserves_on_fs loadProject_keeps listTasks_keeps reflection_keeps)
  moreover have "preserves ?P (handleApply opts i nt)" for i nt
    unfolding handleApply_def apply_stored_def
    by (intro preserves_intros sent reads apply_keeps preserves_on_soul update_keeps)
  moreover have "preserves ?P (handleDismiss opts i status nt)" for i status nt
    unfolding handleDismiss_def by (intro preserves_intros sent preserves_on_soul update_keeps)
  ultimately show ?thesis
    unfolding handleSoulProposalsRequest_def handleReview_def Let_def by (intro preserves_intros sent)
qed

lemma only_posts_write:
  assumes "sq_method req \<noteq> ''POST''"
  shows "snd (handleSoulProposalsRequest opts req s) = s"
proof -
  have "on_soul (on_fs (readSoulProposals d)) s = (fst (readSoulProposals d (w_fs (ss_world s))), s)" for d
    by (simp add: on_soul_apply on_fs_apply)
  then have "snd (handleListProposals opts s) = s"
    by (simp add: handleListProposals_def bind_m_apply sent_def split: sum.split)
  with assms show ?thesis by (simp add: handleSoulProposalsRequest_def Let_def sent_def)
qed

text \<open>C22. No request loses or rewrites a proposal: whatever a request does, and however it fails, the
  proposals that were stored are still there, in their order and with everything but their status,
  review time and note as it was, possibly followed by new ones; a request that does not come from the
  machine itself or is no POST changes nothing at all.\<close>

theorem proposals_never_lost:
  assumes read: "fst (readSoulProposals (xo_stateDir opts) (w_fs (ss_world s))) = Inr ps"
  shows "let s' = snd (handleSoulProposalsRequest opts req s)
    in (\<exists>qs. fst (readSoulProposals (xo_stateDir opts) (w_fs (ss_world s'))) = Inr qs
         \<and> take (length ps) (map proposal_frame qs) = map proposal_frame ps)
     \<and> (\<not> isLoopbackRequest req \<or> sq_method req \<noteq> ''POST'' \<longrightarrow> s' = s)"
proof -
  have "extends_history (xo_stateDir opts) ps (w_fs (ss_world s))" using read by (simp add: extends_history_def)
  from preservesD [OF soul_handler_keeps, OF this, of req]
  have "extends_history (xo_stateDir opts) ps (w_fs (ss_world (snd (handleSoulProposalsRequest opts req s))))" .
  moreover have "\<not> isLoopbackRequest req \<Longrightarrow> snd (handleSoulProposalsRequest opts req s) = s"
    by (simp add: handleSoulProposalsRequest_def Let_def sent_def)
  ultimately show ?thesis using only_posts_write [of req opts s] by (auto simp: extends_history_def Let_def)
qed

definition stored_souls :: "soul_proposal list \<Rightarrow> soul_state" where
  "stored_souls ps = sample_souls\<lparr>ss_world := (ss_world sample_souls)\<lparr>w_fs :=
     snd (writeAll [''state''] ps (w_fs (ss_world sample_souls)))\<rparr>\<rparr>"

definition sample_soul_opts :: soul_opts where
  "sample_soul_opts = expert_opts.extend sample_roster (soul_opts.fields (Inl ''no model'') ''page'')"

definition sample_review :: "string \<Rightarrow> soul_request" where
  "sample_review path = \<lparr>sq_method = ''POST'', sq_pathname = SOUL_API @ ''/'' @ path, sq_remoteAddress = Some ''127.0.0.1'', sq_body = [], sq_bodyBytes = 0\<rparr>"

lemma sample_soul_opts_simps [simp]:
  "xo_stateDir sample_soul_opts = [''state'']" "xo_bundled sample_soul_opts = xo_bundled sample_roster"
  by (simp_all add: sample_soul_opts_def expert_opts.defs sample_roster_def env.defs)

lemma stored_souls_read: "fst (readSoulProposals [''state''] (w_fs (ss_world (stored_souls ps)))) = Inr ps"
  by (simp add: stored_souls_def)

theorem proposals_never_lost_witness:
  "\<exists>qs. fst (readSoulProposals [''state''] (w_fs (ss_world (snd (handleSoulProposalsRequest sample_soul_opts (sample_review ''prop-1/reject'')
       (stored_souls [sample_proposal FieldTone ''brisk''])))))) = Inr qs
     \<and> take 1 (map proposal_frame qs) = [proposal_frame (sample_proposal FieldTone ''brisk'')]"
  using proposals_never_lost [of sample_soul_opts "stored_souls [sample_proposal FieldTone ''brisk'']" "[sample_proposal FieldTone ''brisk'']"
      "sample_review ''prop-1/reject''"] stored_souls_read
  by (simp add: Let_def)

section \<open>Applying over HTTP\<close>

lemma starts_with_same [simp]: "starts_with (a @ b) (a @ c) \<longleftrightarrow> starts_with b c"
  by (simp add: starts_with_def)

lemma starts_with_refl [simp]: "starts_with a (a @ c)"
  by (simp add: starts_with_def)

lemma safe_no_slash: "isSafeId_soul i \<Longrightarrow> CHR ''/'' \<notin> set i"
  by (auto simp: isSafeId_soul_def list_all_iff id_char_def)

lemma reflect_prefix:
  assumes "isSafeId_soul i" "starts_with ''reflect/'' (i @ ''/apply'')"
  shows "i = ''reflect''"
proof -
  obtain z where "i @ ''/apply'' = ''reflect/'' @ z" using assms(2) unfolding starts_with_def by (metis append_take_drop_id)
  then have "takeWhile (\<lambda>c. c \<noteq> CHR ''/'') (i @ ''/apply'') = takeWhile (\<lambda>c. c \<noteq> CHR ''/'') (''reflect/'' @ z)" by metis
  moreover have "takeWhile (\<lambda>c. c \<noteq> CHR ''/'') (i @ ''/apply'') = i"
    using safe_no_slash [OF assms(1)] by (auto simp: takeWhile_append)
  ultimately show ?thesis by simp
qed

lemma last_slash: "CHR ''/'' \<notin> set i \<Longrightarrow> last_index_of (CHR ''/'') (i @ ''/apply'') = Some (length i)"
  by (simp add: last_index_of_def index_of_def)

lemma apply_routed:
  assumes "isLoopbackRequest req" "sq_method req = ''POST''" "sq_pathname req = SOUL_API @ ''/'' @ i @ ''/apply''"
    "isSafeId_soul i" "i \<noteq> ''reflect''"
  shows "\<exists>note. handleSoulProposalsRequest opts req = handleApply opts i note"
proof -
  have other: "SOUL_API @ ''/'' @ i @ ''/apply'' \<noteq> ''/soul-proposals''" "SOUL_API @ ''/'' @ i @ ''/apply'' \<noteq> SOUL_API"
    by (simp_all add: SOUL_API_def)
  have api: "starts_with (SOUL_API @ ''/'') (SOUL_API @ ''/'' @ i @ ''/apply'')"
    using starts_with_refl [of "SOUL_API @ ''/''" "i @ ''/apply''"] by simp
  have reflect: "\<not> starts_with REFLECT_PREFIX (SOUL_API @ ''/'' @ i @ ''/apply'')"
    using reflect_prefix [OF assms(4)] assms(5) starts_with_same [of "SOUL_API @ ''/''" "''reflect/''" "i @ ''/apply''"]
    by (auto simp: REFLECT_PREFIX_def)
  have rest: "drop (length (SOUL_API @ ''/'')) (SOUL_API @ ''/'' @ i @ ''/apply'') = i @ ''/apply''" by simp
  have "i \<noteq> []" using assms(4) by (simp add: isSafeId_soul_def)
  then show ?thesis
    unfolding handleSoulProposalsRequest_def isSoulProposalsPath_def Let_def assms(3) rest
    using assms(1,2,4) other api reflect last_slash [OF safe_no_slash [OF assms(4)]]
    by (auto simp: handleReview_def Let_def)
qed

lemma effective_cong:
  "(\<And>name. read_file fs' (xo_stateDir opts @ [''experts'', name]) = read_file fs (xo_stateDir opts @ [''experts'', name])) \<Longrightarrow>
     effective opts fs' i = effective opts fs i"
  by (simp add: effective_def user_expert_def)

lemma apply_runs:
  assumes "fst (getExpert opts (sp_expertId p) s) = Inr (Some current)"
  obtains s1 where "applySoulProposal opts p s = (Inr (mergeFieldEdit current p), s1)" "ss_cache s1 = None"
    "fst (readSoulProposals (xo_stateDir opts) (w_fs (ss_world s1))) = fst (readSoulProposals (xo_stateDir opts) (w_fs (ss_world s)))"
proof -
  obtain s0 where s0: "getExpert opts (sp_expertId p) s = (Inr (Some current), s0)" using assms by (metis prod.collapse)
  moreover have "ss_world s0 = ss_world s"
    using preservesD [OF experts_keep(1), of "\<lambda>w. w = ss_world s" s opts "sp_expertId p"] s0 by simp
  ultimately show ?thesis
    by (intro that [of "snd (applySoulProposal opts p s)"])
      (simp_all add: applySoulProposal_def bind_m_apply seq_m_apply Let_def on_soul_apply on_fs_apply clearExpertCache_def override_reads)
qed

definition now_applied :: "string \<Rightarrow> soul_proposal \<Rightarrow> soul_proposal \<Rightarrow> bool" where
  "now_applied i p q \<longleftrightarrow> (if sp_id p = i then sp_status q = PropApplied \<and> proposal_frame q = proposal_frame p else q = p)"



end
