(* ===== verification/Prompts.thy ===== *)
theory Prompts
  imports Soul_Proposals
begin

text \<open>
  What the planner and the two evaluators send to the language model: the prompts of
  \<^verbatim>\<open>src/projects/planner.ts\<close>, \<^verbatim>\<open>goal-evaluator.ts\<close> and \<^verbatim>\<open>evaluator.ts\<close>, and how a client of the
  interface \<open>llm_client\<close> answers the questions these components ask. Elsewhere in the development the
  answers are parameters; here they are computed from the client and the texts it is sent.
\<close>

section \<open>Replacing a placeholder\<close>

text \<open>\<open>text.replace(pattern, replacement)\<close> for a string pattern: the first occurrence is replaced, and \<open>$$\<close>,
  \<open>$&\<close>, \<open>$`\<close> and \<open>$'\<close> in the replacement stand for a dollar, the match, and what precedes and follows it.\<close>

fun expand_dollars :: "string \<Rightarrow> string \<Rightarrow> string \<Rightarrow> string \<Rightarrow> string" where
  "expand_dollars before found after (c # d # r) =
     (if c = CHR ''$'' \<and> d = CHR ''$'' then CHR ''$'' # expand_dollars before found after r
      else if c = CHR ''$'' \<and> d = CHR ''&'' then found @ expand_dollars before found after r
      else if c = CHR ''$'' \<and> d = CHR ''`'' then before @ expand_dollars before found after r
      else if c = CHR ''$'' \<and> d = CHR 0x27 then after @ expand_dollars before found after r
      else c # expand_dollars before found after (d # r))"
| "expand_dollars before found after r = r"

fun strip_prefix :: "string \<Rightarrow> string \<Rightarrow> string option" where
  "strip_prefix [] s = Some s"
| "strip_prefix (p # ps) [] = None"
| "strip_prefix (p # ps) (c # s) = (if p = c then strip_prefix ps s else None)"

fun split_at :: "string \<Rightarrow> string \<Rightarrow> string \<Rightarrow> (string \<times> string) option" where
  "split_at pat acc [] = map_option (\<lambda>r. (rev acc, r)) (strip_prefix pat [])"
| "split_at pat acc (c # s) =
     (case strip_prefix pat (c # s) of Some r \<Rightarrow> Some (rev acc, r) | None \<Rightarrow> split_at pat (c # acc) s)"

definition js_replace :: "string \<Rightarrow> string \<Rightarrow> string \<Rightarrow> string" where
  "js_replace pat replacement s =
     (case split_at pat [] s of
        None \<Rightarrow> s
      | Some (before, after) \<Rightarrow> before @ expand_dollars before pat after replacement @ after)"

section \<open>The planner\<close>

definition EXPERT_ROSTER_SLOT :: string where
  "EXPERT_ROSTER_SLOT = ''{{EXPERT_ROSTER}}''"

definition CAPABILITY_CATALOG_SLOT :: string where
  "CAPABILITY_CATALOG_SLOT = ''{{CAPABILITY_CATALOG}}''"

definition PROMPT_HEAD :: string where
  "PROMPT_HEAD = join_with [CHR 0x0A]
     [''You are the planner agent for Alien '' @ EM_DASH @ '' an AI-powered workforce.'',
      ''You receive a request and must break it into a small set of tasks that'',
      ''specialist workers will execute.'',
      [],
      ''Your company:'',
      ''You have a roster of named experts. Each task you emit MUST be assigned'',
      ''to the single best-fit expert by id (the '' @ [CHR 0x22] @ ''expertId'' @ [CHR 0x22] @ '' field). Pick the'',
      ''expert whose role + skills most directly match the work '' @ EM_DASH @ '' bias toward'',
      ''the most senior expert in that department if it'' @ [CHR 0x27] @ ''s a strategic call,'',
      ''toward the IC if it'' @ [CHR 0x27] @ ''s hands-on execution.'',
      [],
      ''Available experts (id '' @ [CHR 0xB7] @ '' title '' @ [CHR 0xB7] @ '' skills):'',
      []]"

definition PROMPT_MIDDLE :: string where
  "PROMPT_MIDDLE = join_with [CHR 0x0A]
     [[],
      [],
      ''The available worker roles are exactly:'',
      ''- researcher: gathers facts about a topic.'',
      ''- writer: produces a draft from research / inputs.'',
      ''- editor: revises drafts for quality and consistency.'',
      ''- publisher: writes the final artifact to disk or sends it to a channel.'',
      ''- email-handler: reads the user'' @ [CHR 0x27] @ ''s Gmail inbox, drafts replies, and sends mail.'',
      ''  Task input shape for email-handler:'',
      ''    { '' @ [CHR 0x22] @ ''action'' @ [CHR 0x22] @ '': '' @ [CHR 0x22] @ ''list_inbox'' @ [CHR 0x22] @ '', '' @ [CHR 0x22] @ ''query'' @ [CHR 0x22] @ '': '' @ [CHR 0x22] @ ''is:unread newer_than:1d'' @ [CHR 0x22] @ '', '' @ [CHR 0x22] @ ''maxResults'' @ [CHR 0x22] @ '': 10 }'',
      ''    { '' @ [CHR 0x22] @ ''action'' @ [CHR 0x22] @ '': '' @ [CHR 0x22] @ ''send'' @ [CHR 0x22] @ '', '' @ [CHR 0x22] @ ''to'' @ [CHR 0x22] @ '': '' @ [CHR 0x22] @ ''...'' @ [CHR 0x22] @ '', '' @ [CHR 0x22] @ ''subject'' @ [CHR 0x22] @ '': '' @ [CHR 0x22] @ ''...'' @ [CHR 0x22] @ '', '' @ [CHR 0x22] @ ''bodyText'' @ [CHR 0x22] @ '': '' @ [CHR 0x22] @ ''...'' @ [CHR 0x22] @ '' }'',
      ''    { '' @ [CHR 0x22] @ ''action'' @ [CHR 0x22] @ '': '' @ [CHR 0x22] @ ''draft_reply'' @ [CHR 0x22] @ '', '' @ [CHR 0x22] @ ''inReplyToMessageId'' @ [CHR 0x22] @ '': '' @ [CHR 0x22] @ ''...'' @ [CHR 0x22] @ '','',
      ''      '' @ [CHR 0x22] @ ''replyPrompt'' @ [CHR 0x22] @ '': '' @ [CHR 0x22] @ ''Politely decline; suggest next week.'' @ [CHR 0x22] @ '' }'',
      ''- capability-broker: a SPECIAL role you emit ONLY when the goal genuinely'',
      ''  needs an integration that does not exist in our catalog (see below).'',
      ''  Don'' @ [CHR 0x27] @ ''t use it for things you can fake or skip. Task input shape:'',
      ''    { '' @ [CHR 0x22] @ ''integration'' @ [CHR 0x22] @ '': '' @ [CHR 0x22] @ ''<short id like '' @ [CHR 0x27] @ ''stripe'' @ [CHR 0x27] @ '' or '' @ [CHR 0x27] @ ''calendly'' @ [CHR 0x27] @ ''>'' @ [CHR 0x22] @ '','',
      ''      '' @ [CHR 0x22] @ ''why'' @ [CHR 0x22] @ '': '' @ [CHR 0x22] @ ''<one sentence: what this is needed for in the current goal>'' @ [CHR 0x22] @ '','',
      ''      '' @ [CHR 0x22] @ ''sketch'' @ [CHR 0x22] @ '': '' @ [CHR 0x22] @ ''<optional: a couple of sentences on the API surface you'' @ [CHR 0x27] @ ''d want>'' @ [CHR 0x22] @ '' }'',
      ''  When you emit one of these, treat it as the only task for this iteration'',
      ''  and do NOT also emit dependent tasks that assume the capability exists '' @ EM_DASH,
      ''  the loop will pause for operator input.'',
      ''- capability-runner: invoke a self-coded capability that has been'',
      ''  activated. The catalog lists these as '' @ [CHR 0x22] @ ''live:<id>'' @ [CHR 0x22] @ '' '' @ EM_DASH @ '' use the id'',
      ''  without the '' @ [CHR 0x22] @ ''live:'' @ [CHR 0x22] @ '' prefix in task input. Shape:'',
      ''    { '' @ [CHR 0x22] @ ''capability'' @ [CHR 0x22] @ '': '' @ [CHR 0x22] @ ''<id from the live catalog>'' @ [CHR 0x22] @ '', '' @ [CHR 0x22] @ ''args'' @ [CHR 0x22] @ '': { ... } }'',
      ''  Pick this role when a live capability matches the work; the worker'',
      ''  dispatches to the in-process module and returns its result.'',
      [],
      ''Current capability catalog (what already exists; do NOT request these):'',
      []]"

definition PROMPT_TAIL :: string where
  "PROMPT_TAIL = join_with [CHR 0x0A]
     [[],
      [],
      ''Hard rules:'',
      ''1. Respond with strict JSON only, no prose, no markdown fence.'',
      ''2. Schema:'',
      ''   {'',
      ''     '' @ [CHR 0x22] @ ''summary'' @ [CHR 0x22] @ '': '' @ [CHR 0x22] @ ''<one-line plain-English summary>'' @ [CHR 0x22] @ '','',
      ''     '' @ [CHR 0x22] @ ''tasks'' @ [CHR 0x22] @ '': ['',
      ''       {'',
      ''         '' @ [CHR 0x22] @ ''id'' @ [CHR 0x22] @ '': '' @ [CHR 0x22] @ ''<short kebab id, unique in this plan>'' @ [CHR 0x22] @ '','',
      ''         '' @ [CHR 0x22] @ ''title'' @ [CHR 0x22] @ '': '' @ [CHR 0x22] @ ''<one-line>'' @ [CHR 0x22] @ '','',
      ''         '' @ [CHR 0x22] @ ''description'' @ [CHR 0x22] @ '': '' @ [CHR 0x22] @ ''<two-sentence what to do>'' @ [CHR 0x22] @ '','',
      ''         '' @ [CHR 0x22] @ ''role'' @ [CHR 0x22] @ '': '' @ [CHR 0x22] @ ''researcher'' @ [CHR 0x22] @ '' | '' @ [CHR 0x22] @ ''writer'' @ [CHR 0x22] @ '' | '' @ [CHR 0x22] @ ''editor'' @ [CHR 0x22] @ '' | '' @ [CHR 0x22] @ ''publisher'' @ [CHR 0x22] @ '' | '' @ [CHR 0x22] @ ''email-handler'' @ [CHR 0x22] @ '' | '' @ [CHR 0x22] @ ''capability-broker'' @ [CHR 0x22] @ '' | '' @ [CHR 0x22] @ ''capability-runner'' @ [CHR 0x22] @ '','',
      ''         '' @ [CHR 0x22] @ ''expertId'' @ [CHR 0x22] @ '': '' @ [CHR 0x22] @ ''<id from the expert roster above>'' @ [CHR 0x22] @ '','',
      ''         '' @ [CHR 0x22] @ ''dependsOn'' @ [CHR 0x22] @ '': ['' @ [CHR 0x22] @ ''<id of another task in this list>'' @ [CHR 0x22] @ '', ...],'',
      ''         '' @ [CHR 0x22] @ ''input'' @ [CHR 0x22] @ '': { ...arbitrary JSON the worker needs... },'',
      ''         '' @ [CHR 0x22] @ ''priority'' @ [CHR 0x22] @ '': '' @ [CHR 0x22] @ ''low'' @ [CHR 0x22] @ '' | '' @ [CHR 0x22] @ ''normal'' @ [CHR 0x22] @ '' | '' @ [CHR 0x22] @ ''high'' @ [CHR 0x22] @ '' | '' @ [CHR 0x22] @ ''urgent'' @ [CHR 0x22] @ '','',
      ''         '' @ [CHR 0x22] @ ''requiresApproval'' @ [CHR 0x22] @ '': true | false'',
      ''       }'',
      ''     ]'',
      ''   }'',
      ''3. Prefer fewer tasks (2'' @ EN_DASH @ ''6) over many. Aim for the simplest plan that achieves the goal.'',
      ''4. dependsOn must reference ids from the *same* response. Do NOT reference existing tasks.'',
      ''5. Mark a task requiresApproval: true when the action has irreversible external'',
      ''   effects (sending mail, posting to a channel, deleting). Reading and drafting'',
      ''   are safe '' @ EM_DASH @ '' leave them unapproved so the team can move fast.'']"

definition PLANNER_SYSTEM_PROMPT :: string where
  "PLANNER_SYSTEM_PROMPT = PROMPT_HEAD @ EXPERT_ROSTER_SLOT @ PROMPT_MIDDLE @ CAPABILITY_CATALOG_SLOT @ PROMPT_TAIL"

definition roster_line :: "expert \<Rightarrow> string" where
  "roster_line e =
     (let skills = join_with '', '' (take 5 (ex_skills e))
      in ''- '' @ ex_id e @ '': '' @ ex_title e @ '' ('' @ department_name (ex_department e) @ '')''
         @ (if skills \<noteq> [] then ''. Skills: '' @ skills else []))"

definition renderRosterForPlanner :: "expert list \<Rightarrow> string" where
  "renderRosterForPlanner experts =
     (if experts = [] then ''(no experts available '' @ EM_DASH @ '' omit expertId in every task)''
      else join_with [CHR 0x0A] (map roster_line experts))"

definition describeOrigin :: "task_origin \<Rightarrow> string" where
  "describeOrigin origin =
     (case origin of
        ChannelOrigin c \<Rightarrow> ''channel:'' @ ch_channel c @ '' (author: '' @ nullish (ch_authorDisplayName c) ''unknown'' @ '')''
      | PlannerOrigin runId \<Rightarrow> ''planner (parent runId: '' @ runId @ '')''
      | OperatorOrigin \<Rightarrow> ''operator'')"

definition TRIPLE_QUOTE :: string where
  "TRIPLE_QUOTE = [CHR 0x22, CHR 0x22, CHR 0x22]"

definition prior_block :: "planner_prior_context option \<Rightarrow> string" where
  "prior_block prior =
     (case prior of
        None \<Rightarrow> []
      | Some pc \<Rightarrow> join_with [CHR 0x0A]
          [[], [], ''This is iteration '' @ js_String (pc_iteration pc) @ '' of the goal-loop. The'', ''project goal is:'', [],
           TRIPLE_QUOTE, pc_goal pc, TRIPLE_QUOTE, [],
           ''The prior batch produced:'', pc_priorResultsSummary pc, [],
           ''The evaluator says we still need to:'', TRIPLE_QUOTE, pc_evaluatorFeedback pc, TRIPLE_QUOTE, [],
           ''Plan ONLY the next batch of tasks. Do not redo work the prior batch'',
           ''already produced '' @ EM_DASH @ '' pivot toward what the evaluator says is missing.''])"

definition buildUserPrompt :: "plan_request \<Rightarrow> string" where
  "buildUserPrompt req =
     (let existing = (if pq_existing req = [] then ''(none)''
            else join_with [CHR 0x0A] (map (\<lambda>t. ''- '' @ tk_id t @ '' ['' @ task_status_name (tk_status t) @ '' / '' @ role_name (tk_role t) @ ''] '' @ tk_title t)
              (pq_existing req)))
      in join_with [CHR 0x0A]
        [''Project: '' @ pq_projectId req, ''Origin: '' @ describeOrigin (pq_origin req), [],
         ''Existing tasks on this project (for context, do NOT redo them):'', existing, [],
         ''New request from the operator/channel:'', TRIPLE_QUOTE, pq_prompt req, TRIPLE_QUOTE,
         prior_block (pq_priorContext req), ''Emit the JSON plan now.''])"

definition planner_request :: "(string \<times> string) list \<Rightarrow> expert list \<Rightarrow> plan_request \<Rightarrow> llm_request" where
  "planner_request live experts req =
     \<lparr>lr_system = Some (js_replace EXPERT_ROSTER_SLOT (renderRosterForPlanner experts)
        (js_replace CAPABILITY_CATALOG_SLOT (renderCatalogForPlanner live) PLANNER_SYSTEM_PROMPT)),
      lr_user = buildUserPrompt req, lr_maxTokens = Some (FiniteNum 1024), lr_purpose = Some ''planner''\<rparr>"

definition plan_llm_of :: "(string \<times> string) list \<Rightarrow> expert list \<Rightarrow> llm_client \<Rightarrow> nat \<Rightarrow> plan_request \<Rightarrow> string + string" where
  "plan_llm_of live experts llm call req = map_sum id ll_text (llm call (planner_request live experts req))"

section \<open>The goal evaluator\<close>

definition GOAL_EVALUATOR_SYSTEM_PROMPT :: string where
  "GOAL_EVALUATOR_SYSTEM_PROMPT = join_with [CHR 0x0A]
     [''You are the Goal Evaluator inside Alien, an AI workforce of experts working on a long-running mission.'',
      [],
      ''Your one job: given the mission'' @ [CHR 0x27] @ ''s goal and the current task board, judge whether the goal has been ACHIEVED, is still IN PROGRESS, or is BLOCKED.'',
      [],
      ''Definitions:'',
      ''- '' @ [CHR 0x22] @ ''achieved'' @ [CHR 0x22] @ '': the goal as written is satisfied by the completed work. The mission can stop. Be conservative '' @ EM_DASH @ '' only return achieved when the evidence is concrete.'',
      ''- '' @ [CHR 0x22] @ ''in-progress'' @ [CHR 0x22] @ '': more work is needed and the workforce can keep going on its own. The planner will produce the next batch.'',
      ''- '' @ [CHR 0x22] @ ''blocked'' @ [CHR 0x22] @ '': forward progress requires something the workforce cannot do alone '' @ EM_DASH @ '' an operator decision, a credential, an external party, an ambiguity in the goal itself, or a capability that doesn'' @ [CHR 0x27] @ ''t exist yet.'',
      [],
      ''Bias toward '' @ [CHR 0x22] @ ''in-progress'' @ [CHR 0x22] @ '' when uncertain. Only escalate to '' @ [CHR 0x22] @ ''blocked'' @ [CHR 0x22] @ '' when there'' @ [CHR 0x27] @ ''s a concrete, named blocker.'',
      [],
      ''Respond with ONLY a JSON object on a single line, no markdown fence, no preface, no trailing text:'',
      [],
      ''{'' @ [CHR 0x22] @ ''status'' @ [CHR 0x22] @ '':'' @ [CHR 0x22] @ ''achieved|in-progress|blocked'' @ [CHR 0x22] @ '','' @ [CHR 0x22] @ ''reason'' @ [CHR 0x22] @ '':'' @ [CHR 0x22] @ ''one short sentence'' @ [CHR 0x22] @ '','' @ [CHR 0x22] @ ''confidence'' @ [CHR 0x22] @ '':0.0to1.0}'',
      [],
      ''Keep '' @ [CHR 0x22] @ ''reason'' @ [CHR 0x22] @ '' under 200 characters. Confidence is your honest self-assessment.'']"

definition goal_task_line :: "task \<Rightarrow> string" where
  "goal_task_line t =
     (let out = (case tk_output t of Some v \<Rightarrow> truncate_text (safeString v) 160 | None \<Rightarrow> []);
          err = (if truthy (tk_error t) then '' err='' @ [CHR 0x22] @ truncate_text (the (tk_error t)) 100 @ [CHR 0x22] else []);
          tail = (if out \<noteq> [] then '' '' @ ARROW @ '' '' @ out else [])
      in ''- ['' @ task_status_name (tk_status t) @ ''] '' @ tk_title t @ err @ tail)"

definition count_status :: "task_status \<Rightarrow> task list \<Rightarrow> string" where
  "count_status st tasks = show_nat (length (filter (\<lambda>t. tk_status t = st) tasks))"

definition goal_prompt :: "project \<Rightarrow> task list \<Rightarrow> nat \<Rightarrow> string" where
  "goal_prompt project tasks iteration =
     join_with [CHR 0x0A]
       [''Mission: '' @ pr_name project, ''Goal: '' @ pr_goal project, ''Iteration: '' @ show_nat iteration, [],
        ''Task counts '' @ EM_DASH @ '' total='' @ show_nat (length tasks) @ '' done='' @ count_status Done tasks
          @ '' in-progress='' @ count_status InProgress tasks @ '' queued='' @ count_status Queued tasks
          @ '' blocked='' @ count_status Blocked tasks @ '' failed='' @ count_status Failed tasks, [],
        (if tasks = [] then ''No tasks have been emitted yet. The workforce just started '' @ EM_DASH @ '' return in-progress.''
         else ''Tasks (oldest first):'' @ [CHR 0x0A]
           @ join_with [CHR 0x0A] (map goal_task_line (to_sorted (\<lambda>a b. tk_createdAt a < tk_createdAt b) tasks))), [],
        ''Reply with the JSON verdict only.'']"

definition goal_request :: "project \<Rightarrow> task list \<Rightarrow> nat \<Rightarrow> llm_request" where
  "goal_request project tasks iteration =
     \<lparr>lr_system = Some GOAL_EVALUATOR_SYSTEM_PROMPT, lr_user = goal_prompt project tasks iteration,
      lr_maxTokens = Some (FiniteNum 256), lr_purpose = Some ''goal-evaluator''\<rparr>"

definition goal_llm_of :: "llm_client \<Rightarrow> eval_llm" where
  "goal_llm_of llm call project tasks iteration =
     map_sum id (\<lambda>c. \<lparr>ec_text = ll_text c, ec_model = Option.bind (ll_usage c) u_model\<rparr>) (llm call (goal_request project tasks iteration))"

section \<open>The board evaluator\<close>

definition BOARD_EVALUATOR_SYSTEM_PROMPT :: string where
  "BOARD_EVALUATOR_SYSTEM_PROMPT = join_with [CHR 0x0A]
     [''You are the evaluator for an autonomous AI workforce. Your only job is to decide whether the project'' @ [CHR 0x27] @ ''s goal has been achieved based on the tasks that have completed so far, and tell the planner what to do next.'',
      [],
      ''You always reply with strict JSON in this exact shape:'',
      [],
      ''{'',
      ''  '' @ [CHR 0x22] @ ''verdict'' @ [CHR 0x22] @ '': '' @ [CHR 0x22] @ ''achieved'' @ [CHR 0x22] @ '' | '' @ [CHR 0x22] @ ''needs-more'' @ [CHR 0x22] @ '' | '' @ [CHR 0x22] @ ''stuck'' @ [CHR 0x22] @ '','',
      ''  '' @ [CHR 0x22] @ ''feedback'' @ [CHR 0x22] @ '': '' @ [CHR 0x22] @ ''<one paragraph: for achieved, the win; for needs-more, the next instruction to the planner; for stuck, the blocker>'' @ [CHR 0x22] @ '','',
      ''  '' @ [CHR 0x22] @ ''summary'' @ [CHR 0x22] @ '': '' @ [CHR 0x22] @ ''<short prose summary of what the prior batches accomplished, max 4 sentences>'' @ [CHR 0x22],
      ''}'',
      [],
      ''Pick '' @ [CHR 0x22] @ ''achieved'' @ [CHR 0x22] @ '' when the artifacts produced clearly satisfy the goal.'',
      ''Pick '' @ [CHR 0x22] @ ''needs-more'' @ [CHR 0x22] @ '' when meaningful work remains AND there'' @ [CHR 0x27] @ ''s a clear next step the planner can take. Be specific in feedback '' @ EM_DASH @ '' name the missing piece, don'' @ [CHR 0x27] @ ''t say '' @ [CHR 0x22] @ ''needs more research'' @ [CHR 0x22] @ ''.'',
      ''Pick '' @ [CHR 0x22] @ ''stuck'' @ [CHR 0x22] @ '' when the prior batches failed in a way that another planning round is unlikely to fix without operator intervention (e.g. credentials missing, ambiguous goal, repeated failures of the same kind).'',
      [],
      ''Do not output any commentary outside the JSON object.'']"

definition renderEvaluatorPrompt :: "project \<Rightarrow> json \<Rightarrow> string \<Rightarrow> string \<Rightarrow> string" where
  "renderEvaluatorPrompt project iteration completedSummary failedSummary =
     join_with [CHR 0x0A]
       [''Project: '' @ pr_name project, ''Goal: '' @ pr_goal project,
        ''Iteration: '' @ js_String iteration @ '' (0 = initial planning round; each subsequent round is one re-plan)'', [],
        ''Completed tasks and their outputs:'', completedSummary, [],
        ''Failed or blocked tasks:'', failedSummary, [],
        ''Decide: verdict + feedback + summary, in the JSON shape from the system prompt.'']"

definition board_request :: "project \<Rightarrow> json \<Rightarrow> string \<Rightarrow> string \<Rightarrow> llm_request" where
  "board_request project iteration completedSummary failedSummary =
     \<lparr>lr_system = Some BOARD_EVALUATOR_SYSTEM_PROMPT, lr_user = renderEvaluatorPrompt project iteration completedSummary failedSummary,
      lr_maxTokens = Some (FiniteNum 1024), lr_purpose = Some ''evaluator''\<rparr>"

definition board_llm_of :: "llm_client \<Rightarrow> nat \<Rightarrow> board_llm" where
  "board_llm_of llm call project iteration completedSummary failedSummary =
     map_sum id (\<lambda>c. (ll_text c, ll_usage c)) (llm call (board_request project iteration completedSummary failedSummary))"

section \<open>The planner's prompt is filled in\<close>

lemma expand_plain: "CHR ''$'' \<notin> set r \<Longrightarrow> expand_dollars before found after r = r"
  by (induction before found after r rule: expand_dollars.induct) auto

text \<open>No placeholder starts inside a text without two braces in a row.\<close>

fun no_braces :: "string \<Rightarrow> bool" where
  "no_braces (c # d # s) \<longleftrightarrow> \<not> (c = CHR ''{'' \<and> d = CHR ''{'') \<and> no_braces (d # s)"
| "no_braces [c] \<longleftrightarrow> c \<noteq> CHR ''{''"
| "no_braces [] \<longleftrightarrow> True"

lemma split_at_skips: "no_braces x \<Longrightarrow> split_at (CHR ''{'' # CHR ''{'' # ps) acc (x @ y) = split_at (CHR ''{'' # CHR ''{'' # ps) (rev x @ acc) y"
  by (induction x arbitrary: acc rule: no_braces.induct) auto

lemma no_braces_append: "no_braces x \<Longrightarrow> no_braces y \<Longrightarrow> no_braces (x @ y)"
proof (induction x rule: no_braces.induct)
  case (2 c)
  then show ?case by (cases y) auto
qed auto

lemma no_braces_join: "list_all no_braces ls \<Longrightarrow> no_braces (join_with [CHR 0x0A] ls)"
proof (induction ls rule: induct_list012)
  case (3 x y zs)
  then have "no_braces (join_with [CHR 0x0A] (y # zs))" by simp
  then have "no_braces ([CHR 0x0A] @ join_with [CHR 0x0A] (y # zs))" by (intro no_braces_append) simp_all
  moreover have "no_braces x" using 3 by simp
  ultimately have "no_braces (x @ [CHR 0x0A] @ join_with [CHR 0x0A] (y # zs))" by (simp only: no_braces_append)
  then show ?case by simp
qed simp_all

lemma prompt_no_braces: "no_braces PROMPT_HEAD" "no_braces PROMPT_MIDDLE"
  unfolding PROMPT_HEAD_def PROMPT_MIDDLE_def by (rule no_braces_join, code_simp)+

lemma slots:
  "split_at EXPERT_ROSTER_SLOT [] (PROMPT_HEAD @ EXPERT_ROSTER_SLOT @ z) = Some (PROMPT_HEAD, z)"
  "split_at CAPABILITY_CATALOG_SLOT [] PLANNER_SYSTEM_PROMPT = Some (PROMPT_HEAD @ EXPERT_ROSTER_SLOT @ PROMPT_MIDDLE, PROMPT_TAIL)"
proof -
  obtain ps where ps: "EXPERT_ROSTER_SLOT = CHR ''{'' # CHR ''{'' # ps" by (simp add: EXPERT_ROSTER_SLOT_def)
  obtain qs where qs: "CAPABILITY_CATALOG_SLOT = CHR ''{'' # CHR ''{'' # qs" by (simp add: CAPABILITY_CATALOG_SLOT_def)
  have hit: "split_at p acc (p @ r) = Some (rev acc, r)" if "p \<noteq> []" for p acc r
  proof -
    have "strip_prefix p (p @ r) = Some r" by (induction p) simp_all
    then show ?thesis using that by (cases p) simp_all
  qed
  have skip_roster: "no_braces x \<Longrightarrow> split_at EXPERT_ROSTER_SLOT acc (x @ y) = split_at EXPERT_ROSTER_SLOT (rev x @ acc) y" for x acc y
    unfolding ps by (rule split_at_skips)
  have skip_catalog: "no_braces x \<Longrightarrow> split_at CAPABILITY_CATALOG_SLOT acc (x @ y) = split_at CAPABILITY_CATALOG_SLOT (rev x @ acc) y" for x acc y
    unfolding qs by (rule split_at_skips)
  have nonempty: "EXPERT_ROSTER_SLOT \<noteq> []" "CAPABILITY_CATALOG_SLOT \<noteq> []" by (simp_all add: EXPERT_ROSTER_SLOT_def CAPABILITY_CATALOG_SLOT_def)
  show "split_at EXPERT_ROSTER_SLOT [] (PROMPT_HEAD @ EXPERT_ROSTER_SLOT @ z) = Some (PROMPT_HEAD, z)"
    unfolding skip_roster [OF prompt_no_braces(1)] hit [OF nonempty(1)] by simp
  have other: "split_at CAPABILITY_CATALOG_SLOT acc (EXPERT_ROSTER_SLOT @ y) = split_at CAPABILITY_CATALOG_SLOT (rev EXPERT_ROSTER_SLOT @ acc) y" for acc y
    by (simp add: CAPABILITY_CATALOG_SLOT_def EXPERT_ROSTER_SLOT_def)
  show "split_at CAPABILITY_CATALOG_SLOT [] PLANNER_SYSTEM_PROMPT = Some (PROMPT_HEAD @ EXPERT_ROSTER_SLOT @ PROMPT_MIDDLE, PROMPT_TAIL)"
    unfolding PLANNER_SYSTEM_PROMPT_def skip_catalog [OF prompt_no_braces(1)] other skip_catalog [OF prompt_no_braces(2)] hit [OF nonempty(2)]
    by simp
qed

text \<open>The planner is shown the whole roster and the whole catalog, each in its place, as long as neither
  contains a dollar sign.\<close>

lemma planner_prompt_filled:
  assumes "CHR ''$'' \<notin> set (renderRosterForPlanner experts)" "CHR ''$'' \<notin> set (renderCatalogForPlanner live)"
  shows "lr_system (planner_request live experts req) =
    Some (PROMPT_HEAD @ renderRosterForPlanner experts @ PROMPT_MIDDLE @ renderCatalogForPlanner live @ PROMPT_TAIL)"
  using assms by (simp add: planner_request_def js_replace_def slots expand_plain)

text \<open>A dollar sign is not inert: an expert whose title ends in one of the patterns pulls the prompt itself
  into its line.\<close>

lemma dollar_in_roster: "js_replace ''{{X}}'' ''ceo: Makes $&'' ''Roster: {{X}}.'' = ''Roster: ceo: Makes {{X}}.''"
  by code_simp

end
