(* ===== verification/Access_Policy.thy ===== *)
theory Access_Policy
  imports Effects Goal_Evaluator
begin

text \<open>
  Who may talk to the agent: the access decision for direct messages and groups of
  \<^verbatim>\<open>src/security/dm-policy-shared.ts\<close>, with the lists of \<^verbatim>\<open>src/channels/allow-from.ts\<close>, the command gate
  of \<^verbatim>\<open>src/channels/command-gating.ts\<close>, the group policies of \<^verbatim>\<open>src/plugin-sdk/group-access.ts\<close> and
  \<^verbatim>\<open>src/config/runtime-group-policy.ts\<close>, and the text helpers of \<^verbatim>\<open>src/shared/string-coerce.ts\<close> and
  \<^verbatim>\<open>string-normalization.ts\<close> they use. An entry of a list is a text or a number, as a JSON value. How a
  channel matches a sender against a list is a parameter, as in the code. A field that is absent or
  null is \<open>None\<close>; the code never tells the two apart.
\<close>

section \<open>Text helpers\<close>

definition js_lower_char :: "char \<Rightarrow> char" where
  "js_lower_char c =
     (let n = of_char c :: nat in if 65 \<le> n \<and> n \<le> 90 \<or> 192 \<le> n \<and> n \<le> 222 \<and> n \<noteq> 215 then char_of (n + 32) else c)"

definition toLowerCase :: "string \<Rightarrow> string" where
  "toLowerCase s = map js_lower_char s"

definition normalizeNullableString :: "json option \<Rightarrow> string option" where
  "normalizeNullableString v =
     (case v of Some (JStr s) \<Rightarrow> (let trimmed = js_trim s in if trimmed \<noteq> [] then Some trimmed else None) | _ \<Rightarrow> None)"

definition normalizeOptionalString :: "json option \<Rightarrow> string option" where
  "normalizeOptionalString v = normalizeNullableString v"

definition normalizeStringifiedOptionalString :: "json option \<Rightarrow> string option" where
  "normalizeStringifiedOptionalString v =
     (case v of
        Some (JStr s) \<Rightarrow> normalizeOptionalString v
      | Some (JNum n) \<Rightarrow> normalizeOptionalString (Some (JStr (js_String (JNum n))))
      | Some (JDec a b c d) \<Rightarrow> normalizeOptionalString (Some (JStr (js_String (JDec a b c d))))
      | Some (JBool b) \<Rightarrow> normalizeOptionalString (Some (JStr (js_String (JBool b))))
      | _ \<Rightarrow> None)"

definition normalizeOptionalLowercaseString :: "json option \<Rightarrow> string option" where
  "normalizeOptionalLowercaseString v = map_option toLowerCase (normalizeOptionalString v)"

definition normalizeLowercaseStringOrEmpty :: "json option \<Rightarrow> string" where
  "normalizeLowercaseStringOrEmpty v = nullish (normalizeOptionalLowercaseString v) []"

definition normalizeStringEntries :: "json list option \<Rightarrow> string list" where
  "normalizeStringEntries entries =
     filter (\<lambda>e. e \<noteq> []) (map (\<lambda>entry. nullish (normalizeOptionalString (Some (JStr (js_String entry)))) []) (nullish entries []))"

section \<open>The lists\<close>

definition mergeDmAllowFromSources :: "json list option \<Rightarrow> json list option \<Rightarrow> string option \<Rightarrow> string list" where
  "mergeDmAllowFromSources allowFrom storeAllowFrom dmPolicy =
     (let storeEntries = (if dmPolicy = Some ''allowlist'' \<or> dmPolicy = Some ''open'' then [] else nullish storeAllowFrom [])
      in normalizeStringEntries (Some (nullish allowFrom [] @ storeEntries)))"

definition resolveGroupAllowFromSources :: "json list option \<Rightarrow> json list option \<Rightarrow> bool option \<Rightarrow> string list" where
  "resolveGroupAllowFromSources allowFrom groupAllowFrom fallbackToAllowFrom =
     (let scoped = (case groupAllowFrom of
          Some (g # gs) \<Rightarrow> g # gs
        | _ \<Rightarrow> if fallbackToAllowFrom = Some False then [] else nullish allowFrom [])
      in normalizeStringEntries (Some scoped))"

record allow_list =
  al_entries :: "string list"
  al_hasWildcard :: bool
  al_hasEntries :: bool

definition isSenderIdAllowed :: "allow_list \<Rightarrow> string option \<Rightarrow> bool \<Rightarrow> bool" where
  "isSenderIdAllowed allow senderId allowWhenEmpty =
     (if \<not> al_hasEntries allow then allowWhenEmpty
      else if al_hasWildcard allow then True
      else if \<not> truthy senderId then False
      else the senderId \<in> set (al_entries allow))"

definition resolveEffectiveAllowFromLists ::
  "json list option \<Rightarrow> json list option \<Rightarrow> json list option \<Rightarrow> string option \<Rightarrow> bool option \<Rightarrow> string list \<times> string list" where
  "resolveEffectiveAllowFromLists allowFrom groupAllowFrom storeAllowFrom dmPolicy fallback =
     (normalizeStringEntries (Some (map JStr (mergeDmAllowFromSources allowFrom storeAllowFrom dmPolicy))),
      normalizeStringEntries (Some (map JStr (resolveGroupAllowFromSources allowFrom groupAllowFrom fallback))))"

definition resolvePinnedMainDmOwnerFromAllowlist ::
  "string option \<Rightarrow> json list option \<Rightarrow> (string \<Rightarrow> string option) \<Rightarrow> string option" where
  "resolvePinnedMainDmOwnerFromAllowlist dmScope allowFrom normalizeEntry =
     (if nullish dmScope ''main'' \<noteq> ''main'' then None
      else let rawAllowFrom = nullish allowFrom []
           in if list_ex (\<lambda>entry. js_trim (js_String entry) = ''*'') rawAllowFrom then None
              else case remdups (List.map_filter (\<lambda>entry. case normalizeEntry (js_String entry) of
                       Some e \<Rightarrow> if e \<noteq> [] then Some e else None | None \<Rightarrow> None) rawAllowFrom) of
                     [owner] \<Rightarrow> Some owner
                   | _ \<Rightarrow> None)"

section \<open>Groups\<close>

datatype group_policy = GroupOpen | GroupDisabled | GroupAllowlist

datatype group_access_reason =
  GroupAllowed | GroupOff | MissingMatchInput | EmptyAllowlist | NotAllowlisted | SenderNotAllowlisted | RouteNotAllowlisted | RouteDisabled

record group_access =
  ga_allowed :: bool
  ga_groupPolicy :: group_policy
  ga_reason :: group_access_reason

definition resolveSenderScopedGroupPolicy :: "group_policy \<Rightarrow> string list \<Rightarrow> group_policy" where
  "resolveSenderScopedGroupPolicy groupPolicy groupAllowFrom =
     (if groupPolicy = GroupDisabled then GroupDisabled
      else if length groupAllowFrom > 0 then GroupAllowlist else GroupOpen)"

definition evaluateGroupRouteAccessForPolicy :: "group_policy \<Rightarrow> bool \<Rightarrow> bool \<Rightarrow> bool option \<Rightarrow> group_access" where
  "evaluateGroupRouteAccessForPolicy groupPolicy routeAllowlistConfigured routeMatched routeEnabled =
     (let access = (\<lambda>allowed reason. \<lparr>ga_allowed = allowed, ga_groupPolicy = groupPolicy, ga_reason = reason\<rparr>)
      in if groupPolicy = GroupDisabled then access False GroupOff
         else if routeMatched \<and> routeEnabled = Some False then access False RouteDisabled
         else if groupPolicy = GroupAllowlist \<and> \<not> routeAllowlistConfigured then access False EmptyAllowlist
         else if groupPolicy = GroupAllowlist \<and> \<not> routeMatched then access False RouteNotAllowlisted
         else access True GroupAllowed)"

definition evaluateMatchedGroupAccessForPolicy ::
  "group_policy \<Rightarrow> bool \<Rightarrow> bool \<Rightarrow> bool option \<Rightarrow> bool option \<Rightarrow> group_access" where
  "evaluateMatchedGroupAccessForPolicy groupPolicy allowlistConfigured allowlistMatched requireMatchInput hasMatchInput =
     (let access = (\<lambda>allowed reason. \<lparr>ga_allowed = allowed, ga_groupPolicy = groupPolicy, ga_reason = reason\<rparr>)
      in if groupPolicy = GroupDisabled then access False GroupOff
         else if groupPolicy = GroupAllowlist \<and> requireMatchInput = Some True \<and> hasMatchInput \<noteq> Some True then access False MissingMatchInput
         else if groupPolicy = GroupAllowlist \<and> \<not> allowlistConfigured then access False EmptyAllowlist
         else if groupPolicy = GroupAllowlist \<and> \<not> allowlistMatched then access False NotAllowlisted
         else access True GroupAllowed)"

definition evaluateSenderGroupAccessForPolicy ::
  "group_policy \<Rightarrow> string list \<Rightarrow> string \<Rightarrow> (string \<Rightarrow> string list \<Rightarrow> bool) \<Rightarrow> group_access" where
  "evaluateSenderGroupAccessForPolicy groupPolicy groupAllowFrom senderId isSenderAllowed =
     (let access = (\<lambda>allowed reason. \<lparr>ga_allowed = allowed, ga_groupPolicy = groupPolicy, ga_reason = reason\<rparr>)
      in if groupPolicy = GroupDisabled then access False GroupOff
         else if groupPolicy = GroupAllowlist \<and> length groupAllowFrom = 0 then access False EmptyAllowlist
         else if groupPolicy = GroupAllowlist \<and> \<not> isSenderAllowed senderId groupAllowFrom then access False SenderNotAllowlisted
         else access True GroupAllowed)"

text \<open>The policy in force, and whether it is the fallback of a provider without configuration.\<close>

definition resolveRuntimeGroupPolicy ::
  "bool \<Rightarrow> group_policy option \<Rightarrow> group_policy option \<Rightarrow> group_policy option \<Rightarrow> group_policy option \<Rightarrow> group_policy \<times> bool" where
  "resolveRuntimeGroupPolicy providerConfigPresent groupPolicy defaultGroupPolicy configuredFallback missingFallback =
     (let configuredFallbackPolicy = nullish configuredFallback GroupOpen;
          missingProviderFallbackPolicy = nullish missingFallback GroupAllowlist
      in (if providerConfigPresent then nullish groupPolicy (nullish defaultGroupPolicy configuredFallbackPolicy)
          else nullish groupPolicy missingProviderFallbackPolicy,
          \<not> providerConfigPresent \<and> groupPolicy = None))"

definition resolveOpenProviderRuntimeGroupPolicy ::
  "bool \<Rightarrow> group_policy option \<Rightarrow> group_policy option \<Rightarrow> group_policy \<times> bool" where
  "resolveOpenProviderRuntimeGroupPolicy providerConfigPresent groupPolicy defaultGroupPolicy =
     resolveRuntimeGroupPolicy providerConfigPresent groupPolicy defaultGroupPolicy (Some GroupOpen) (Some GroupAllowlist)"

definition resolveAllowlistProviderRuntimeGroupPolicy ::
  "bool \<Rightarrow> group_policy option \<Rightarrow> group_policy option \<Rightarrow> group_policy \<times> bool" where
  "resolveAllowlistProviderRuntimeGroupPolicy providerConfigPresent groupPolicy defaultGroupPolicy =
     resolveRuntimeGroupPolicy providerConfigPresent groupPolicy defaultGroupPolicy (Some GroupAllowlist) (Some GroupAllowlist)"

definition evaluateSenderGroupAccess ::
  "bool \<Rightarrow> group_policy option \<Rightarrow> group_policy option \<Rightarrow> string list \<Rightarrow> string \<Rightarrow> (string \<Rightarrow> string list \<Rightarrow> bool) \<Rightarrow> group_access \<times> bool" where
  "evaluateSenderGroupAccess providerConfigPresent configuredGroupPolicy defaultGroupPolicy groupAllowFrom senderId isSenderAllowed =
     (let (groupPolicy, fallbackApplied) =
            resolveOpenProviderRuntimeGroupPolicy providerConfigPresent configuredGroupPolicy defaultGroupPolicy
      in (evaluateSenderGroupAccessForPolicy groupPolicy groupAllowFrom senderId isSenderAllowed, fallbackApplied))"

section \<open>The decision\<close>

datatype access_decision = AllowAccess | BlockAccess | RequirePairing

datatype access_reason =
  GroupPolicyAllowed | GroupPolicyDisabled | GroupPolicyEmptyAllowlist | GroupPolicyNotAllowlisted
| DmPolicyOpen | DmPolicyDisabled | DmPolicyAllowlisted | DmPolicyPairingRequired | DmPolicyNotAllowlisted

record access_result =
  ar_decision :: access_decision
  ar_reasonCode :: access_reason
  ar_reason :: string

definition resolveOpenDmAllowlistAccess :: "json list \<Rightarrow> (string list \<Rightarrow> bool) \<Rightarrow> access_result" where
  "resolveOpenDmAllowlistAccess allowFrom isSenderAllowed =
     (let effectiveAllowFrom = normalizeStringEntries (Some allowFrom)
      in if ''*'' \<in> set effectiveAllowFrom
         then \<lparr>ar_decision = AllowAccess, ar_reasonCode = DmPolicyOpen, ar_reason = ''dmPolicy=open''\<rparr>
         else if isSenderAllowed effectiveAllowFrom
         then \<lparr>ar_decision = AllowAccess, ar_reasonCode = DmPolicyAllowlisted, ar_reason = ''dmPolicy=open (allowlisted)''\<rparr>
         else \<lparr>ar_decision = BlockAccess, ar_reasonCode = DmPolicyNotAllowlisted, ar_reason = ''dmPolicy=open (not allowlisted)''\<rparr>)"

definition group_policy_of :: "string option \<Rightarrow> group_policy" where
  "group_policy_of groupPolicy =
     (if groupPolicy = Some ''open'' then GroupOpen else if groupPolicy = Some ''disabled'' then GroupDisabled else GroupAllowlist)"

definition group_policy_name :: "group_policy \<Rightarrow> string" where
  "group_policy_name g = (case g of GroupOpen \<Rightarrow> ''open'' | GroupDisabled \<Rightarrow> ''disabled'' | GroupAllowlist \<Rightarrow> ''allowlist'')"

definition resolveDmGroupAccessDecision ::
  "bool \<Rightarrow> string option \<Rightarrow> string option \<Rightarrow> json list \<Rightarrow> json list \<Rightarrow> (string list \<Rightarrow> bool) \<Rightarrow> access_result" where
  "resolveDmGroupAccessDecision isGroup dmPolicyOpt groupPolicyOpt allowFrom groupAllowFrom isSenderAllowed =
     (let dmPolicy = nullish dmPolicyOpt ''pairing''; groupPolicy = group_policy_of groupPolicyOpt;
          effectiveAllowFrom = normalizeStringEntries (Some allowFrom);
          effectiveGroupAllowFrom = normalizeStringEntries (Some groupAllowFrom)
      in if isGroup then
           let groupAccess = evaluateMatchedGroupAccessForPolicy groupPolicy (length effectiveGroupAllowFrom > 0)
                 (isSenderAllowed effectiveGroupAllowFrom) None None
           in if \<not> ga_allowed groupAccess \<and> ga_reason groupAccess = GroupOff
              then \<lparr>ar_decision = BlockAccess, ar_reasonCode = GroupPolicyDisabled, ar_reason = ''groupPolicy=disabled''\<rparr>
              else if \<not> ga_allowed groupAccess \<and> ga_reason groupAccess = EmptyAllowlist
              then \<lparr>ar_decision = BlockAccess, ar_reasonCode = GroupPolicyEmptyAllowlist, ar_reason = ''groupPolicy=allowlist (empty allowlist)''\<rparr>
              else if \<not> ga_allowed groupAccess \<and> ga_reason groupAccess = NotAllowlisted
              then \<lparr>ar_decision = BlockAccess, ar_reasonCode = GroupPolicyNotAllowlisted, ar_reason = ''groupPolicy=allowlist (not allowlisted)''\<rparr>
              else \<lparr>ar_decision = AllowAccess, ar_reasonCode = GroupPolicyAllowed, ar_reason = ''groupPolicy='' @ group_policy_name groupPolicy\<rparr>
         else if dmPolicy = ''disabled''
         then \<lparr>ar_decision = BlockAccess, ar_reasonCode = DmPolicyDisabled, ar_reason = ''dmPolicy=disabled''\<rparr>
         else if dmPolicy = ''open'' then resolveOpenDmAllowlistAccess (map JStr effectiveAllowFrom) isSenderAllowed
         else if isSenderAllowed effectiveAllowFrom
         then \<lparr>ar_decision = AllowAccess, ar_reasonCode = DmPolicyAllowlisted, ar_reason = ''dmPolicy='' @ dmPolicy @ '' (allowlisted)''\<rparr>
         else if dmPolicy = ''pairing''
         then \<lparr>ar_decision = RequirePairing, ar_reasonCode = DmPolicyPairingRequired, ar_reason = ''dmPolicy=pairing (not allowlisted)''\<rparr>
         else \<lparr>ar_decision = BlockAccess, ar_reasonCode = DmPolicyNotAllowlisted, ar_reason = ''dmPolicy='' @ dmPolicy @ '' (not allowlisted)''\<rparr>)"

record access_params =
  ap_isGroup :: bool
  ap_dmPolicy :: "string option"
  ap_groupPolicy :: "string option"
  ap_allowFrom :: "json list option"
  ap_groupAllowFrom :: "json list option"
  ap_storeAllowFrom :: "json list option"
  ap_fallback :: "bool option"
  ap_isSenderAllowed :: "string list \<Rightarrow> bool"

record access_with_lists = access_result +
  ar_effectiveAllowFrom :: "string list"
  ar_effectiveGroupAllowFrom :: "string list"

definition resolveDmGroupAccessWithLists :: "access_params \<Rightarrow> access_with_lists" where
  "resolveDmGroupAccessWithLists p =
     (let (effectiveAllowFrom, effectiveGroupAllowFrom) =
            resolveEffectiveAllowFromLists (ap_allowFrom p) (ap_groupAllowFrom p) (ap_storeAllowFrom p) (ap_dmPolicy p) (ap_fallback p);
          access = resolveDmGroupAccessDecision (ap_isGroup p) (ap_dmPolicy p) (ap_groupPolicy p)
            (map JStr effectiveAllowFrom) (map JStr effectiveGroupAllowFrom) (ap_isSenderAllowed p)
      in access_result.extend access (access_with_lists.fields effectiveAllowFrom effectiveGroupAllowFrom))"

section \<open>Control commands\<close>

record command_authorizer =
  ca_configured :: bool
  ca_allowed :: bool

datatype gating_mode = ModeAllow | ModeDeny | ModeConfigured

definition resolveCommandAuthorizedFromAuthorizers :: "bool \<Rightarrow> command_authorizer list \<Rightarrow> gating_mode option \<Rightarrow> bool" where
  "resolveCommandAuthorizedFromAuthorizers useAccessGroups authorizers modeWhenAccessGroupsOff =
     (let mode = nullish modeWhenAccessGroupsOff ModeAllow; someone = list_ex (\<lambda>entry. ca_configured entry \<and> ca_allowed entry) authorizers
      in if \<not> useAccessGroups then
           (if mode = ModeAllow then True
            else if mode = ModeDeny then False
            else if \<not> list_ex ca_configured authorizers then True
            else someone)
         else someone)"

record command_gate =
  cg_commandAuthorized :: bool
  cg_shouldBlock :: bool

definition resolveControlCommandGate ::
  "bool \<Rightarrow> command_authorizer list \<Rightarrow> bool \<Rightarrow> bool \<Rightarrow> gating_mode option \<Rightarrow> command_gate" where
  "resolveControlCommandGate useAccessGroups authorizers allowTextCommands hasControlCommand mode =
     (let commandAuthorized = resolveCommandAuthorizedFromAuthorizers useAccessGroups authorizers mode
      in \<lparr>cg_commandAuthorized = commandAuthorized, cg_shouldBlock = (allowTextCommands \<and> hasControlCommand \<and> \<not> commandAuthorized)\<rparr>)"

definition resolveDualTextControlCommandGate ::
  "bool \<Rightarrow> command_authorizer \<Rightarrow> command_authorizer \<Rightarrow> bool \<Rightarrow> gating_mode option \<Rightarrow> command_gate" where
  "resolveDualTextControlCommandGate useAccessGroups primary secondary hasControlCommand mode =
     resolveControlCommandGate useAccessGroups [primary, secondary] True hasControlCommand mode"

record command_params =
  cm_useAccessGroups :: bool
  cm_allowTextCommands :: bool
  cm_hasControlCommand :: bool

record access_with_gate = access_with_lists +
  ar_commandAuthorized :: bool
  ar_shouldBlockControlCommand :: bool

definition resolveDmGroupAccessWithCommandGate :: "access_params \<Rightarrow> command_params option \<Rightarrow> access_with_gate" where
  "resolveDmGroupAccessWithCommandGate p command =
     (let access = resolveDmGroupAccessWithLists p;
          configuredAllowFrom = normalizeStringEntries (Some (nullish (ap_allowFrom p) []));
          configuredGroupAllowFrom = normalizeStringEntries (Some (map JStr
            (resolveGroupAllowFromSources (Some (map JStr configuredAllowFrom))
              (Some (map JStr (normalizeStringEntries (Some (nullish (ap_groupAllowFrom p) []))))) (ap_fallback p))));
          commandDmAllowFrom = (if ap_isGroup p then configuredAllowFrom else ar_effectiveAllowFrom access);
          commandGroupAllowFrom = (if ap_isGroup p then configuredGroupAllowFrom else ar_effectiveGroupAllowFrom access);
          commandGate = (case command of
              Some c \<Rightarrow> resolveControlCommandGate (cm_useAccessGroups c)
                [\<lparr>ca_configured = (length commandDmAllowFrom > 0), ca_allowed = ap_isSenderAllowed p commandDmAllowFrom\<rparr>,
                 \<lparr>ca_configured = (length commandGroupAllowFrom > 0), ca_allowed = ap_isSenderAllowed p commandGroupAllowFrom\<rparr>]
                (cm_allowTextCommands c) (cm_hasControlCommand c) None
            | None \<Rightarrow> \<lparr>cg_commandAuthorized = False, cg_shouldBlock = False\<rparr>)
      in access_with_lists.extend access
           (access_with_gate.fields (cg_commandAuthorized commandGate) (ap_isGroup p \<and> cg_shouldBlock commandGate)))"

section \<open>Reading the store for a decision\<close>

definition readStoreAllowFromForDmPolicy ::
  "string option \<Rightarrow> bool option \<Rightarrow> ('s, string list) prog \<Rightarrow> ('s, string list) prog" where
  "readStoreAllowFromForDmPolicy dmPolicy shouldRead readStore =
     (if shouldRead = Some False \<or> dmPolicy = Some ''allowlist'' \<or> dmPolicy = Some ''open'' then return_m []
      else catch_m readStore (\<lambda>_. return_m []))"

record dm_allow_state =
  ds_configAllowFrom :: "string list"
  ds_hasWildcard :: bool
  ds_allowCount :: nat
  ds_isMultiUserDm :: bool

definition resolveDmAllowState ::
  "json list option \<Rightarrow> string option \<Rightarrow> (string \<Rightarrow> string) option \<Rightarrow> ('s, string list) prog \<Rightarrow> ('s, dm_allow_state) prog" where
  "resolveDmAllowState allowFrom dmPolicy normalizeEntryOpt readStore =
     (let configAllowFrom = normalizeStringEntries allowFrom; hasWildcard = ''*'' \<in> set configAllowFrom;
          normalizeEntry = nullish normalizeEntryOpt id;
          clean = (\<lambda>entries. filter (\<lambda>e. e \<noteq> []) (map (\<lambda>e. js_trim (normalizeEntry e)) entries))
      in bind_m (readStoreAllowFromForDmPolicy dmPolicy None readStore) (\<lambda>storeAllowFrom.
           let allowCount = length (remdups (clean (filter (\<lambda>e. e \<noteq> ''*'') configAllowFrom) @ clean storeAllowFrom))
           in return_m \<lparr>ds_configAllowFrom = configAllowFrom, ds_hasWildcard = hasWildcard, ds_allowCount = allowCount,
                ds_isMultiUserDm = (hasWildcard \<or> allowCount > 1)\<rparr>))"

section \<open>Facts about the lists\<close>

lemma normalize_trim: "nullish (normalizeOptionalString (Some (JStr s))) [] = js_trim s"
  by (simp add: normalizeOptionalString_def normalizeNullableString_def Let_def)

lemma normalizeStringEntries_alt:
  "normalizeStringEntries entries = filter (\<lambda>e. e \<noteq> []) (map (\<lambda>e. js_trim (js_String e)) (nullish entries []))"
  unfolding normalizeStringEntries_def normalize_trim ..

lemma normalize_append: "normalizeStringEntries (Some (xs @ ys)) = normalizeStringEntries (Some xs) @ normalizeStringEntries (Some ys)"
  by (simp add: normalizeStringEntries_alt)

lemma normalize_Nil [simp]: "normalizeStringEntries (Some []) = []" "normalizeStringEntries None = []"
  by (simp_all add: normalizeStringEntries_alt)

text \<open>Normalising twice is normalising once, which is why the code may normalise at every layer.\<close>

lemma normalize_idem [simp]: "normalizeStringEntries (Some (map JStr (normalizeStringEntries xs))) = normalizeStringEntries xs"
proof -
  have "filter (\<lambda>e. e \<noteq> []) (map js_trim (filter (\<lambda>e. e \<noteq> []) (map (\<lambda>e. js_trim (f e)) ys))) = filter (\<lambda>e. e \<noteq> []) (map (\<lambda>e. js_trim (f e)) ys)"
    for f and ys :: "json list"
    by (induction ys) (simp_all add: js_trim_idem)
  then show ?thesis by (simp add: normalizeStringEntries_alt comp_def)
qed

lemma merge_normal [simp]:
  "normalizeStringEntries (Some (map JStr (mergeDmAllowFromSources a s p))) = mergeDmAllowFromSources a s p"
  "normalizeStringEntries (Some (map JStr (resolveGroupAllowFromSources a g f))) = resolveGroupAllowFromSources a g f"
  by (simp_all add: mergeDmAllowFromSources_def resolveGroupAllowFromSources_def Let_def)

lemma effective_lists:
  "resolveEffectiveAllowFromLists a g s p f = (mergeDmAllowFromSources a s p, resolveGroupAllowFromSources a g f)"
  by (simp add: resolveEffectiveAllowFromLists_def)

section \<open>The decision as a policy\<close>

text \<open>What the policies promise, without the layers of lists: the entries the operator configured, the
  entries of approved pairings, and the sender.\<close>

definition configured :: "access_params \<Rightarrow> string list" where
  "configured p = normalizeStringEntries (ap_allowFrom p)"

definition paired :: "access_params \<Rightarrow> string list" where
  "paired p = normalizeStringEntries (ap_storeAllowFrom p)"

definition group_entries :: "access_params \<Rightarrow> string list" where
  "group_entries p =
     (if nullish (ap_groupAllowFrom p) [] \<noteq> [] then normalizeStringEntries (ap_groupAllowFrom p)
      else if ap_fallback p = Some False then [] else configured p)"

definition access_spec :: "access_params \<Rightarrow> access_decision" where
  "access_spec p =
     (if ap_isGroup p then
        (if ap_groupPolicy p = Some ''disabled'' then BlockAccess
         else if ap_groupPolicy p = Some ''open'' then AllowAccess
         else if group_entries p \<noteq> [] \<and> ap_isSenderAllowed p (group_entries p) then AllowAccess else BlockAccess)
      else case ap_dmPolicy p of
          None \<Rightarrow> if ap_isSenderAllowed p (configured p @ paired p) then AllowAccess else RequirePairing
        | Some policy \<Rightarrow>
            if policy = ''disabled'' then BlockAccess
            else if policy = ''open'' then
              (if ''*'' \<in> set (configured p) \<or> ap_isSenderAllowed p (configured p) then AllowAccess else BlockAccess)
            else if policy = ''allowlist'' then (if ap_isSenderAllowed p (configured p) then AllowAccess else BlockAccess)
            else if ap_isSenderAllowed p (configured p @ paired p) then AllowAccess
            else if policy = ''pairing'' then RequirePairing else BlockAccess)"

lemma nullish_normal: "normalizeStringEntries (Some (nullish xs [])) = normalizeStringEntries xs"
  by (cases xs) simp_all

lemma merge_spec:
  "mergeDmAllowFromSources (ap_allowFrom p) (ap_storeAllowFrom p) (ap_dmPolicy p) =
     configured p @ (if ap_dmPolicy p = Some ''allowlist'' \<or> ap_dmPolicy p = Some ''open'' then [] else paired p)"
  by (simp add: mergeDmAllowFromSources_def Let_def normalize_append nullish_normal configured_def paired_def)

lemma merge_policy:
  "ap_dmPolicy p = policy \<Longrightarrow> mergeDmAllowFromSources (ap_allowFrom p) (ap_storeAllowFrom p) policy =
     configured p @ (if policy = Some ''allowlist'' \<or> policy = Some ''open'' then [] else paired p)"
  using merge_spec [of p] by simp

lemma group_spec: "resolveGroupAllowFromSources (ap_allowFrom p) (ap_groupAllowFrom p) (ap_fallback p) = group_entries p"
  by (auto simp: resolveGroupAllowFromSources_def group_entries_def configured_def nullish_normal split: option.split list.split)

lemma with_lists_simps:
  "ar_decision (resolveDmGroupAccessWithLists p) =
     ar_decision (resolveDmGroupAccessDecision (ap_isGroup p) (ap_dmPolicy p) (ap_groupPolicy p)
       (map JStr (mergeDmAllowFromSources (ap_allowFrom p) (ap_storeAllowFrom p) (ap_dmPolicy p)))
       (map JStr (group_entries p)) (ap_isSenderAllowed p))"
  "ar_effectiveAllowFrom (resolveDmGroupAccessWithLists p) = mergeDmAllowFromSources (ap_allowFrom p) (ap_storeAllowFrom p) (ap_dmPolicy p)"
  "ar_effectiveGroupAllowFrom (resolveDmGroupAccessWithLists p) = group_entries p"
  by (simp_all add: resolveDmGroupAccessWithLists_def effective_lists group_spec access_result.defs access_with_lists.defs Let_def)

lemma group_entries_normal [simp]: "normalizeStringEntries (Some (map JStr (group_entries p))) = group_entries p"
  using merge_normal(2) [of "ap_allowFrom p" "ap_groupAllowFrom p" "ap_fallback p"] by (simp only: group_spec)

lemma spec_lists_normal [simp]:
  "normalizeStringEntries (Some (map JStr (configured p))) = configured p" "normalizeStringEntries (Some (map JStr (paired p))) = paired p"
  by (simp_all add: configured_def paired_def)

lemma group_decision:
  assumes "ap_isGroup p"
  shows "ar_decision (resolveDmGroupAccessWithLists p) = access_spec p"
proof -
  note defs = with_lists_simps access_spec_def resolveDmGroupAccessDecision_def evaluateMatchedGroupAccessForPolicy_def group_policy_of_def Let_def
  consider "ap_groupPolicy p = Some ''disabled''" | "ap_groupPolicy p = Some ''open''"
    | (other) "ap_groupPolicy p \<notin> {Some ''disabled'', Some ''open''}" by blast
  then show ?thesis
  proof cases
    case other
    with assms show ?thesis by (simp add: defs)
  qed (simp_all add: assms defs)
qed

lemma dm_decision:
  assumes "\<not> ap_isGroup p"
  shows "ar_decision (resolveDmGroupAccessWithLists p) = access_spec p"
proof (cases "ap_dmPolicy p")
  case None
  with assms show ?thesis
    by (simp add: with_lists_simps access_spec_def resolveDmGroupAccessDecision_def merge_policy normalize_append Let_def)
next
  case (Some policy)
  consider "policy = ''disabled''" | "policy = ''open''" | "policy = ''allowlist''" | "policy = ''pairing''"
    | (other) "policy \<notin> {''disabled'', ''open'', ''allowlist'', ''pairing''}" by blast
  then show ?thesis
  proof cases
    case other
    with assms Some show ?thesis
      by (simp add: with_lists_simps access_spec_def resolveDmGroupAccessDecision_def merge_policy normalize_append Let_def)
  qed (simp_all add: assms Some with_lists_simps access_spec_def resolveDmGroupAccessDecision_def resolveOpenDmAllowlistAccess_def
      merge_policy normalize_append Let_def)
qed


text \<open>The gate for control commands depends on two lists.\<close>

definition gate_lists :: "access_params \<Rightarrow> string list \<times> string list" where
  "gate_lists p =
     (if ap_isGroup p then
        (configured p, normalizeStringEntries (Some (map JStr (resolveGroupAllowFromSources (Some (map JStr (configured p)))
           (Some (map JStr (normalizeStringEntries (ap_groupAllowFrom p)))) (ap_fallback p)))))
      else (configured p @ (if ap_dmPolicy p = Some ''allowlist'' \<or> ap_dmPolicy p = Some ''open'' then [] else paired p), group_entries p))"

definition gate_of :: "access_params \<Rightarrow> command_params option \<Rightarrow> command_gate" where
  "gate_of p command =
     (case command of
        Some c \<Rightarrow> resolveControlCommandGate (cm_useAccessGroups c)
          (map (\<lambda>entries. \<lparr>ca_configured = (length entries > 0), ca_allowed = ap_isSenderAllowed p entries\<rparr>) [fst (gate_lists p), snd (gate_lists p)])
          (cm_allowTextCommands c) (cm_hasControlCommand c) None
      | None \<Rightarrow> \<lparr>cg_commandAuthorized = False, cg_shouldBlock = False\<rparr>)"

lemma with_gate_simps:
  "ar_decision (resolveDmGroupAccessWithCommandGate p command) = ar_decision (resolveDmGroupAccessWithLists p)"
  "ar_commandAuthorized (resolveDmGroupAccessWithCommandGate p command) = cg_commandAuthorized (gate_of p command)"
  "ar_shouldBlockControlCommand (resolveDmGroupAccessWithCommandGate p command) = (ap_isGroup p \<and> cg_shouldBlock (gate_of p command))"
  by (simp_all add: resolveDmGroupAccessWithCommandGate_def gate_of_def gate_lists_def Let_def with_lists_simps(2,3) merge_spec
      nullish_normal configured_def [symmetric] access_result.defs access_with_lists.defs access_with_gate.defs split: option.split)

text \<open>C18. Approved pairings are for direct messages only. In a group, and under the policies \<open>allowlist\<close> and
  \<open>open\<close>, the outcome is the same whatever the pairing store holds: the decision, the authorisation of
  control commands and whether a command is blocked.\<close>

theorem pairing_never_leaks:
  assumes "ap_isGroup p \<or> ap_dmPolicy p = Some ''allowlist'' \<or> ap_dmPolicy p = Some ''open''"
  shows "let a = resolveDmGroupAccessWithCommandGate (p\<lparr>ap_storeAllowFrom := s\<rparr>) command;
             b = resolveDmGroupAccessWithCommandGate (p\<lparr>ap_storeAllowFrom := s'\<rparr>) command
    in ar_decision a = ar_decision b \<and> ar_commandAuthorized a = ar_commandAuthorized b
       \<and> ar_shouldBlockControlCommand a = ar_shouldBlockControlCommand b"
proof -
  let ?p = "p\<lparr>ap_storeAllowFrom := s\<rparr>" and ?q = "p\<lparr>ap_storeAllowFrom := s'\<rparr>"
  have same: "configured ?p = configured ?q" "group_entries ?p = group_entries ?q"
    by (simp_all add: configured_def group_entries_def)
  have "access_spec ?p = access_spec ?q"
    using assms by (elim disjE) (simp_all add: access_spec_def configured_def group_entries_def)
  then have "ar_decision (resolveDmGroupAccessWithLists ?p) = ar_decision (resolveDmGroupAccessWithLists ?q)"
    by (metis group_decision dm_decision)
  moreover have "gate_lists ?p = gate_lists ?q"
    using assms by (elim disjE) (simp_all add: gate_lists_def same)
  then have "gate_of ?p command = gate_of ?q command"
    by (simp add: gate_of_def split: option.split)
  ultimately show ?thesis by (simp add: with_gate_simps Let_def)
qed

text \<open>A group of two configured members that an approved stranger tries to enter.\<close>

definition sample_access :: "bool \<Rightarrow> access_params" where
  "sample_access inGroup =
     \<lparr>ap_isGroup = inGroup, ap_dmPolicy = None, ap_groupPolicy = None, ap_allowFrom = Some [JStr ''ann'', JNum 7], ap_groupAllowFrom = None,
      ap_storeAllowFrom = None, ap_fallback = None, ap_isSenderAllowed = (\<lambda>entries. ''bob'' \<in> set entries)\<rparr>"

theorem pairing_never_leaks_witness:
  "ar_decision (resolveDmGroupAccessWithCommandGate (sample_access True\<lparr>ap_storeAllowFrom := Some [JStr ''bob'']\<rparr>) None)
     = ar_decision (resolveDmGroupAccessWithCommandGate (sample_access True\<lparr>ap_storeAllowFrom := None\<rparr>) None)
   \<and> ar_decision (resolveDmGroupAccessWithLists (sample_access False\<lparr>ap_storeAllowFrom := Some [JStr ''bob'']\<rparr>)) = AllowAccess"
proof -
  have "js_trim ''bob'' = ''bob''" by code_simp
  then have "access_spec (sample_access False\<lparr>ap_storeAllowFrom := Some [JStr ''bob'']\<rparr>) = AllowAccess"
    by (simp add: access_spec_def sample_access_def paired_def normalizeStringEntries_alt)
  then have "ar_decision (resolveDmGroupAccessWithLists (sample_access False\<lparr>ap_storeAllowFrom := Some [JStr ''bob'']\<rparr>)) = AllowAccess"
    by (simp add: dm_decision sample_access_def)
  then show ?thesis
    using pairing_never_leaks [of "sample_access True" "Some [JStr ''bob'']" None None]
    by (simp add: Let_def sample_access_def)
qed

end
