(* ===== verification/Pairing_Store.thy ===== *)
theory Pairing_Store
  imports Access_Policy
begin

text \<open>
  Pairing: how an unknown sender asks for access and the operator grants it. The pending requests with
  their codes and the counter of wrong codes are \<^verbatim>\<open>src/pairing/pairing-store.ts\<close>; the files of approved
  senders and the cache in front of them are \<^verbatim>\<open>src/pairing/allow-from-store-file.ts\<close> and
  \<^verbatim>\<open>allow-from-store-read.ts\<close>; the challenge a sender receives is \<^verbatim>\<open>pairing-challenge.ts\<close>. The state is the
  files of the credentials directory, the cache of the process, and counters that index the readings of
  the clock, the random numbers, the writes and the attempts to take a lock. A file holds the store it
  encodes or is not JSON; an existing file can be read. Writing may fail, and so may taking a lock;
  an atomic write that fails leaves the file as it was. Dates, the locale's order of texts and what a
  channel's adapter makes of an entry are parameters.
\<close>

section \<open>State\<close>

record pairing_request =
  qr_id :: string
  qr_code :: string
  qr_createdAt :: string
  qr_lastSeenAt :: string
  qr_meta :: "(string \<times> string) list option"

record wrong_attempts =
  wa_count :: nat
  wa_firstAt :: string
  wa_lastAt :: string

record pairing_store =
  ps_requests :: "pairing_request list"
  ps_wrongAttempts :: "wrong_attempts option"

text \<open>\<open>AllowContent None\<close>: a store whose \<open>allowFrom\<close> is not an array.\<close>

datatype store_content = PairingContent pairing_store | AllowContent "string list option" | BrokenContent

record stored_file =
  ff_content :: store_content
  ff_mtime :: nat
  ff_size :: nat

record cache_entry =
  ce_exists :: bool
  ce_mtimeMs :: "nat option"
  ce_size :: "nat option"
  ce_entries :: "string list"

record pairing_world =
  pw_files :: "(string \<times> stored_file) list"
  pw_cache :: "(string \<times> cache_entry) list"
  pw_clock :: nat
  pw_random :: nat
  pw_writes :: nat
  pw_locks :: nat

record pairing_env =
  pv_dir :: string
  pv_now :: "nat \<Rightarrow> int"
  pv_iso :: "int \<Rightarrow> string"
  pv_parse :: "string \<Rightarrow> int option"
  pv_random :: "nat \<Rightarrow> nat"
  pv_stat :: "nat \<Rightarrow> nat \<times> nat"
  pv_writeThrows :: "nat \<Rightarrow> string option"
  pv_lockThrows :: "nat \<Rightarrow> string option"
  pv_adapter :: "string \<Rightarrow> (string \<Rightarrow> string) option"
  pv_localeLess :: "string \<Rightarrow> string \<Rightarrow> bool"

definition PAIRING_CODE_LENGTH :: nat where
  "PAIRING_CODE_LENGTH = 8"

definition PAIRING_CODE_ALPHABET :: string where
  "PAIRING_CODE_ALPHABET = ''ABCDEFGHJKLMNPQRSTUVWXYZ23456789''"

definition PAIRING_CODE_MAX_ATTEMPTS :: nat where
  "PAIRING_CODE_MAX_ATTEMPTS = 500"

definition PAIRING_PENDING_TTL_MS :: int where
  "PAIRING_PENDING_TTL_MS = 60 * 60 * 1000"

definition PAIRING_PENDING_MAX :: nat where
  "PAIRING_PENDING_MAX = 3"

definition PAIRING_WRONG_ATTEMPT_THRESHOLD :: nat where
  "PAIRING_WRONG_ATTEMPT_THRESHOLD = 3"

definition PAIRING_WRONG_ATTEMPT_BASE_COOLDOWN_MS :: int where
  "PAIRING_WRONG_ATTEMPT_BASE_COOLDOWN_MS = 60 * 1000"

definition PAIRING_WRONG_ATTEMPT_MAX_COOLDOWN_MS :: int where
  "PAIRING_WRONG_ATTEMPT_MAX_COOLDOWN_MS = 30 * 60 * 1000"

definition DEFAULT_ACCOUNT_ID :: string where
  "DEFAULT_ACCOUNT_ID = ''default''"

definition pairing_now :: "pairing_env \<Rightarrow> (pairing_world, int) prog" where
  "pairing_now e = (\<lambda>w. (Inr (pv_now e (pw_clock w)), w\<lparr>pw_clock := Suc (pw_clock w)\<rparr>))"

definition writeJsonFile :: "pairing_env \<Rightarrow> string \<Rightarrow> store_content \<Rightarrow> (pairing_world, unit) prog" where
  "writeJsonFile e filePath content = (\<lambda>w.
     let n = pw_writes w; w' = w\<lparr>pw_writes := Suc n\<rparr>
     in case pv_writeThrows e n of
          Some err \<Rightarrow> (Inl err, w')
        | None \<Rightarrow> (Inr (), w'\<lparr>pw_files := AList.update filePath
            \<lparr>ff_content = content, ff_mtime = fst (pv_stat e n), ff_size = snd (pv_stat e n)\<rparr> (pw_files w)\<rparr>))"

definition file_content :: "pairing_world \<Rightarrow> string \<Rightarrow> store_content option" where
  "file_content w filePath = map_option ff_content (map_of (pw_files w) filePath)"

definition ensureJsonFile :: "pairing_env \<Rightarrow> string \<Rightarrow> store_content \<Rightarrow> (pairing_world, unit) prog" where
  "ensureJsonFile e filePath fallback =
     bind_m (get_m (\<lambda>w. map_of (pw_files w) filePath = None)) (\<lambda>missing. when_m missing (writeJsonFile e filePath fallback))"

definition take_lock :: "pairing_env \<Rightarrow> (pairing_world, unit) prog" where
  "take_lock e = (\<lambda>w.
     (case pv_lockThrows e (pw_locks w) of Some err \<Rightarrow> Inl err | None \<Rightarrow> Inr (), w\<lparr>pw_locks := Suc (pw_locks w)\<rparr>))"

definition withFileLock :: "pairing_env \<Rightarrow> string \<Rightarrow> store_content \<Rightarrow> (pairing_world, 'a) prog \<Rightarrow> (pairing_world, 'a) prog" where
  "withFileLock e filePath fallback body = seq_m (ensureJsonFile e filePath fallback) (seq_m (take_lock e) body)"

section \<open>The cooldown after wrong codes\<close>

definition computePairingCooldownMs :: "nat \<Rightarrow> int" where
  "computePairingCooldownMs count =
     (if count < PAIRING_WRONG_ATTEMPT_THRESHOLD then 0
      else min (PAIRING_WRONG_ATTEMPT_BASE_COOLDOWN_MS * 2 ^ (count - PAIRING_WRONG_ATTEMPT_THRESHOLD))
             PAIRING_WRONG_ATTEMPT_MAX_COOLDOWN_MS)"

definition parseTimestamp :: "pairing_env \<Rightarrow> string \<Rightarrow> int option" where
  "parseTimestamp e v = (if v = [] then None else pv_parse e v)"

definition pairingCooldownRemainingMs :: "pairing_env \<Rightarrow> wrong_attempts option \<Rightarrow> int \<Rightarrow> int" where
  "pairingCooldownRemainingMs e attempts nowMs =
     (case attempts of
        None \<Rightarrow> 0
      | Some a \<Rightarrow>
          (case parseTimestamp e (wa_lastAt a) of
             None \<Rightarrow> 0
           | Some lastAt \<Rightarrow>
               let cooldown = computePairingCooldownMs (wa_count a)
               in if cooldown \<le> 0 then 0 else let remaining = lastAt + cooldown - nowMs in if remaining > 0 then remaining else 0))"

definition bumpPairingWrongAttempts :: "pairing_env \<Rightarrow> wrong_attempts option \<Rightarrow> int \<Rightarrow> wrong_attempts" where
  "bumpPairingWrongAttempts e current nowMs =
     (let stamp = pv_iso e nowMs
      in case current of
           None \<Rightarrow> \<lparr>wa_count = 1, wa_firstAt = stamp, wa_lastAt = stamp\<rparr>
         | Some a \<Rightarrow> \<lparr>wa_count = wa_count a + 1, wa_firstAt = (if wa_firstAt a \<noteq> [] then wa_firstAt a else stamp), wa_lastAt = stamp\<rparr>)"

section \<open>File names\<close>

definition describePairingFilenameKeyInput :: "json option \<Rightarrow> string" where
  "describePairingFilenameKeyInput v =
     (case v of
        None \<Rightarrow> ''undefined'' | Some JNull \<Rightarrow> ''null'' | Some (JArr _) \<Rightarrow> ''array''
      | Some (JStr s) \<Rightarrow> (let trimmed = js_trim s in if trimmed \<noteq> [] then ''string length '' @ show_nat (length trimmed) else ''empty string'')
      | Some (JBool _) \<Rightarrow> ''boolean'' | Some (JObj _) \<Rightarrow> ''object'' | Some _ \<Rightarrow> ''number'')"

definition invalidPairingFilenameKeyError :: "string \<Rightarrow> string \<Rightarrow> json option \<Rightarrow> string" where
  "invalidPairingFilenameKeyError kind reason v =
     ''invalid pairing '' @ kind @ '': '' @ reason @ ''; got '' @ describePairingFilenameKeyInput v"

fun no_double_dots :: "string \<Rightarrow> string" where
  "no_double_dots (c # d # s) = (if c = CHR ''.'' \<and> d = CHR ''.'' then CHR ''_'' # no_double_dots s else c # no_double_dots (d # s))"
| "no_double_dots s = s"

definition unsafe_char :: "char \<Rightarrow> bool" where
  "unsafe_char c \<longleftrightarrow> c \<in> {CHR 0x5C, CHR ''/'', CHR '':'', CHR ''*'', CHR ''?'', CHR 0x22, CHR ''<'', CHR ''>'', CHR ''|''}"

definition normalizePairingFilenameKey :: "json option \<Rightarrow> string \<Rightarrow> string + string" where
  "normalizePairingFilenameKey v kind =
     (case v of
        Some (JStr s) \<Rightarrow>
          let raw = normalizeLowercaseStringOrEmpty v
          in if raw = [] then Inl (invalidPairingFilenameKeyError kind ''expected non-empty string'' v)
             else let safe = no_double_dots (map (\<lambda>c. if unsafe_char c then CHR ''_'' else c) raw)
                  in if safe = [] \<or> safe = ''_'' then Inl (invalidPairingFilenameKeyError kind ''sanitized filename key is empty'' v)
                     else Inr safe
      | _ \<Rightarrow> Inl (invalidPairingFilenameKeyError kind ''expected non-empty string'' v))"

definition safeChannelKey :: "string \<Rightarrow> string + string" where
  "safeChannelKey channel = normalizePairingFilenameKey (Some (JStr channel)) ''channel''"

definition safeAccountKey :: "string \<Rightarrow> string + string" where
  "safeAccountKey accountId = normalizePairingFilenameKey (Some (JStr accountId)) ''account id''"

definition resolveOptionalAccountFilenameKey :: "json option \<Rightarrow> string + string option" where
  "resolveOptionalAccountFilenameKey accountId =
     (case accountId of
        None \<Rightarrow> Inr None
      | Some JNull \<Rightarrow> Inr None
      | Some (JStr s) \<Rightarrow>
          (case normalizeOptionalString accountId of
             None \<Rightarrow> Inr None
           | Some normalized \<Rightarrow> (case safeAccountKey normalized of Inl err \<Rightarrow> Inl err | Inr k \<Rightarrow> Inr (Some k)))
      | _ \<Rightarrow> Inl (invalidPairingFilenameKeyError ''account id'' ''expected non-empty string'' accountId))"

definition resolveAllowFromFilePath :: "pairing_env \<Rightarrow> string \<Rightarrow> json option \<Rightarrow> string + string" where
  "resolveAllowFromFilePath e channel accountId =
     (case safeChannelKey channel of
        Inl err \<Rightarrow> Inl err
      | Inr base \<Rightarrow>
          (case resolveOptionalAccountFilenameKey accountId of
             Inl err \<Rightarrow> Inl err
           | Inr None \<Rightarrow> Inr (pv_dir e @ ''/'' @ base @ ''-allowFrom.json'')
           | Inr (Some accountKey) \<Rightarrow> Inr (pv_dir e @ ''/'' @ base @ ''-'' @ accountKey @ ''-allowFrom.json'')))"

definition resolvePairingPath :: "pairing_env \<Rightarrow> string \<Rightarrow> string + string" where
  "resolvePairingPath e channel =
     (case safeChannelKey channel of Inl err \<Rightarrow> Inl err | Inr base \<Rightarrow> Inr (pv_dir e @ ''/'' @ base @ ''-pairing.json''))"

section \<open>Pending requests\<close>

definition empty_pairing :: pairing_store where
  "empty_pairing = \<lparr>ps_requests = [], ps_wrongAttempts = None\<rparr>"

text \<open>A file that is missing or not JSON reads as empty, and so does one without a list of requests.\<close>

definition pairing_of :: "store_content option \<Rightarrow> pairing_store" where
  "pairing_of content = (case content of Some (PairingContent st) \<Rightarrow> st | _ \<Rightarrow> empty_pairing)"

definition readPairingStore :: "string \<Rightarrow> (pairing_world, pairing_store) prog" where
  "readPairingStore filePath = get_m (\<lambda>w. pairing_of (file_content w filePath))"

definition readPairingRequests :: "string \<Rightarrow> (pairing_world, pairing_request list) prog" where
  "readPairingRequests filePath = get_m (\<lambda>w. ps_requests (pairing_of (file_content w filePath)))"

definition isExpired :: "pairing_env \<Rightarrow> pairing_request \<Rightarrow> int \<Rightarrow> bool" where
  "isExpired e entry nowMs =
     (case parseTimestamp e (qr_createdAt entry) of
        None \<Rightarrow> True
      | Some createdAt \<Rightarrow> createdAt = 0 \<or> nowMs - createdAt > PAIRING_PENDING_TTL_MS)"

primrec pruneExpiredRequests :: "pairing_env \<Rightarrow> pairing_request list \<Rightarrow> int \<Rightarrow> pairing_request list \<times> bool" where
  "pruneExpiredRequests e [] nowMs = ([], False)"
| "pruneExpiredRequests e (req # reqs) nowMs =
     (let (kept, removed) = pruneExpiredRequests e reqs nowMs
      in if isExpired e req nowMs then (kept, True) else (req # kept, removed))"

definition readPrunedPairingRequests :: "pairing_env \<Rightarrow> string \<Rightarrow> (pairing_world, pairing_request list \<times> bool) prog" where
  "readPrunedPairingRequests e filePath =
     bind_m (readPairingRequests filePath) (\<lambda>reqs.
     bind_m (pairing_now e) (\<lambda>nowMs. return_m (pruneExpiredRequests e reqs nowMs)))"

definition resolveLastSeenAt :: "pairing_env \<Rightarrow> pairing_request \<Rightarrow> int" where
  "resolveLastSeenAt e entry =
     nullish (parseTimestamp e (qr_lastSeenAt entry)) (nullish (parseTimestamp e (qr_createdAt entry)) 0)"

definition meta_account :: "pairing_request \<Rightarrow> string option" where
  "meta_account entry = Option.bind (qr_meta entry) (\<lambda>meta. map_of meta ''accountId'')"

definition normalizePairingAccountId :: "string option \<Rightarrow> string" where
  "normalizePairingAccountId accountId = normalizeLowercaseStringOrEmpty (map_option JStr accountId)"

definition resolvePairingRequestAccountId :: "pairing_request \<Rightarrow> string" where
  "resolvePairingRequestAccountId entry =
     (let accountId = normalizePairingAccountId (meta_account entry) in if accountId \<noteq> [] then accountId else DEFAULT_ACCOUNT_ID)"

definition requestMatchesAccountId :: "pairing_request \<Rightarrow> string \<Rightarrow> bool" where
  "requestMatchesAccountId entry normalizedAccountId =
     (normalizedAccountId = [] \<or> resolvePairingRequestAccountId entry = normalizedAccountId)"

text \<open>The positions of an account's requests beyond the limit, those seen longest ago.\<close>

definition dropped_of_account :: "pairing_env \<Rightarrow> pairing_request list \<Rightarrow> nat \<Rightarrow> string \<Rightarrow> nat list" where
  "dropped_of_account e reqs maxPending accountId =
     (let indexes = filter (\<lambda>i. resolvePairingRequestAccountId (reqs ! i) = accountId) [0..<length reqs]
      in if length indexes \<le> maxPending then []
         else take (length indexes - maxPending)
           (to_sorted (\<lambda>i j. resolveLastSeenAt e (reqs ! i) < resolveLastSeenAt e (reqs ! j)) indexes))"

definition pruneExcessRequestsByAccount :: "pairing_env \<Rightarrow> pairing_request list \<Rightarrow> nat \<Rightarrow> pairing_request list \<times> bool" where
  "pruneExcessRequestsByAccount e reqs maxPending =
     (if maxPending \<le> 0 \<or> length reqs \<le> maxPending then (reqs, False)
      else let droppedIndexes = concat (map (dropped_of_account e reqs maxPending) (remdups (map resolvePairingRequestAccountId reqs)))
           in if droppedIndexes = [] then (reqs, False)
              else (map (\<lambda>i. reqs ! i) (filter (\<lambda>i. i \<notin> set droppedIndexes) [0..<length reqs]), True))"

text \<open>\<open>crypto.randomInt\<close> answers below its limit.\<close>

primrec random_chars :: "pairing_env \<Rightarrow> nat \<Rightarrow> (pairing_world, string) prog" where
  "random_chars e 0 = return_m []"
| "random_chars e (Suc n) = (\<lambda>w.
     let idx = pv_random e (pw_random w) mod length PAIRING_CODE_ALPHABET; c = PAIRING_CODE_ALPHABET ! idx
     in bind_m (random_chars e n) (\<lambda>out. return_m (c # out)) (w\<lparr>pw_random := Suc (pw_random w)\<rparr>))"

definition randomCode :: "pairing_env \<Rightarrow> (pairing_world, string) prog" where
  "randomCode e = random_chars e PAIRING_CODE_LENGTH"

primrec try_codes :: "pairing_env \<Rightarrow> string list \<Rightarrow> nat \<Rightarrow> (pairing_world, string) prog" where
  "try_codes e existing 0 = throw_m (''failed to generate unique pairing code after '' @ show_nat PAIRING_CODE_MAX_ATTEMPTS
     @ '' attempts; existing code count: '' @ show_nat (length (remdups existing)))"
| "try_codes e existing (Suc n) =
     bind_m (randomCode e) (\<lambda>code. if code \<notin> set existing then return_m code else try_codes e existing n)"

definition generateUniqueCode :: "pairing_env \<Rightarrow> string list \<Rightarrow> (pairing_world, string) prog" where
  "generateUniqueCode e existing = try_codes e existing PAIRING_CODE_MAX_ATTEMPTS"

text \<open>\<open>toUpperCase\<close>; the capital of \<open>0xDF\<close> is two letters, and those of \<open>0xB5\<close> and \<open>0xFF\<close> are no code units up to
  255, so the small letters stand for them.\<close>

definition js_upper_char :: "char \<Rightarrow> string" where
  "js_upper_char c =
     (let n = of_char c :: nat
      in if n = 223 then ''SS''
         else if 97 \<le> n \<and> n \<le> 122 \<or> 224 \<le> n \<and> n \<le> 254 \<and> n \<noteq> 247 then [char_of (n - 32)] else [c])"

definition toUpperCase :: "string \<Rightarrow> string" where
  "toUpperCase s = concat (map js_upper_char s)"

section \<open>Approved senders\<close>

definition normalizeId :: "json \<Rightarrow> string" where
  "normalizeId v = nullish (normalizeStringifiedOptionalString (Some v)) []"

definition normalizeAllowEntry :: "pairing_env \<Rightarrow> string \<Rightarrow> string \<Rightarrow> string" where
  "normalizeAllowEntry e channel entry =
     (let trimmed = js_trim entry
      in if trimmed = [] then [] else if trimmed = ''*'' then []
         else nullish (normalizeOptionalString (Some (JStr
           (case pv_adapter e channel of Some f \<Rightarrow> f trimmed | None \<Rightarrow> trimmed)))) [])"

fun dedupe :: "string list \<Rightarrow> string list \<Rightarrow> string list" where
  "dedupe seen [] = []"
| "dedupe seen (entry # entries) =
     (let normalized = nullish (normalizeOptionalString (Some (JStr entry))) []
      in if normalized = [] \<or> normalized \<in> set seen then dedupe seen entries
         else normalized # dedupe (normalized # seen) entries)"

definition dedupePreserveOrder :: "string list \<Rightarrow> string list" where
  "dedupePreserveOrder entries = dedupe [] entries"

definition normalizeAllowFromList :: "pairing_env \<Rightarrow> string \<Rightarrow> string list option \<Rightarrow> string list" where
  "normalizeAllowFromList e channel store =
     dedupePreserveOrder (filter (\<lambda>v. v \<noteq> []) (map (normalizeAllowEntry e channel) (nullish store [])))"

definition normalizeRawAllowFromList :: "string list option \<Rightarrow> string list" where
  "normalizeRawAllowFromList store =
     dedupePreserveOrder (filter (\<lambda>v. v \<noteq> []) (map (\<lambda>entry. nullish (normalizeOptionalString (Some (JStr entry))) []) (nullish store [])))"

definition normalizeAllowFromInput :: "pairing_env \<Rightarrow> string \<Rightarrow> json \<Rightarrow> string" where
  "normalizeAllowFromInput e channel entry = normalizeAllowEntry e channel (normalizeId entry)"

definition shouldIncludeLegacyAllowFromEntries :: "string \<Rightarrow> bool" where
  "shouldIncludeLegacyAllowFromEntries normalizedAccountId \<longleftrightarrow> normalizedAccountId = [] \<or> normalizedAccountId = DEFAULT_ACCOUNT_ID"

definition resolveAllowFromAccountId :: "json option \<Rightarrow> string + string" where
  "resolveAllowFromAccountId accountId =
     (let normalized = normalizeLowercaseStringOrEmpty accountId; r = (if normalized \<noteq> [] then normalized else DEFAULT_ACCOUNT_ID)
      in case accountId of
           None \<Rightarrow> Inr r | Some JNull \<Rightarrow> Inr r | Some (JStr _) \<Rightarrow> Inr r
         | _ \<Rightarrow> Inl (invalidPairingFilenameKeyError ''account id'' ''expected non-empty string'' accountId))"

section \<open>The cache in front of the files\<close>

definition resolveAllowFromCacheKey :: "string \<Rightarrow> string \<Rightarrow> string" where
  "resolveAllowFromCacheKey cacheNamespace filePath = cacheNamespace @ [CHR 0x00] @ filePath"

definition PAIRING_ALLOW_FROM_CACHE_NAMESPACE :: string where
  "PAIRING_ALLOW_FROM_CACHE_NAMESPACE = ''pairing-store''"

definition ALLOW_FROM_STORE_READ_CACHE_NAMESPACE :: string where
  "ALLOW_FROM_STORE_READ_CACHE_NAMESPACE = ''allow-from-store-read''"

definition setAllowFromFileReadCache :: "string \<Rightarrow> string \<Rightarrow> cache_entry \<Rightarrow> (pairing_world, unit) prog" where
  "setAllowFromFileReadCache cacheNamespace filePath entry =
     modify_m (\<lambda>w. w\<lparr>pw_cache := AList.update (resolveAllowFromCacheKey cacheNamespace filePath) entry (pw_cache w)\<rparr>)"

definition resolveAllowFromReadCacheHit ::
  "(string \<times> cache_entry) list \<Rightarrow> string \<Rightarrow> string \<Rightarrow> bool \<Rightarrow> nat option \<Rightarrow> nat option \<Rightarrow> cache_entry option" where
  "resolveAllowFromReadCacheHit cache cacheNamespace filePath exists mtimeMs fileSize =
     (case map_of cache (resolveAllowFromCacheKey cacheNamespace filePath) of
        None \<Rightarrow> None
      | Some cached \<Rightarrow>
          if ce_exists cached \<noteq> exists then None
          else if \<not> exists then Some cached
          else if ce_mtimeMs cached \<noteq> mtimeMs \<or> ce_size cached \<noteq> fileSize then None
          else Some cached)"

definition file_stat :: "pairing_world \<Rightarrow> string \<Rightarrow> (nat \<times> nat) option" where
  "file_stat w filePath = map_option (\<lambda>f. (ff_mtime f, ff_size f)) (map_of (pw_files w) filePath)"

definition resolveAllowFromReadCacheOrMissing ::
  "string \<Rightarrow> string \<Rightarrow> (nat \<times> nat) option \<Rightarrow> (pairing_world, (string list \<times> bool) option) prog" where
  "resolveAllowFromReadCacheOrMissing cacheNamespace filePath stat =
     bind_m (get_m pw_cache) (\<lambda>cache.
       case resolveAllowFromReadCacheHit cache cacheNamespace filePath (stat \<noteq> None) (map_option fst stat) (map_option snd stat) of
         Some cached \<Rightarrow> return_m (Some (ce_entries cached, ce_exists cached))
       | None \<Rightarrow>
           if stat = None
           then seq_m (setAllowFromFileReadCache cacheNamespace filePath
                  \<lparr>ce_exists = False, ce_mtimeMs = None, ce_size = None, ce_entries = []\<rparr>) (return_m (Some ([], False)))
           else return_m None)"

text \<open>The entries of a file: one that is not JSON has none.\<close>

definition entries_of :: "(string list option \<Rightarrow> string list) \<Rightarrow> store_content option \<Rightarrow> string list" where
  "entries_of normalizeStore content =
     (case content of
        Some (AllowContent store) \<Rightarrow> normalizeStore store
      | Some (PairingContent _) \<Rightarrow> normalizeStore None
      | _ \<Rightarrow> [])"

definition readAllowFromFileWithExists ::
  "string \<Rightarrow> string \<Rightarrow> (string list option \<Rightarrow> string list) \<Rightarrow> (pairing_world, string list \<times> bool) prog" where
  "readAllowFromFileWithExists cacheNamespace filePath normalizeStore =
     bind_m (get_m (\<lambda>w. file_stat w filePath)) (\<lambda>stat.
     bind_m (resolveAllowFromReadCacheOrMissing cacheNamespace filePath stat) (\<lambda>cachedOrMissing.
       case cachedOrMissing of
         Some r \<Rightarrow> return_m r
       | None \<Rightarrow>
           bind_m (get_m (\<lambda>w. entries_of normalizeStore (file_content w filePath))) (\<lambda>entries.
           seq_m (setAllowFromFileReadCache cacheNamespace filePath
             \<lparr>ce_exists = True, ce_mtimeMs = map_option fst stat, ce_size = map_option snd stat, ce_entries = entries\<rparr>)
             (return_m (entries, True)))))"

definition readAllowFromStateForPath :: "pairing_env \<Rightarrow> string \<Rightarrow> string \<Rightarrow> (pairing_world, string list) prog" where
  "readAllowFromStateForPath e channel filePath =
     bind_m (readAllowFromFileWithExists PAIRING_ALLOW_FROM_CACHE_NAMESPACE filePath (normalizeAllowFromList e channel))
       (\<lambda>r. return_m (fst r))"

definition readLegacyChannelAllowFromStore :: "pairing_env \<Rightarrow> string \<Rightarrow> (pairing_world, string list) prog" where
  "readLegacyChannelAllowFromStore e channel =
     bind_m (lift_m (resolveAllowFromFilePath e channel None)) (\<lambda>filePath. readAllowFromStateForPath e channel filePath)"

text \<open>Both readers of a channel's approved senders have this shape; they differ in the cache and in what they
  make of an entry.\<close>

definition read_channel_entries ::
  "pairing_env \<Rightarrow> (string \<Rightarrow> (pairing_world, string list) prog) \<Rightarrow> string \<Rightarrow> json option \<Rightarrow> (pairing_world, string list) prog" where
  "read_channel_entries e readPath channel accountId =
     bind_m (lift_m (resolveAllowFromAccountId accountId)) (\<lambda>resolvedAccountId.
       if \<not> shouldIncludeLegacyAllowFromEntries resolvedAccountId
       then bind_m (lift_m (resolveAllowFromFilePath e channel (Some (JStr resolvedAccountId)))) readPath
       else bind_m (lift_m (resolveAllowFromFilePath e channel (Some (JStr resolvedAccountId)))) (\<lambda>scopedPath.
            bind_m (readPath scopedPath) (\<lambda>scopedEntries.
            bind_m (lift_m (resolveAllowFromFilePath e channel None)) (\<lambda>legacyPath.
            bind_m (readPath legacyPath) (\<lambda>legacyEntries.
              return_m (dedupePreserveOrder (scopedEntries @ legacyEntries)))))))"

definition readChannelAllowFromStore :: "pairing_env \<Rightarrow> string \<Rightarrow> json option \<Rightarrow> (pairing_world, string list) prog" where
  "readChannelAllowFromStore e channel accountId =
     read_channel_entries e (readAllowFromStateForPath e channel) channel accountId"

definition readChannelAllowFromStoreEntriesSync :: "pairing_env \<Rightarrow> string \<Rightarrow> json option \<Rightarrow> (pairing_world, string list) prog" where
  "readChannelAllowFromStoreEntriesSync e channel accountId =
     read_channel_entries e (\<lambda>filePath. bind_m (readAllowFromFileWithExists ALLOW_FROM_STORE_READ_CACHE_NAMESPACE filePath normalizeRawAllowFromList)
       (\<lambda>r. return_m (fst r))) channel accountId"

section \<open>Changing the approved senders\<close>

definition readAllowFromState :: "pairing_env \<Rightarrow> string \<Rightarrow> json \<Rightarrow> string \<Rightarrow> (pairing_world, string list \<times> string option) prog" where
  "readAllowFromState e channel entry filePath =
     get_m (\<lambda>w. (normalizeAllowFromList e channel
                   (case file_content w filePath of Some (AllowContent store) \<Rightarrow> store | Some (PairingContent _) \<Rightarrow> None | _ \<Rightarrow> Some []),
                 let normalized = normalizeAllowFromInput e channel entry in if normalized \<noteq> [] then Some normalized else None))"

definition writeAllowFromState :: "pairing_env \<Rightarrow> string \<Rightarrow> string list \<Rightarrow> (pairing_world, unit) prog" where
  "writeAllowFromState e filePath allowFrom =
     seq_m (writeJsonFile e filePath (AllowContent (Some allowFrom)))
    (bind_m (get_m (\<lambda>w. file_stat w filePath)) (\<lambda>stat.
       setAllowFromFileReadCache PAIRING_ALLOW_FROM_CACHE_NAMESPACE filePath
         \<lparr>ce_exists = True, ce_mtimeMs = map_option fst stat, ce_size = map_option snd stat, ce_entries = allowFrom\<rparr>))"

record allow_update =
  au_changed :: bool
  au_allowFrom :: "string list"

definition updateAllowFromStoreEntry ::
  "pairing_env \<Rightarrow> string \<Rightarrow> json \<Rightarrow> json option \<Rightarrow> (string list \<Rightarrow> string \<Rightarrow> string list option) \<Rightarrow> (pairing_world, allow_update) prog" where
  "updateAllowFromStoreEntry e channel entry accountId change =
     bind_m (lift_m (resolveAllowFromFilePath e channel accountId)) (\<lambda>filePath.
       withFileLock e filePath (AllowContent (Some []))
        (bind_m (readAllowFromState e channel entry filePath) (\<lambda>(current, normalized).
           case normalized of
             None \<Rightarrow> return_m \<lparr>au_changed = False, au_allowFrom = current\<rparr>
           | Some n \<Rightarrow>
               (case change current n of
                  None \<Rightarrow> return_m \<lparr>au_changed = False, au_allowFrom = current\<rparr>
                | Some next \<Rightarrow> seq_m (writeAllowFromState e filePath next) (return_m \<lparr>au_changed = True, au_allowFrom = next\<rparr>)))))"

definition add_entry :: "string list \<Rightarrow> string \<Rightarrow> string list option" where
  "add_entry current normalized = (if normalized \<in> set current then None else Some (current @ [normalized]))"

definition remove_entry :: "string list \<Rightarrow> string \<Rightarrow> string list option" where
  "remove_entry current normalized =
     (let next = filter (\<lambda>entry. entry \<noteq> normalized) current in if length next = length current then None else Some next)"

definition addChannelAllowFromStoreEntry :: "pairing_env \<Rightarrow> string \<Rightarrow> json \<Rightarrow> json option \<Rightarrow> (pairing_world, allow_update) prog" where
  "addChannelAllowFromStoreEntry e channel entry accountId = updateAllowFromStoreEntry e channel entry accountId add_entry"

definition removeChannelAllowFromStoreEntry :: "pairing_env \<Rightarrow> string \<Rightarrow> json \<Rightarrow> json option \<Rightarrow> (pairing_world, allow_update) prog" where
  "removeChannelAllowFromStoreEntry e channel entry accountId = updateAllowFromStoreEntry e channel entry accountId remove_entry"

section \<open>Listing, asking, approving\<close>

definition listChannelPairingRequests :: "pairing_env \<Rightarrow> string \<Rightarrow> string option \<Rightarrow> (pairing_world, pairing_request list) prog" where
  "listChannelPairingRequests e channel accountId =
     bind_m (lift_m (resolvePairingPath e channel)) (\<lambda>filePath.
       withFileLock e filePath (PairingContent empty_pairing)
        (bind_m (readPrunedPairingRequests e filePath) (\<lambda>(prunedExpired, expiredRemoved).
           let (pruned, cappedRemoved) = pruneExcessRequestsByAccount e prunedExpired PAIRING_PENDING_MAX
           in seq_m (when_m (expiredRemoved \<or> cappedRemoved)
                 (writeJsonFile e filePath (PairingContent \<lparr>ps_requests = pruned, ps_wrongAttempts = None\<rparr>)))
               (let normalizedAccountId = normalizePairingAccountId accountId;
                    filtered = (if normalizedAccountId \<noteq> [] then filter (\<lambda>entry. requestMatchesAccountId entry normalizedAccountId) pruned
                                else pruned)
                in return_m (to_sorted (\<lambda>a b. pv_localeLess e (qr_createdAt a) (qr_createdAt b)) filtered)))))"

definition request_meta :: "(string \<times> string option) list option \<Rightarrow> string \<Rightarrow> (string \<times> string) list" where
  "request_meta meta normalizedAccountId =
     (let baseMeta = filter (\<lambda>kv. snd kv \<noteq> []) (map (\<lambda>(k, v). (k, nullish (normalizeOptionalString (map_option JStr v)) [])) (nullish meta []))
      in AList.update ''accountId'' normalizedAccountId baseMeta)"

definition existing_codes :: "pairing_request list \<Rightarrow> string list" where
  "existing_codes reqs = map (\<lambda>req. toUpperCase (nullish (normalizeOptionalString (Some (JStr (qr_code req)))) [])) reqs"

record upsert_result =
  up_code :: string
  up_created :: bool

definition upsertChannelPairingRequest ::
  "pairing_env \<Rightarrow> string \<Rightarrow> json \<Rightarrow> string \<Rightarrow> (string \<times> string option) list option \<Rightarrow> (pairing_world, upsert_result) prog" where
  "upsertChannelPairingRequest e channel senderId accountId metaIn =
     bind_m (lift_m (resolvePairingPath e channel)) (\<lambda>filePath.
       withFileLock e filePath (PairingContent empty_pairing)
        (bind_m (pairing_now e) (\<lambda>nowDate. bind_m (pairing_now e) (\<lambda>nowMs.
          let now = pv_iso e nowDate; i = normalizeId senderId;
              normalized = normalizePairingAccountId (Some accountId);
              normalizedAccountId = (if normalized \<noteq> [] then normalized else DEFAULT_ACCOUNT_ID);
              meta = request_meta metaIn normalizedAccountId
          in bind_m (readPairingStore filePath) (\<lambda>store.
            let wrongAttempts = ps_wrongAttempts store;
                (prunedExpired, expiredRemoved) = pruneExpiredRequests e (ps_requests store) nowMs;
                mine = (\<lambda>r. qr_id r = i \<and> requestMatchesAccountId r normalizedAccountId);
                existingCodes = existing_codes prunedExpired
            in case List.extract mine prunedExpired of
                 Some (before, existing, after) \<Rightarrow>
                   let existingCode = nullish (normalizeOptionalString (Some (JStr (qr_code existing)))) []
                   in bind_m (if existingCode \<noteq> [] then return_m existingCode else generateUniqueCode e existingCodes) (\<lambda>code.
                      let next = \<lparr>qr_id = i, qr_code = code, qr_createdAt = qr_createdAt existing, qr_lastSeenAt = now, qr_meta = Some meta\<rparr>;
                          (capped, cappedRemoved) = pruneExcessRequestsByAccount e (before @ next # after) PAIRING_PENDING_MAX
                      in seq_m (writeJsonFile e filePath (PairingContent \<lparr>ps_requests = capped, ps_wrongAttempts = wrongAttempts\<rparr>))
                           (return_m \<lparr>up_code = code, up_created = False\<rparr>))
               | None \<Rightarrow>
                   let (reqs, cappedRemoved) = pruneExcessRequestsByAccount e prunedExpired PAIRING_PENDING_MAX;
                       accountRequestCount = length (filter (\<lambda>r. requestMatchesAccountId r normalizedAccountId) reqs)
                   in if PAIRING_PENDING_MAX > 0 \<and> accountRequestCount \<ge> PAIRING_PENDING_MAX
                      then seq_m (when_m (expiredRemoved \<or> cappedRemoved)
                             (writeJsonFile e filePath (PairingContent \<lparr>ps_requests = reqs, ps_wrongAttempts = wrongAttempts\<rparr>)))
                           (return_m \<lparr>up_code = [], up_created = False\<rparr>)
                      else bind_m (generateUniqueCode e existingCodes) (\<lambda>code.
                        let next = \<lparr>qr_id = i, qr_code = code, qr_createdAt = now, qr_lastSeenAt = now, qr_meta = Some meta\<rparr>
                        in seq_m (writeJsonFile e filePath (PairingContent \<lparr>ps_requests = reqs @ [next], ps_wrongAttempts = wrongAttempts\<rparr>))
                             (return_m \<lparr>up_code = code, up_created = True\<rparr>)))))))"

datatype approve_result = NoMatch | RateLimited int | Approved string pairing_request

definition approveChannelPairingCode :: "pairing_env \<Rightarrow> string \<Rightarrow> string \<Rightarrow> string option \<Rightarrow> (pairing_world, approve_result) prog" where
  "approveChannelPairingCode e channel codeIn accountId =
     (let code = toUpperCase (nullish (normalizeNullableString (Some (JStr codeIn))) [])
      in if code = [] then return_m NoMatch
         else bind_m (lift_m (resolvePairingPath e channel)) (\<lambda>filePath.
           withFileLock e filePath (PairingContent empty_pairing)
            (bind_m (readPairingStore filePath) (\<lambda>store.
             bind_m (pairing_now e) (\<lambda>now1.
               let remainingMs = pairingCooldownRemainingMs e (ps_wrongAttempts store) now1
               in if remainingMs > 0 then return_m (RateLimited remainingMs)
                  else bind_m (pairing_now e) (\<lambda>now2.
                    let pruned = fst (pruneExpiredRequests e (ps_requests store) now2);
                        normalizedAccountId = normalizePairingAccountId accountId
                    in case List.extract (\<lambda>r. toUpperCase (qr_code r) = code \<and> requestMatchesAccountId r normalizedAccountId) pruned of
                         None \<Rightarrow>
                           bind_m (pairing_now e) (\<lambda>now3.
                             seq_m (writeJsonFile e filePath (PairingContent
                               \<lparr>ps_requests = pruned, ps_wrongAttempts = Some (bumpPairingWrongAttempts e (ps_wrongAttempts store) now3)\<rparr>))
                               (return_m NoMatch))
                       | Some (before, entry, after) \<Rightarrow>
                           seq_m (writeJsonFile e filePath (PairingContent \<lparr>ps_requests = before @ after, ps_wrongAttempts = None\<rparr>))
                           (let entryAccountId = normalizeOptionalString (map_option JStr (meta_account entry));
                                account = (case normalizeOptionalString (map_option JStr accountId) of Some a \<Rightarrow> Some a | None \<Rightarrow> entryAccountId)
                            in seq_m (addChannelAllowFromStoreEntry e channel (JStr (qr_id entry)) (map_option JStr account))
                                 (return_m (Approved (qr_id entry) entry)))))))))"

section \<open>The challenge\<close>

text \<open>\<open>buildReplyText\<close> and \<open>sendPairingReply\<close> are the channel's; a failed reply is only reported.\<close>

definition issuePairingChallenge ::
  "('s, upsert_result) prog \<Rightarrow> (string \<Rightarrow> string) \<Rightarrow> (string \<Rightarrow> ('s, unit) prog) \<Rightarrow> ('s, bool \<times> string option) prog" where
  "issuePairingChallenge upsertPairingRequest buildReplyText sendPairingReply =
     bind_m upsertPairingRequest (\<lambda>r.
       if \<not> up_created r then return_m (False, None)
       else seq_m (catch_m (sendPairingReply (buildReplyText (up_code r))) (\<lambda>_. return_m ()))
              (return_m (True, Some (up_code r))))"

end
