(* ===== verification/Pairing_Access.thy ===== *)
theory Pairing_Access
  imports Pairing_Store
begin

text \<open>
  What pairing promises: the pending requests stay few and their codes distinct whatever the channels and
  the operator do, and wrong codes lock the channel out.
\<close>

section \<open>Pruning\<close>

lemma pruneExpired_filter:
  "pruneExpiredRequests e reqs t = (filter (\<lambda>r. \<not> isExpired e r t) reqs, list_ex (\<lambda>r. isExpired e r t) reqs)"
  by (induction reqs) (simp_all add: Let_def)

lemma nth_filter_upt: "map (\<lambda>i. xs ! i) (filter (\<lambda>i. P (xs ! i)) [0..<length xs]) = filter P xs"
proof -
  have "map (\<lambda>i. xs ! i) (filter (\<lambda>i. P (xs ! i)) [0..<length xs]) = filter P (map (\<lambda>i. xs ! i) [0..<length xs])"
    by (simp add: filter_map comp_def)
  then show ?thesis by (simp add: map_nth)
qed

lemma distinct_to_sorted: "distinct xs \<Longrightarrow> distinct (to_sorted lt xs)"
  by (rule card_distinct) (simp add: distinct_card)

lemma distinct_kept:
  assumes "distinct (map f xs)"
  shows "distinct (map f (map (\<lambda>i. xs ! i) (filter Q [0..<length xs])))"
proof -
  have "distinct (map (\<lambda>i. f (xs ! i)) [0..<length xs])"
    using assms map_nth [of xs] by (metis (no_types, lifting) map_map comp_def map_eq_conv)
  then have "distinct (map (\<lambda>i. f (xs ! i)) (filter Q [0..<length xs]))" by (rule distinct_map_filter)
  then show ?thesis by (simp add: comp_def)
qed

text \<open>Pruning keeps some of the requests, and at most the limit of each account.\<close>

lemma pruneExcess_kept:
  obtains Q where "fst (pruneExcessRequestsByAccount e reqs m) = map (\<lambda>i. reqs ! i) (filter Q [0..<length reqs])"
proof -
  let ?D = "concat (map (dropped_of_account e reqs m) (remdups (map resolvePairingRequestAccountId reqs)))"
  have all: "map (\<lambda>i. reqs ! i) (filter (\<lambda>_. True) [0..<length reqs]) = reqs" by (simp add: map_nth)
  have "fst (pruneExcessRequestsByAccount e reqs m) = map (\<lambda>i. reqs ! i) (filter (\<lambda>_. True) [0..<length reqs])
      \<or> fst (pruneExcessRequestsByAccount e reqs m) = map (\<lambda>i. reqs ! i) (filter (\<lambda>i. i \<notin> set ?D) [0..<length reqs])"
    unfolding all pruneExcessRequestsByAccount_def Let_def by simp
  then show ?thesis by (elim disjE) (rule that, assumption)+
qed

lemma pruneExcess_subset: "set (fst (pruneExcessRequestsByAccount e reqs m)) \<subseteq> set reqs"
proof -
  obtain Q where "fst (pruneExcessRequestsByAccount e reqs m) = map (\<lambda>i. reqs ! i) (filter Q [0..<length reqs])"
    by (rule pruneExcess_kept)
  then show ?thesis by auto
qed

lemma pruneExcess_distinct: "distinct (map f reqs) \<Longrightarrow> distinct (map f (fst (pruneExcessRequestsByAccount e reqs m)))"
  using pruneExcess_kept [of e reqs m] distinct_kept [of f reqs] by metis

definition of_account :: "string \<Rightarrow> pairing_request list \<Rightarrow> pairing_request list" where
  "of_account a reqs = filter (\<lambda>r. resolvePairingRequestAccountId r = a) reqs"

lemma pruneExcess_bound:
  assumes "0 < m"
  shows "length (of_account a (fst (pruneExcessRequestsByAccount e reqs m))) \<le> m"
proof (cases "length reqs \<le> m")
  case True
  then have "fst (pruneExcessRequestsByAccount e reqs m) = reqs" by (simp add: pruneExcessRequestsByAccount_def)
  with True show ?thesis unfolding of_account_def by (metis length_filter_le le_trans)
next
  case False
  let ?acc = "\<lambda>i. resolvePairingRequestAccountId (reqs ! i)" and ?n = "length reqs"
  let ?I = "filter (\<lambda>i. ?acc i = a) [0..<?n]" and ?drop = "dropped_of_account e reqs m a"
  let ?D = "concat (map (dropped_of_account e reqs m) (remdups (map resolvePairingRequestAccountId reqs)))"
  let ?kept = "filter (\<lambda>i. i \<notin> set ?D) [0..<?n]"
  have fst: "fst (pruneExcessRequestsByAccount e reqs m) = map (\<lambda>i. reqs ! i) ?kept"
    using False assms by (simp add: pruneExcessRequestsByAccount_def Let_def map_nth del: set_concat concat_eq_Nil_conv)
  have "of_account a (fst (pruneExcessRequestsByAccount e reqs m)) = map (\<lambda>i. reqs ! i) (filter (\<lambda>i. ?acc i = a) ?kept)"
    unfolding fst of_account_def by (simp add: filter_map comp_def)
  then have len: "length (of_account a (fst (pruneExcessRequestsByAccount e reqs m))) = card {i \<in> set ?I. i \<notin> set ?D}"
    by (simp add: distinct_length_filter flip: distinct_card) (metis (no_types, lifting) Collect_cong)
  show ?thesis
  proof (cases "length ?I \<le> m")
    case True
    have "card {i \<in> set ?I. i \<notin> set ?D} \<le> card (set ?I)" by (rule card_mono) auto
    also have "\<dots> \<le> length ?I" by (rule card_length)
    finally show ?thesis using True len by simp
  next
    case more: False
    then have "?I \<noteq> []" by (metis le0 list.size(3))
    then obtain i where "i < ?n" "?acc i = a" unfolding filter_empty_conv by auto
    then have "a \<in> set (map resolvePairingRequestAccountId reqs)" by auto
    then have "set ?drop \<subseteq> set ?D" by auto
    then have "card {i \<in> set ?I. i \<notin> set ?D} \<le> card (set ?I - set ?drop)" by (intro card_mono) auto
    moreover have "distinct (to_sorted (\<lambda>i j. resolveLastSeenAt e (reqs ! i) < resolveLastSeenAt e (reqs ! j)) ?I)"
      by (rule distinct_to_sorted) simp
    then have "card (set ?drop) = length ?I - m" "set ?drop \<subseteq> set ?I"
      using more by (auto simp: dropped_of_account_def Let_def distinct_card dest!: in_set_takeD)
    moreover have "card (set ?I) = length ?I" by (rule distinct_card) simp
    ultimately show ?thesis using len more by (simp add: card_Diff_subset)
  qed
qed

section \<open>The pending requests\<close>

text \<open>What holds of every file of pending requests: no two requests share a code, no code is blank, and no
  account has more than the limit.\<close>

definition pending_ok :: "pairing_request list \<Rightarrow> bool" where
  "pending_ok reqs \<longleftrightarrow>
     distinct (existing_codes reqs) \<and> [] \<notin> set (existing_codes reqs) \<and> (\<forall>a. length (of_account a reqs) \<le> PAIRING_PENDING_MAX)"

definition pairing_ok :: "pairing_world \<Rightarrow> bool" where
  "pairing_ok w \<longleftrightarrow> (\<forall>path. pending_ok (ps_requests (pairing_of (file_content w path))))"

lemma pending_ok_Nil [simp]: "pending_ok []"
  by (simp add: pending_ok_def existing_codes_def of_account_def)

lemma existing_codes_map: "existing_codes = map (\<lambda>r. toUpperCase (js_trim (qr_code r)))"
  unfolding existing_codes_def normalize_trim ..

lemma of_account_filter: "length (of_account a (filter P reqs)) \<le> length (of_account a reqs)"
  by (induction reqs) (auto simp: of_account_def)

lemma pending_ok_filter: "pending_ok reqs \<Longrightarrow> pending_ok (filter P reqs)"
proof -
  assume ok: "pending_ok reqs"
  then have "\<forall>a. length (of_account a (filter P reqs)) \<le> PAIRING_PENDING_MAX"
    unfolding pending_ok_def by (blast intro: le_trans of_account_filter)
  then show ?thesis using ok by (auto simp: pending_ok_def existing_codes_map distinct_map_filter)
qed

lemma pending_ok_remove: "pending_ok (xs @ r # ys) \<Longrightarrow> pending_ok (xs @ ys)"
proof -
  assume ok: "pending_ok (xs @ r # ys)"
  have "length (of_account a (xs @ ys)) \<le> length (of_account a (xs @ r # ys))" for a by (simp add: of_account_def)
  then have "\<forall>a. length (of_account a (xs @ ys)) \<le> PAIRING_PENDING_MAX" using ok unfolding pending_ok_def by (blast intro: le_trans)
  then show ?thesis using ok by (auto simp: pending_ok_def existing_codes_map)
qed

lemma pending_ok_expired: "pending_ok reqs \<Longrightarrow> pending_ok (fst (pruneExpiredRequests e reqs t))"
  by (simp add: pruneExpired_filter pending_ok_filter)

lemma pending_max_pos [simp]: "0 < PAIRING_PENDING_MAX"
  by (simp add: PAIRING_PENDING_MAX_def)

lemma pending_ok_capped:
  assumes "distinct (existing_codes reqs)" "[] \<notin> set (existing_codes reqs)"
  shows "pending_ok (fst (pruneExcessRequestsByAccount e reqs PAIRING_PENDING_MAX))"
proof -
  have "set (existing_codes (fst (pruneExcessRequestsByAccount e reqs PAIRING_PENDING_MAX))) \<subseteq> set (existing_codes reqs)"
    unfolding existing_codes_map set_map by (rule image_mono [OF pruneExcess_subset])
  with assms show ?thesis
    unfolding pending_ok_def using pruneExcess_bound [OF pending_max_pos] pruneExcess_distinct [of _ reqs e]
    by (auto simp: existing_codes_map)
qed

section \<open>Codes\<close>

lemma alphabet_chars: "list_all (\<lambda>c. js_upper_char c = [c] \<and> \<not> js_whitespace c) PAIRING_CODE_ALPHABET"
  by code_simp

lemma alphabet_pos [simp]: "0 < length PAIRING_CODE_ALPHABET"
  by (simp add: PAIRING_CODE_ALPHABET_def)

lemma alphabet_nth [simp]:
  "js_upper_char (PAIRING_CODE_ALPHABET ! (x mod length PAIRING_CODE_ALPHABET)) = [PAIRING_CODE_ALPHABET ! (x mod length PAIRING_CODE_ALPHABET)]"
  "\<not> js_whitespace (PAIRING_CODE_ALPHABET ! (x mod length PAIRING_CODE_ALPHABET))"
  using alphabet_chars mod_less_divisor [OF alphabet_pos] by (auto simp: list_all_length)

text \<open>A plain code is the one it is compared by.\<close>

definition plain_code :: "string \<Rightarrow> bool" where
  "plain_code code \<longleftrightarrow> code \<noteq> [] \<and> toUpperCase code = code \<and> list_all (\<lambda>c. \<not> js_whitespace c) code"

lemma trim_plain: "list_all (\<lambda>c. \<not> js_whitespace c) s \<Longrightarrow> js_trim s = s"
proof -
  assume plain: "list_all (\<lambda>c. \<not> js_whitespace c) s"
  have keep: "list_all (\<lambda>c. \<not> js_whitespace c) t \<Longrightarrow> dropWhile js_whitespace t = t" for t by (cases t) simp_all
  from plain have "list_all (\<lambda>c. \<not> js_whitespace c) (rev s)" by simp
  with plain show ?thesis by (simp add: js_trim_def keep)
qed

lemma plain_code_same: "plain_code code \<Longrightarrow> toUpperCase (js_trim code) = code"
  by (simp add: plain_code_def trim_plain)

lemma random_chars_plain:
  "\<exists>code k. random_chars e n w = (Inr code, w\<lparr>pw_random := k\<rparr>) \<and> length code = n \<and> toUpperCase code = code
     \<and> list_all (\<lambda>c. \<not> js_whitespace c) code"
proof (induction n arbitrary: w)
  case 0
  have "random_chars e 0 w = (Inr [], w\<lparr>pw_random := pw_random w\<rparr>)" by simp
  then show ?case by (intro exI conjI) (assumption, simp_all add: toUpperCase_def)
next
  case (Suc n)
  let ?w = "w\<lparr>pw_random := Suc (pw_random w)\<rparr>" and ?c = "PAIRING_CODE_ALPHABET ! (pv_random e (pw_random w) mod length PAIRING_CODE_ALPHABET)"
  obtain code k where code: "random_chars e n ?w = (Inr code, ?w\<lparr>pw_random := k\<rparr>)" "length code = n" "toUpperCase code = code"
      "list_all (\<lambda>c. \<not> js_whitespace c) code" using Suc.IH by blast
  then have "random_chars e (Suc n) w = (Inr (?c # code), w\<lparr>pw_random := k\<rparr>)" by (simp add: Let_def bind_m_apply)
  moreover have "toUpperCase (?c # code) = ?c # code" using code(3) by (simp add: toUpperCase_def)
  ultimately show ?case using code(2,4) by (intro exI conjI) (assumption, simp_all)
qed

lemma randomCode_plain: "\<exists>code k. randomCode e w = (Inr code, w\<lparr>pw_random := k\<rparr>) \<and> plain_code code"
proof -
  obtain code k where "random_chars e PAIRING_CODE_LENGTH w = (Inr code, w\<lparr>pw_random := k\<rparr>)" "length code = PAIRING_CODE_LENGTH"
      "toUpperCase code = code" "list_all (\<lambda>c. \<not> js_whitespace c) code" using random_chars_plain by blast
  moreover from this(2) have "code \<noteq> []" by (auto simp: PAIRING_CODE_LENGTH_def)
  ultimately show ?thesis unfolding randomCode_def plain_code_def by blast
qed

lemma try_codes_result:
  "\<exists>r k. try_codes e existing n w = (r, w\<lparr>pw_random := k\<rparr>) \<and> (\<forall>code. r = Inr code \<longrightarrow> plain_code code \<and> code \<notin> set existing)"
proof (induction n arbitrary: w)
  case 0
  have "try_codes e existing 0 w = (fst (try_codes e existing 0 w), w\<lparr>pw_random := pw_random w\<rparr>)" by simp
  then show ?case by (intro exI conjI) (assumption, simp)
next
  case (Suc n)
  obtain code k where code: "randomCode e w = (Inr code, w\<lparr>pw_random := k\<rparr>)" "plain_code code" using randomCode_plain by blast
  show ?case
  proof (cases "code \<in> set existing")
    case True
    with code(1) have "try_codes e existing (Suc n) w = try_codes e existing n (w\<lparr>pw_random := k\<rparr>)" by (simp add: bind_m_apply)
    moreover obtain r j where "try_codes e existing n (w\<lparr>pw_random := k\<rparr>) = (r, w\<lparr>pw_random := k\<rparr>\<lparr>pw_random := j\<rparr>)"
        "\<forall>code. r = Inr code \<longrightarrow> plain_code code \<and> code \<notin> set existing" using Suc.IH by blast
    ultimately show ?thesis by (intro exI conjI) (simp, assumption)
  next
    case False
    with code(1) have "try_codes e existing (Suc n) w = (Inr code, w\<lparr>pw_random := k\<rparr>)" by (simp add: bind_m_apply)
    with code(2) False show ?thesis by (intro exI conjI) (assumption, simp)
  qed
qed

lemma unique_code:
  obtains r k where "generateUniqueCode e existing w = (r, w\<lparr>pw_random := k\<rparr>)"
    "\<And>code. r = Inr code \<Longrightarrow> plain_code code \<and> code \<notin> set existing"
  using try_codes_result [of e existing PAIRING_CODE_MAX_ATTEMPTS w] unfolding generateUniqueCode_def by blast

section \<open>Accounts\<close>

lemma of_lower_char:
  "(of_char (js_lower_char c) :: nat) =
     (let n = of_char c in if 65 \<le> n \<and> n \<le> 90 \<or> 192 \<le> n \<and> n \<le> 222 \<and> n \<noteq> 215 then n + 32 else n)"
  by (auto simp: js_lower_char_def Let_def)

lemma lower_char [simp]: "js_lower_char (js_lower_char c) = js_lower_char c" "js_whitespace (js_lower_char c) = js_whitespace c"
proof -
  have "(of_char (js_lower_char (js_lower_char c)) :: nat) = of_char (js_lower_char c)"
    by (simp only: of_lower_char Let_def) auto
  then show "js_lower_char (js_lower_char c) = js_lower_char c" by simp
  show "js_whitespace (js_lower_char c) = js_whitespace c"
    by (simp only: js_whitespace_def of_lower_char Let_def) auto
qed

lemma trim_lower: "js_trim (toLowerCase s) = toLowerCase (js_trim s)"
proof -
  have "dropWhile js_whitespace (map js_lower_char t) = map js_lower_char (dropWhile js_whitespace t)" for t
    by (simp add: dropWhile_map comp_def)
  then show ?thesis by (simp add: toLowerCase_def js_trim_def rev_map)
qed

lemma lower_idem [simp]: "toLowerCase (toLowerCase s) = toLowerCase s"
  by (simp add: toLowerCase_def)

lemma normalize_lower: "normalizeLowercaseStringOrEmpty (Some (JStr s)) = toLowerCase (js_trim s)"
  by (simp add: normalizeLowercaseStringOrEmpty_def normalizeOptionalLowercaseString_def normalizeOptionalString_def
      normalizeNullableString_def Let_def toLowerCase_def)

lemma account_idem [simp]: "normalizePairingAccountId (Some (normalizePairingAccountId a)) = normalizePairingAccountId a"
proof (cases a)
  case None
  then show ?thesis by (simp add: normalizePairingAccountId_def normalizeLowercaseStringOrEmpty_def normalizeOptionalLowercaseString_def
      normalizeOptionalString_def normalizeNullableString_def)
next
  case (Some s)
  then show ?thesis by (simp add: normalizePairingAccountId_def normalize_lower trim_lower js_trim_idem)
qed

text \<open>The account a request is stored under.\<close>

definition account_key :: "string \<Rightarrow> string" where
  "account_key accountId =
     (let normalized = normalizePairingAccountId (Some accountId) in if normalized \<noteq> [] then normalized else DEFAULT_ACCOUNT_ID)"

lemma account_key_nonempty [simp]: "account_key a \<noteq> []"
  by (simp add: account_key_def Let_def DEFAULT_ACCOUNT_ID_def)

lemma default_normal: "normalizePairingAccountId (Some DEFAULT_ACCOUNT_ID) = DEFAULT_ACCOUNT_ID"
  by code_simp

lemma account_key_idem [simp]: "normalizePairingAccountId (Some (account_key a)) = account_key a" "account_key (account_key a) = account_key a"
  by (simp_all add: account_key_def Let_def default_normal)

lemma meta_of_request: "map_of (request_meta m a) ''accountId'' = Some a"
  by (simp add: request_meta_def Let_def update_conv')

lemma account_of_request [simp]:
  "resolvePairingRequestAccountId \<lparr>qr_id = i, qr_code = c, qr_createdAt = t, qr_lastSeenAt = u, qr_meta = Some (request_meta m (account_key a))\<rparr> = account_key a"
  by (simp add: resolvePairingRequestAccountId_def meta_account_def meta_of_request Let_def)

section \<open>Every operation keeps the pending requests in order\<close>

lemma file_content_updates [simp]:
  "file_content (w\<lparr>pw_clock := a\<rparr>) = file_content w" "file_content (w\<lparr>pw_random := a\<rparr>) = file_content w"
  "file_content (w\<lparr>pw_cache := c\<rparr>) = file_content w" "file_content (w\<lparr>pw_locks := a\<rparr>) = file_content w"
  "file_content (w\<lparr>pw_writes := a\<rparr>) = file_content w"
  by (simp_all add: fun_eq_iff file_content_def)

lemma writeJsonFile_content:
  "file_content (snd (writeJsonFile e path c w)) q = (if q = path \<and> pv_writeThrows e (pw_writes w) = None then Some c else file_content w q)"
  by (simp add: writeJsonFile_def Let_def file_content_def update_conv' split: option.split)

lemma write_keeps_ok: "pending_ok (ps_requests (pairing_of (Some c))) \<Longrightarrow> preserves pairing_ok (writeJsonFile e path c)"
  by (rule preservesI) (simp add: pairing_ok_def writeJsonFile_content)

lemma pairing_of_simps [simp]:
  "pairing_of (Some (PairingContent st)) = st" "pairing_of (Some (AllowContent xs)) = empty_pairing" "ps_requests empty_pairing = []"
  by (simp_all add: pairing_of_def empty_pairing_def)

lemma small_steps_keep [preserves_intros]:
  "preserves pairing_ok (pairing_now e)" "preserves pairing_ok (take_lock e)" "preserves pairing_ok (setAllowFromFileReadCache ns q entry)"
  by (auto intro!: preservesI simp: pairing_now_def take_lock_def setAllowFromFileReadCache_def pairing_ok_def split: option.split)

lemma withFileLock_keeps:
  assumes "pending_ok (ps_requests (pairing_of (Some fallback)))" "preserves pairing_ok body"
  shows "preserves pairing_ok (withFileLock e path fallback body)"
  unfolding withFileLock_def ensureJsonFile_def
  by (intro preserves_intros assms write_keeps_ok)

text \<open>The value a step yields may satisfy more than its type says; the rest may rely on it.\<close>

lemma preserves_bind_fact:
  assumes "preserves P m" "\<And>w x w'. P w \<Longrightarrow> m w = (Inr x, w') \<Longrightarrow> R x" "\<And>x. R x \<Longrightarrow> preserves P (k x)"
  shows "preserves P (bind_m m k)"
proof (rule preservesI)
  fix w assume P: "P w"
  obtain r w' where m: "m w = (r, w')" by fastforce
  with P assms(1) have "P w'" by (metis preservesD snd_conv)
  with m assms(2) [OF P] assms(3) show "P (snd (bind_m m k w))" by (cases r) (auto simp: bind_m_apply preserves_def)
qed

lemma unique_code_keeps: "preserves pairing_ok (generateUniqueCode e existing)"
proof (rule preservesI)
  fix w assume "pairing_ok w"
  moreover obtain r k where "generateUniqueCode e existing w = (r, w\<lparr>pw_random := k\<rparr>)" by (rule unique_code)
  ultimately show "pairing_ok (snd (generateUniqueCode e existing w))" by (simp add: pairing_ok_def)
qed

lemma unique_code_fact: "generateUniqueCode e existing w = (Inr code, w') \<Longrightarrow> plain_code code \<and> code \<notin> set existing"
  using unique_code [of e existing w] by (metis prod.inject)

lemma read_store_ok: "preserves pairing_ok (readPairingStore path)"
  "pairing_ok w \<Longrightarrow> readPairingStore path w = (Inr st, w') \<Longrightarrow> pending_ok (ps_requests st)"
  by (auto simp: readPairingStore_def preserves_def pairing_ok_def)

lemma read_pruned_ok: "preserves pairing_ok (readPrunedPairingRequests e path)"
  "pairing_ok w \<Longrightarrow> readPrunedPairingRequests e path w = (Inr r, w') \<Longrightarrow> pending_ok (fst r)"
proof -
  show "preserves pairing_ok (readPrunedPairingRequests e path)"
    unfolding readPrunedPairingRequests_def readPairingRequests_def by (intro preserves_intros)
  show "pairing_ok w \<Longrightarrow> readPrunedPairingRequests e path w = (Inr r, w') \<Longrightarrow> pending_ok (fst r)"
    by (auto simp: readPrunedPairingRequests_def readPairingRequests_def bind_m_apply pairing_now_def pairing_ok_def pending_ok_expired)
qed

lemma capped_ok: "pending_ok reqs \<Longrightarrow> pending_ok (fst (pruneExcessRequestsByAccount e reqs PAIRING_PENDING_MAX))"
  by (rule pending_ok_capped) (simp_all add: pending_ok_def)

lemma list_keeps_ok: "preserves pairing_ok (listChannelPairingRequests e channel accountId)"
  unfolding listChannelPairingRequests_def Let_def case_prod_beta
  by (intro preserves_intros withFileLock_keeps preserves_bind_fact [where R = "\<lambda>r. pending_ok (fst r)", OF read_pruned_ok] write_keeps_ok)
    (simp_all add: capped_ok)

lemma add_keeps_ok: "preserves pairing_ok (updateAllowFromStoreEntry e channel entry accountId change)"
  unfolding updateAllowFromStoreEntry_def readAllowFromState_def writeAllowFromState_def
  by (intro preserves_intros withFileLock_keeps write_keeps_ok) simp_all

lemma approve_keeps_ok: "preserves pairing_ok (approveChannelPairingCode e channel code accountId)"
proof -
  have removed: "pending_ok (xs @ ys)" if "pending_ok reqs" "List.extract Q (fst (pruneExpiredRequests e reqs t)) = Some (xs, r, ys)" for reqs Q t xs r ys
    using pending_ok_expired [OF that(1), of e t] that(2) by (auto simp: extract_Some_iff intro: pending_ok_remove)
  show ?thesis
    unfolding approveChannelPairingCode_def Let_def addChannelAllowFromStoreEntry_def
    by (intro preserves_intros withFileLock_keeps preserves_bind_fact [where R = "\<lambda>st. pending_ok (ps_requests st)", OF read_store_ok]
        write_keeps_ok add_keeps_ok)
      (auto simp: pending_ok_expired removed)
qed

lemma renewed_ok:
  assumes "pending_ok (xs @ r # ys)" "code = js_trim (qr_code r) \<or> plain_code code \<and> code \<notin> set (existing_codes (xs @ r # ys))"
    and "qr_code next = code"
  shows "pending_ok (fst (pruneExcessRequestsByAccount e (xs @ next # ys) PAIRING_PENDING_MAX))"
proof (rule pending_ok_capped)
  let ?c = "toUpperCase (js_trim code)" and ?d = "toUpperCase (js_trim (qr_code r))"
  have codes: "existing_codes (xs @ next # ys) = existing_codes xs @ ?c # existing_codes ys"
    "existing_codes (xs @ r # ys) = existing_codes xs @ ?d # existing_codes ys"
    using assms(3) by (simp_all add: existing_codes_map)
  have "?c = ?d \<or> ?c \<noteq> [] \<and> ?c \<notin> set (existing_codes xs) \<union> set (existing_codes ys)"
    using assms(2) by (auto simp: js_trim_idem plain_code_same codes(2)) (simp add: plain_code_def)
  moreover have "distinct (existing_codes xs @ ?d # existing_codes ys)" "[] \<notin> set (existing_codes xs @ ?d # existing_codes ys)"
    using assms(1) unfolding pending_ok_def codes(2) by blast+
  ultimately show "distinct (existing_codes (xs @ next # ys))" "[] \<notin> set (existing_codes (xs @ next # ys))"
    unfolding codes by auto
qed

lemma added_ok:
  assumes "pending_ok pruned" "reqs = fst (pruneExcessRequestsByAccount e pruned PAIRING_PENDING_MAX)"
    and "length (of_account a reqs) < PAIRING_PENDING_MAX" "plain_code code" "code \<notin> set (existing_codes pruned)"
    and "qr_code next = code" "resolvePairingRequestAccountId next = a"
  shows "pending_ok (reqs @ [next])"
proof -
  have ok: "pending_ok reqs" unfolding assms(2) by (rule capped_ok) (rule assms(1))
  have "set reqs \<subseteq> set pruned" unfolding assms(2) by (rule pruneExcess_subset)
  then have "code \<notin> set (existing_codes reqs)" using assms(5) by (auto simp: existing_codes_map)
  moreover have "length (of_account b (reqs @ [next])) \<le> PAIRING_PENDING_MAX" for b
    using ok assms(3,7) by (auto simp: pending_ok_def of_account_def)
  moreover have "code \<noteq> []" using assms(4) by (simp add: plain_code_def)
  ultimately show ?thesis
    using ok assms(4,6) by (auto simp: pending_ok_def existing_codes_map plain_code_same)
qed

lemma matches_account_key: "requestMatchesAccountId r (account_key a) \<longleftrightarrow> resolvePairingRequestAccountId r = account_key a"
  by (simp add: requestMatchesAccountId_def)

text \<open>The body of the operation, with its account named.\<close>

definition upsert_body ::
  "pairing_env \<Rightarrow> string \<Rightarrow> json \<Rightarrow> string \<Rightarrow> (string \<times> string option) list option \<Rightarrow> int \<Rightarrow> int \<Rightarrow> pairing_store \<Rightarrow> (pairing_world, upsert_result) prog" where
  "upsert_body e filePath senderId accountId metaIn nowDate nowMs store =
     (let pruned = fst (pruneExpiredRequests e (ps_requests store) nowMs);
          request = (\<lambda>code createdAt. \<lparr>qr_id = normalizeId senderId, qr_code = code, qr_createdAt = createdAt,
            qr_lastSeenAt = pv_iso e nowDate, qr_meta = Some (request_meta metaIn (account_key accountId))\<rparr>);
          write = (\<lambda>reqs. writeJsonFile e filePath (PairingContent \<lparr>ps_requests = reqs, ps_wrongAttempts = ps_wrongAttempts store\<rparr>))
      in case List.extract (\<lambda>r. qr_id r = normalizeId senderId \<and> requestMatchesAccountId r (account_key accountId)) pruned of
           Some (before, existing, after) \<Rightarrow>
             bind_m (if js_trim (qr_code existing) \<noteq> [] then return_m (js_trim (qr_code existing))
                     else generateUniqueCode e (existing_codes pruned)) (\<lambda>code.
               seq_m (write (fst (pruneExcessRequestsByAccount e (before @ request code (qr_createdAt existing) # after) PAIRING_PENDING_MAX)))
                 (return_m \<lparr>up_code = code, up_created = False\<rparr>))
         | None \<Rightarrow>
             let reqs = fst (pruneExcessRequestsByAccount e pruned PAIRING_PENDING_MAX)
             in if PAIRING_PENDING_MAX \<le> length (of_account (account_key accountId) reqs)
                then seq_m (when_m (snd (pruneExpiredRequests e (ps_requests store) nowMs) \<or> snd (pruneExcessRequestsByAccount e pruned PAIRING_PENDING_MAX))
                       (write reqs)) (return_m \<lparr>up_code = [], up_created = False\<rparr>)
                else bind_m (generateUniqueCode e (existing_codes pruned)) (\<lambda>code.
                  seq_m (write (reqs @ [request code (pv_iso e nowDate)])) (return_m \<lparr>up_code = code, up_created = True\<rparr>)))"

lemma upsert_unfold:
  "upsertChannelPairingRequest e channel senderId accountId metaIn =
     bind_m (lift_m (resolvePairingPath e channel)) (\<lambda>filePath.
       withFileLock e filePath (PairingContent empty_pairing)
        (bind_m (pairing_now e) (\<lambda>nowDate. bind_m (pairing_now e) (\<lambda>nowMs. bind_m (readPairingStore filePath)
          (upsert_body e filePath senderId accountId metaIn nowDate nowMs)))))"
  unfolding upsertChannelPairingRequest_def upsert_body_def normalize_trim case_prod_beta Let_def
    account_key_def [unfolded Let_def, symmetric] matches_account_key of_account_def
  by (simp cong: option.case_cong)

lemma upsert_body_keeps:
  assumes "pending_ok (ps_requests store)"
  shows "preserves pairing_ok (upsert_body e path senderId accountId metaIn nowDate nowMs store)"
proof -
  have ok: "pending_ok (fst (pruneExpiredRequests e (ps_requests store) nowMs))" using assms by (rule pending_ok_expired)
  have written: "preserves pairing_ok (bind_m m (\<lambda>code. seq_m (writeJsonFile e path (PairingContent (st code))) (return_m (r code))))"
    if "preserves pairing_ok m" "\<And>w code w'. m w = (Inr code, w') \<Longrightarrow> R code" "\<And>code. R code \<Longrightarrow> pending_ok (ps_requests (st code))"
    for m path st and r :: "string \<Rightarrow> upsert_result" and R
    using that by (intro preserves_bind_fact [where R = R] preserves_seq preserves_return write_keeps_ok) simp_all
  have code: "preserves pairing_ok (if b then return_m c else generateUniqueCode e xs)" for b c xs
    by (intro preserves_intros unique_code_keeps)
  let ?new = "\<lambda>c. plain_code c \<and> c \<notin> set (existing_codes (fst (pruneExpiredRequests e (ps_requests store) nowMs)))"
  show ?thesis
    unfolding upsert_body_def Let_def
  proof (intro preserves_case_option preserves_case_prod preserves_if, goal_cases)
    case 1
    then show ?case by (intro preserves_intros write_keeps_ok) (simp add: capped_ok ok)
  next
    case 2
    show ?case
    proof (rule written [where R = ?new])
      show "pending_ok (ps_requests \<lparr>ps_requests = fst (pruneExcessRequestsByAccount e (fst (pruneExpiredRequests e (ps_requests store) nowMs)) PAIRING_PENDING_MAX)
          @ [\<lparr>qr_id = normalizeId senderId, qr_code = code, qr_createdAt = pv_iso e nowDate, qr_lastSeenAt = pv_iso e nowDate,
               qr_meta = Some (request_meta metaIn (account_key accountId))\<rparr>], ps_wrongAttempts = ps_wrongAttempts store\<rparr>)"
        if "?new code" for code
        using 2 that by (simp, intro added_ok [OF ok refl]) simp_all
    qed (auto simp: unique_code_keeps dest: unique_code_fact)
  next
    case (3 y before z existing after)
    then have split: "fst (pruneExpiredRequests e (ps_requests store) nowMs) = before @ existing # after" by (simp add: extract_Some_iff)
    show ?case
    proof (rule written [where R = "\<lambda>c. c = js_trim (qr_code existing) \<or> ?new c"])
      show "pending_ok (ps_requests \<lparr>ps_requests = fst (pruneExcessRequestsByAccount e (before @
          \<lparr>qr_id = normalizeId senderId, qr_code = code, qr_createdAt = qr_createdAt existing, qr_lastSeenAt = pv_iso e nowDate,
               qr_meta = Some (request_meta metaIn (account_key accountId))\<rparr> # after) PAIRING_PENDING_MAX), ps_wrongAttempts = ps_wrongAttempts store\<rparr>)"
        if "code = js_trim (qr_code existing) \<or> ?new code" for code
        using that ok unfolding split by (simp, intro renewed_ok) simp_all
    qed (auto simp: code dest: unique_code_fact split: if_splits)
  qed
qed

lemma upsert_keeps_ok: "preserves pairing_ok (upsertChannelPairingRequest e channel senderId accountId metaIn)"
  unfolding upsert_unfold
  by (intro preserves_bind preserves_lift withFileLock_keeps small_steps_keep upsert_body_keeps
      preserves_bind_fact [where R = "\<lambda>st. pending_ok (ps_requests st)", OF read_store_ok]) simp_all

section \<open>Sequences of operations\<close>

text \<open>What the channels and the operator do with the stores of all channels, in any order.\<close>

datatype pairing_op =
  OpList string "string option"
| OpAsk string json string "(string \<times> string option) list option"
| OpApprove string string "string option"
| OpAdd string json "json option"
| OpRemove string json "json option"

definition run_op :: "pairing_env \<Rightarrow> pairing_op \<Rightarrow> pairing_world \<Rightarrow> pairing_world" where
  "run_op e op w =
     (case op of
        OpList channel account \<Rightarrow> snd (listChannelPairingRequests e channel account w)
      | OpAsk channel sender account meta \<Rightarrow> snd (upsertChannelPairingRequest e channel sender account meta w)
      | OpApprove channel code account \<Rightarrow> snd (approveChannelPairingCode e channel code account w)
      | OpAdd channel entry account \<Rightarrow> snd (addChannelAllowFromStoreEntry e channel entry account w)
      | OpRemove channel entry account \<Rightarrow> snd (removeChannelAllowFromStoreEntry e channel entry account w))"

definition run_ops :: "pairing_env \<Rightarrow> pairing_op list \<Rightarrow> pairing_world \<Rightarrow> pairing_world" where
  "run_ops e ops w = fold (run_op e) ops w"

lemma run_op_ok: "pairing_ok w \<Longrightarrow> pairing_ok (run_op e op w)"
  using list_keeps_ok upsert_keeps_ok approve_keeps_ok add_keeps_ok
  by (cases op) (auto simp: run_op_def addChannelAllowFromStoreEntry_def removeChannelAllowFromStoreEntry_def preserves_def)

lemma run_ops_invariant: "P w \<Longrightarrow> (\<And>op w. op \<in> set ops \<Longrightarrow> P w \<Longrightarrow> P (run_op e op w)) \<Longrightarrow> P (run_ops e ops w)"
  unfolding run_ops_def by (induction ops arbitrary: w) simp_all

text \<open>C16. Whatever senders ask for and the operator lists, approves, adds or removes, on all channels and in any
  order, starting without files: no account ever has more than three pending requests, no two requests
  of a channel share a code, and no code is blank. Failing writes and locks change nothing about it.\<close>

theorem pending_requests_bounded:
  fixes e w0 ops path
  defines "w \<equiv> run_ops e ops (w0\<lparr>pw_files := []\<rparr>)"
  defines "reqs \<equiv> ps_requests (pairing_of (file_content w path))"
  shows "length (filter (\<lambda>r. resolvePairingRequestAccountId r = account) reqs) \<le> PAIRING_PENDING_MAX
    \<and> distinct (existing_codes reqs) \<and> [] \<notin> set (existing_codes reqs)"
proof -
  have "pairing_ok (w0\<lparr>pw_files := []\<rparr>)" by (simp add: pairing_ok_def file_content_def pairing_of_def empty_pairing_def)
  then have "pairing_ok w" unfolding w_def by (rule run_ops_invariant) (rule run_op_ok)
  then show ?thesis unfolding reqs_def pairing_ok_def pending_ok_def of_account_def by blast
qed

section \<open>The lock-out\<close>

text \<open>A channel is locked out until a time when its counter says so for every reading of the clock before
  it.\<close>

definition locked_until :: "pairing_env \<Rightarrow> wrong_attempts \<Rightarrow> int \<Rightarrow> bool" where
  "locked_until e a t \<longleftrightarrow>
     PAIRING_WRONG_ATTEMPT_THRESHOLD \<le> wa_count a
     \<and> (\<exists>lastAt. parseTimestamp e (wa_lastAt a) = Some lastAt \<and> t \<le> lastAt + computePairingCooldownMs (wa_count a))"

lemma cooldown_bounds:
  assumes "PAIRING_WRONG_ATTEMPT_THRESHOLD \<le> n"
  shows "PAIRING_WRONG_ATTEMPT_BASE_COOLDOWN_MS \<le> computePairingCooldownMs n" "computePairingCooldownMs n \<le> PAIRING_WRONG_ATTEMPT_MAX_COOLDOWN_MS"
proof -
  have "(1 :: int) \<le> 2 ^ (n - 3)" by simp
  with assms show "PAIRING_WRONG_ATTEMPT_BASE_COOLDOWN_MS \<le> computePairingCooldownMs n"
    "computePairingCooldownMs n \<le> PAIRING_WRONG_ATTEMPT_MAX_COOLDOWN_MS"
    by (simp_all add: computePairingCooldownMs_def PAIRING_WRONG_ATTEMPT_THRESHOLD_def PAIRING_WRONG_ATTEMPT_BASE_COOLDOWN_MS_def
        PAIRING_WRONG_ATTEMPT_MAX_COOLDOWN_MS_def)
qed

lemma locked_remaining: "locked_until e a t \<Longrightarrow> now < t \<Longrightarrow> 0 < pairingCooldownRemainingMs e (Some a) now"
  using cooldown_bounds(1) [of "wa_count a"]
  by (auto simp: locked_until_def pairingCooldownRemainingMs_def Let_def PAIRING_WRONG_ATTEMPT_BASE_COOLDOWN_MS_def)

text \<open>What stays the same while a channel is locked out: its counter and every file but its own.\<close>

definition lock_state :: "pairing_env \<Rightarrow> string \<Rightarrow> wrong_attempts \<Rightarrow> int \<Rightarrow> (string \<Rightarrow> store_content option) \<Rightarrow> nat \<Rightarrow> pairing_world \<Rightarrow> bool" where
  "lock_state e path a t others k w \<longleftrightarrow>
     (\<exists>reqs. file_content w path = Some (PairingContent \<lparr>ps_requests = reqs, ps_wrongAttempts = Some a\<rparr>))
     \<and> (\<forall>q. q \<noteq> path \<longrightarrow> file_content w q = others q) \<and> k \<le> pw_clock w"

lemma lock_small_steps [preserves_intros]:
  "preserves (lock_state e path a t others k) (pairing_now e')" "preserves (lock_state e path a t others k) (take_lock e')"
  by (auto intro!: preservesI simp: pairing_now_def take_lock_def lock_state_def split: option.split)

lemma lock_write: "ps_wrongAttempts st = Some a \<Longrightarrow> preserves (lock_state e path a t others k) (writeJsonFile e' path (PairingContent st))"
proof (rule preservesI)
  fix w assume "ps_wrongAttempts st = Some a" "lock_state e path a t others k w"
  then show "lock_state e path a t others k (snd (writeJsonFile e' path (PairingContent st) w))"
    unfolding lock_state_def writeJsonFile_content
    by (cases st) (auto simp: writeJsonFile_def Let_def split: option.split)
qed

lemma ensure_present: "file_content w path = Some c \<Longrightarrow> ensureJsonFile e path fallback w = (Inr (), w)"
  by (auto simp: ensureJsonFile_def bind_m_apply when_m_apply file_content_def)

lemma lock_ensure: "preserves (lock_state e path a t others k) (ensureJsonFile e' path fallback)"
  by (rule preservesI) (auto simp: lock_state_def ensure_present)

lemma lock_unique_code: "preserves (lock_state e path a t others k) (generateUniqueCode e' existing)"
proof (rule preservesI)
  fix w assume "lock_state e path a t others k w"
  moreover obtain r j where "generateUniqueCode e' existing w = (r, w\<lparr>pw_random := j\<rparr>)" by (rule unique_code)
  ultimately show "lock_state e path a t others k (snd (generateUniqueCode e' existing w))" by (simp add: lock_state_def)
qed

lemma lock_read: "preserves (lock_state e path a t others k) (readPairingStore path)"
  "lock_state e path a t others k w \<Longrightarrow> readPairingStore path w = (Inr st, w') \<Longrightarrow> ps_wrongAttempts st = Some a"
  by (auto simp: readPairingStore_def preserves_def lock_state_def)

lemma upsert_keeps_lock:
  assumes "resolvePairingPath e channel = Inr path"
  shows "preserves (lock_state e path a t others k) (upsertChannelPairingRequest e channel senderId accountId metaIn)"
proof -
  have "preserves (lock_state e path a t others k) (upsert_body e path senderId accountId metaIn nowDate nowMs store)"
    if "ps_wrongAttempts store = Some a" for nowDate nowMs store
    unfolding upsert_body_def Let_def using that
    by (intro preserves_intros lock_write lock_unique_code) simp_all
  then have "preserves (lock_state e path a t others k) (withFileLock e path (PairingContent empty_pairing)
      (bind_m (pairing_now e) (\<lambda>nowDate. bind_m (pairing_now e) (\<lambda>nowMs. bind_m (readPairingStore path)
        (upsert_body e path senderId accountId metaIn nowDate nowMs)))))"
    unfolding withFileLock_def
    by (intro preserves_seq preserves_bind lock_ensure lock_small_steps
        preserves_bind_fact [where R = "\<lambda>st. ps_wrongAttempts st = Some a", OF lock_read])
  then show ?thesis unfolding upsert_unfold assms by (simp add: preserves_def bind_m_apply)
qed

text \<open>While the channel is locked out, no code is even looked at.\<close>

lemma approve_locked:
  assumes path: "resolvePairingPath e channel = Inr path" and locked: "locked_until e a t"
    and clock: "\<And>n. k \<le> n \<Longrightarrow> pv_now e n < t" and l: "lock_state e path a t others k w"
  shows "lock_state e path a t others k (snd (approveChannelPairingCode e channel code account w))"
    "fst (approveChannelPairingCode e channel code account w) \<noteq> Inr (Approved i entry)"
proof -
  obtain reqs where content: "file_content w path = Some (PairingContent \<lparr>ps_requests = reqs, ps_wrongAttempts = Some a\<rparr>)" "k \<le> pw_clock w"
    using l by (auto simp: lock_state_def)
  then have ensured: "ensureJsonFile e path (PairingContent empty_pairing) w = (Inr (), w)" by (simp add: ensure_present)
  have rest: "0 < pairingCooldownRemainingMs e (Some a) (pv_now e (pw_clock w))"
    using locked clock content(2) by (blast intro: locked_remaining)
  show "lock_state e path a t others k (snd (approveChannelPairingCode e channel code account w))"
    "fst (approveChannelPairingCode e channel code account w) \<noteq> Inr (Approved i entry)"
    using l content rest
    by (auto simp: approveChannelPairingCode_def Let_def path bind_m_apply withFileLock_def seq_m_apply ensured take_lock_def
        readPairingStore_def pairing_now_def lock_state_def split: option.split)
qed

text \<open>What senders and guessers can do on one channel: ask, and submit codes.\<close>

definition guess_on :: "string \<Rightarrow> pairing_op \<Rightarrow> bool" where
  "guess_on channel op \<longleftrightarrow> (\<exists>sender account meta. op = OpAsk channel sender account meta) \<or> (\<exists>code account. op = OpApprove channel code account)"

lemma lock_run:
  assumes "resolvePairingPath e channel = Inr path" "locked_until e a t" "\<And>n. k \<le> n \<Longrightarrow> pv_now e n < t"
    and "lock_state e path a t others k w" "list_all (guess_on channel) ops"
  shows "lock_state e path a t others k (run_ops e ops w)"
proof (rule run_ops_invariant)
  fix op w assume "op \<in> set ops" "lock_state e path a t others k w"
  then show "lock_state e path a t others k (run_op e op w)"
    using assms(5) upsert_keeps_lock [OF assms(1)] approve_locked(1) [OF assms(1-3)]
    by (fastforce simp: list_all_iff guess_on_def run_op_def preserves_def)
qed (rule assms(4))

text \<open>C14. Guessing is rate limited. When a channel counts three or more wrong codes, then for as long as the
  clock reads earlier than the last miss plus the cooldown (at least a minute, at most half an hour),
  neither further codes nor further requests on that channel lift the lock-out: after any number of
  them no approval goes through, not even with a right code, no list of approved senders has changed
  and the counter stands.\<close>

theorem lockout_holds:
  assumes path: "resolvePairingPath e channel = Inr path"
    and content: "file_content w path = Some (PairingContent \<lparr>ps_requests = reqs, ps_wrongAttempts = Some a\<rparr>)"
    and count: "PAIRING_WRONG_ATTEMPT_THRESHOLD \<le> wa_count a" "parseTimestamp e (wa_lastAt a) = Some lastMiss"
    and clock: "\<And>n. pw_clock w \<le> n \<Longrightarrow> pv_now e n < lastMiss + computePairingCooldownMs (wa_count a)"
    and ops: "list_all (guess_on channel) ops"
  defines "w' \<equiv> run_ops e ops w"
  shows "fst (approveChannelPairingCode e channel code account w') \<noteq> Inr (Approved i entry)
    \<and> (\<forall>q. q \<noteq> path \<longrightarrow> file_content w' q = file_content w q)
    \<and> (\<exists>reqs'. file_content w' path = Some (PairingContent \<lparr>ps_requests = reqs', ps_wrongAttempts = Some a\<rparr>))"
proof -
  let ?t = "lastMiss + computePairingCooldownMs (wa_count a)"
  have locked: "locked_until e a ?t" using count by (auto simp: locked_until_def)
  have "lock_state e path a ?t (file_content w) (pw_clock w) w" using content by (auto simp: lock_state_def)
  then have l: "lock_state e path a ?t (file_content w) (pw_clock w) w'"
    unfolding w'_def using lock_run [OF path locked clock _ ops, where others = "file_content w" and w = w] by blast
  moreover have "fst (approveChannelPairingCode e channel code account w') \<noteq> Inr (Approved i entry)"
    by (rule approve_locked(2) [OF path locked clock l])
  ultimately show ?thesis by (simp add: lock_state_def)
qed

text \<open>A store in which the lock-out of the channel \<open>signal\<close> is on, with one fresh and one expired request. The
  dates are names.\<close>

definition sample_pairing_env :: "(nat \<Rightarrow> int) \<Rightarrow> pairing_env" where
  "sample_pairing_env now = \<lparr>pv_dir = ''dir'', pv_now = now, pv_iso = (\<lambda>t. ''now''),
     pv_parse = map_of [(''long ago'', 1), (''lately'', 4000000), (''just now'', 5000000)], pv_random = id,
     pv_stat = (\<lambda>n. (n, n)), pv_writeThrows = (\<lambda>n. None), pv_lockThrows = (\<lambda>n. None), pv_adapter = (\<lambda>c. None),
     pv_localeLess = (\<lambda>a b. length a < length b)\<rparr>"

definition sample_request :: "string \<Rightarrow> string \<Rightarrow> string \<Rightarrow> pairing_request" where
  "sample_request i code time = \<lparr>qr_id = i, qr_code = code, qr_createdAt = time, qr_lastSeenAt = time, qr_meta = Some [(''accountId'', ''default'')]\<rparr>"

definition locked_world :: pairing_world where
  "locked_world = \<lparr>pw_files = [(''dir/signal-pairing.json'', \<lparr>ff_content = PairingContent
       \<lparr>ps_requests = [sample_request ''old'' ''OLDCODES'' ''long ago'', sample_request ''bob'' ''GOODCODE'' ''lately''],
        ps_wrongAttempts = Some \<lparr>wa_count = 5, wa_firstAt = ''lately'', wa_lastAt = ''just now''\<rparr>\<rparr>, ff_mtime = 0, ff_size = 0\<rparr>)],
     pw_cache = [], pw_clock = 0, pw_random = 0, pw_writes = 0, pw_locks = 0\<rparr>"

definition guesses :: "pairing_op list" where
  "guesses = [OpApprove ''signal'' ''WRONG'' None, OpAsk ''signal'' (JStr ''eve'') ''default'' None, OpApprove ''signal'' ''GOODCODE'' None]"

theorem lockout_holds_witness:
  "fst (approveChannelPairingCode (sample_pairing_env (\<lambda>n. 5000001)) ''signal'' ''GOODCODE'' None
     (run_ops (sample_pairing_env (\<lambda>n. 5000001)) guesses locked_world)) \<noteq> Inr (Approved ''bob'' (sample_request ''bob'' ''GOODCODE'' ''lately''))"
proof -
  let ?e = "sample_pairing_env (\<lambda>n. 5000001)" and ?a = "\<lparr>wa_count = 5, wa_firstAt = ''lately'', wa_lastAt = ''just now''\<rparr>"
  have path: "resolvePairingPath ?e ''signal'' = Inr ''dir/signal-pairing.json''" by code_simp
  have content: "file_content locked_world ''dir/signal-pairing.json'' = Some (PairingContent
      \<lparr>ps_requests = [sample_request ''old'' ''OLDCODES'' ''long ago'', sample_request ''bob'' ''GOODCODE'' ''lately''], ps_wrongAttempts = Some ?a\<rparr>)"
    by (simp add: locked_world_def file_content_def)
  have miss: "parseTimestamp ?e (wa_lastAt ?a) = Some 5000000" by code_simp
  have "computePairingCooldownMs (wa_count ?a) = 240000" by code_simp
  then show ?thesis
    using lockout_holds [OF path content _ miss, where ops = guesses and code = "''GOODCODE''" and account = None and i = "''bob''" and entry = "sample_request ''bob'' ''GOODCODE'' ''lately''"]
    by (simp add: PAIRING_WRONG_ATTEMPT_THRESHOLD_def guess_on_def guesses_def sample_pairing_env_def)
qed

text \<open>Listing the pending requests, though, writes the store without the counter when a request has expired,
  and the lock-out is over: the code that was refused goes through.\<close>

lemma listing_lifts_lockout:
  defines "e \<equiv> sample_pairing_env (\<lambda>n. 5000001)"
  shows "fst (approveChannelPairingCode e ''signal'' ''GOODCODE'' None locked_world) = Inr (RateLimited 239999)"
    "fst (approveChannelPairingCode e ''signal'' ''GOODCODE'' None (run_op e (OpList ''signal'' None) locked_world))
       = Inr (Approved ''bob'' (sample_request ''bob'' ''GOODCODE'' ''lately''))"
  unfolding e_def by code_simp+

text \<open>Two channels whose names differ by an account's name share one file of approved senders.\<close>

lemma approved_files_collide:
  "resolveAllowFromFilePath e ''qa-lab'' None = resolveAllowFromFilePath e ''qa'' (Some (JStr ''lab''))"
proof -
  have "safeChannelKey ''qa-lab'' = Inr ''qa-lab''" "safeChannelKey ''qa'' = Inr ''qa''"
    "resolveOptionalAccountFilenameKey (Some (JStr ''lab'')) = Inr (Some ''lab'')" "resolveOptionalAccountFilenameKey None = Inr None"
    by code_simp+
  then show ?thesis by (simp add: resolveAllowFromFilePath_def)
qed

end
