(* ===== verification/Pairing_Grants.thy ===== *)
theory Pairing_Grants
  imports Pairing_Access
begin

text \<open>
  What an approval does: it needs the code of a pending request, uses it up, admits the sender of that
  request and nobody else, and the sender is then let in by the access policy.
\<close>

section \<open>Lists of approved senders\<close>

definition approved :: "pairing_env \<Rightarrow> string \<Rightarrow> store_content option \<Rightarrow> string list" where
  "approved e channel content =
     normalizeAllowFromList e channel
       (case content of Some (AllowContent store) \<Rightarrow> store | Some (PairingContent _) \<Rightarrow> None | _ \<Rightarrow> Some [])"

definition clean :: "string list \<Rightarrow> bool" where
  "clean xs \<longleftrightarrow> distinct xs \<and> (\<forall>x \<in> set xs. x \<noteq> [] \<and> js_trim x = x)"

lemma dedupe_facts: "clean (dedupe seen xs) \<and> set (dedupe seen xs) \<inter> set seen = {} \<and> set (dedupe seen xs) \<subseteq> js_trim ` set xs"
proof (induction seen xs rule: dedupe.induct)
  case (2 seen x xs)
  show ?case
  proof (cases "js_trim x = [] \<or> js_trim x \<in> set seen")
    case True
    then have "dedupe seen (x # xs) = dedupe seen xs" by (simp add: normalize_trim)
    then show ?thesis using 2(1) [OF refl] True by (auto simp: normalize_trim)
  next
    case False
    then have "dedupe seen (x # xs) = js_trim x # dedupe (js_trim x # seen) xs" by (simp add: normalize_trim Let_def)
    then show ?thesis using 2(2) [OF refl] False by (auto simp: normalize_trim clean_def js_trim_idem)
  qed
qed (simp add: clean_def)

lemmas dedupe_clean = dedupe_facts [THEN conjunct1] dedupe_facts [THEN conjunct2, THEN conjunct1] dedupe_facts [THEN conjunct2, THEN conjunct2]

lemma dedupe_id: "clean xs \<Longrightarrow> set xs \<inter> set seen = {} \<Longrightarrow> dedupe seen xs = xs"
  by (induction xs arbitrary: seen) (auto simp: normalize_trim clean_def)

lemma dedupe_mem: "x \<in> set xs \<Longrightarrow> js_trim x \<noteq> [] \<Longrightarrow> js_trim x \<in> set seen \<union> set (dedupe seen xs)"
  by (induction seen xs rule: dedupe.induct) (auto simp: normalize_trim Let_def)

lemma normalizeAllowEntry_trim [simp]: "js_trim (normalizeAllowEntry e channel x) = normalizeAllowEntry e channel x"
  by (simp add: normalizeAllowEntry_def Let_def normalize_trim js_trim_idem)

lemma approved_clean: "clean (approved e channel c)"
  by (simp add: approved_def normalizeAllowFromList_def dedupePreserveOrder_def dedupe_clean)

lemma approved_normal:
  assumes "\<And>x. normalizeAllowEntry e channel (normalizeAllowEntry e channel x) = normalizeAllowEntry e channel x"
    and "x \<in> set (approved e channel c)"
  shows "normalizeAllowEntry e channel x = x"
proof -
  obtain y where "x = js_trim (normalizeAllowEntry e channel y)"
    using assms(2) dedupe_clean(3) by (fastforce simp: approved_def normalizeAllowFromList_def dedupePreserveOrder_def)
  then show ?thesis using assms(1) by simp
qed

text \<open>A clean list of normal entries reads back as it was written.\<close>

lemma approved_written:
  assumes "clean xs" "\<And>x. x \<in> set xs \<Longrightarrow> normalizeAllowEntry e channel x = x"
  shows "approved e channel (Some (AllowContent (Some xs))) = xs"
proof -
  have "map (normalizeAllowEntry e channel) xs = xs" using assms(2) by (simp add: map_idI)
  moreover have "filter (\<lambda>v. v \<noteq> []) xs = xs" using assms(1) by (simp add: clean_def filter_id_conv)
  ultimately show ?thesis
    using assms(1) by (simp add: approved_def normalizeAllowFromList_def dedupePreserveOrder_def dedupe_id)
qed

section \<open>Adding an entry\<close>

lemma allow_and_pairing_differ: "resolveAllowFromFilePath e channel a = Inr q \<Longrightarrow> resolvePairingPath e channel' = Inr p \<Longrightarrow> q \<noteq> p"
proof -
  assume "resolveAllowFromFilePath e channel a = Inr q" "resolvePairingPath e channel' = Inr p"
  then obtain x y where "q = x @ ''-allowFrom.json''" "p = y @ ''-pairing.json''"
    by (auto simp: resolveAllowFromFilePath_def resolvePairingPath_def split: sum.splits option.splits)
  then have "rev q ! 5 \<noteq> rev p ! 5" by simp
  then show ?thesis by auto
qed

lemma ensure_effect:
  assumes "ensureJsonFile e path fallback w = (Inr (), w')"
  shows "file_content w' q = (if q = path \<and> file_content w path = None then Some fallback else file_content w q)"
proof (cases "file_content w path")
  case None
  with assms have "writeJsonFile e path fallback w = (Inr (), w')" by (simp add: ensureJsonFile_def bind_m_apply when_m_apply file_content_def)
  then show ?thesis
    using None writeJsonFile_content [of e path fallback w q] by (auto simp: writeJsonFile_def Let_def split: option.splits)
next
  case (Some c)
  with assms show ?thesis by (auto simp: ensure_present)
qed

lemma write_allow_effect:
  assumes "writeAllowFromState e path xs w = (Inr (), w')"
  shows "file_content w' q = (if q = path then Some (AllowContent (Some xs)) else file_content w q)"
    "\<exists>f. map_of (pw_files w') path = Some f \<and> ff_content f = AllowContent (Some xs)
       \<and> map_of (pw_cache w') (resolveAllowFromCacheKey PAIRING_ALLOW_FROM_CACHE_NAMESPACE path)
         = Some \<lparr>ce_exists = True, ce_mtimeMs = Some (ff_mtime f), ce_size = Some (ff_size f), ce_entries = xs\<rparr>"
proof -
  obtain w1 where w1: "writeJsonFile e path (AllowContent (Some xs)) w = (Inr (), w1)"
    "w' = w1\<lparr>pw_cache := AList.update (resolveAllowFromCacheKey PAIRING_ALLOW_FROM_CACHE_NAMESPACE path)
       \<lparr>ce_exists = True, ce_mtimeMs = map_option fst (file_stat w1 path), ce_size = map_option snd (file_stat w1 path), ce_entries = xs\<rparr> (pw_cache w1)\<rparr>"
    using assms by (auto simp: writeAllowFromState_def seq_m_apply bind_m_apply setAllowFromFileReadCache_def split: prod.splits sum.splits)
  have none: "pv_writeThrows e (pw_writes w) = None" using w1(1) by (auto simp: writeJsonFile_def Let_def split: option.splits)
  show "file_content w' q = (if q = path then Some (AllowContent (Some xs)) else file_content w q)"
    using writeJsonFile_content [of e path "AllowContent (Some xs)" w q] w1 none by simp
  have "file_content w1 path = Some (AllowContent (Some xs))"
    using writeJsonFile_content [of e path "AllowContent (Some xs)" w path] w1(1) none by simp
  then show "\<exists>f. map_of (pw_files w') path = Some f \<and> ff_content f = AllowContent (Some xs)
       \<and> map_of (pw_cache w') (resolveAllowFromCacheKey PAIRING_ALLOW_FROM_CACHE_NAMESPACE path)
         = Some \<lparr>ce_exists = True, ce_mtimeMs = Some (ff_mtime f), ce_size = Some (ff_size f), ce_entries = xs\<rparr>"
    using w1(2) by (auto simp: file_content_def file_stat_def update_conv')
qed

lemma add_effect:
  assumes add: "addChannelAllowFromStoreEntry e channel entry account w = (Inr u, w')"
    and path: "resolveAllowFromFilePath e channel account = Inr path"
    and idem: "\<And>x. normalizeAllowEntry e channel (normalizeAllowEntry e channel x) = normalizeAllowEntry e channel x"
  defines "n \<equiv> normalizeAllowFromInput e channel entry"
  shows "approved e channel (file_content w' path) =
      (if n = [] \<or> n \<in> set (approved e channel (file_content w path)) then approved e channel (file_content w path)
       else approved e channel (file_content w path) @ [n])"
    "q \<noteq> path \<Longrightarrow> file_content w' q = file_content w q"
proof -
  let ?cur = "approved e channel (file_content w path)"
  obtain w1 w2 where w1: "ensureJsonFile e path (AllowContent (Some [])) w = (Inr (), w1)" "w2 = w1\<lparr>pw_locks := Suc (pw_locks w1)\<rparr>"
    and body: "(case (if n \<noteq> [] then Some n else None) of
           None \<Rightarrow> return_m \<lparr>au_changed = False, au_allowFrom = approved e channel (file_content w2 path)\<rparr>
         | Some n \<Rightarrow>
             (case add_entry (approved e channel (file_content w2 path)) n of
                None \<Rightarrow> return_m \<lparr>au_changed = False, au_allowFrom = approved e channel (file_content w2 path)\<rparr>
              | Some next \<Rightarrow> seq_m (writeAllowFromState e path next) (return_m \<lparr>au_changed = True, au_allowFrom = next\<rparr>))) w2 = (Inr u, w')"
    using add path
    by (auto simp: addChannelAllowFromStoreEntry_def updateAllowFromStoreEntry_def bind_m_apply withFileLock_def seq_m_apply take_lock_def
        readAllowFromState_def approved_def Let_def n_def split: prod.splits sum.splits option.splits if_splits)
  have content: "file_content w2 q = (if q = path \<and> file_content w path = None then Some (AllowContent (Some [])) else file_content w q)" for q
    using ensure_effect [OF w1(1)] w1(2) by simp
  have cur: "approved e channel (file_content w2 path) = ?cur"
    unfolding content by (simp add: approved_def)
  have result: "(n = [] \<or> n \<in> set ?cur) \<and> w' = w2 \<or> n \<noteq> [] \<and> n \<notin> set ?cur \<and> writeAllowFromState e path (?cur @ [n]) w2 = (Inr (), w')"
    using body unfolding cur by (auto simp: add_entry_def seq_m_apply split: if_splits prod.splits sum.splits)
  have new: "approved e channel (Some (AllowContent (Some (?cur @ [n])))) = ?cur @ [n]" if "n \<noteq> []" "n \<notin> set ?cur"
  proof (rule approved_written)
    show "clean (?cur @ [n])" using approved_clean [of e channel] that by (auto simp: clean_def n_def normalizeAllowFromInput_def)
    show "normalizeAllowEntry e channel x = x" if "x \<in> set (?cur @ [n])" for x
      using that approved_normal [OF idem] idem by (auto simp: n_def normalizeAllowFromInput_def)
  qed
  from result show "approved e channel (file_content w' path) = (if n = [] \<or> n \<in> set ?cur then ?cur else ?cur @ [n])"
    using write_allow_effect(1) [of e path "?cur @ [n]" w2 w' path] new cur by auto
  from result show "q \<noteq> path \<Longrightarrow> file_content w' q = file_content w q"
    using write_allow_effect(1) [of e path "?cur @ [n]" w2 w' q] content by auto
qed

section \<open>Approving\<close>

lemma write_pairing_effect:
  assumes "writeJsonFile e path c w = (Inr (), w')"
  shows "file_content w' q = (if q = path then Some c else file_content w q)" "pw_cache w' = pw_cache w" "pw_clock w' = pw_clock w"
  using assms writeJsonFile_content [of e path c w q] by (auto simp: writeJsonFile_def Let_def split: option.splits)

text \<open>The account whose list an approval extends.\<close>

definition approval_account :: "string option \<Rightarrow> pairing_request \<Rightarrow> json option" where
  "approval_account account entry =
     map_option JStr (case normalizeOptionalString (map_option JStr account) of
        Some a \<Rightarrow> Some a
      | None \<Rightarrow> normalizeOptionalString (map_option JStr (meta_account entry)))"

lemma approved_outcome:
  assumes run: "approveChannelPairingCode e channel code account w = (Inr (Approved i entry), w')"
  obtains path st t1 t2 xs ys w2 u where
    "resolvePairingPath e channel = Inr path" "file_content w path = Some (PairingContent st)"
    "t1 = pv_now e (pw_clock w)" "t2 = pv_now e (Suc (pw_clock w))"
    "pairingCooldownRemainingMs e (ps_wrongAttempts st) t1 \<le> 0"
    "fst (pruneExpiredRequests e (ps_requests st) t2) = xs @ entry # ys"
    "toUpperCase (qr_code entry) = toUpperCase (js_trim code)" "js_trim code \<noteq> []"
    "requestMatchesAccountId entry (normalizePairingAccountId account)" "i = qr_id entry"
    "\<And>q. file_content w2 q = (if q = path then Some (PairingContent \<lparr>ps_requests = xs @ ys, ps_wrongAttempts = None\<rparr>) else file_content w q)"
    "addChannelAllowFromStoreEntry e channel (JStr (qr_id entry)) (approval_account account entry) w2 = (Inr u, w')"
proof -
  let ?code = "toUpperCase (js_trim code)"
  have trimmed: "nullish (normalizeNullableString (Some (JStr code))) [] = js_trim code"
    using normalize_trim [of code] by (simp add: normalizeOptionalString_def)
  have nonblank: "?code \<noteq> []" using run by (auto simp: approveChannelPairingCode_def Let_def trimmed)
  then obtain path where path: "resolvePairingPath e channel = Inr path"
    using run by (auto simp: approveChannelPairingCode_def Let_def trimmed bind_m_apply split: sum.splits)
  obtain w1 where w1: "ensureJsonFile e path (PairingContent empty_pairing) w = (Inr (), w1)"
    using run nonblank path
    by (auto simp: approveChannelPairingCode_def Let_def trimmed bind_m_apply withFileLock_def seq_m_apply split: prod.splits sum.splits)
  show ?thesis
  proof (cases "\<exists>st. file_content w path = Some (PairingContent st)")
    case True
    then obtain st where st: "file_content w path = Some (PairingContent st)" by blast
    then have same: "w1 = w" using w1 by (simp add: ensure_present)
    let ?pruned = "fst (pruneExpiredRequests e (ps_requests st) (pv_now e (Suc (pw_clock w))))"
    let ?w = "w\<lparr>pw_locks := Suc (pw_locks w), pw_clock := Suc (Suc (pw_clock w))\<rparr>"
    obtain xs ys w2 u where step: "pairingCooldownRemainingMs e (ps_wrongAttempts st) (pv_now e (pw_clock w)) \<le> 0"
        "List.extract (\<lambda>r. toUpperCase (qr_code r) = ?code \<and> requestMatchesAccountId r (normalizePairingAccountId account)) ?pruned = Some (xs, entry, ys)"
        "i = qr_id entry" "writeJsonFile e path (PairingContent \<lparr>ps_requests = xs @ ys, ps_wrongAttempts = None\<rparr>) ?w = (Inr (), w2)"
        "addChannelAllowFromStoreEntry e channel (JStr (qr_id entry)) (approval_account account entry) w2 = (Inr u, w')"
      using run nonblank path w1 st unfolding same
      by (auto simp: approveChannelPairingCode_def Let_def trimmed bind_m_apply withFileLock_def seq_m_apply take_lock_def readPairingStore_def
          pairing_now_def approval_account_def split: prod.splits sum.splits option.splits if_splits)
    show ?thesis
    proof (rule that [OF path st refl refl step(1)])
      show "?pruned = xs @ entry # ys" "toUpperCase (qr_code entry) = ?code" "requestMatchesAccountId entry (normalizePairingAccountId account)"
        using step(2) by (simp_all add: extract_Some_iff)
      show "js_trim code \<noteq> []" using nonblank by (auto simp: toUpperCase_def)
      show "file_content w2 q = (if q = path then Some (PairingContent \<lparr>ps_requests = xs @ ys, ps_wrongAttempts = None\<rparr>) else file_content w q)" for q
        using write_pairing_effect(1) [OF step(4)] by simp
    qed (use step in simp_all)
  next
    case False
    then have "pairing_of (file_content w1 path) = empty_pairing"
      using ensure_effect [OF w1, of path] by (cases "file_content w path") (auto simp: pairing_of_def split: store_content.splits)
    then show ?thesis
      using run nonblank path w1
      by (auto simp: approveChannelPairingCode_def Let_def trimmed bind_m_apply withFileLock_def seq_m_apply take_lock_def readPairingStore_def
          pairing_now_def empty_pairing_def extract_Nil_code split: prod.splits sum.splits option.splits if_splits)
  qed
qed


text \<open>Bob's request is approved once the lock-out is over; the list of his account, which had no file, then holds
  Bob alone.\<close>

definition open_world :: pairing_world where
  "open_world = run_op (sample_pairing_env (\<lambda>n. 5000001)) (OpList ''signal'' None) locked_world"


text \<open>When the list of approved senders cannot be written, the request is gone all the same: the operator sees the
  failure, and the code entered once more no longer matches.\<close>

definition full_disk :: pairing_env where
  "full_disk = sample_pairing_env (\<lambda>n. 5000001) \<lparr>pv_writeThrows := \<lambda>n. if n = 2 then Some ''ENOSPC'' else None\<rparr>"

lemma failed_write_loses_request:
  "fst (approveChannelPairingCode full_disk ''signal'' ''GOODCODE'' None open_world) = Inl ''ENOSPC''"
  "fst (approveChannelPairingCode full_disk ''signal'' ''GOODCODE'' None
     (snd (approveChannelPairingCode full_disk ''signal'' ''GOODCODE'' None open_world))) = Inr NoMatch"
  unfolding open_world_def by code_simp+

end
