(* ===== verification/Pairing_Admission.thy ===== *)
theory Pairing_Admission
  imports Pairing_Grants
begin

text \<open>
  The way through: a sender asks, the operator enters the code, the list of approved senders is read, and the
  access policy lets the sender in.
\<close>

section \<open>A request that was made\<close>

lemma upper_of_plain:
  assumes "plain_code c" "toUpperCase x = c"
  shows "js_trim x = x"
proof (rule trim_plain)
  have "\<not> js_whitespace d" if "d \<in> set x" for d
  proof
    assume ws: "js_whitespace d"
    then have "js_upper_char d = [d]" by (auto simp: js_whitespace_def js_upper_char_def Let_def)
    with that have "d \<in> set (toUpperCase x)" by (force simp: toUpperCase_def)
    with ws assms show False by (auto simp: plain_code_def list_all_iff)
  qed
  then show "list_all (\<lambda>c. \<not> js_whitespace c) x" by (simp add: list_all_iff)
qed

lemma upsert_created:
  assumes "upsert_body e path senderId accountId metaIn nowDate nowMs store w = (Inr \<lparr>up_code = code, up_created = True\<rparr>, w')"
  obtains reqs where
    "plain_code code" "\<And>r. r \<in> set reqs \<Longrightarrow> toUpperCase (qr_code r) \<noteq> code"
    "\<And>q. file_content w' q = (if q = path then Some (PairingContent \<lparr>ps_requests = reqs @
        [\<lparr>qr_id = normalizeId senderId, qr_code = code, qr_createdAt = pv_iso e nowDate, qr_lastSeenAt = pv_iso e nowDate,
          qr_meta = Some (request_meta metaIn (account_key accountId))\<rparr>], ps_wrongAttempts = ps_wrongAttempts store\<rparr>) else file_content w q)"
    "pw_clock w' = pw_clock w"
proof -
  let ?pruned = "fst (pruneExpiredRequests e (ps_requests store) nowMs)"
  let ?reqs = "fst (pruneExcessRequestsByAccount e ?pruned PAIRING_PENDING_MAX)"
  let ?r = "\<lparr>qr_id = normalizeId senderId, qr_code = code, qr_createdAt = pv_iso e nowDate, qr_lastSeenAt = pv_iso e nowDate,
          qr_meta = Some (request_meta metaIn (account_key accountId))\<rparr>"
  obtain k where gen: "generateUniqueCode e (existing_codes ?pruned) w = (Inr code, w\<lparr>pw_random := k\<rparr>)"
    "plain_code code" "code \<notin> set (existing_codes ?pruned)"
    and wrote: "writeJsonFile e path (PairingContent \<lparr>ps_requests = ?reqs @ [?r], ps_wrongAttempts = ps_wrongAttempts store\<rparr>) (w\<lparr>pw_random := k\<rparr>) = (Inr (), w')"
  proof -
    obtain r k where g: "generateUniqueCode e (existing_codes ?pruned) w = (r, w\<lparr>pw_random := k\<rparr>)"
      "\<And>code. r = Inr code \<Longrightarrow> plain_code code \<and> code \<notin> set (existing_codes ?pruned)" using unique_code [of e "existing_codes ?pruned" w] by blast
    then show thesis
      using assms that
      by (auto simp: upsert_body_def Let_def bind_m_apply seq_m_apply split: option.splits prod.splits sum.splits if_splits)
  qed
  show thesis
  proof (rule that [OF gen(2)])
    fix r assume "r \<in> set ?reqs"
    then have "toUpperCase (js_trim (qr_code r)) \<noteq> code"
      using gen(3) pruneExcess_subset [of e ?pruned PAIRING_PENDING_MAX] by (auto simp: existing_codes_map)
    then show "toUpperCase (qr_code r) \<noteq> code" using upper_of_plain [OF gen(2)] by metis
  qed (use write_pairing_effect [OF wrote] wrote in \<open>auto simp: writeJsonFile_def Let_def split: option.splits\<close>)
qed

lemma asked:
  assumes "upsertChannelPairingRequest e channel senderId accountId metaIn w = (Inr \<lparr>up_code = code, up_created = True\<rparr>, w')"
  obtains path reqs attempts request where
    "resolvePairingPath e channel = Inr path"
    "file_content w' path = Some (PairingContent \<lparr>ps_requests = reqs @ [request], ps_wrongAttempts = attempts\<rparr>)"
    "request = \<lparr>qr_id = normalizeId senderId, qr_code = code, qr_createdAt = pv_iso e (pv_now e (pw_clock w)),
       qr_lastSeenAt = pv_iso e (pv_now e (pw_clock w)), qr_meta = Some (request_meta metaIn (account_key accountId))\<rparr>"
    "plain_code code" "\<And>r. r \<in> set reqs \<Longrightarrow> toUpperCase (qr_code r) \<noteq> code"
proof -
  obtain path where path: "resolvePairingPath e channel = Inr path"
    using assms by (auto simp: upsert_unfold bind_m_apply split: sum.splits)
  obtain w1 where ensured: "ensureJsonFile e path (PairingContent empty_pairing) w = (Inr (), w1)"
    using assms by (auto simp: upsert_unfold path bind_m_apply withFileLock_def seq_m_apply split: prod.splits sum.splits)
  have clock: "pw_clock w1 = pw_clock w"
    using ensured by (auto simp: ensureJsonFile_def bind_m_apply when_m_apply writeJsonFile_def Let_def split: if_splits option.splits)
  obtain nowMs st w2 where body: "upsert_body e path senderId accountId metaIn (pv_now e (pw_clock w)) nowMs st w2 = (Inr \<lparr>up_code = code, up_created = True\<rparr>, w')"
    using assms ensured clock
    by (auto simp: upsert_unfold path bind_m_apply withFileLock_def seq_m_apply take_lock_def pairing_now_def readPairingStore_def
        split: prod.splits sum.splits option.splits)
  show thesis
    by (rule upsert_created [OF body]) (rule that [OF path _ refl], simp_all)
qed

section \<open>An approval that goes through\<close>

definition calm :: "pairing_env \<Rightarrow> pairing_world \<Rightarrow> bool" where
  "calm e w \<longleftrightarrow> (\<forall>k \<ge> pw_writes w. pv_writeThrows e k = None) \<and> (\<forall>k \<ge> pw_locks w. pv_lockThrows e k = None)"

lemma calm_write:
  assumes "calm e w"
  obtains w' where "writeJsonFile e path c w = (Inr (), w')" "calm e w'" "pw_clock w' = pw_clock w"
  using assms by (simp add: writeJsonFile_def calm_def Let_def)

lemma calm_lock:
  assumes "calm e w"
  shows "take_lock e w = (Inr (), w\<lparr>pw_locks := Suc (pw_locks w)\<rparr>)" "calm e (w\<lparr>pw_locks := Suc (pw_locks w)\<rparr>)"
  using assms by (simp_all add: take_lock_def calm_def)

lemma calm_ensure:
  assumes "calm e w"
  obtains w' where "ensureJsonFile e path c w = (Inr (), w')" "calm e w'" "pw_clock w' = pw_clock w"
proof (cases "map_of (pw_files w) path")
  case None
  obtain w' where "writeJsonFile e path c w = (Inr (), w')" "calm e w'" "pw_clock w' = pw_clock w" using assms by (rule calm_write)
  with None show thesis by (intro that [of w']) (simp_all add: ensureJsonFile_def bind_m_apply when_m_apply)
next
  case Some
  with assms show thesis by (intro that) (simp_all add: ensureJsonFile_def bind_m_apply when_m_apply)
qed

lemma add_goes_through:
  assumes calm: "calm e w" and path: "resolveAllowFromFilePath e channel account = Inr path"
    and new: "normalizeAllowFromInput e channel entry \<noteq> []"
      "normalizeAllowFromInput e channel entry \<notin> set (approved e channel (file_content w path))"
  obtains u w1 w' where "addChannelAllowFromStoreEntry e channel entry account w = (Inr u, w')"
    "writeAllowFromState e path (approved e channel (file_content w path) @ [normalizeAllowFromInput e channel entry]) w1 = (Inr (), w')"
proof -
  obtain w1 where w1: "ensureJsonFile e path (AllowContent (Some [])) w = (Inr (), w1)" "calm e w1" using calm by (rule calm_ensure)
  let ?w = "w1\<lparr>pw_locks := Suc (pw_locks w1)\<rparr>" and ?n = "normalizeAllowFromInput e channel entry"
  have cur: "approved e channel (file_content ?w path) = approved e channel (file_content w path)"
    using ensure_effect [OF w1(1), of path] by (auto simp: approved_def)
  obtain w2 where w2: "writeJsonFile e path (AllowContent (Some (approved e channel (file_content w path) @ [?n]))) ?w = (Inr (), w2)"
    using calm_lock(2) [OF w1(2)] by (rule calm_write)
  obtain w' where w': "writeAllowFromState e path (approved e channel (file_content w path) @ [?n]) ?w = (Inr (), w')"
    using w2 by (simp add: writeAllowFromState_def seq_m_apply bind_m_apply setAllowFromFileReadCache_def)
  have "addChannelAllowFromStoreEntry e channel entry account w
      = (Inr \<lparr>au_changed = True, au_allowFrom = approved e channel (file_content w path) @ [?n]\<rparr>, w')"
    using w1 w' new cur
    by (simp add: addChannelAllowFromStoreEntry_def updateAllowFromStoreEntry_def path bind_m_apply withFileLock_def seq_m_apply calm_lock
        readAllowFromState_def approved_def [symmetric] Let_def add_entry_def)
  then show thesis using w' by (rule that)
qed

lemma approval_goes_through:
  assumes path: "resolvePairingPath e channel = Inr path"
    and content: "file_content w path = Some (PairingContent \<lparr>ps_requests = reqs @ [request], ps_wrongAttempts = attempts\<rparr>)"
    and code: "plain_code (qr_code request)" "toUpperCase (js_trim entered) = qr_code request"
      "\<And>r. r \<in> set reqs \<Longrightarrow> toUpperCase (qr_code r) \<noteq> qr_code request"
    and time: "pairingCooldownRemainingMs e attempts (pv_now e (pw_clock w)) \<le> 0" "\<not> isExpired e request (pv_now e (Suc (pw_clock w)))"
    and calm: "calm e w"
    and list: "resolveAllowFromFilePath e channel (approval_account None request) = Inr listPath"
    and new: "normalizeAllowFromInput e channel (JStr (qr_id request)) \<noteq> []"
      "normalizeAllowFromInput e channel (JStr (qr_id request)) \<notin> set (approved e channel (file_content w listPath))"
  obtains w1 w' where "approveChannelPairingCode e channel entered None w = (Inr (Approved (qr_id request) request), w')"
    "writeAllowFromState e listPath (approved e channel (file_content w listPath) @ [normalizeAllowFromInput e channel (JStr (qr_id request))]) w1
      = (Inr (), w')"
proof -
  let ?w = "w\<lparr>pw_locks := Suc (pw_locks w), pw_clock := Suc (Suc (pw_clock w))\<rparr>"
  let ?pruned = "filter (\<lambda>r. \<not> isExpired e r (pv_now e (Suc (pw_clock w)))) reqs"
  have trimmed: "nullish (normalizeNullableString (Some (JStr entered))) [] = js_trim entered"
    using normalize_trim [of entered] by (simp add: normalizeOptionalString_def)
  have nonblank: "qr_code request \<noteq> []" and same: "toUpperCase (qr_code request) = qr_code request"
    using code(1) by (auto simp: plain_code_def)
  have found: "List.extract (\<lambda>r. toUpperCase (qr_code r) = qr_code request \<and> requestMatchesAccountId r (normalizePairingAccountId None)) (?pruned @ [request])
      = Some (?pruned, request, [])"
    using code(3) same by (auto simp: extract_Some_iff requestMatchesAccountId_def normalizePairingAccountId_def normalizeLowercaseStringOrEmpty_def
        normalizeOptionalLowercaseString_def normalizeOptionalString_def normalizeNullableString_def)
  have "calm e ?w" using calm by (simp add: calm_def)
  then obtain w2 where w2: "writeJsonFile e path (PairingContent \<lparr>ps_requests = ?pruned, ps_wrongAttempts = None\<rparr>) ?w = (Inr (), w2)" "calm e w2"
    by (rule calm_write)
  have ne: "listPath \<noteq> path" using list path by (rule allow_and_pairing_differ)
  have untouched: "file_content w2 listPath = file_content w listPath" using write_pairing_effect(1) [OF w2(1), of listPath] ne by simp
  obtain u w1 w' where add: "addChannelAllowFromStoreEntry e channel (JStr (qr_id request)) (approval_account None request) w2 = (Inr u, w')"
    "writeAllowFromState e listPath (approved e channel (file_content w listPath) @ [normalizeAllowFromInput e channel (JStr (qr_id request))]) w1
      = (Inr (), w')"
    using add_goes_through [OF w2(2) list] new untouched by metis
  have "approveChannelPairingCode e channel entered None w = (Inr (Approved (qr_id request) request), w')"
    using add(1) time w2(1) nonblank
    by (simp add: approveChannelPairingCode_def Let_def trimmed code(2) path bind_m_apply withFileLock_def seq_m_apply ensure_present [OF content]
        calm_lock [OF calm] readPairingStore_def content pairing_now_def pruneExpired_filter found approval_account_def)
  then show thesis using add(2) by (rule that)
qed

section \<open>Reading what was approved\<close>

lemma read_state_total: "\<exists>xs w'. readAllowFromStateForPath e channel path w = (Inr xs, w')"
  by (auto simp: readAllowFromStateForPath_def readAllowFromFileWithExists_def resolveAllowFromReadCacheOrMissing_def bind_m_apply seq_m_apply
      setAllowFromFileReadCache_def split: option.split)

lemma read_after_write:
  assumes "writeAllowFromState e path xs w1 = (Inr (), w')"
  shows "readAllowFromStateForPath e channel path w' = (Inr xs, w')"
proof -
  obtain f where "map_of (pw_files w') path = Some f"
    "map_of (pw_cache w') (resolveAllowFromCacheKey PAIRING_ALLOW_FROM_CACHE_NAMESPACE path)
       = Some \<lparr>ce_exists = True, ce_mtimeMs = Some (ff_mtime f), ce_size = Some (ff_size f), ce_entries = xs\<rparr>"
    using write_allow_effect(2) [OF assms] by blast
  then show ?thesis
    by (simp add: readAllowFromStateForPath_def readAllowFromFileWithExists_def resolveAllowFromReadCacheOrMissing_def bind_m_apply
        resolveAllowFromReadCacheHit_def file_stat_def)
qed

lemma account_of_reader: "resolveAllowFromAccountId (Some (JStr a)) = Inr (account_key a)"
  by (simp add: resolveAllowFromAccountId_def account_key_def normalizePairingAccountId_def Let_def)

lemma unscoped_path: "resolveAllowFromFilePath e channel account = Inr q \<Longrightarrow> \<exists>legacyPath. resolveAllowFromFilePath e channel None = Inr legacyPath"
  by (auto simp: resolveAllowFromFilePath_def resolveOptionalAccountFilenameKey_def split: sum.splits)

lemma read_channel_shows:
  assumes path: "resolveAllowFromFilePath e channel (Some (JStr (account_key a))) = Inr path"
    and read: "readAllowFromStateForPath e channel path w = (Inr xs, w)" and mem: "n \<in> set xs" "js_trim n = n" "n \<noteq> []"
  obtains ys w' where "readChannelAllowFromStore e channel (Some (JStr a)) w = (Inr ys, w')" "n \<in> set ys"
proof (cases "shouldIncludeLegacyAllowFromEntries (account_key a)")
  case False
  with path read mem that show thesis by (simp add: readChannelAllowFromStore_def read_channel_entries_def account_of_reader bind_m_apply)
next
  case True
  obtain legacyPath where lp: "resolveAllowFromFilePath e channel None = Inr legacyPath" using unscoped_path [OF path] by blast
  obtain ls w' where ls: "readAllowFromStateForPath e channel legacyPath w = (Inr ls, w')" using read_state_total by blast
  have "n \<in> set (dedupePreserveOrder (xs @ ls))"
    using dedupe_mem [of n "xs @ ls" "[]"] mem by (simp add: dedupePreserveOrder_def)
  moreover have "readChannelAllowFromStore e channel (Some (JStr a)) w = (Inr (dedupePreserveOrder (xs @ ls)), w')"
    using True path read lp ls by (simp add: readChannelAllowFromStore_def read_channel_entries_def account_of_reader bind_m_apply)
  ultimately show thesis by (intro that)
qed

lemma account_key_trim: "js_trim (account_key a) = account_key a"
proof (cases "normalizePairingAccountId (Some a) = []")
  case True
  then have "account_key a = ''default''" by (simp add: account_key_def DEFAULT_ACCOUNT_ID_def)
  moreover have "js_trim ''default'' = ''default''" by code_simp
  ultimately show ?thesis by simp
next
  case False
  then show ?thesis by (simp add: account_key_def Let_def normalizePairingAccountId_def normalize_lower trim_lower js_trim_idem)
qed

lemma normalizeId_text: "normalizeId (JStr s) = js_trim s"
  using normalize_trim [of s] by (simp add: normalizeId_def normalizeStringifiedOptionalString_def)

lemma input_of_id: "normalizeAllowFromInput e channel (JStr (normalizeId (JStr s))) = normalizeAllowFromInput e channel (JStr s)"
  by (simp add: normalizeAllowFromInput_def normalizeId_text js_trim_idem)

lemma shown_by_policy:
  assumes "\<not> ap_isGroup p" "ap_dmPolicy p = None \<or> ap_dmPolicy p = Some ''pairing''" "n \<in> set entries" "js_trim n = n" "n \<noteq> []"
    and "\<And>xs. n \<in> set xs \<Longrightarrow> ap_isSenderAllowed p xs"
  shows "ar_decision (resolveDmGroupAccessWithLists (p\<lparr>ap_storeAllowFrom := Some (map JStr entries)\<rparr>)) = AllowAccess"
proof -
  let ?p = "p\<lparr>ap_storeAllowFrom := Some (map JStr entries)\<rparr>"
  have "n \<in> set (paired ?p)" using assms(3-5) by (force simp: paired_def normalizeStringEntries_alt)
  then have "ap_isSenderAllowed ?p (configured ?p @ paired ?p)" using assms(6) by simp
  then show ?thesis using assms(1,2) dm_decision [of ?p] by (auto simp: access_spec_def)
qed

text \<open>C13. Pairing works end to end. When a sender's request was accepted and given a code, and within the hour,
  with no lock-out on, the operator enters that code (in any case, with spaces around it), then the
  approval goes through, the next reading of the account's approved senders, which comes from the
  cache, shows the sender, and the access policy of a direct message lets the sender in, whatever else
  is configured. The store must be writable, the account's name usable in a file name, the date
  readable as it was written, and the sender not approved already.\<close>

theorem pairing_admits_sender:
  assumes ask: "upsertChannelPairingRequest e channel (JStr sender) accountId metaIn w0 = (Inr \<lparr>up_code = code, up_created = True\<rparr>, w)"
    and enter: "toUpperCase (js_trim entered) = code"
    and calm: "calm e w"
    and dates: "parseTimestamp e (pv_iso e (pv_now e (pw_clock w0))) = Some (pv_now e (pw_clock w0))" "pv_now e (pw_clock w0) \<noteq> 0"
    and in_time: "pv_now e (Suc (pw_clock w)) - pv_now e (pw_clock w0) \<le> PAIRING_PENDING_TTL_MS"
    and open_door: "\<And>path. resolvePairingPath e channel = Inr path \<Longrightarrow>
      pairingCooldownRemainingMs e (ps_wrongAttempts (pairing_of (file_content w path))) (pv_now e (pw_clock w)) \<le> 0"
    and list: "resolveAllowFromFilePath e channel (Some (JStr (account_key accountId))) = Inr listPath"
    and new: "normalizeAllowFromInput e channel (JStr sender) \<noteq> []"
      "normalizeAllowFromInput e channel (JStr sender) \<notin> set (approved e channel (file_content w listPath))"
    and direct: "\<not> ap_isGroup p" "ap_dmPolicy p = None \<or> ap_dmPolicy p = Some ''pairing''"
    and matcher: "\<And>xs. normalizeAllowFromInput e channel (JStr sender) \<in> set xs \<Longrightarrow> ap_isSenderAllowed p xs"
  shows "\<exists>request w1 entries w2.
      approveChannelPairingCode e channel entered None w = (Inr (Approved (js_trim sender) request), w1)
    \<and> readStoreAllowFromForDmPolicy (ap_dmPolicy p) None (readChannelAllowFromStore e channel (Some (JStr accountId))) w1 = (Inr entries, w2)
    \<and> ar_decision (resolveDmGroupAccessWithLists (p\<lparr>ap_storeAllowFrom := Some (map JStr entries)\<rparr>)) = AllowAccess"
proof -
  let ?n = "normalizeAllowFromInput e channel (JStr sender)"
  obtain path reqs attempts request where a:
    "resolvePairingPath e channel = Inr path"
    "file_content w path = Some (PairingContent \<lparr>ps_requests = reqs @ [request], ps_wrongAttempts = attempts\<rparr>)"
    "request = \<lparr>qr_id = normalizeId (JStr sender), qr_code = code, qr_createdAt = pv_iso e (pv_now e (pw_clock w0)),
       qr_lastSeenAt = pv_iso e (pv_now e (pw_clock w0)), qr_meta = Some (request_meta metaIn (account_key accountId))\<rparr>"
    "plain_code code" "\<And>r. r \<in> set reqs \<Longrightarrow> toUpperCase (qr_code r) \<noteq> code"
    using ask by (rule asked) blast
  have request [simp]: "qr_id request = normalizeId (JStr sender)" "qr_code request = code"
    "qr_createdAt request = pv_iso e (pv_now e (pw_clock w0))" by (simp_all add: a(3))
  have "normalizeOptionalString (Some (JStr (account_key accountId))) = Some (account_key accountId)"
    using account_key_trim [of accountId] by (simp add: normalizeOptionalString_def normalizeNullableString_def Let_def)
  then have account: "approval_account None request = Some (JStr (account_key accountId))"
    by (simp add: approval_account_def a(3) meta_account_def meta_of_request normalizeOptionalString_def normalizeNullableString_def)
  have fresh: "\<not> isExpired e request (pv_now e (Suc (pw_clock w)))" using dates in_time by (simp add: isExpired_def)
  have wait: "pairingCooldownRemainingMs e attempts (pv_now e (pw_clock w)) \<le> 0" using open_door [OF a(1)] by (simp add: a(2))
  obtain w' w1 where went:
    "approveChannelPairingCode e channel entered None w = (Inr (Approved (qr_id request) request), w1)"
    "writeAllowFromState e listPath (approved e channel (file_content w listPath) @ [normalizeAllowFromInput e channel (JStr (qr_id request))]) w' = (Inr (), w1)"
    by (rule approval_goes_through [OF a(1,2) _ _ _ wait fresh calm, unfolded account, OF _ _ _ list])
      (use a(4,5) enter new in \<open>simp_all add: input_of_id\<close>)
  have n: "js_trim ?n = ?n" by (simp add: normalizeAllowFromInput_def)
  obtain entries w2 where read: "readChannelAllowFromStore e channel (Some (JStr accountId)) w1 = (Inr entries, w2)" "?n \<in> set entries"
    by (rule read_channel_shows [OF list read_after_write [OF went(2)] _ n new(1)]) (simp_all add: input_of_id)
  have "readStoreAllowFromForDmPolicy (ap_dmPolicy p) None (readChannelAllowFromStore e channel (Some (JStr accountId))) w1 = (Inr entries, w2)"
    using direct(2) read(1) by (auto simp: readStoreAllowFromForDmPolicy_def catch_m_apply)
  with went(1) shown_by_policy [OF direct read(2) n new(1) matcher] show ?thesis
    by (auto simp: normalizeId_text)
qed

text \<open>Eve asks on \<open>signal\<close>, gets a code, and the operator types it in small letters.\<close>

definition first_env :: pairing_env where
  "first_env = sample_pairing_env (\<lambda>n. 5000000) \<lparr>pv_iso := \<lambda>t. ''just now''\<rparr>"

definition first_world :: pairing_world where
  "first_world = \<lparr>pw_files = [], pw_cache = [], pw_clock = 0, pw_random = 0, pw_writes = 0, pw_locks = 0\<rparr>"

definition asked_world :: pairing_world where
  "asked_world = snd (upsertChannelPairingRequest first_env ''signal'' (JStr '' eve'') [] None first_world)"

definition first_params :: access_params where
  "first_params = \<lparr>ap_isGroup = False, ap_dmPolicy = None, ap_groupPolicy = None, ap_allowFrom = None, ap_groupAllowFrom = None,
     ap_storeAllowFrom = None, ap_fallback = None, ap_isSenderAllowed = (\<lambda>xs. ''eve'' \<in> set xs)\<rparr>"

theorem pairing_admits_sender_witness:
  "\<exists>request w1 entries w2.
      approveChannelPairingCode first_env ''signal'' ''abcdefgh '' None asked_world = (Inr (Approved ''eve'' request), w1)
    \<and> readStoreAllowFromForDmPolicy None None (readChannelAllowFromStore first_env ''signal'' (Some (JStr []))) w1 = (Inr entries, w2)
    \<and> ar_decision (resolveDmGroupAccessWithLists (first_params\<lparr>ap_storeAllowFrom := Some (map JStr entries)\<rparr>)) = AllowAccess"
proof -
  have "fst (upsertChannelPairingRequest first_env ''signal'' (JStr '' eve'') [] None first_world) = Inr \<lparr>up_code = ''ABCDEFGH'', up_created = True\<rparr>"
    by code_simp
  then have ask: "upsertChannelPairingRequest first_env ''signal'' (JStr '' eve'') [] None first_world
      = (Inr \<lparr>up_code = ''ABCDEFGH'', up_created = True\<rparr>, asked_world)"
    by (metis asked_world_def prod.collapse)
  have enter: "toUpperCase (js_trim ''abcdefgh '') = ''ABCDEFGH''" by code_simp
  have calm: "calm first_env asked_world" by (simp add: calm_def first_env_def sample_pairing_env_def)
  have dates: "parseTimestamp first_env (pv_iso first_env (pv_now first_env (pw_clock first_world))) = Some (pv_now first_env (pw_clock first_world))"
    "pv_now first_env (pw_clock first_world) \<noteq> 0"
    by (simp_all add: parseTimestamp_def first_env_def sample_pairing_env_def)
  have in_time: "pv_now first_env (Suc (pw_clock asked_world)) - pv_now first_env (pw_clock first_world) \<le> PAIRING_PENDING_TTL_MS"
    by (simp add: first_env_def sample_pairing_env_def PAIRING_PENDING_TTL_MS_def)
  have path: "resolvePairingPath first_env ''signal'' = Inr ''dir/signal-pairing.json''" by code_simp
  have "ps_wrongAttempts (pairing_of (file_content asked_world ''dir/signal-pairing.json'')) = None" by code_simp
  then have open_door: "pairingCooldownRemainingMs first_env (ps_wrongAttempts (pairing_of (file_content asked_world q))) (pv_now first_env (pw_clock asked_world)) \<le> 0"
    if "resolvePairingPath first_env ''signal'' = Inr q" for q
    using that path by (simp add: pairingCooldownRemainingMs_def)
  have list: "resolveAllowFromFilePath first_env ''signal'' (Some (JStr (account_key []))) = Inr ''dir/signal-default-allowFrom.json''"
    by code_simp
  have sender: "normalizeAllowFromInput first_env ''signal'' (JStr '' eve'') = ''eve''" by code_simp
  have old: "approved first_env ''signal'' (file_content asked_world ''dir/signal-default-allowFrom.json'') = []" by code_simp
  have params: "\<not> ap_isGroup first_params" "ap_dmPolicy first_params = None" "ap_isSenderAllowed first_params = (\<lambda>xs. ''eve'' \<in> set xs)"
    by (simp_all add: first_params_def)
  have trim: "js_trim '' eve'' = ''eve''" by code_simp
  show ?thesis
    using pairing_admits_sender [OF ask enter calm dates in_time open_door list, where p = first_params] sender old params trim by simp
qed

end
