(* ===== verification/Net_Address.thy ===== *)
theory Net_Address
  imports Access_Policy Json_Parse "HOL-Library.AList"
begin

text \<open>
  Addresses of clients: \<^verbatim>\<open>src/shared/net/ip.ts\<close> and the part of \<^verbatim>\<open>src/gateway/net.ts\<close> that says whose address a
  request comes from and which hosts are local. The package \<^verbatim>\<open>ipaddr.js\<close>, \<open>net.isIP\<close> and the parser of
  URLs are parameters, an address being a value of any type \<open>'ip\<close>. Finding an address to bind to is not
  modelled.
\<close>

section \<open>Texts\<close>

fun js_split :: "char \<Rightarrow> string \<Rightarrow> string list" where
  "js_split d [] = [[]]"
| "js_split d (c # s) = (if c = d then [] # js_split d s else case js_split d s of p # ps \<Rightarrow> (c # p) # ps | [] \<Rightarrow> [[c]])"

definition ends_text :: "string \<Rightarrow> string \<Rightarrow> bool" where
  "ends_text p s \<longleftrightarrow> length p \<le> length s \<and> drop (length s - length p) s = p"

text \<open>\<open>s.slice(1, -1)\<close>, and the text before the first \<open>]\<close> after the first character.\<close>

definition inner :: "string \<Rightarrow> string" where
  "inner s = butlast (drop 1 s)"

definition bracketed :: "string \<Rightarrow> string option" where
  "bracketed s = (if starts_with ''['' s \<and> CHR '']'' \<in> set s then Some (takeWhile (\<lambda>c. c \<noteq> CHR '']'') (drop 1 s)) else None)"

definition lower_text :: "string \<Rightarrow> string" where
  "lower_text s = normalizeLowercaseStringOrEmpty (Some (JStr s))"

fun toString16 :: "nat \<Rightarrow> string" where
  "toString16 n = (if n < 16 then [hex_digit n] else toString16 (n div 16) @ [hex_digit (n mod 16)])"

declare toString16.simps [simp del]

section \<open>Addresses\<close>

record 'ip ip_lib =
  il_isIP :: "string \<Rightarrow> nat"
  il_v4_valid :: "string \<Rightarrow> bool"
  il_v4_four :: "string \<Rightarrow> bool"
  il_v4_parse :: "string \<Rightarrow> 'ip"
  il_v6_valid :: "string \<Rightarrow> bool"
  il_v6_parse :: "string \<Rightarrow> 'ip"
  il_is_v6 :: "'ip \<Rightarrow> bool"
  il_mapped :: "'ip \<Rightarrow> bool"
  il_to_v4 :: "'ip \<Rightarrow> 'ip"
  il_text :: "'ip \<Rightarrow> string"
  il_range :: "'ip \<Rightarrow> string"
  il_part0 :: "'ip \<Rightarrow> nat"
  il_cidr :: "string \<Rightarrow> ('ip \<times> nat) option"
  il_match :: "'ip \<Rightarrow> 'ip \<times> nat \<Rightarrow> bool option"

definition stripIpv6Brackets :: "string \<Rightarrow> string" where
  "stripIpv6Brackets v = (if starts_with ''['' v \<and> ends_text '']'' v then inner v else v)"

definition normalizeIpParseInput :: "string option \<Rightarrow> string option" where
  "normalizeIpParseInput raw =
     (case normalizeOptionalString (map_option JStr raw) of
        None \<Rightarrow> None
      | Some trimmed \<Rightarrow> Some (stripIpv6Brackets trimmed))"

text \<open>\<open>[^:%]+(?:\.[^:%]+){n}\<close> on a text without \<open>:\<close> and \<open>%\<close>\<close>

primrec dotted_groups :: "nat \<Rightarrow> string \<Rightarrow> bool" where
  "dotted_groups 0 s \<longleftrightarrow> s \<noteq> []"
| "dotted_groups (Suc n) s \<longleftrightarrow> list_ex (\<lambda>i. s ! i = CHR ''.'' \<and> dotted_groups n (drop (Suc i) s)) [1..<length s]"

definition zone_char :: "char \<Rightarrow> bool" where
  "zone_char c \<longleftrightarrow> (let n = of_char c :: nat in 48 \<le> n \<and> n \<le> 57 \<or> 65 \<le> n \<and> n \<le> 90 \<or> 97 \<le> n \<and> n \<le> 122)"

definition octet :: "string \<Rightarrow> nat" where
  "octet part = digits_value (takeWhile is_digit part)"

definition parseIpv6WithEmbeddedIpv4 :: "'ip ip_lib \<Rightarrow> string \<Rightarrow> 'ip option" where
  "parseIpv6WithEmbeddedIpv4 l raw =
     (if CHR '':'' \<notin> set raw \<or> CHR ''.'' \<notin> set raw then None
      else let tail = rev (takeWhile (\<lambda>c. c \<noteq> CHR '':'') (rev raw)); prefix = take (length raw - length tail) raw;
               embeddedIpv4 = takeWhile (\<lambda>c. c \<noteq> CHR ''%'') tail; zoneSuffix = dropWhile (\<lambda>c. c \<noteq> CHR ''%'') tail
           in if \<not> (list_all (\<lambda>c. c \<noteq> CHR 0x0A \<and> c \<noteq> CHR 0x0D) prefix \<and> dotted_groups 3 embeddedIpv4
                    \<and> (zoneSuffix = [] \<or> drop 1 zoneSuffix \<noteq> [] \<and> list_all zone_char (drop 1 zoneSuffix)))
              then None
              else if \<not> il_v4_four l embeddedIpv4 then None
              else let octets = map octet (js_split (CHR ''.'') embeddedIpv4);
                       high = toString16 (or (push_bit 8 (octets ! 0)) (octets ! 1));
                       low = toString16 (or (push_bit 8 (octets ! 2)) (octets ! 3));
                       normalizedIpv6 = prefix @ high @ '':'' @ low @ zoneSuffix
                   in if \<not> il_v6_valid l normalizedIpv6 then None else Some (il_v6_parse l normalizedIpv6))"

definition normalizeIpv4MappedAddress :: "'ip ip_lib \<Rightarrow> 'ip \<Rightarrow> 'ip" where
  "normalizeIpv4MappedAddress l address =
     (if \<not> il_is_v6 l address then address else if \<not> il_mapped l address then address else il_to_v4 l address)"

definition parseCanonicalIpAddress :: "'ip ip_lib \<Rightarrow> string option \<Rightarrow> 'ip option" where
  "parseCanonicalIpAddress l raw =
     (case normalizeIpParseInput raw of
        None \<Rightarrow> None
      | Some normalized \<Rightarrow>
          if normalized = [] then None
          else if il_v4_valid l normalized then (if il_v4_four l normalized then Some (il_v4_parse l normalized) else None)
          else if il_v6_valid l normalized then Some (il_v6_parse l normalized)
          else parseIpv6WithEmbeddedIpv4 l normalized)"

definition normalizeIpAddress :: "'ip ip_lib \<Rightarrow> string option \<Rightarrow> string option" where
  "normalizeIpAddress l raw =
     map_option (\<lambda>parsed. lower_text (il_text l (normalizeIpv4MappedAddress l parsed))) (parseCanonicalIpAddress l raw)"

definition isLoopbackIpAddress :: "'ip ip_lib \<Rightarrow> string option \<Rightarrow> bool" where
  "isLoopbackIpAddress l raw =
     (case parseCanonicalIpAddress l raw of
        None \<Rightarrow> False
      | Some parsed \<Rightarrow> il_range l (normalizeIpv4MappedAddress l parsed) = ''loopback'')"

definition BLOCKED_IPV6_SPECIAL_USE_RANGES :: "string list" where
  "BLOCKED_IPV6_SPECIAL_USE_RANGES = [''unspecified'', ''loopback'', ''linkLocal'', ''uniqueLocal'', ''multicast'', ''reserved'',
     ''benchmarking'', ''discard'', ''orchid2'']"

definition PRIVATE_OR_LOOPBACK_IPV4_RANGES :: "string list" where
  "PRIVATE_OR_LOOPBACK_IPV4_RANGES = [''loopback'', ''private'', ''linkLocal'', ''carrierGradeNat'']"

definition isBlockedSpecialUseIpv6Address :: "'ip ip_lib \<Rightarrow> 'ip \<Rightarrow> bool \<Rightarrow> bool" where
  "isBlockedSpecialUseIpv6Address l address allowUniqueLocalRange =
     (let range = il_range l address
      in if range = ''uniqueLocal'' \<and> allowUniqueLocalRange then False
         else if range \<in> set BLOCKED_IPV6_SPECIAL_USE_RANGES then True
         else and (il_part0 l address) 0xffc0 = 0xfec0)"

definition isPrivateOrLoopbackIpAddress :: "'ip ip_lib \<Rightarrow> string option \<Rightarrow> bool" where
  "isPrivateOrLoopbackIpAddress l raw =
     (case parseCanonicalIpAddress l raw of
        None \<Rightarrow> False
      | Some parsed \<Rightarrow>
          let normalized = normalizeIpv4MappedAddress l parsed
          in if \<not> il_is_v6 l normalized then il_range l normalized \<in> set PRIVATE_OR_LOOPBACK_IPV4_RANGES
             else isBlockedSpecialUseIpv6Address l normalized False)"

definition isIpInCidr :: "'ip ip_lib \<Rightarrow> string \<Rightarrow> string \<Rightarrow> bool" where
  "isIpInCidr l ip cidr =
     (case parseCanonicalIpAddress l (Some ip) of
        None \<Rightarrow> False
      | Some normalizedIp \<Rightarrow>
          let candidate = js_trim cidr; comparableIp = normalizeIpv4MappedAddress l normalizedIp
          in if candidate = [] then False
             else if CHR ''/'' \<notin> set candidate
             then (case parseCanonicalIpAddress l (Some candidate) of
                     None \<Rightarrow> False
                   | Some exact \<Rightarrow>
                       let comparableExact = normalizeIpv4MappedAddress l exact
                       in il_is_v6 l comparableIp = il_is_v6 l comparableExact \<and> il_text l comparableIp = il_text l comparableExact)
             else (case il_cidr l candidate of
                     None \<Rightarrow> False
                   | Some (baseAddress, prefixLength) \<Rightarrow>
                       let comparableBase = normalizeIpv4MappedAddress l baseAddress
                       in if il_is_v6 l comparableIp \<noteq> il_is_v6 l comparableBase then False
                          else il_match l comparableIp (comparableBase, prefixLength) = Some True))"

section \<open>The client of a request\<close>

text \<open>A header appears once or several times.\<close>

datatype header_value = OneValue string | ManyValues "string list"

record http_peer =
  hp_remoteAddress :: "string option"
  hp_headers :: "(string \<times> header_value) list"

definition headerValue :: "header_value option \<Rightarrow> string option" where
  "headerValue v = (case v of Some (OneValue s) \<Rightarrow> Some s | Some (ManyValues (s # _)) \<Rightarrow> Some s | _ \<Rightarrow> None)"

definition isLoopbackAddress :: "'ip ip_lib \<Rightarrow> string option \<Rightarrow> bool" where
  "isLoopbackAddress l ip = isLoopbackIpAddress l ip"

definition isPrivateOrLoopbackAddress :: "'ip ip_lib \<Rightarrow> string option \<Rightarrow> bool" where
  "isPrivateOrLoopbackAddress l ip = isPrivateOrLoopbackIpAddress l ip"

text \<open>\<open>before_colon\<close>: the text before the last colon, when the text has one colon only.\<close>

definition stripOptionalPort :: "'ip ip_lib \<Rightarrow> string \<Rightarrow> string" where
  "stripOptionalPort l ip =
     (case bracketed ip of
        Some host \<Rightarrow> host
      | None \<Rightarrow>
          if il_isIP l ip \<noteq> 0 then ip
          else if CHR ''.'' \<in> set ip \<and> length (filter (\<lambda>c. c = CHR '':'') ip) = 1
          then let candidate = takeWhile (\<lambda>c. c \<noteq> CHR '':'') ip in if il_isIP l candidate = 4 then candidate else ip
          else ip)"

definition parseIpLiteral :: "'ip ip_lib \<Rightarrow> string option \<Rightarrow> string option" where
  "parseIpLiteral l raw =
     (case raw of
        None \<Rightarrow> None
      | Some r \<Rightarrow>
          if js_trim r = [] then None
          else case normalizeIpAddress l (Some (stripOptionalPort l (js_trim r))) of
              None \<Rightarrow> None
            | Some normalized \<Rightarrow> if normalized = [] \<or> il_isIP l normalized = 0 then None else Some normalized)"

definition parseRealIp :: "'ip ip_lib \<Rightarrow> string option \<Rightarrow> string option" where
  "parseRealIp l realIp = parseIpLiteral l realIp"

definition isTrustedProxyAddress :: "'ip ip_lib \<Rightarrow> string option \<Rightarrow> string list option \<Rightarrow> bool" where
  "isTrustedProxyAddress l ip trustedProxies =
     (case (normalizeIpAddress l ip, trustedProxies) of
        (Some normalized, Some proxies) \<Rightarrow>
          normalized \<noteq> [] \<and> list_ex (\<lambda>proxy. js_trim proxy \<noteq> [] \<and> isIpInCidr l normalized (js_trim proxy)) proxies
      | _ \<Rightarrow> False)"

definition resolveForwardedClientIp :: "'ip ip_lib \<Rightarrow> string option \<Rightarrow> string list option \<Rightarrow> string option" where
  "resolveForwardedClientIp l forwardedFor trustedProxies =
     (if nullish trustedProxies [] = [] then None
      else let forwardedChain = filter (\<lambda>h. h \<noteq> []) (List.map_filter (\<lambda>entry. parseIpLiteral l (Some entry))
             (case forwardedFor of None \<Rightarrow> [] | Some f \<Rightarrow> js_split (CHR '','') f))
           in find (\<lambda>hop. \<not> isLoopbackAddress l (Some hop) \<and> \<not> isTrustedProxyAddress l (Some hop) trustedProxies) (rev forwardedChain))"

record client_ip_params =
  ci_remoteAddr :: "string option"
  ci_forwardedFor :: "string option"
  ci_realIp :: "string option"
  ci_trustedProxies :: "string list option"
  ci_allowRealIpFallback :: bool

definition resolveClientIp :: "'ip ip_lib \<Rightarrow> client_ip_params \<Rightarrow> string option" where
  "resolveClientIp l p =
     (case normalizeIpAddress l (ci_remoteAddr p) of
        None \<Rightarrow> None
      | Some remote \<Rightarrow>
          if remote = [] then None
          else if \<not> isTrustedProxyAddress l (Some remote) (ci_trustedProxies p) then Some remote
          else case resolveForwardedClientIp l (ci_forwardedFor p) (ci_trustedProxies p) of
              Some forwardedIp \<Rightarrow> Some forwardedIp
            | None \<Rightarrow> if ci_allowRealIpFallback p then parseRealIp l (ci_realIp p) else None)"

definition resolveRequestClientIp :: "'ip ip_lib \<Rightarrow> http_peer option \<Rightarrow> string list option \<Rightarrow> bool \<Rightarrow> string option" where
  "resolveRequestClientIp l req trustedProxies allowRealIpFallback =
     (case req of
        None \<Rightarrow> None
      | Some r \<Rightarrow> resolveClientIp l
          \<lparr>ci_remoteAddr = Some (nullish (hp_remoteAddress r) []),
           ci_forwardedFor = headerValue (map_of (hp_headers r) ''x-forwarded-for''),
           ci_realIp = headerValue (map_of (hp_headers r) ''x-real-ip''),
           ci_trustedProxies = trustedProxies, ci_allowRealIpFallback = allowRealIpFallback\<rparr>)"

section \<open>Local hosts\<close>

definition normalizeHostHeader :: "string option \<Rightarrow> string" where
  "normalizeHostHeader hostHeader = normalizeLowercaseStringOrEmpty (map_option JStr hostHeader)"

definition resolveHostName :: "'ip ip_lib \<Rightarrow> string option \<Rightarrow> string" where
  "resolveHostName l hostHeader =
     (let host = normalizeHostHeader hostHeader
      in if host = [] then []
         else case bracketed host of
             Some name \<Rightarrow> name
           | None \<Rightarrow> if il_isIP l host = 6 then host else takeWhile (\<lambda>c. c \<noteq> CHR '':'') host)"

record parsed_host =
  ph_isLocalhost :: bool
  ph_unbracketedHost :: string

definition parseHostForAddressChecks :: "string \<Rightarrow> parsed_host option" where
  "parseHostForAddressChecks host =
     (if host = [] then None
      else let normalizedHost = lower_text host;
               canonicalHost = rev (dropWhile (\<lambda>c. c = CHR ''.'') (rev normalizedHost))
           in if canonicalHost = ''localhost'' then Some \<lparr>ph_isLocalhost = True, ph_unbracketedHost = canonicalHost\<rparr>
              else Some \<lparr>ph_isLocalhost = False, ph_unbracketedHost =
                if starts_with ''['' normalizedHost \<and> ends_text '']'' normalizedHost then inner normalizedHost else normalizedHost\<rparr>)"

definition isLoopbackHost :: "'ip ip_lib \<Rightarrow> string \<Rightarrow> bool" where
  "isLoopbackHost l host =
     (case parseHostForAddressChecks host of
        None \<Rightarrow> False
      | Some parsed \<Rightarrow> if ph_isLocalhost parsed then True else isLoopbackAddress l (Some (ph_unbracketedHost parsed)))"

definition isLocalishHost :: "'ip ip_lib \<Rightarrow> string option \<Rightarrow> bool" where
  "isLocalishHost l hostHeader =
     (let host = resolveHostName l hostHeader in if host = [] then False else isLoopbackHost l host \<or> ends_text ''.ts.net'' host)"

definition isPrivateOrLoopbackHost :: "'ip ip_lib \<Rightarrow> string \<Rightarrow> bool" where
  "isPrivateOrLoopbackHost l host =
     (case parseHostForAddressChecks host of
        None \<Rightarrow> False
      | Some parsed \<Rightarrow>
          if ph_isLocalhost parsed then True
          else case normalizeIpAddress l (Some (ph_unbracketedHost parsed)) of
              None \<Rightarrow> False
            | Some normalized \<Rightarrow>
                if normalized = [] \<or> \<not> isPrivateOrLoopbackAddress l (Some normalized) then False
                else if il_isIP l normalized = 6 \<and> (starts_with ''ff'' normalized \<or> normalized = ''::'') then False
                else True)"

text \<open>What \<open>new URL\<close> finds in a text, \<open>None\<close> when it throws.\<close>

record parsed_url =
  pu_protocol :: string
  pu_origin :: string
  pu_host :: string
  pu_hostname :: string

definition isSecureWebSocketUrl :: "'ip ip_lib \<Rightarrow> (string \<Rightarrow> parsed_url option) \<Rightarrow> string \<Rightarrow> bool option \<Rightarrow> bool" where
  "isSecureWebSocketUrl l parseUrl url allowPrivateWs =
     (case parseUrl url of
        None \<Rightarrow> False
      | Some parsed \<Rightarrow>
          let protocol = (if pu_protocol parsed = ''https:'' then ''wss:'' else if pu_protocol parsed = ''http:'' then ''ws:''
                          else pu_protocol parsed);
              hostname = pu_hostname parsed
          in if protocol = ''wss:'' then True
             else if protocol \<noteq> ''ws:'' then False
             else if isLoopbackHost l hostname then True
             else if allowPrivateWs = Some True then
               (if isPrivateOrLoopbackHost l hostname then True
                else let hostForIpCheck = (if starts_with ''['' hostname \<and> ends_text '']'' hostname then inner hostname else hostname)
                     in il_isIP l hostForIpCheck = 0)
             else False)"

end
