(* ===== verification/Auth_Limiter.thy ===== *)
theory Auth_Limiter
  imports Net_Address
begin

text \<open>
  Rate limits of the gateway. Failed attempts to authenticate, with a sliding window and a lock-out per
  scope and client: \<^verbatim>\<open>src/gateway/auth-rate-limit.ts\<close>. Write requests of the control plane, with a fixed window
  per device and client: \<^verbatim>\<open>src/gateway/control-plane-rate-limit.ts\<close>. The state is the limiter's map, the
  number of readings of the clock so far, and the attempts in progress; the reading itself is a parameter. Numbers of a configuration
  are integers. The timer that prunes is an event of its own.
\<close>

section \<open>Failed attempts\<close>

record rate_limit_config =
  rc_maxAttempts :: "int option"
  rc_windowMs :: "int option"
  rc_lockoutMs :: "int option"
  rc_exemptLoopback :: "bool option"

record rate_limit_entry =
  re_attempts :: "int list"
  re_lockedUntil :: "int option"

record rate_limit_check_result =
  rr_allowed :: bool
  rr_remaining :: int
  rr_retryAfterMs :: int

record limiter_world =
  lw_entries :: "(string \<times> rate_limit_entry) list"
  lw_clock :: nat
  lw_pending :: "string list"

record 'ip limiter_env =
  le_ip :: "'ip ip_lib"
  le_config :: rate_limit_config
  le_now :: "nat \<Rightarrow> int"

definition AUTH_RATE_LIMIT_SCOPE_DEFAULT :: string where
  "AUTH_RATE_LIMIT_SCOPE_DEFAULT = ''default''"

definition AUTH_RATE_LIMIT_SCOPE_SHARED_SECRET :: string where
  "AUTH_RATE_LIMIT_SCOPE_SHARED_SECRET = ''shared-secret''"

definition BROWSER_ORIGIN_RATE_LIMIT_KEY_PREFIX :: string where
  "BROWSER_ORIGIN_RATE_LIMIT_KEY_PREFIX = ''browser-origin:''"

definition maxAttempts_of :: "rate_limit_config \<Rightarrow> int" where
  "maxAttempts_of c = nullish (rc_maxAttempts c) 10"

definition windowMs_of :: "rate_limit_config \<Rightarrow> int" where
  "windowMs_of c = nullish (rc_windowMs c) 60000"

definition lockoutMs_of :: "rate_limit_config \<Rightarrow> int" where
  "lockoutMs_of c = nullish (rc_lockoutMs c) 300000"

definition normalizeRateLimitClientIp :: "'ip ip_lib \<Rightarrow> string option \<Rightarrow> string" where
  "normalizeRateLimitClientIp l ip =
     (let resolved = nullish (resolveClientIp l \<lparr>ci_remoteAddr = ip, ci_forwardedFor = None, ci_realIp = None,
            ci_trustedProxies = None, ci_allowRealIpFallback = False\<rparr>) ''unknown''
      in case ip of
           Some s \<Rightarrow> if starts_with BROWSER_ORIGIN_RATE_LIMIT_KEY_PREFIX s then s else resolved
         | None \<Rightarrow> resolved)"

definition normalizeScope :: "string option \<Rightarrow> string" where
  "normalizeScope scope =
     (let trimmed = js_trim (nullish scope AUTH_RATE_LIMIT_SCOPE_DEFAULT)
      in if trimmed \<noteq> [] then trimmed else AUTH_RATE_LIMIT_SCOPE_DEFAULT)"

definition resolveKey :: "'ip ip_lib \<Rightarrow> string option \<Rightarrow> string option \<Rightarrow> string \<times> string" where
  "resolveKey l rawIp rawScope =
     (let ip = normalizeRateLimitClientIp l rawIp; scope = normalizeScope rawScope in (scope @ '':'' @ ip, ip))"

definition isExempt :: "('ip, 'b) limiter_env_scheme \<Rightarrow> string \<Rightarrow> bool" where
  "isExempt e ip \<longleftrightarrow> nullish (rc_exemptLoopback (le_config e)) True \<and> isLoopbackAddress (le_ip e) (Some ip)"

definition limiter_now :: "('ip, 'b) limiter_env_scheme \<Rightarrow> (limiter_world, int) prog" where
  "limiter_now e = (\<lambda>w. (Inr (le_now e (lw_clock w)), w\<lparr>lw_clock := Suc (lw_clock w)\<rparr>))"

definition slideWindow :: "('ip, 'b) limiter_env_scheme \<Rightarrow> rate_limit_entry \<Rightarrow> int \<Rightarrow> rate_limit_entry" where
  "slideWindow e entry now =
     (let cutoff = now - windowMs_of (le_config e) in entry\<lparr>re_attempts := filter (\<lambda>ts. ts > cutoff) (re_attempts entry)\<rparr>)"

text \<open>\<open>entry.lockedUntil && now < entry.lockedUntil\<close> and \<open>entry.lockedUntil && now >= entry.lockedUntil\<close>\<close>

definition is_locked :: "rate_limit_entry \<Rightarrow> int \<Rightarrow> bool" where
  "is_locked entry now \<longleftrightarrow> (case re_lockedUntil entry of Some u \<Rightarrow> u \<noteq> 0 \<and> now < u | None \<Rightarrow> False)"

definition lock_expired :: "rate_limit_entry \<Rightarrow> int \<Rightarrow> bool" where
  "lock_expired entry now \<longleftrightarrow> (case re_lockedUntil entry of Some u \<Rightarrow> u \<noteq> 0 \<and> now \<ge> u | None \<Rightarrow> False)"

definition put_entry :: "string \<Rightarrow> rate_limit_entry \<Rightarrow> (limiter_world, unit) prog" where
  "put_entry key entry = modify_m (\<lambda>w. w\<lparr>lw_entries := AList.update key entry (lw_entries w)\<rparr>)"

definition check :: "('ip, 'b) limiter_env_scheme \<Rightarrow> string option \<Rightarrow> string option \<Rightarrow> (limiter_world, rate_limit_check_result) prog" where
  "check e rawIp rawScope =
     (let (key, ip) = resolveKey (le_ip e) rawIp rawScope; maxAttempts = maxAttempts_of (le_config e);
          free = \<lparr>rr_allowed = True, rr_remaining = maxAttempts, rr_retryAfterMs = 0\<rparr>
      in if isExempt e ip then return_m free
         else bind_m (limiter_now e) (\<lambda>now. bind_m (get_m (\<lambda>w. map_of (lw_entries w) key)) (\<lambda>found.
           case found of
             None \<Rightarrow> return_m free
           | Some entry \<Rightarrow>
               if is_locked entry now
               then return_m \<lparr>rr_allowed = False, rr_remaining = 0, rr_retryAfterMs = nullish (re_lockedUntil entry) 0 - now\<rparr>
               else let cleared = (if lock_expired entry now then entry\<lparr>re_lockedUntil := None, re_attempts := []\<rparr> else entry);
                        slid = slideWindow e cleared now;
                        remaining = max 0 (maxAttempts - int (length (re_attempts slid)))
                    in seq_m (put_entry key slid)
                         (return_m \<lparr>rr_allowed = (remaining > 0), rr_remaining = remaining, rr_retryAfterMs = 0\<rparr>))))"

definition recordFailure :: "('ip, 'b) limiter_env_scheme \<Rightarrow> string option \<Rightarrow> string option \<Rightarrow> (limiter_world, unit) prog" where
  "recordFailure e rawIp rawScope =
     (let (key, ip) = resolveKey (le_ip e) rawIp rawScope
      in if isExempt e ip then return_m ()
         else bind_m (limiter_now e) (\<lambda>now. bind_m (get_m (\<lambda>w. map_of (lw_entries w) key)) (\<lambda>found.
           let entry = nullish found \<lparr>re_attempts = [], re_lockedUntil = None\<rparr>
           in if is_locked entry now then return_m ()
              else let slid = slideWindow e entry now; attempts = re_attempts slid @ [now];
                       failed = slid\<lparr>re_attempts := attempts\<rparr>
                   in put_entry key
                        (if int (length attempts) \<ge> maxAttempts_of (le_config e)
                         then failed\<lparr>re_lockedUntil := Some (now + lockoutMs_of (le_config e))\<rparr> else failed))))"

definition reset :: "('ip, 'b) limiter_env_scheme \<Rightarrow> string option \<Rightarrow> string option \<Rightarrow> (limiter_world, unit) prog" where
  "reset e rawIp rawScope =
     modify_m (\<lambda>w. w\<lparr>lw_entries := AList.delete (fst (resolveKey (le_ip e) rawIp rawScope)) (lw_entries w)\<rparr>)"

definition pruned_entries :: "('ip, 'b) limiter_env_scheme \<Rightarrow> int \<Rightarrow> (string \<times> rate_limit_entry) list \<Rightarrow> (string \<times> rate_limit_entry) list" where
  "pruned_entries e now entries =
     List.map_filter (\<lambda>(key, entry).
       if is_locked entry now then Some (key, entry)
       else let slid = slideWindow e entry now in if re_attempts slid = [] then None else Some (key, slid)) entries"

definition prune :: "('ip, 'b) limiter_env_scheme \<Rightarrow> (limiter_world, unit) prog" where
  "prune e = bind_m (limiter_now e) (\<lambda>now. modify_m (\<lambda>w. w\<lparr>lw_entries := pruned_entries e now (lw_entries w)\<rparr>))"

definition size_of :: "(limiter_world, nat) prog" where
  "size_of = get_m (\<lambda>w. length (lw_entries w))"

definition dispose :: "(limiter_world, unit) prog" where
  "dispose = modify_m (\<lambda>w. w\<lparr>lw_entries := []\<rparr>)"

section \<open>Writes of the control plane\<close>

definition CONTROL_PLANE_RATE_LIMIT_MAX_REQUESTS :: nat where
  "CONTROL_PLANE_RATE_LIMIT_MAX_REQUESTS = 3"

definition CONTROL_PLANE_RATE_LIMIT_WINDOW_MS :: int where
  "CONTROL_PLANE_RATE_LIMIT_WINDOW_MS = 60000"

definition CONTROL_PLANE_BUCKET_MAX_STALE_MS :: int where
  "CONTROL_PLANE_BUCKET_MAX_STALE_MS = 5 * 60000"

definition CONTROL_PLANE_BUCKET_MAX_ENTRIES :: nat where
  "CONTROL_PLANE_BUCKET_MAX_ENTRIES = 10000"

record bucket =
  bu_count :: nat
  bu_windowStartMs :: int

record control_client =
  cc_deviceId :: "json option"
  cc_clientIp :: "json option"
  cc_connId :: "json option"

definition normalizePart :: "json option \<Rightarrow> string \<Rightarrow> string" where
  "normalizePart v fallback =
     (case v of Some (JStr s) \<Rightarrow> (let normalized = js_trim s in if length normalized > 0 then normalized else fallback) | _ \<Rightarrow> fallback)"

definition resolveControlPlaneRateLimitKey :: "control_client option \<Rightarrow> string" where
  "resolveControlPlaneRateLimitKey client =
     (let deviceId = normalizePart (Option.bind client cc_deviceId) ''unknown-device'';
          clientIp = normalizePart (Option.bind client cc_clientIp) ''unknown-ip'';
          connId = normalizePart (Option.bind client cc_connId) []
      in if deviceId = ''unknown-device'' \<and> clientIp = ''unknown-ip'' \<and> connId \<noteq> []
         then deviceId @ ''|'' @ clientIp @ ''|conn='' @ connId
         else deviceId @ ''|'' @ clientIp)"

record write_budget =
  wb_allowed :: bool
  wb_retryAfterMs :: int
  wb_remaining :: nat
  wb_key :: string

definition consumeControlPlaneWriteBudget ::
  "control_client option \<Rightarrow> int \<Rightarrow> (string \<times> bucket) list \<Rightarrow> write_budget \<times> (string \<times> bucket) list" where
  "consumeControlPlaneWriteBudget client nowMs buckets =
     (let key = resolveControlPlaneRateLimitKey client;
          fresh = (let kept = (if map_of buckets key = None \<and> length buckets \<ge> CONTROL_PLANE_BUCKET_MAX_ENTRIES then drop 1 buckets else buckets)
                   in (\<lparr>wb_allowed = True, wb_retryAfterMs = 0, wb_remaining = CONTROL_PLANE_RATE_LIMIT_MAX_REQUESTS - 1, wb_key = key\<rparr>,
                       AList.update key \<lparr>bu_count = 1, bu_windowStartMs = nowMs\<rparr> kept))
      in case map_of buckets key of
           None \<Rightarrow> fresh
         | Some b \<Rightarrow>
             if nowMs - bu_windowStartMs b \<ge> CONTROL_PLANE_RATE_LIMIT_WINDOW_MS then fresh
             else if bu_count b \<ge> CONTROL_PLANE_RATE_LIMIT_MAX_REQUESTS
             then (\<lparr>wb_allowed = False, wb_retryAfterMs = max 0 (bu_windowStartMs b + CONTROL_PLANE_RATE_LIMIT_WINDOW_MS - nowMs),
                    wb_remaining = 0, wb_key = key\<rparr>, buckets)
             else (\<lparr>wb_allowed = True, wb_retryAfterMs = 0, wb_remaining = CONTROL_PLANE_RATE_LIMIT_MAX_REQUESTS - (bu_count b + 1), wb_key = key\<rparr>,
                   AList.update key (b\<lparr>bu_count := bu_count b + 1\<rparr>) buckets))"

definition pruneStaleControlPlaneBuckets :: "int \<Rightarrow> (string \<times> bucket) list \<Rightarrow> nat \<times> (string \<times> bucket) list" where
  "pruneStaleControlPlaneBuckets nowMs buckets =
     (let kept = filter (\<lambda>(key, b). \<not> nowMs - bu_windowStartMs b > CONTROL_PLANE_BUCKET_MAX_STALE_MS) buckets
      in (length buckets - length kept, kept))"

text \<open>The map of buckets stays within its bound, and no bucket counts more than the limit.\<close>

definition buckets_ok :: "(string \<times> bucket) list \<Rightarrow> bool" where
  "buckets_ok buckets \<longleftrightarrow> distinct (map fst buckets) \<and> length buckets \<le> CONTROL_PLANE_BUCKET_MAX_ENTRIES
     \<and> (\<forall>b \<in> ran (map_of buckets). 1 \<le> bu_count b \<and> bu_count b \<le> CONTROL_PLANE_RATE_LIMIT_MAX_REQUESTS)"

lemma length_update: "length (AList.update k v xs) = (if map_of xs k = None then Suc (length xs) else length xs)"
  by (induction xs) auto

lemma ran_update: "ran (map_of (AList.update k v xs)) \<subseteq> insert v (ran (map_of xs))"
  by (auto simp: update_conv' ran_def split: if_splits)

lemma ran_drop: "distinct (map fst xs) \<Longrightarrow> ran (map_of (drop 1 xs)) \<subseteq> ran (map_of xs)"
  by (cases xs) (force simp: ran_def)+

lemma consume_keeps_bound:
  assumes ok: "buckets_ok buckets"
  shows "buckets_ok (snd (consumeControlPlaneWriteBudget client nowMs buckets))"
proof -
  let ?key = "resolveControlPlaneRateLimitKey client"
  have max: "(1 :: nat) \<le> CONTROL_PLANE_RATE_LIMIT_MAX_REQUESTS" "0 < CONTROL_PLANE_BUCKET_MAX_ENTRIES"
    by (simp_all add: CONTROL_PLANE_RATE_LIMIT_MAX_REQUESTS_def CONTROL_PLANE_BUCKET_MAX_ENTRIES_def)
  have put: "buckets_ok (AList.update ?key b xs)"
    if "buckets_ok xs" "1 \<le> bu_count b" "bu_count b \<le> CONTROL_PLANE_RATE_LIMIT_MAX_REQUESTS"
      "map_of xs ?key = None \<Longrightarrow> length xs < CONTROL_PLANE_BUCKET_MAX_ENTRIES" for b xs
    using that ran_update [of ?key b xs] unfolding buckets_ok_def length_update by (auto intro: distinct_update)
  have shorter: "buckets_ok (drop 1 buckets)"
    using ok ran_drop [of buckets] unfolding buckets_ok_def by (auto simp: drop_map [symmetric] simp del: drop_map)
  show ?thesis
  proof (cases "map_of buckets ?key")
    case None
    have "buckets_ok (AList.update ?key \<lparr>bu_count = 1, bu_windowStartMs = nowMs\<rparr>
        (if length buckets \<ge> CONTROL_PLANE_BUCKET_MAX_ENTRIES then drop 1 buckets else buckets))"
      using shorter ok max by (intro put) (auto simp: buckets_ok_def)
    with None show ?thesis by (simp add: consumeControlPlaneWriteBudget_def Let_def)
  next
    case (Some b)
    then have "bu_count b \<le> CONTROL_PLANE_RATE_LIMIT_MAX_REQUESTS" using ok ranI [of "map_of buckets", OF Some] by (simp add: buckets_ok_def)
    then show ?thesis
      using Some ok max by (auto simp: consumeControlPlaneWriteBudget_def Let_def intro!: put)
  qed
qed

text \<open>Within one window a client is granted three writes and then none.\<close>

lemma fourth_write_refused:
  assumes "map_of buckets (resolveControlPlaneRateLimitKey client) = Some b" "bu_count b = CONTROL_PLANE_RATE_LIMIT_MAX_REQUESTS"
    and "nowMs < bu_windowStartMs b + CONTROL_PLANE_RATE_LIMIT_WINDOW_MS"
  shows "\<not> wb_allowed (fst (consumeControlPlaneWriteBudget client nowMs buckets))"
    "snd (consumeControlPlaneWriteBudget client nowMs buckets) = buckets"
  using assms by (simp_all add: consumeControlPlaneWriteBudget_def Let_def)

end
