(* ===== verification/Gateway_Auth.thy ===== *)
theory Gateway_Auth
  imports Auth_Limiter Gateway_Http
begin

text \<open>
  Who may use the gateway: \<^verbatim>\<open>src/gateway/auth.ts\<close> with the comparison of secrets of
  \<^verbatim>\<open>src/security/secret-equal.ts\<close>, the check of a browser's origin of \<^verbatim>\<open>src/gateway/origin-check.ts\<close>, and the
  HTTP side of \<^verbatim>\<open>src/gateway/http-auth-utils.ts\<close>. A header that occurs several times is an array, as in Node. What
  Tailscale answers about an address is a parameter that may change with time and may throw. Attempts
  run one after the other: the code runs them in one go, or queues those of one client where it waits.
\<close>

section \<open>Secrets\<close>

text \<open>\<open>Buffer.from(text, "utf8")\<close>\<close>

definition utf8_bytes :: "string \<Rightarrow> nat list" where
  "utf8_bytes s = concat (map (\<lambda>c. let n = of_char c :: nat in if n < 128 then [n] else [192 + n div 64, 128 + n mod 64]) s)"

definition padSecretBytes :: "nat list \<Rightarrow> nat \<Rightarrow> nat list" where
  "padSecretBytes bytes n = (if length bytes = n then bytes else bytes @ replicate (n - length bytes) 0)"

definition safeEqualSecret :: "string option \<Rightarrow> string option \<Rightarrow> bool" where
  "safeEqualSecret provided expected =
     (case (provided, expected) of
        (Some p, Some x) \<Rightarrow>
          let providedBytes = utf8_bytes p; expectedBytes = utf8_bytes x;
              byteLength = max (length providedBytes) (length expectedBytes)
          in if byteLength = 0 then True
             else padSecretBytes providedBytes byteLength = padSecretBytes expectedBytes byteLength
               \<and> length providedBytes = length expectedBytes
      | _ \<Rightarrow> False)"

section \<open>Origins of browsers\<close>

datatype origin_check = OriginOk string | OriginRefused string

record origin_params =
  oc_requestHost :: "string option"
  oc_origin :: "string option"
  oc_allowedOrigins :: "string list option"
  oc_allowHostHeaderOriginFallback :: "bool option"

definition parseOrigin :: "(string \<Rightarrow> parsed_url option) \<Rightarrow> string option \<Rightarrow> parsed_url option" where
  "parseOrigin parseUrl originRaw =
     (let trimmed = js_trim (nullish originRaw [])
      in if trimmed = [] \<or> trimmed = ''null'' then None
         else map_option (\<lambda>url. url\<lparr>pu_origin := lower_text (pu_origin url), pu_host := lower_text (pu_host url),
                pu_hostname := lower_text (pu_hostname url)\<rparr>) (parseUrl trimmed))"

definition checkBrowserOrigin :: "'ip ip_lib \<Rightarrow> (string \<Rightarrow> parsed_url option) \<Rightarrow> origin_params \<Rightarrow> bool \<Rightarrow> origin_check" where
  "checkBrowserOrigin l parseUrl p isLocalClient =
     (case parseOrigin parseUrl (oc_origin p) of
        None \<Rightarrow> OriginRefused ''origin missing or invalid''
      | Some parsedOrigin \<Rightarrow>
          let allowlist = List.map_filter (\<lambda>v. normalizeOptionalLowercaseString (Some (JStr v))) (nullish (oc_allowedOrigins p) []);
              requestHost = normalizeHostHeader (oc_requestHost p)
          in if ''*'' \<in> set allowlist \<or> pu_origin parsedOrigin \<in> set allowlist then OriginOk ''allowlist''
             else if oc_allowHostHeaderOriginFallback p = Some True \<and> requestHost \<noteq> [] \<and> pu_host parsedOrigin = requestHost
             then OriginOk ''host-header-fallback''
             else if isLocalClient \<and> isLoopbackHost l (pu_hostname parsedOrigin) then OriginOk ''local-loopback''
             else OriginRefused ''origin not allowed'')"

section \<open>Types\<close>

record trusted_proxy_config =
  tp_userHeader :: string
  tp_requiredHeaders :: "string list option"
  tp_allowUsers :: "string list option"
  tp_allowLoopback :: "bool option"

record resolved_auth =
  ra_mode :: string
  ra_token :: "string option"
  ra_password :: "string option"
  ra_allowTailscale :: bool
  ra_trustedProxy :: "trusted_proxy_config option"

datatype auth_method = MethodNone | MethodToken | MethodPassword | MethodTailscale | MethodTrustedProxy

record auth_result =
  ao_ok :: bool
  ao_method :: "auth_method option"
  ao_user :: "string option"
  ao_reason :: "string option"
  ao_rateLimited :: bool
  ao_retryAfterMs :: "int option"

record connect_auth =
  co_token :: "string option"
  co_password :: "string option"

datatype auth_surface = SurfaceHttp | SurfaceWsControlUi

record connect_params =
  cp_auth :: resolved_auth
  cp_connectAuth :: "connect_auth option"
  cp_req :: "http_peer option"
  cp_trustedProxies :: "string list option"
  cp_authSurface :: "auth_surface option"
  cp_rateLimiter :: bool
  cp_clientIp :: "string option"
  cp_rateLimitScope :: "string option"
  cp_allowRealIpFallback :: "bool option"
  cp_browserOriginPolicy :: "origin_params option"

record tailscale_identity =
  ti_login :: string
  ti_name :: "string option"

record 'ip auth_env = "'ip limiter_env" +
  ae_parseUrl :: "string \<Rightarrow> parsed_url option"
  ae_whois :: "nat \<Rightarrow> string \<Rightarrow> string + tailscale_identity option"

definition refused :: "string \<Rightarrow> auth_result" where
  "refused reason = \<lparr>ao_ok = False, ao_method = None, ao_user = None, ao_reason = Some reason, ao_rateLimited = False, ao_retryAfterMs = None\<rparr>"

definition passed :: "auth_method \<Rightarrow> string option \<Rightarrow> auth_result" where
  "passed method user = \<lparr>ao_ok = True, ao_method = Some method, ao_user = user, ao_reason = None, ao_rateLimited = False, ao_retryAfterMs = None\<rparr>"

definition rate_limited :: "rate_limit_check_result \<Rightarrow> auth_result" where
  "rate_limited r = \<lparr>ao_ok = False, ao_method = None, ao_user = None, ao_reason = Some ''rate_limited'', ao_rateLimited = True,
     ao_retryAfterMs = Some (rr_retryAfterMs r)\<rparr>"

section \<open>What a request shows\<close>

definition header_json :: "header_value option \<Rightarrow> json option" where
  "header_json v = (case v of None \<Rightarrow> None | Some (OneValue s) \<Rightarrow> Some (JStr s) | Some (ManyValues xs) \<Rightarrow> Some (JArr (map JStr xs)))"

definition header_truthy :: "http_peer \<Rightarrow> string \<Rightarrow> bool" where
  "header_truthy req name = (case map_of (hp_headers req) name of None \<Rightarrow> False | Some (OneValue s) \<Rightarrow> s \<noteq> [] | Some (ManyValues _) \<Rightarrow> True)"

definition hasExplicitSharedSecretAuth :: "connect_auth option \<Rightarrow> bool" where
  "hasExplicitSharedSecretAuth connectAuth =
     (case connectAuth of
        None \<Rightarrow> False
      | Some c \<Rightarrow> normalizeOptionalString (map_option JStr (co_token c)) \<noteq> None
          \<or> normalizeOptionalString (map_option JStr (co_password c)) \<noteq> None)"

definition TAILSCALE_TRUSTED_PROXIES :: "string list" where
  "TAILSCALE_TRUSTED_PROXIES = [''127.0.0.1'', ''::1'']"

definition resolveTailscaleClientIp :: "'ip ip_lib \<Rightarrow> http_peer option \<Rightarrow> string option" where
  "resolveTailscaleClientIp l req =
     (case req of
        None \<Rightarrow> None
      | Some r \<Rightarrow> resolveClientIp l
          \<lparr>ci_remoteAddr = Some (nullish (hp_remoteAddress r) []),
           ci_forwardedFor = headerValue (map_of (hp_headers r) ''x-forwarded-for''), ci_realIp = None,
           ci_trustedProxies = Some TAILSCALE_TRUSTED_PROXIES, ci_allowRealIpFallback = False\<rparr>)"

definition hasForwardedRequestHeaders :: "http_peer option \<Rightarrow> bool" where
  "hasForwardedRequestHeaders req =
     (case req of
        None \<Rightarrow> False
      | Some r \<Rightarrow> list_ex (header_truthy r)
          [''forwarded'', ''x-forwarded-for'', ''x-forwarded-proto'', ''x-real-ip'', ''x-forwarded-host''])"

definition isLocalDirectRequest :: "'ip ip_lib \<Rightarrow> http_peer option \<Rightarrow> bool" where
  "isLocalDirectRequest l req =
     (case req of
        None \<Rightarrow> False
      | Some r \<Rightarrow> if \<not> hasForwardedRequestHeaders req then isLoopbackAddress l (hp_remoteAddress r) else False)"

record tailscale_user =
  tu_login :: string
  tu_name :: string
  tu_profilePic :: "string option"

definition getTailscaleUser :: "http_peer option \<Rightarrow> tailscale_user option" where
  "getTailscaleUser req =
     (case req of
        None \<Rightarrow> None
      | Some r \<Rightarrow>
          (case normalizeOptionalString (header_json (map_of (hp_headers r) ''tailscale-user-login'')) of
             None \<Rightarrow> None
           | Some login \<Rightarrow> Some
               \<lparr>tu_login = login,
                tu_name = nullish (normalizeOptionalString (header_json (map_of (hp_headers r) ''tailscale-user-name''))) login,
                tu_profilePic = normalizeOptionalString (header_json (map_of (hp_headers r) ''tailscale-user-profile-pic''))\<rparr>))"

definition hasTailscaleProxyHeaders :: "http_peer option \<Rightarrow> bool" where
  "hasTailscaleProxyHeaders req =
     (case req of None \<Rightarrow> False | Some r \<Rightarrow> list_all (header_truthy r) [''x-forwarded-for'', ''x-forwarded-proto'', ''x-forwarded-host''])"

definition isTailscaleProxyRequest :: "'ip ip_lib \<Rightarrow> http_peer option \<Rightarrow> bool" where
  "isTailscaleProxyRequest l req =
     (case req of None \<Rightarrow> False | Some r \<Rightarrow> isLoopbackAddress l (hp_remoteAddress r) \<and> hasTailscaleProxyHeaders req)"

definition normalizeLogin :: "string \<Rightarrow> string" where
  "normalizeLogin login = lower_text login"

section \<open>Tailscale and trusted proxies\<close>

definition resolveVerifiedTailscaleUser ::
  "('ip, 'b) auth_env_scheme \<Rightarrow> http_peer option \<Rightarrow> (limiter_world, string + tailscale_user) prog" where
  "resolveVerifiedTailscaleUser e req =
     (case getTailscaleUser req of
        None \<Rightarrow> return_m (Inl ''tailscale_user_missing'')
      | Some tailscaleUser \<Rightarrow>
          if \<not> isTailscaleProxyRequest (le_ip e) req then return_m (Inl ''tailscale_proxy_missing'')
          else case resolveTailscaleClientIp (le_ip e) req of
              None \<Rightarrow> return_m (Inl ''tailscale_whois_failed'')
            | Some clientIp \<Rightarrow>
                bind_m (get_m lw_clock) (\<lambda>time. bind_m (lift_m (ae_whois e time clientIp)) (\<lambda>whois.
                  case whois of
                    None \<Rightarrow> return_m (Inl ''tailscale_whois_failed'')
                  | Some identity \<Rightarrow>
                      if ti_login identity = [] then return_m (Inl ''tailscale_whois_failed'')
                      else if normalizeLogin (ti_login identity) \<noteq> normalizeLogin (tu_login tailscaleUser)
                      then return_m (Inl ''tailscale_user_mismatch'')
                      else return_m (Inr \<lparr>tu_login = ti_login identity, tu_name = nullish (ti_name identity) (tu_name tailscaleUser),
                             tu_profilePic = tu_profilePic tailscaleUser\<rparr>))))"

definition blank_header :: "http_peer \<Rightarrow> string \<Rightarrow> bool" where
  "blank_header req name = (js_trim (nullish (headerValue (map_of (hp_headers req) (lower_text name))) []) = [])"

definition authorizeTrustedProxy :: "'ip ip_lib \<Rightarrow> http_peer option \<Rightarrow> string list option \<Rightarrow> trusted_proxy_config \<Rightarrow> string + string" where
  "authorizeTrustedProxy l req trustedProxies cfg =
     (case req of
        None \<Rightarrow> Inl ''trusted_proxy_no_request''
      | Some r \<Rightarrow>
          let remoteAddr = hp_remoteAddress r
          in if \<not> truthy remoteAddr \<or> \<not> isTrustedProxyAddress l remoteAddr trustedProxies then Inl ''trusted_proxy_untrusted_source''
             else if isLoopbackAddress l remoteAddr \<and> tp_allowLoopback cfg \<noteq> Some True then Inl ''trusted_proxy_loopback_source''
             else case find (blank_header r) (nullish (tp_requiredHeaders cfg) []) of
                 Some header \<Rightarrow> Inl (''trusted_proxy_missing_header_'' @ header)
               | None \<Rightarrow>
                   if blank_header r (tp_userHeader cfg) then Inl ''trusted_proxy_user_missing''
                   else let user = js_trim (nullish (headerValue (map_of (hp_headers r) (lower_text (tp_userHeader cfg)))) []);
                            allowUsers = nullish (tp_allowUsers cfg) []
                        in if length allowUsers > 0 \<and> user \<notin> set allowUsers then Inl ''trusted_proxy_user_not_allowed''
                           else Inr user)"

definition shouldAllowTailscaleHeaderAuth :: "auth_surface \<Rightarrow> bool" where
  "shouldAllowTailscaleHeaderAuth authSurface \<longleftrightarrow> authSurface = SurfaceWsControlUi"

definition authorizeTrustedProxyBrowserOrigin :: "('ip, 'b) auth_env_scheme \<Rightarrow> auth_surface \<Rightarrow> origin_params option \<Rightarrow> string option" where
  "authorizeTrustedProxyBrowserOrigin e authSurface browserOriginPolicy =
     (if authSurface \<noteq> SurfaceHttp then None
      else case browserOriginPolicy of
          None \<Rightarrow> None
        | Some policy \<Rightarrow>
            let origin = js_trim (nullish (oc_origin policy) [])
            in if origin = [] then None
               else case checkBrowserOrigin (le_ip e) (ae_parseUrl e) (policy\<lparr>oc_origin := Some origin\<rparr>) False of
                   OriginOk _ \<Rightarrow> None
                 | OriginRefused _ \<Rightarrow> Some ''trusted_proxy_origin_not_allowed'')"

section \<open>Tokens and passwords\<close>

definition authorizeTokenAuth ::
  "('ip, 'b) limiter_env_scheme \<Rightarrow> string option \<Rightarrow> string option \<Rightarrow> bool \<Rightarrow> string option \<Rightarrow> string \<Rightarrow> (limiter_world, auth_result) prog" where
  "authorizeTokenAuth e authToken connectToken limited ip rateLimitScope =
     (if \<not> truthy authToken then return_m (refused ''token_missing_config'')
      else if \<not> truthy connectToken then return_m (refused ''token_missing'')
      else if \<not> safeEqualSecret connectToken authToken
      then seq_m (when_m limited (recordFailure e ip (Some rateLimitScope))) (return_m (refused ''token_mismatch''))
      else seq_m (when_m limited (reset e ip (Some rateLimitScope))) (return_m (passed MethodToken None)))"

definition authorizePasswordAuth ::
  "('ip, 'b) limiter_env_scheme \<Rightarrow> string option \<Rightarrow> string option \<Rightarrow> bool \<Rightarrow> string option \<Rightarrow> string \<Rightarrow> (limiter_world, auth_result) prog" where
  "authorizePasswordAuth e authPassword connectPassword limited ip rateLimitScope =
     (if \<not> truthy authPassword then return_m (refused ''password_missing_config'')
      else if \<not> truthy connectPassword then return_m (refused ''password_missing'')
      else if \<not> safeEqualSecret connectPassword authPassword
      then seq_m (when_m limited (recordFailure e ip (Some rateLimitScope))) (return_m (refused ''password_mismatch''))
      else seq_m (when_m limited (reset e ip (Some rateLimitScope))) (return_m (passed MethodPassword None)))"

text \<open>The limiter is asked before a credential is looked at.\<close>

definition unless_limited ::
  "('ip, 'b) limiter_env_scheme \<Rightarrow> bool \<Rightarrow> string option \<Rightarrow> string \<Rightarrow> (limiter_world, auth_result) prog \<Rightarrow> (limiter_world, auth_result) prog" where
  "unless_limited e limited ip rateLimitScope rest =
     (if \<not> limited then rest
      else bind_m (check e ip (Some rateLimitScope)) (\<lambda>rlCheck. if \<not> rr_allowed rlCheck then return_m (rate_limited rlCheck) else rest))"

definition attempt_ip :: "('ip, 'b) limiter_env_scheme \<Rightarrow> connect_params \<Rightarrow> string option" where
  "attempt_ip e p =
     (case cp_clientIp p of
        Some ip \<Rightarrow> Some ip
      | None \<Rightarrow>
          (case resolveRequestClientIp (le_ip e) (cp_req p) (cp_trustedProxies p) (cp_allowRealIpFallback p = Some True) of
             Some ip \<Rightarrow> Some ip
           | None \<Rightarrow> Option.bind (cp_req p) hp_remoteAddress))"

definition attempt_scope :: "connect_params \<Rightarrow> string" where
  "attempt_scope p = nullish (cp_rateLimitScope p) AUTH_RATE_LIMIT_SCOPE_SHARED_SECRET"

definition authorizeGatewayConnectCore :: "('ip, 'b) auth_env_scheme \<Rightarrow> connect_params \<Rightarrow> (limiter_world, auth_result) prog" where
  "authorizeGatewayConnectCore e p =
     (let auth = cp_auth p; connectAuth = cp_connectAuth p; authSurface = nullish (cp_authSurface p) SurfaceHttp;
          limited = cp_rateLimiter p; ip = attempt_ip e p; rateLimitScope = attempt_scope p;
          localDirect = isLocalDirectRequest (le_ip e) (cp_req p);
          connectToken = Option.bind connectAuth co_token; connectPassword = Option.bind connectAuth co_password
      in if ra_mode auth = ''trusted-proxy'' then
           (case ra_trustedProxy auth of
              None \<Rightarrow> return_m (refused ''trusted_proxy_config_missing'')
            | Some cfg \<Rightarrow>
                if nullish (cp_trustedProxies p) [] = [] then return_m (refused ''trusted_proxy_no_proxies_configured'')
                else case authorizeTrustedProxy (le_ip e) (cp_req p) (cp_trustedProxies p) cfg of
                    Inr user \<Rightarrow>
                      (case authorizeTrustedProxyBrowserOrigin e authSurface (cp_browserOriginPolicy p) of
                         Some reason \<Rightarrow> return_m (refused reason)
                       | None \<Rightarrow> return_m (passed MethodTrustedProxy (Some user)))
                  | Inl reason \<Rightarrow>
                      if localDirect \<and> truthy (ra_password auth) \<and> truthy connectPassword
                      then unless_limited e limited ip rateLimitScope
                             (authorizePasswordAuth e (ra_password auth) connectPassword limited ip rateLimitScope)
                      else return_m (refused reason))
         else if ra_mode auth = ''none'' then return_m (passed MethodNone None)
         else unless_limited e limited ip rateLimitScope
           (let by_secret =
                  (if ra_mode auth = ''token'' then authorizeTokenAuth e (ra_token auth) connectToken limited ip rateLimitScope
                   else if ra_mode auth = ''password'' then authorizePasswordAuth e (ra_password auth) connectPassword limited ip rateLimitScope
                   else seq_m (when_m limited (recordFailure e ip (Some rateLimitScope))) (return_m (refused ''unauthorized'')))
            in if shouldAllowTailscaleHeaderAuth authSurface \<and> ra_allowTailscale auth \<and> \<not> localDirect \<and> \<not> hasExplicitSharedSecretAuth connectAuth
               then bind_m (resolveVerifiedTailscaleUser e (cp_req p)) (\<lambda>tailscaleCheck.
                      case tailscaleCheck of
                        Inr user \<Rightarrow> seq_m (when_m limited (reset e ip (Some rateLimitScope)))
                                      (return_m (passed MethodTailscale (Some (tu_login user))))
                      | Inl _ \<Rightarrow> by_secret)
               else by_secret))"

text \<open>An attempt that may wait for Tailscale enters the queue of its client and scope, waits for the one before it,
  and leaves the queue whatever happens: \<^verbatim>\<open>src/gateway/rate-limit-attempt-serialization.ts\<close>. Attempts here run
  one at a time, so the one before has always ended.\<close>

definition buildSerializationKey :: "'ip ip_lib \<Rightarrow> string option \<Rightarrow> string option \<Rightarrow> string" where
  "buildSerializationKey l ip scope = normalizeScope scope @ '':'' @ normalizeRateLimitClientIp l ip"

definition withSerializedRateLimitAttempt ::
  "'ip ip_lib \<Rightarrow> string option \<Rightarrow> string option \<Rightarrow> (limiter_world, 'a) prog \<Rightarrow> (limiter_world, 'a) prog" where
  "withSerializedRateLimitAttempt l ip scope run = (\<lambda>w.
     let key = buildSerializationKey l ip scope; (res, w') = run (w\<lparr>lw_pending := key # lw_pending w\<rparr>)
     in (res, w'\<lparr>lw_pending := remove1 key (lw_pending w')\<rparr>))"

definition authorizeGatewayConnect :: "('ip, 'b) auth_env_scheme \<Rightarrow> connect_params \<Rightarrow> (limiter_world, auth_result) prog" where
  "authorizeGatewayConnect e p =
     (if cp_rateLimiter p \<and> shouldAllowTailscaleHeaderAuth (nullish (cp_authSurface p) SurfaceHttp) \<and> ra_allowTailscale (cp_auth p)
         \<and> \<not> isLocalDirectRequest (le_ip e) (cp_req p)
      then withSerializedRateLimitAttempt (le_ip e) (attempt_ip e p) (Some (attempt_scope p)) (authorizeGatewayConnectCore e p)
      else authorizeGatewayConnectCore e p)"

definition authorizeHttpGatewayConnect :: "('ip, 'b) auth_env_scheme \<Rightarrow> connect_params \<Rightarrow> (limiter_world, auth_result) prog" where
  "authorizeHttpGatewayConnect e p = authorizeGatewayConnect e (p\<lparr>cp_authSurface := Some SurfaceHttp\<rparr>)"

definition authorizeWsControlUiGatewayConnect :: "('ip, 'b) auth_env_scheme \<Rightarrow> connect_params \<Rightarrow> (limiter_world, auth_result) prog" where
  "authorizeWsControlUiGatewayConnect e p = authorizeGatewayConnect e (p\<lparr>cp_authSurface := Some SurfaceWsControlUi\<rparr>)"

section \<open>Requests over HTTP\<close>

definition getHeader :: "http_peer \<Rightarrow> string \<Rightarrow> string option" where
  "getHeader req name = headerValue (map_of (hp_headers req) (lower_text name))"

definition getBearerToken :: "http_peer \<Rightarrow> string option" where
  "getBearerToken req =
     (let raw = nullish (normalizeOptionalString (map_option JStr (getHeader req ''authorization''))) []
      in if \<not> starts_with ''bearer '' (lower_text raw) then None
         else normalizeOptionalString (Some (JStr (drop 7 raw))))"

definition resolveHttpBrowserOriginPolicy :: "http_peer \<Rightarrow> string list option \<Rightarrow> bool \<Rightarrow> origin_params" where
  "resolveHttpBrowserOriginPolicy req allowedOrigins hostFallback =
     \<lparr>oc_requestHost = getHeader req ''host'', oc_origin = getHeader req ''origin'', oc_allowedOrigins = allowedOrigins,
      oc_allowHostHeaderOriginFallback = Some hostFallback\<rparr>"

definition usesSharedSecretGatewayMethod :: "auth_method option \<Rightarrow> bool" where
  "usesSharedSecretGatewayMethod method \<longleftrightarrow> method = Some MethodToken \<or> method = Some MethodPassword"

record http_auth_params =
  ha_req :: http_peer
  ha_auth :: resolved_auth
  ha_trustedProxies :: "string list option"
  ha_allowRealIpFallback :: "bool option"
  ha_rateLimiter :: bool
  ha_allowedOrigins :: "string list option"
  ha_hostHeaderOriginFallback :: bool

record authorized_request =
  az_authMethod :: "auth_method option"
  az_trustDeclaredOperatorScopes :: bool

definition http_connect_params :: "http_auth_params \<Rightarrow> connect_params" where
  "http_connect_params p =
     \<lparr>cp_auth = ha_auth p,
      cp_connectAuth = map_option (\<lambda>token. \<lparr>co_token = Some token, co_password = Some token\<rparr>) (getBearerToken (ha_req p)),
      cp_req = Some (ha_req p), cp_trustedProxies = ha_trustedProxies p, cp_authSurface = None, cp_rateLimiter = ha_rateLimiter p,
      cp_clientIp = None, cp_rateLimitScope = None, cp_allowRealIpFallback = ha_allowRealIpFallback p,
      cp_browserOriginPolicy = Some (resolveHttpBrowserOriginPolicy (ha_req p) (ha_allowedOrigins p) (ha_hostHeaderOriginFallback p))\<rparr>"

definition checkGatewayHttpRequestAuth ::
  "('ip, 'b) auth_env_scheme \<Rightarrow> http_auth_params \<Rightarrow> (limiter_world, auth_result + authorized_request) prog" where
  "checkGatewayHttpRequestAuth e p =
     bind_m (authorizeHttpGatewayConnect e (http_connect_params p)) (\<lambda>authResult.
       if \<not> ao_ok authResult then return_m (Inl authResult)
       else return_m (Inr \<lparr>az_authMethod = ao_method authResult,
              az_trustDeclaredOperatorScopes = (\<not> usesSharedSecretGatewayMethod (ao_method authResult))\<rparr>))"

text \<open>What the endpoints of \<open>Gateway_Http\<close> see of an attempt.\<close>

definition failure_seen :: "auth_result \<Rightarrow> gateway_auth" where
  "failure_seen r = (if ao_rateLimited r then AuthRateLimited (map_option nat (ao_retryAfterMs r)) else AuthFailed)"

definition authorizeGatewayHttpRequestOrReply ::
  "('ip, 'b) auth_env_scheme \<Rightarrow> http_auth_params \<Rightarrow> (limiter_world, gateway_reply option + authorized_request) prog" where
  "authorizeGatewayHttpRequestOrReply e p =
     bind_m (checkGatewayHttpRequestAuth e p) (\<lambda>result.
       case result of
         Inl authResult \<Rightarrow> return_m (Inl (sendGatewayAuthFailure (failure_seen authResult)))
       | Inr requestAuth \<Rightarrow> return_m (Inr requestAuth))"

end
