(* ===== verification/Guessing.thy ===== *)
theory Guessing
  imports Gateway_Auth
begin

text \<open>
  How often a client may guess: within any window of the limiter's length no more wrong secrets of one client are
  compared than the limiter allows. The invariant relates the limiter's entry of a client to the times
  of all its guesses so far.
\<close>

section \<open>The invariant\<close>

definition recent :: "('ip, 'b) limiter_env_scheme \<Rightarrow> int \<Rightarrow> int list \<Rightarrow> int list" where
  "recent e t xs = filter (\<lambda>x. x > t - windowMs_of (le_config e)) xs"

definition covers :: "('ip, 'b) limiter_env_scheme \<Rightarrow> int list \<Rightarrow> nat \<Rightarrow> rate_limit_entry option \<Rightarrow> bool" where
  "covers e G k found =
     (case found of
        None \<Rightarrow> \<forall>n \<ge> k. recent e (le_now e n) G = []
      | Some entry \<Rightarrow>
          (case re_lockedUntil entry of
             Some u \<Rightarrow> u \<noteq> 0 \<and> (\<forall>g \<in> set G. g + windowMs_of (le_config e) \<le> u)
           | None \<Rightarrow> \<forall>n \<ge> k. length (recent e (le_now e n) G) \<le> length (recent e (le_now e n) (re_attempts entry))))"

definition sparse :: "('ip, 'b) limiter_env_scheme \<Rightarrow> int list \<Rightarrow> bool" where
  "sparse e G \<longleftrightarrow> (\<forall>s. int (length (filter (\<lambda>g. s < g \<and> g \<le> s + windowMs_of (le_config e)) G)) \<le> maxAttempts_of (le_config e))"

definition throttle_inv :: "('ip, 'b) limiter_env_scheme \<Rightarrow> string \<Rightarrow> int list \<Rightarrow> limiter_world \<Rightarrow> bool" where
  "throttle_inv e key G w \<longleftrightarrow>
     distinct (map fst (lw_entries w)) \<and> sparse e G \<and> (\<forall>g \<in> set G. \<forall>n \<ge> lw_clock w. g \<le> le_now e n)
     \<and> covers e G (lw_clock w) (map_of (lw_entries w) key)"

text \<open>A clock that does not run backwards, and a lock-out no shorter than the window.\<close>

definition sane :: "('ip, 'b) limiter_env_scheme \<Rightarrow> bool" where
  "sane e \<longleftrightarrow> mono (le_now e) \<and> (\<forall>n. 0 < le_now e n) \<and> 0 < maxAttempts_of (le_config e) \<and> 0 \<le> windowMs_of (le_config e)
     \<and> windowMs_of (le_config e) \<le> lockoutMs_of (le_config e)"

lemma covers_later: "covers e G k found \<Longrightarrow> k \<le> k' \<Longrightarrow> covers e G k' found"
  unfolding covers_def by (auto split: option.splits)

lemma recent_slide:
  assumes "t \<le> t'"
  shows "recent e t' (recent e t xs) = recent e t' xs"
  unfolding recent_def filter_filter using assms by (intro filter_cong) auto

lemma slideWindow_simps [simp]:
  "re_attempts (slideWindow e entry t) = recent e t (re_attempts entry)" "re_lockedUntil (slideWindow e entry t) = re_lockedUntil entry"
  by (simp_all add: slideWindow_def recent_def Let_def)

lemma now_mono: "sane e \<Longrightarrow> k \<le> n \<Longrightarrow> le_now e k \<le> le_now e n"
  by (simp add: sane_def monoD)

text \<open>Sliding an entry's window to the present keeps it a cover.\<close>

lemma covers_slide:
  assumes "sane e" "covers e G k (Some entry)"
  shows "covers e G (Suc k) (Some (slideWindow e entry (le_now e k)))"
proof -
  have "recent e (le_now e n) (recent e (le_now e k) xs) = recent e (le_now e n) xs" if "Suc k \<le> n" for n xs
    using now_mono [OF assms(1), of k n] that by (intro recent_slide) simp
  then show ?thesis using assms(2) by (auto simp: covers_def split: option.splits)
qed

text \<open>When a lock-out is over, or the window holds no attempt, all guesses are old.\<close>

lemma covers_none:
  assumes "sane e" "covers e G k (Some entry)" "\<not> is_locked entry (le_now e k)"
    and "lock_expired entry (le_now e k) \<or> recent e (le_now e k) (re_attempts entry) = []"
  shows "covers e G (Suc k) None"
proof -
  have old: "recent e (le_now e k) G = []"
  proof (cases "re_lockedUntil entry")
    case None
    with assms(2,4) show ?thesis by (auto simp: covers_def lock_expired_def)
  next
    case (Some u)
    with assms(2,3) have "\<forall>g \<in> set G. g + windowMs_of (le_config e) \<le> u" "u \<le> le_now e k"
      by (auto simp: covers_def is_locked_def)
    then show ?thesis by (force simp: recent_def filter_empty_conv)
  qed
  have "recent e (le_now e n) G = []" if "Suc k \<le> n" for n
    using old recent_slide [OF now_mono [OF assms(1)], of k n e G] that by (simp add: recent_def)
  then show ?thesis by (simp add: covers_def)
qed

lemma covers_cleared:
  assumes "covers e G k None"
  shows "covers e G k (Some \<lparr>re_attempts = xs, re_lockedUntil = None\<rparr>)"
  using assms by (simp add: covers_def)

lemma map_of_delete: "map_of (AList.delete k xs) = (map_of xs)(k := None)"
  by (simp add: delete_conv')

section \<open>Operations of the limiter keep it\<close>

lemma throttle_put:
  assumes "throttle_inv e key G w" "lw_clock w \<le> k" "k' = key \<Longrightarrow> covers e G k (Some entry)"
  shows "throttle_inv e key G (w\<lparr>lw_clock := k, lw_entries := AList.update k' entry (lw_entries w)\<rparr>)"
  using assms covers_later [of e G "lw_clock w" _ k]
  by (auto simp: throttle_inv_def update_conv' distinct_update)

lemma throttle_tick: "throttle_inv e key G w \<Longrightarrow> lw_clock w \<le> k \<Longrightarrow> throttle_inv e key G (w\<lparr>lw_clock := k\<rparr>)"
  using covers_later [of e G "lw_clock w" _ k] by (auto simp: throttle_inv_def)

lemma check_keeps:
  assumes "sane e"
  shows "preserves (throttle_inv e key G) (check e ip scope)"
proof (rule preservesI)
  fix w assume inv: "throttle_inv e key G w"
  obtain k' a where key: "resolveKey (le_ip e) ip scope = (k', a)" by fastforce
  let ?t = "le_now e (lw_clock w)"
  show "throttle_inv e key G (snd (check e ip scope w))"
  proof (cases "map_of (lw_entries w) k'")
    case None
    then show ?thesis using inv throttle_tick [OF inv]
      by (simp add: check_def key limiter_now_def bind_m_apply Let_def)
  next
    case (Some entry)
    let ?entry = "if lock_expired entry ?t then entry\<lparr>re_lockedUntil := None, re_attempts := []\<rparr> else entry"
    have cov: "k' = key \<Longrightarrow> covers e G (lw_clock w) (Some entry)" using inv Some by (auto simp: throttle_inv_def)
    have "covers e G (Suc (lw_clock w)) (Some (slideWindow e ?entry ?t))" if "\<not> is_locked entry ?t" "k' = key"
    proof (cases "lock_expired entry ?t")
      case True
      have "slideWindow e (entry\<lparr>re_lockedUntil := None, re_attempts := []\<rparr>) ?t = \<lparr>re_attempts = [], re_lockedUntil = None\<rparr>"
        by (cases entry) (simp add: slideWindow_def Let_def)
      with True covers_none [OF assms cov that(1)] that(2) show ?thesis by (simp add: covers_cleared)
    next
      case False
      then show ?thesis using covers_slide [OF assms cov [OF that(2)]] by simp
    qed
    then have "\<not> is_locked entry ?t \<Longrightarrow>
        throttle_inv e key G (w\<lparr>lw_clock := Suc (lw_clock w), lw_entries := AList.update k' (slideWindow e ?entry ?t) (lw_entries w)\<rparr>)"
      by (intro throttle_put [OF inv]) auto
    then show ?thesis
      using inv throttle_tick [OF inv, of "Suc (lw_clock w)"] Some
      by (simp add: check_def key limiter_now_def bind_m_apply seq_m_apply put_entry_def Let_def)
  qed
qed

definition failed_entry :: "('ip, 'b) limiter_env_scheme \<Rightarrow> rate_limit_entry option \<Rightarrow> int \<Rightarrow> rate_limit_entry" where
  "failed_entry e found now =
     (let entry = nullish found \<lparr>re_attempts = [], re_lockedUntil = None\<rparr>; slid = slideWindow e entry now;
          attempts = re_attempts slid @ [now]; failed = slid\<lparr>re_attempts := attempts\<rparr>
      in if int (length attempts) \<ge> maxAttempts_of (le_config e)
         then failed\<lparr>re_lockedUntil := Some (now + lockoutMs_of (le_config e))\<rparr> else failed)"

lemma recordFailure_cases:
  assumes "resolveKey (le_ip e) ip scope = (k', a)"
  shows "snd (recordFailure e ip scope w) =
     (if isExempt e a then w
      else let now = le_now e (lw_clock w); found = map_of (lw_entries w) k'
           in if is_locked (nullish found \<lparr>re_attempts = [], re_lockedUntil = None\<rparr>) now then w\<lparr>lw_clock := Suc (lw_clock w)\<rparr>
              else w\<lparr>lw_clock := Suc (lw_clock w), lw_entries := AList.update k' (failed_entry e found now) (lw_entries w)\<rparr>)"
  using assms by (simp add: recordFailure_def limiter_now_def bind_m_apply put_entry_def failed_entry_def Let_def)

text \<open>A recorded failure covers what the entry covered, and one more guess made at its time.\<close>

lemma covers_failed:
  assumes s: "sane e" and cov: "covers e G k found" and G: "\<forall>g \<in> set G. g \<le> le_now e k"
  shows "covers e G (Suc k) (Some (failed_entry e found (le_now e k)))"
    "Option.bind found re_lockedUntil = None \<Longrightarrow> covers e (G @ [le_now e k]) (Suc k) (Some (failed_entry e found (le_now e k)))"
proof -
  let ?t = "le_now e k" and ?f = "failed_entry e found (le_now e k)"
  let ?old = "nullish found \<lparr>re_attempts = [], re_lockedUntil = None\<rparr>"
  have pos: "0 < ?t" "windowMs_of (le_config e) \<le> lockoutMs_of (le_config e)" "0 \<le> windowMs_of (le_config e)"
    using s by (simp_all add: sane_def)
  have attempts: "re_attempts ?f = recent e ?t (re_attempts ?old) @ [?t]" by (simp add: failed_entry_def Let_def)
  have locked: "re_lockedUntil ?f = Some (?t + lockoutMs_of (le_config e)) \<or> re_lockedUntil ?f = re_lockedUntil ?old"
    by (simp add: failed_entry_def Let_def)
  have covered: "length (recent e (le_now e n) G) \<le> length (recent e (le_now e n) (recent e ?t (re_attempts ?old)))"
    if "Suc k \<le> n" "re_lockedUntil ?old = None" for n
    using cov that recent_slide [OF now_mono [OF s, of k n], of e] by (auto simp: covers_def split: option.splits)
  have new_lock: "?t + lockoutMs_of (le_config e) \<noteq> 0" "\<forall>g \<in> set (G @ [?t]). g + windowMs_of (le_config e) \<le> ?t + lockoutMs_of (le_config e)"
    using pos G by auto
  have old_lock: "re_lockedUntil ?old = Some u \<Longrightarrow> u \<noteq> 0 \<and> (\<forall>g \<in> set G. g + windowMs_of (le_config e) \<le> u)" for u
    using cov by (auto simp: covers_def split: option.splits)
  have recent_more: "recent e t (xs @ ys) = recent e t xs @ recent e t ys" for t xs ys by (simp add: recent_def)
  show "covers e G (Suc k) (Some ?f)"
  proof (cases "re_lockedUntil ?f")
    case None
    then have "re_lockedUntil ?old = None" using locked by auto
    then have "length (recent e (le_now e n) G) \<le> length (recent e (le_now e n) (re_attempts ?f))" if "Suc k \<le> n" for n
      using covered [OF that] unfolding attempts recent_more by simp
    with None show ?thesis by (simp add: covers_def)
  next
    case (Some u)
    then show ?thesis using locked new_lock old_lock [of u] by (auto simp: covers_def)
  qed
  assume "Option.bind found re_lockedUntil = None"
  then have free: "re_lockedUntil ?old = None" by (cases found) simp_all
  show "covers e (G @ [?t]) (Suc k) (Some ?f)"
  proof (cases "re_lockedUntil ?f")
    case None
    have "length (recent e (le_now e n) (G @ [?t])) \<le> length (recent e (le_now e n) (re_attempts ?f))" if "Suc k \<le> n" for n
      using covered [OF that free] unfolding attempts recent_more by simp
    with None show ?thesis by (simp add: covers_def)
  next
    case (Some u)
    then show ?thesis using locked new_lock free by (auto simp: covers_def)
  qed
qed

lemma record_keeps:
  assumes "sane e"
  shows "preserves (throttle_inv e key G) (recordFailure e ip scope)"
proof (rule preservesI)
  fix w assume inv: "throttle_inv e key G w"
  obtain k' a where key: "resolveKey (le_ip e) ip scope = (k', a)" by fastforce
  have "throttle_inv e key G (w\<lparr>lw_clock := Suc (lw_clock w),
      lw_entries := AList.update k' (failed_entry e (map_of (lw_entries w) k') (le_now e (lw_clock w))) (lw_entries w)\<rparr>)"
    using inv by (intro throttle_put [OF inv]) (auto simp: throttle_inv_def intro: covers_failed(1) [OF assms])
  then show "throttle_inv e key G (snd (recordFailure e ip scope w))"
    using inv throttle_tick [OF inv, of "Suc (lw_clock w)"] by (simp add: recordFailure_cases [OF key] Let_def)
qed

lemma sparse_add:
  assumes s: "sane e" and "sparse e G" "int (length (recent e t1 G)) < maxAttempts_of (le_config e)" "t1 \<le> t"
  shows "sparse e (G @ [t])"
  unfolding sparse_def
proof (rule allI)
  fix s
  let ?in = "\<lambda>g. s < g \<and> g \<le> s + windowMs_of (le_config e)"
  show "int (length (filter ?in (G @ [t]))) \<le> maxAttempts_of (le_config e)"
  proof (cases "?in t")
    case True
    have "filter ?in G = filter ?in (recent e t1 G)"
      unfolding recent_def filter_filter using True assms(4) by (intro filter_cong) auto
    then have "length (filter ?in G) \<le> length (recent e t1 G)" by (metis length_filter_le)
    with True assms(3) show ?thesis by simp
  next
    case False
    then have "filter ?in (G @ [t]) = filter ?in G" by simp
    then show ?thesis using assms(2) by (simp only: sparse_def)
  qed
qed

text \<open>A guess that the limiter let through is recorded.\<close>

lemma record_guess:
  assumes s: "sane e" and inv: "throttle_inv e key G w" and key: "resolveKey (le_ip e) ip scope = (key, a)" "\<not> isExempt e a"
    and room: "int (length (recent e t1 G)) < maxAttempts_of (le_config e)" "t1 \<le> le_now e (lw_clock w)"
    and free: "Option.bind (map_of (lw_entries w) key) re_lockedUntil = None"
  shows "throttle_inv e key (G @ [le_now e (lw_clock w)]) (snd (recordFailure e ip scope w))"
    "lw_clock (snd (recordFailure e ip scope w)) = Suc (lw_clock w)"
proof -
  let ?t = "le_now e (lw_clock w)"
  have "\<not> is_locked (nullish (map_of (lw_entries w) key) \<lparr>re_attempts = [], re_lockedUntil = None\<rparr>) ?t"
    using free by (cases "map_of (lw_entries w) key") (auto simp: is_locked_def)
  then have w': "snd (recordFailure e ip scope w) =
      w\<lparr>lw_clock := Suc (lw_clock w), lw_entries := AList.update key (failed_entry e (map_of (lw_entries w) key) ?t) (lw_entries w)\<rparr>"
    using key by (simp add: recordFailure_cases Let_def)
  have G: "\<forall>g \<in> set G. g \<le> ?t" "covers e G (lw_clock w) (map_of (lw_entries w) key)" "sparse e G"
    using inv by (auto simp: throttle_inv_def)
  have later: "\<forall>n \<ge> Suc (lw_clock w). \<forall>g \<in> set (G @ [?t]). g \<le> le_now e n"
  proof (intro allI impI ballI)
    fix n g assume n: "Suc (lw_clock w) \<le> n" and g: "g \<in> set (G @ [?t])"
    have "?t \<le> le_now e n" using now_mono [OF s, of "lw_clock w" n] n by simp
    then show "g \<le> le_now e n" using g G(1) by auto
  qed
  show "throttle_inv e key (G @ [?t]) (snd (recordFailure e ip scope w))"
    unfolding w' throttle_inv_def
    using inv sparse_add [OF s G(3) room] later covers_failed(2) [OF s G(2,1) free]
    by (simp add: throttle_inv_def update_conv' distinct_update)
  show "lw_clock (snd (recordFailure e ip scope w)) = Suc (lw_clock w)" by (simp add: w')
qed

text \<open>What a check that lets an attempt through has found.\<close>

lemma check_allowed:
  assumes s: "sane e" and inv: "throttle_inv e key G w" and key: "resolveKey (le_ip e) ip scope = (key, a)" "\<not> isExempt e a"
    and run: "check e ip scope w = (Inr c, w')" "rr_allowed c"
  shows "int (length (recent e (le_now e (lw_clock w)) G)) < maxAttempts_of (le_config e)"
    "Option.bind (map_of (lw_entries w') key) re_lockedUntil = None" "lw_clock w' = Suc (lw_clock w)"
proof -
  let ?t = "le_now e (lw_clock w)"
  have cov: "covers e G (lw_clock w) (map_of (lw_entries w) key)" using inv by (simp add: throttle_inv_def)
  show "lw_clock w' = Suc (lw_clock w)"
    using run key by (auto simp: check_def limiter_now_def bind_m_apply seq_m_apply put_entry_def Let_def split: option.splits if_splits)
  show "int (length (recent e ?t G)) < maxAttempts_of (le_config e)"
    "Option.bind (map_of (lw_entries w') key) re_lockedUntil = None"
  proof -
    consider (None) "map_of (lw_entries w) key = None" | (Some) entry where "map_of (lw_entries w) key = Some entry" "\<not> is_locked entry ?t"
      using run key by (cases "map_of (lw_entries w) key") (auto simp: check_def limiter_now_def bind_m_apply seq_m_apply put_entry_def Let_def split: if_splits)
    then have "int (length (recent e ?t G)) < maxAttempts_of (le_config e) \<and> Option.bind (map_of (lw_entries w') key) re_lockedUntil = None"
    proof cases
      case None
      then have "recent e ?t G = []" using cov by (simp add: covers_def)
      moreover have "w' = w\<lparr>lw_clock := Suc (lw_clock w)\<rparr>" using None run key by (simp add: check_def limiter_now_def bind_m_apply Let_def)
      ultimately show ?thesis using s None by (simp add: sane_def)
    next
      case Some
      let ?entry = "if lock_expired entry ?t then entry\<lparr>re_lockedUntil := None, re_attempts := []\<rparr> else entry"
      have ent: "map_of (lw_entries w') key = Some (slideWindow e ?entry ?t)" "int (length (recent e ?t (re_attempts ?entry))) < maxAttempts_of (le_config e)"
        using Some run key by (auto simp: check_def limiter_now_def bind_m_apply seq_m_apply put_entry_def Let_def update_conv' split: if_splits)
      have unlocked: "re_lockedUntil ?entry = None"
        using Some cov by (cases "re_lockedUntil entry") (auto simp: lock_expired_def is_locked_def covers_def)
      have "length (recent e ?t G) \<le> length (recent e ?t (re_attempts ?entry))"
      proof (cases "lock_expired entry ?t")
        case True
        then obtain u where u: "re_lockedUntil entry = Some u" "u \<le> ?t" by (auto simp: lock_expired_def split: option.splits)
        then have "\<forall>g \<in> set G. g + windowMs_of (le_config e) \<le> ?t" using cov Some(1) by (auto simp: covers_def)
        then have "recent e ?t G = []" by (force simp: recent_def filter_empty_conv)
        then show ?thesis by simp
      next
        case False
        then show ?thesis using unlocked cov Some(1) by (simp add: covers_def)
      qed
      then show ?thesis using ent unlocked by simp
    qed
    then show "int (length (recent e ?t G)) < maxAttempts_of (le_config e)"
      "Option.bind (map_of (lw_entries w') key) re_lockedUntil = None" by simp_all
  qed
qed

lemma reset_other:
  assumes "fst (resolveKey (le_ip e) ip scope) \<noteq> key"
  shows "preserves (throttle_inv e key G) (reset e ip scope)"
  using assms by (intro preservesI) (simp add: reset_def throttle_inv_def map_of_delete distinct_delete)

lemma pruned_Cons:
  "pruned_entries e now [] = []"
  "pruned_entries e now ((k, entry) # xs) = (if is_locked entry now then (k, entry) # pruned_entries e now xs
     else if recent e now (re_attempts entry) = [] then pruned_entries e now xs else (k, slideWindow e entry now) # pruned_entries e now xs)"
  by (simp_all add: pruned_entries_def List.map_filter_simps Let_def)

lemma pruned_keys: "fst ` set (pruned_entries e now xs) \<subseteq> fst ` set xs"
proof (induction xs)
  case (Cons x xs)
  obtain k entry where x: "x = (k, entry)" by fastforce
  show ?case using Cons.IH unfolding x pruned_Cons by (cases "is_locked entry now"; cases "recent e now (re_attempts entry) = []"; simp; blast)
qed (simp add: pruned_Cons)

lemma pruned_map:
  assumes "distinct (map fst xs)"
  shows "distinct (map fst (pruned_entries e now xs))"
    "map_of (pruned_entries e now xs) key = Option.bind (map_of xs key) (\<lambda>entry. if is_locked entry now then Some entry
       else if recent e now (re_attempts entry) = [] then None else Some (slideWindow e entry now))"
proof -
  show "distinct (map fst (pruned_entries e now xs))"
    using assms
  proof (induction xs)
    case (Cons x xs)
    then show ?case using pruned_keys [of e now xs] by (cases x) (auto simp: pruned_Cons)
  qed (simp add: pruned_Cons)
  have none: "key \<notin> fst ` set xs \<Longrightarrow> map_of (pruned_entries e now xs) key = None" for xs
    using pruned_keys [of e now xs] by (auto simp: map_of_eq_None_iff)
  show "map_of (pruned_entries e now xs) key = Option.bind (map_of xs key) (\<lambda>entry. if is_locked entry now then Some entry
       else if recent e now (re_attempts entry) = [] then None else Some (slideWindow e entry now))"
    using assms
  proof (induction xs)
    case (Cons x xs)
    then show ?case using none [of xs] by (cases x) (auto simp: pruned_Cons)
  qed (simp add: pruned_Cons)
qed

lemma prune_keeps:
  assumes "sane e"
  shows "preserves (throttle_inv e key G) (prune e)"
proof (rule preservesI)
  fix w assume inv: "throttle_inv e key G w"
  then have d: "distinct (map fst (lw_entries w))" by (simp add: throttle_inv_def)
  let ?t = "le_now e (lw_clock w)"
  have "covers e G (Suc (lw_clock w)) (map_of (pruned_entries e ?t (lw_entries w)) key)"
  proof (cases "map_of (lw_entries w) key")
    case None
    then show ?thesis using inv covers_later [of e G "lw_clock w" None] by (simp add: pruned_map [OF d] throttle_inv_def)
  next
    case (Some entry)
    then have cov: "covers e G (lw_clock w) (Some entry)" using inv by (simp add: throttle_inv_def)
    show ?thesis
      using Some covers_later [OF cov, of "Suc (lw_clock w)"] covers_slide [OF assms cov] covers_none [OF assms cov]
      by (simp add: pruned_map [OF d])
  qed
  then show "throttle_inv e key G (snd (prune e w))"
    using inv by (simp add: prune_def limiter_now_def bind_m_apply throttle_inv_def pruned_map [OF d])
qed

section \<open>Attempts keep it\<close>

definition attempt_key :: "('ip, 'b) limiter_env_scheme \<Rightarrow> connect_params \<Rightarrow> string \<times> string" where
  "attempt_key e p = resolveKey (le_ip e) (attempt_ip e p) (Some (attempt_scope p))"

text \<open>A guess: a secret was compared and was wrong.\<close>

definition is_guess :: "string + auth_result \<Rightarrow> bool" where
  "is_guess res \<longleftrightarrow> (case res of Inr r \<Rightarrow> ao_reason r = Some ''token_mismatch'' \<or> ao_reason r = Some ''password_mismatch'' | Inl _ \<Rightarrow> False)"

definition let_in :: "string + auth_result \<Rightarrow> bool" where
  "let_in res \<longleftrightarrow> (case res of Inr r \<Rightarrow> ao_ok r | Inl _ \<Rightarrow> False)"

lemma pending_irrelevant [simp]: "throttle_inv e key G (w\<lparr>lw_pending := x\<rparr>) = throttle_inv e key G w"
  by (simp add: throttle_inv_def)

lemma serialized_keeps:
  "preserves (throttle_inv e key G) m \<Longrightarrow> preserves (throttle_inv e key G) (withSerializedRateLimitAttempt l ip scope m)"
  by (auto simp: preserves_def withSerializedRateLimitAttempt_def Let_def split: prod.split) (metis pending_irrelevant snd_conv)

lemma attempt_other:
  assumes s: "sane e" and other: "cp_rateLimiter p \<Longrightarrow> fst (attempt_key e p) \<noteq> key"
  shows "preserves (throttle_inv e key G) (authorizeGatewayConnect e p)"
proof -
  have reset: "preserves (throttle_inv e key G) (when_m (cp_rateLimiter p) (reset e (attempt_ip e p) (Some (attempt_scope p))))"
    using other by (cases "cp_rateLimiter p") (auto simp: attempt_key_def when_m_def intro: reset_other preserves_return)
  have "preserves (throttle_inv e key G) (authorizeGatewayConnectCore e p)"
    unfolding authorizeGatewayConnectCore_def Let_def unless_limited_def authorizeTokenAuth_def
      authorizePasswordAuth_def resolveVerifiedTailscaleUser_def
    by (intro preserves_intros reset check_keeps record_keeps s)
  then show ?thesis
    unfolding authorizeGatewayConnect_def by (intro preserves_if serialized_keeps)
qed

text \<open>What an attempt leaves, told from its result.\<close>

definition kept_after :: "('ip, 'b) limiter_env_scheme \<Rightarrow> string \<Rightarrow> int list \<Rightarrow> (string + auth_result) \<times> limiter_world \<Rightarrow> bool" where
  "kept_after e key G out \<longleftrightarrow>
     let_in (fst out) \<or> throttle_inv e key (if is_guess (fst out) then G @ [le_now e (lw_clock (snd out) - 1)] else G) (snd out)"

definition may_guess :: "('ip, 'b) limiter_env_scheme \<Rightarrow> string \<Rightarrow> int list \<Rightarrow> limiter_world \<Rightarrow> bool" where
  "may_guess e key G w \<longleftrightarrow> throttle_inv e key G w \<and> Option.bind (map_of (lw_entries w) key) re_lockedUntil = None
     \<and> (\<exists>t1 \<le> le_now e (lw_clock w). int (length (recent e t1 G)) < maxAttempts_of (le_config e))"

lemma record_total: "recordFailure e ip scope w = (Inr (), snd (recordFailure e ip scope w))"
  by (auto simp: recordFailure_def limiter_now_def bind_m_apply put_entry_def Let_def split: prod.split)

lemma check_total: obtains c w' where "check e ip scope w = (Inr c, w')"
proof -
  have "\<exists>c w'. check e ip scope w = (Inr c, w')"
    by (auto simp: check_def limiter_now_def bind_m_apply seq_m_apply put_entry_def Let_def split: prod.split option.split)
  then show thesis using that by blast
qed

lemma secret_step:
  assumes s: "sane e" and key: "resolveKey (le_ip e) ip (Some scope) = (key, a)" "\<not> isExempt e a" and r: "may_guess e key G w"
  shows "kept_after e key G (authorizeTokenAuth e secret given True ip scope w)"
    "kept_after e key G (authorizePasswordAuth e secret given True ip scope w)"
    "kept_after e key G (seq_m (when_m True (recordFailure e ip (Some scope))) (return_m (refused ''unauthorized'')) w)"
proof -
  have inv: "throttle_inv e key G w" using r by (simp add: may_guess_def)
  obtain w1 where run: "recordFailure e ip (Some scope) w = (Inr (), w1)" using record_total [of e ip "Some scope" w] by blast
  have guess: "throttle_inv e key (G @ [le_now e (lw_clock w1 - 1)]) w1"
  proof -
    obtain t1 where t1: "t1 \<le> le_now e (lw_clock w)" "int (length (recent e t1 G)) < maxAttempts_of (le_config e)"
      "Option.bind (map_of (lw_entries w) key) re_lockedUntil = None" using r by (auto simp: may_guess_def)
    show ?thesis using record_guess [OF s inv key t1(2,1,3)] run by simp
  qed
  show "kept_after e key G (authorizeTokenAuth e secret given True ip scope w)"
    "kept_after e key G (authorizePasswordAuth e secret given True ip scope w)"
    using inv guess
    by (simp_all add: authorizeTokenAuth_def authorizePasswordAuth_def kept_after_def let_in_def is_guess_def refused_def passed_def
        seq_m_apply when_m_apply run reset_def)
  show "kept_after e key G (seq_m (when_m True (recordFailure e ip (Some scope))) (return_m (refused ''unauthorized'')) w)"
    using preservesD [OF record_keeps [OF s] inv, of ip "Some scope"]
    by (simp add: kept_after_def let_in_def is_guess_def refused_def seq_m_apply when_m_apply run)
qed

lemma unless_limited_step:
  assumes s: "sane e" and inv: "throttle_inv e key G w" and key: "resolveKey (le_ip e) ip (Some scope) = (key, a)" "\<not> isExempt e a"
    and rest: "\<And>w1. may_guess e key G w1 \<Longrightarrow> kept_after e key G (rest w1)"
  shows "kept_after e key G (unless_limited e True ip scope rest w)"
proof -
  obtain c w1 where run: "check e ip (Some scope) w = (Inr c, w1)" by (rule check_total)
  have inv1: "throttle_inv e key G w1" using preservesD [OF check_keeps [OF s] inv, of ip "Some scope"] run by simp
  show ?thesis
  proof (cases "rr_allowed c")
    case True
    note found = check_allowed [OF s inv key run True]
    have "le_now e (lw_clock w) \<le> le_now e (lw_clock w1)" using now_mono [OF s] found(3) by simp
    then have "may_guess e key G w1" using inv1 found(1,2) by (auto simp: may_guess_def)
    then show ?thesis using rest run True by (simp add: unless_limited_def bind_m_apply)
  next
    case False
    then show ?thesis using inv1 run by (simp add: unless_limited_def bind_m_apply kept_after_def let_in_def is_guess_def rate_limited_def)
  qed
qed

lemma whois_keeps: "\<exists>r. resolveVerifiedTailscaleUser e req w = (r, w)"
  by (auto simp: resolveVerifiedTailscaleUser_def bind_m_apply split: option.split sum.split)

lemma core_keeps:
  assumes s: "sane e" and inv: "throttle_inv e key G w" and key: "attempt_key e p = (key, a)" "\<not> isExempt e a" and limited: "cp_rateLimiter p"
  shows "kept_after e key G (authorizeGatewayConnectCore e p w)"
proof -
  note key' = key(1) [unfolded attempt_key_def] key(2)
  have done_already: "kept_after e key G (return_m (refused r) w)" if "r \<noteq> ''token_mismatch''" "r \<noteq> ''password_mismatch''" for r
    using that inv by (simp add: kept_after_def let_in_def is_guess_def refused_def)
  have pass: "kept_after e key G (return_m (passed m u) w')" for m u w' by (simp add: kept_after_def let_in_def passed_def)
  have secret: "kept_after e key G ((if b then authorizeTokenAuth e x y True ip sc else if c then authorizePasswordAuth e x' y' True ip sc
      else seq_m (when_m True (recordFailure e ip (Some sc))) (return_m (refused ''unauthorized''))) w1)"
    if "may_guess e key G w1" "ip = attempt_ip e p" "sc = attempt_scope p" for b c x y x' y' w1 ip sc
    using secret_step [OF s key' that(1)] that(2,3) by simp
  have tailscale: "kept_after e key G (bind_m (resolveVerifiedTailscaleUser e req) (\<lambda>t. case t of
        Inr user \<Rightarrow> seq_m (when_m True (reset e ip (Some sc))) (return_m (passed MethodTailscale (Some (tu_login user))))
      | Inl _ \<Rightarrow> m) w1)" if "kept_after e key G (m w1)" "may_guess e key G w1" for req ip sc m w1
    using whois_keeps [of e req w1] that
    by (auto simp: bind_m_apply seq_m_apply when_m_apply reset_def kept_after_def let_in_def passed_def is_guess_def may_guess_def split: sum.splits)
  have reason: "r \<noteq> ''token_mismatch'' \<and> r \<noteq> ''password_mismatch''" if "authorizeTrustedProxy l rq tps cfg = Inl r" for l rq tps cfg r
    using that by (auto simp: authorizeTrustedProxy_def Let_def split: option.splits if_splits)
  show ?thesis
  proof (cases "ra_mode (cp_auth p) = ''trusted-proxy''")
    case True
    have password: "kept_after e key G (unless_limited e True (attempt_ip e p) (attempt_scope p)
        (authorizePasswordAuth e x y True (attempt_ip e p) (attempt_scope p)) w)" for x y
      by (rule unless_limited_step [OF s inv key']) (rule secret_step(2) [OF s key'])
    have origin: "kept_after e key G (return_m (refused r) w)" if "authorizeTrustedProxyBrowserOrigin e sf pol = Some r" for sf pol r
      using that by (intro done_already) (auto simp: authorizeTrustedProxyBrowserOrigin_def Let_def split: if_splits option.splits origin_check.splits)
    have refusal: "kept_after e key G (return_m (refused r) w)" if "authorizeTrustedProxy l rq tps cfg = Inl r" for l rq tps cfg r
      using reason [OF that] by (intro done_already) simp_all
    show ?thesis
      using True limited password origin refusal pass
      by (simp add: authorizeGatewayConnectCore_def Let_def done_already del: return_m_apply split: option.split sum.split)
        (blast intro: refusal)
  next
    case False
    have step: "kept_after e key G (unless_limited e True (attempt_ip e p) (attempt_scope p) m w)"
      if "\<And>w1. may_guess e key G w1 \<Longrightarrow> kept_after e key G (m w1)" for m
      by (rule unless_limited_step [OF s inv key']) (rule that)
    show ?thesis
    proof (cases "ra_mode (cp_auth p) = ''none''")
      case True
      then show ?thesis using pass by (simp add: authorizeGatewayConnectCore_def Let_def del: return_m_apply)
    next
      case secret_mode: False
      show ?thesis
        unfolding authorizeGatewayConnectCore_def Let_def if_not_P [OF False] if_not_P [OF secret_mode]
        using limited by (simp only: simp_thms if_True) (intro step, simp add: secret tailscale del: return_m_apply)
    qed
  qed
qed

lemma attempt_keeps:
  assumes s: "sane e" and inv: "throttle_inv e key G w" and key: "attempt_key e p = (key, a)" "\<not> isExempt e a" and limited: "cp_rateLimiter p"
  shows "kept_after e key G (authorizeGatewayConnect e p w)"
proof -
  have core: "kept_after e key G (authorizeGatewayConnectCore e p (w\<lparr>lw_pending := x\<rparr>))" for x
    using inv by (intro core_keeps [OF s _ key limited]) simp
  have "kept_after e key G (withSerializedRateLimitAttempt (le_ip e) ip scope (authorizeGatewayConnectCore e p) w)" for ip scope
  proof -
    obtain res w1 where run: "authorizeGatewayConnectCore e p (w\<lparr>lw_pending := buildSerializationKey (le_ip e) ip scope # lw_pending w\<rparr>) = (res, w1)"
      by fastforce
    show ?thesis
      using core [of "buildSerializationKey (le_ip e) ip scope # lw_pending w"] unfolding run
      by (cases "is_guess res") (simp_all add: withSerializedRateLimitAttempt_def Let_def kept_after_def run)
  qed
  then show ?thesis using core_keeps [OF s inv key limited] by (simp add: authorizeGatewayConnect_def)
qed

section \<open>Runs\<close>

text \<open>What happens at the gateway: attempts to connect, and the timer that prunes the limiter.\<close>

datatype gateway_event = Attempt connect_params | PruneTick

record attempt_seen =
  as_params :: connect_params
  as_result :: "string + auth_result"
  as_time :: int

primrec run_gateway :: "('ip, 'b) auth_env_scheme \<Rightarrow> gateway_event list \<Rightarrow> limiter_world \<Rightarrow> attempt_seen list \<times> limiter_world" where
  "run_gateway e [] w = ([], w)"
| "run_gateway e (ev # events) w =
     (case ev of
        PruneTick \<Rightarrow> run_gateway e events (snd (prune e w))
      | Attempt p \<Rightarrow>
          let (res, w') = authorizeGatewayConnect e p w; (seen, w'') = run_gateway e events w'
          in (\<lparr>as_params = p, as_result = res, as_time = le_now e (lw_clock w' - 1)\<rparr> # seen, w''))"

definition guess_times :: "('ip, 'b) limiter_env_scheme \<Rightarrow> string \<Rightarrow> attempt_seen list \<Rightarrow> int list" where
  "guess_times e key seen = map as_time (filter (\<lambda>s. fst (attempt_key e (as_params s)) = key \<and> is_guess (as_result s)) seen)"

lemma run_keeps:
  assumes s: "sane e"
    and client: "\<And>p. Attempt p \<in> set events \<Longrightarrow> fst (attempt_key e p) = key \<Longrightarrow> cp_rateLimiter p \<and> \<not> isExempt e (snd (attempt_key e p))"
    and unlucky: "\<And>s. s \<in> set (fst (run_gateway e events w)) \<Longrightarrow> fst (attempt_key e (as_params s)) = key \<Longrightarrow> \<not> let_in (as_result s)"
    and inv: "throttle_inv e key G w"
  shows "sparse e (G @ guess_times e key (fst (run_gateway e events w)))"
  using client unlucky inv
proof (induction events arbitrary: w G)
  case Nil
  then show ?case by (simp add: guess_times_def throttle_inv_def)
next
  case (Cons ev events)
  show ?case
  proof (cases ev)
    case PruneTick
    have "throttle_inv e key G (snd (prune e w))" using preservesD [OF prune_keeps [OF s] Cons.prems(3)] .
    then show ?thesis using Cons.IH [of "snd (prune e w)" G] Cons.prems(1,2) PruneTick by simp
  next
    case (Attempt p)
    obtain res w' where run: "authorizeGatewayConnect e p w = (res, w')" by fastforce
    let ?mine = "fst (attempt_key e p) = key" and ?t = "le_now e (lw_clock w' - 1)"
    have seen: "fst (run_gateway e (ev # events) w) = \<lparr>as_params = p, as_result = res, as_time = ?t\<rparr> # fst (run_gateway e events w')"
      using Attempt run by (simp split: prod.split)
    have "throttle_inv e key (if ?mine \<and> is_guess res then G @ [?t] else G) w'"
    proof (cases ?mine)
      case True
      have "\<not> let_in res" using Cons.prems(2) [of "\<lparr>as_params = p, as_result = res, as_time = ?t\<rparr>"] True unfolding seen by simp
      moreover have "cp_rateLimiter p" "\<not> isExempt e (snd (attempt_key e p))" using Cons.prems(1) [of p] True Attempt by simp_all
      moreover have "attempt_key e p = (key, snd (attempt_key e p))" using True by (metis prod.collapse)
      ultimately have "kept_after e key G (res, w')" "\<not> let_in res" using attempt_keeps [OF s Cons.prems(3)] run by metis+
      then show ?thesis using True by (cases "is_guess res") (simp_all add: kept_after_def)
    next
      case False
      then show ?thesis using preservesD [OF attempt_other [OF s] Cons.prems(3), of p] run by simp
    qed
    moreover have "G @ guess_times e key (fst (run_gateway e (ev # events) w))
        = (if ?mine \<and> is_guess res then G @ [?t] else G) @ guess_times e key (fst (run_gateway e events w'))"
      unfolding seen by (simp add: guess_times_def)
    moreover have "\<not> let_in (as_result a)" if "a \<in> set (fst (run_gateway e events w'))" "fst (attempt_key e (as_params a)) = key" for a
      using Cons.prems(2) [of a] that unfolding seen by simp
    ultimately show ?thesis
      using Cons.IH [of w' "if ?mine \<and> is_guess res then G @ [?t] else G"] Cons.prems(1) by simp
  qed
qed

text \<open>C11. Guessing is throttled. Whatever attempts reach the gateway, from whomever and in whatever order, and
  whenever the limiter is pruned, a client that has not guessed right has at most \<open>maxAttempts\<close> wrong
  secrets compared within any window of \<open>windowMs\<close>. The clock must not run backwards, a lock-out must
  last no less than a window, and the attempts counted are those that go through the limiter and are
  not exempt.\<close>

theorem guesses_are_throttled:
  assumes clock: "mono (le_now e)" "\<And>n. 0 < le_now e n"
    and limits: "0 < maxAttempts_of (le_config e)" "0 \<le> windowMs_of (le_config e)" "windowMs_of (le_config e) \<le> lockoutMs_of (le_config e)"
    and fresh: "lw_entries w = []"
    and client: "\<And>p. Attempt p \<in> set events \<Longrightarrow> fst (attempt_key e p) = key \<Longrightarrow> cp_rateLimiter p \<and> \<not> isExempt e (snd (attempt_key e p))"
    and unlucky: "\<And>s. s \<in> set (fst (run_gateway e events w)) \<Longrightarrow> fst (attempt_key e (as_params s)) = key \<Longrightarrow> \<not> let_in (as_result s)"
  shows "int (length (filter (\<lambda>s. fst (attempt_key e (as_params s)) = key \<and> is_guess (as_result s)
      \<and> start < as_time s \<and> as_time s \<le> start + windowMs_of (le_config e)) (fst (run_gateway e events w)))) \<le> maxAttempts_of (le_config e)"
proof -
  let ?seen = "fst (run_gateway e events w)" and ?in = "\<lambda>t. start < t \<and> t \<le> start + windowMs_of (le_config e)"
  have s: "sane e" using clock limits by (simp add: sane_def)
  have "sparse e []" using limits(1) by (simp add: sparse_def)
  then have inv: "throttle_inv e key [] w" using fresh by (simp add: throttle_inv_def covers_def recent_def)
  have "sparse e ([] @ guess_times e key ?seen)" by (rule run_keeps [OF s client unlucky inv])
  then have "sparse e (guess_times e key ?seen)" by (simp only: append_Nil)
  then have "int (length (filter ?in (guess_times e key ?seen))) \<le> maxAttempts_of (le_config e)" by (simp add: sparse_def)
  moreover have "length (filter ?in (guess_times e key ?seen))
      = length (filter (\<lambda>s. fst (attempt_key e (as_params s)) = key \<and> is_guess (as_result s) \<and> ?in (as_time s)) ?seen)"
    by (simp add: guess_times_def filter_map comp_def)
  ultimately show ?thesis by simp
qed

text \<open>A client at \<open>10.0.0.9\<close> guesses three times against a limit of two.\<close>

definition sample_ip_lib :: "string ip_lib" where
  "sample_ip_lib = \<lparr>il_isIP = (\<lambda>s. 4), il_v4_valid = (\<lambda>s. True), il_v4_four = (\<lambda>s. True), il_v4_parse = id, il_v6_valid = (\<lambda>s. False),
     il_v6_parse = id, il_is_v6 = (\<lambda>s. False), il_mapped = (\<lambda>s. False), il_to_v4 = id, il_text = id,
     il_range = (\<lambda>s. if s = ''127.0.0.1'' then ''loopback'' else ''unicast''), il_part0 = (\<lambda>s. 0), il_cidr = (\<lambda>s. None), il_match = (\<lambda>a b. None)\<rparr>"

definition sample_gateway :: "string auth_env" where
  "sample_gateway = \<lparr>le_ip = sample_ip_lib,
     le_config = \<lparr>rc_maxAttempts = Some 2, rc_windowMs = None, rc_lockoutMs = None, rc_exemptLoopback = None\<rparr>,
     le_now = (\<lambda>n. 1000 + int n), ae_parseUrl = (\<lambda>s. None), ae_whois = (\<lambda>n s. Inr None)\<rparr>"

definition sample_attempt :: "string \<Rightarrow> connect_params" where
  "sample_attempt token =
     \<lparr>cp_auth = \<lparr>ra_mode = ''token'', ra_token = Some ''secret'', ra_password = None, ra_allowTailscale = False, ra_trustedProxy = None\<rparr>,
      cp_connectAuth = Some \<lparr>co_token = Some token, co_password = None\<rparr>,
      cp_req = Some \<lparr>hp_remoteAddress = Some ''10.0.0.9'', hp_headers = []\<rparr>, cp_trustedProxies = None, cp_authSurface = None,
      cp_rateLimiter = True, cp_clientIp = None, cp_rateLimitScope = None, cp_allowRealIpFallback = None, cp_browserOriginPolicy = None\<rparr>"

definition sample_guesses :: "gateway_event list" where
  "sample_guesses = [Attempt (sample_attempt ''guess''), PruneTick, Attempt (sample_attempt ''another''), Attempt (sample_attempt ''third'')]"

definition sample_limiter :: limiter_world where
  "sample_limiter = \<lparr>lw_entries = [], lw_clock = 0, lw_pending = []\<rparr>"

theorem guesses_are_throttled_witness:
  "map (\<lambda>s. is_guess (as_result s)) (fst (run_gateway sample_gateway sample_guesses sample_limiter)) = [True, True, False]
   \<and> int (length (filter (\<lambda>s. fst (attempt_key sample_gateway (as_params s)) = ''shared-secret:10.0.0.9'' \<and> is_guess (as_result s)
       \<and> 1000 < as_time s \<and> as_time s \<le> 1000 + windowMs_of (le_config sample_gateway))
     (fst (run_gateway sample_gateway sample_guesses sample_limiter)))) \<le> maxAttempts_of (le_config sample_gateway)"
proof (rule conjI)
  have seen: "list_all (\<lambda>s. \<not> let_in (as_result s)) (fst (run_gateway sample_gateway sample_guesses sample_limiter))"
    by code_simp
  have exempt: "isExempt sample_gateway (snd (attempt_key sample_gateway (sample_attempt t))) = False" for t
  proof -
    have "attempt_key sample_gateway (sample_attempt t) = attempt_key sample_gateway (sample_attempt [])"
      by (simp add: attempt_key_def attempt_ip_def attempt_scope_def sample_attempt_def cong: option.case_cong)
    moreover have "\<not> isExempt sample_gateway (snd (attempt_key sample_gateway (sample_attempt [])))" by code_simp
    ultimately show ?thesis by simp
  qed
  show "map (\<lambda>s. is_guess (as_result s)) (fst (run_gateway sample_gateway sample_guesses sample_limiter)) = [True, True, False]"
    by code_simp
  show "int (length (filter (\<lambda>s. fst (attempt_key sample_gateway (as_params s)) = ''shared-secret:10.0.0.9'' \<and> is_guess (as_result s)
       \<and> 1000 < as_time s \<and> as_time s \<le> 1000 + windowMs_of (le_config sample_gateway))
     (fst (run_gateway sample_gateway sample_guesses sample_limiter)))) \<le> maxAttempts_of (le_config sample_gateway)"
  proof (rule guesses_are_throttled)
    show "mono (le_now sample_gateway)" by (simp add: sample_gateway_def mono_def)
    show "cp_rateLimiter p \<and> \<not> isExempt sample_gateway (snd (attempt_key sample_gateway p))" if "Attempt p \<in> set sample_guesses" for p
      using that exempt by (auto simp: sample_guesses_def) (simp_all add: sample_attempt_def)
    show "\<not> let_in (as_result s)" if "s \<in> set (fst (run_gateway sample_gateway sample_guesses sample_limiter))" for s
      using that seen by (simp add: list_all_iff)
  qed (simp_all add: sample_gateway_def sample_limiter_def maxAttempts_of_def windowMs_of_def lockoutMs_of_def)
qed

end
