(* ===== verification/Gateway_Access.thy ===== *)
theory Gateway_Access
  imports Guessing Capabilities_Http
begin

text \<open>
  What being let in proves. Each way of connecting is granted only on its evidence: a shared secret that was
  presented, an identity Tailscale vouches for, or a user named by a trusted proxy. Behind an endpoint
  this means that nothing changes for a request without the gateway's token.
\<close>

section \<open>Comparing secrets is equality\<close>

lemma utf8_inject: "utf8_bytes s = utf8_bytes t \<Longrightarrow> s = t"
proof (induction s arbitrary: t)
  case Nil
  then show ?case by (cases t) (auto simp: utf8_bytes_def Let_def split: if_splits)
next
  case (Cons c s)
  then obtain d t' where t: "t = d # t'" by (cases t) (auto simp: utf8_bytes_def Let_def split: if_splits)
  have bytes: "utf8_bytes (x # u) = (if (of_char x :: nat) < 128 then [of_char x] else [192 + of_char x div 64, 128 + of_char x mod 64]) @ utf8_bytes u"
    for x :: char and u by (simp add: utf8_bytes_def Let_def)
  have same: "c = d" if "(of_char c :: nat) div 64 = of_char d div 64" "(of_char c :: nat) mod 64 = of_char d mod 64"
    using that by (metis div_mult_mod_eq of_char_eq_iff)
  have "c = d \<and> utf8_bytes s = utf8_bytes t'"
    using Cons.prems unfolding t bytes by (auto split: if_splits intro: same)
  then show ?case using Cons.IH [of t'] by (simp add: t)
qed

lemma utf8_empty [simp]: "utf8_bytes s = [] \<longleftrightarrow> s = []"
  using utf8_inject [of s "[]"] by (auto simp: utf8_bytes_def)

lemma safeEqualSecret_iff: "safeEqualSecret provided expected \<longleftrightarrow> (\<exists>s. provided = Some s \<and> expected = Some s)"
proof (cases "provided = None \<or> expected = None")
  case True
  then show ?thesis by (auto simp: safeEqualSecret_def split: option.split)
next
  case False
  then obtain p x where px: "provided = Some p" "expected = Some x" by auto
  have "safeEqualSecret (Some p) (Some x) \<longleftrightarrow> p = x"
  proof
    assume "safeEqualSecret (Some p) (Some x)"
    then have "utf8_bytes p = utf8_bytes x" by (auto simp: safeEqualSecret_def Let_def padSecretBytes_def split: if_splits)
    then show "p = x" by (rule utf8_inject)
  qed (simp add: safeEqualSecret_def Let_def)
  then show ?thesis by (auto simp: px)
qed

section \<open>The evidence for each way in\<close>

definition presented :: "string option \<Rightarrow> string option \<Rightarrow> bool" where
  "presented secret given \<longleftrightarrow> (\<exists>s. s \<noteq> [] \<and> secret = Some s \<and> given = Some s)"

definition evidence :: "('ip, 'b) auth_env_scheme \<Rightarrow> connect_params \<Rightarrow> auth_result \<Rightarrow> bool" where
  "evidence e p r =
     (let auth = cp_auth p; l = le_ip e
      in case ao_method r of
           None \<Rightarrow> False
         | Some MethodNone \<Rightarrow> ra_mode auth = ''none''
         | Some MethodToken \<Rightarrow> ra_mode auth = ''token'' \<and> presented (ra_token auth) (Option.bind (cp_connectAuth p) co_token)
         | Some MethodPassword \<Rightarrow>
             (ra_mode auth = ''password'' \<or> ra_mode auth = ''trusted-proxy'' \<and> isLocalDirectRequest l (cp_req p))
             \<and> presented (ra_password auth) (Option.bind (cp_connectAuth p) co_password)
         | Some MethodTailscale \<Rightarrow>
             cp_authSurface p = Some SurfaceWsControlUi \<and> ra_allowTailscale auth \<and> isTailscaleProxyRequest l (cp_req p)
             \<and> (\<exists>user time clientIp identity. getTailscaleUser (cp_req p) = Some user \<and> resolveTailscaleClientIp l (cp_req p) = Some clientIp
                  \<and> ae_whois e time clientIp = Inr (Some identity) \<and> ao_user r = Some (ti_login identity)
                  \<and> normalizeLogin (ti_login identity) = normalizeLogin (tu_login user))
         | Some MethodTrustedProxy \<Rightarrow>
             ra_mode auth = ''trusted-proxy''
             \<and> (\<exists>cfg req user. ra_trustedProxy auth = Some cfg \<and> cp_req p = Some req \<and> ao_user r = Some user \<and> user \<noteq> []
                  \<and> isTrustedProxyAddress l (hp_remoteAddress req) (cp_trustedProxies p)
                  \<and> (isLoopbackAddress l (hp_remoteAddress req) \<longrightarrow> tp_allowLoopback cfg = Some True)
                  \<and> (\<forall>name \<in> set (nullish (tp_requiredHeaders cfg) []). \<not> blank_header req name)
                  \<and> (nullish (tp_allowUsers cfg) [] \<noteq> [] \<longrightarrow> user \<in> set (nullish (tp_allowUsers cfg) []))))"

text \<open>A way in that the limiter guards.\<close>

definition unblocked :: "('ip, 'b) auth_env_scheme \<Rightarrow> connect_params \<Rightarrow> limiter_world \<Rightarrow> bool" where
  "unblocked e p w \<longleftrightarrow> cp_rateLimiter p \<longrightarrow>
     (case fst (check e (attempt_ip e p) (Some (attempt_scope p)) w) of Inr c \<Rightarrow> rr_allowed c | Inl _ \<Rightarrow> False)"

lemma secret_passes:
  "authorizeTokenAuth e secret given limited ip scope w = (Inr r, w') \<Longrightarrow> ao_ok r \<Longrightarrow>
     ao_method r = Some MethodToken \<and> presented secret given"
  "authorizePasswordAuth e secret given limited ip scope w = (Inr r, w') \<Longrightarrow> ao_ok r \<Longrightarrow>
     ao_method r = Some MethodPassword \<and> presented secret given"
  by (auto simp: authorizeTokenAuth_def authorizePasswordAuth_def seq_m_apply refused_def passed_def presented_def safeEqualSecret_iff truthy_iff
      split: if_splits prod.splits sum.splits option.splits)

lemma unless_limited_passes:
  assumes "unless_limited e limited ip scope rest w = (Inr r, w')" "ao_ok r"
  obtains w1 where "rest w1 = (Inr r, w')"
    "limited \<longrightarrow> (case fst (check e ip (Some scope) w) of Inr c \<Rightarrow> rr_allowed c | Inl _ \<Rightarrow> False)"
proof (cases limited)
  case True
  obtain c w1 where "check e ip (Some scope) w = (Inr c, w1)" by (rule check_total)
  then show thesis using assms True that [of w1]
    by (auto simp: unless_limited_def bind_m_apply rate_limited_def split: if_splits)
next
  case False
  then show thesis using assms(1) that [of w] by (simp add: unless_limited_def)
qed

lemma proxy_user:
  assumes "authorizeTrustedProxy l req tps cfg = Inr user"
  obtains r where "req = Some r" "user \<noteq> []" "isTrustedProxyAddress l (hp_remoteAddress r) tps"
    "isLoopbackAddress l (hp_remoteAddress r) \<longrightarrow> tp_allowLoopback cfg = Some True"
    "\<forall>name \<in> set (nullish (tp_requiredHeaders cfg) []). \<not> blank_header r name"
    "nullish (tp_allowUsers cfg) [] \<noteq> [] \<longrightarrow> user \<in> set (nullish (tp_allowUsers cfg) [])"
  using assms
  by (auto simp: authorizeTrustedProxy_def Let_def blank_header_def find_None_iff split: option.splits if_splits)

lemma tailscale_evidence:
  assumes "resolveVerifiedTailscaleUser e req w = (Inr (Inr user), w')"
  shows "isTailscaleProxyRequest (le_ip e) req \<and> (\<exists>given time clientIp identity. getTailscaleUser req = Some given
     \<and> resolveTailscaleClientIp (le_ip e) req = Some clientIp \<and> ae_whois e time clientIp = Inr (Some identity)
     \<and> tu_login user = ti_login identity \<and> normalizeLogin (ti_login identity) = normalizeLogin (tu_login given))"
  using assms
  by (auto simp: resolveVerifiedTailscaleUser_def bind_m_apply split: option.splits if_splits sum.splits) blast+

lemma core_evidence:
  assumes run: "authorizeGatewayConnectCore e p w = (Inr r, w')" and ok: "ao_ok r"
  shows "evidence e p r \<and> (ao_method r \<in> {Some MethodToken, Some MethodPassword, Some MethodTailscale} \<longrightarrow> unblocked e p w)"
proof -
  let ?auth = "cp_auth p" and ?ip = "attempt_ip e p" and ?scope = "attempt_scope p" and ?lim = "cp_rateLimiter p"
  note core = run [unfolded authorizeGatewayConnectCore_def Let_def]
  consider (proxy) "ra_mode ?auth = ''trusted-proxy''" | (none) "ra_mode ?auth = ''none''" "ra_mode ?auth \<noteq> ''trusted-proxy''"
    | (secret) "ra_mode ?auth \<noteq> ''none''" "ra_mode ?auth \<noteq> ''trusted-proxy''" by blast
  then show ?thesis
  proof cases
    case proxy
    then obtain cfg where cfg: "ra_trustedProxy ?auth = Some cfg" using core ok by (auto simp: refused_def split: option.splits)
    show ?thesis
    proof (cases "authorizeTrustedProxy (le_ip e) (cp_req p) (cp_trustedProxies p) cfg")
      case (Inr user)
      obtain req where "cp_req p = Some req" "user \<noteq> []" "isTrustedProxyAddress (le_ip e) (hp_remoteAddress req) (cp_trustedProxies p)"
        "isLoopbackAddress (le_ip e) (hp_remoteAddress req) \<longrightarrow> tp_allowLoopback cfg = Some True"
        "\<forall>name \<in> set (nullish (tp_requiredHeaders cfg) []). \<not> blank_header req name"
        "nullish (tp_allowUsers cfg) [] \<noteq> [] \<longrightarrow> user \<in> set (nullish (tp_allowUsers cfg) [])"
        using Inr by (rule proxy_user)
      moreover have "r = passed MethodTrustedProxy (Some user)"
        using core ok Inr proxy cfg by (auto simp: refused_def split: if_splits option.splits)
      ultimately show ?thesis using proxy cfg by (simp add: evidence_def passed_def Let_def)
    next
      case (Inl reason)
      then have direct: "isLocalDirectRequest (le_ip e) (cp_req p)"
        and run': "unless_limited e ?lim ?ip ?scope (authorizePasswordAuth e (ra_password ?auth) (Option.bind (cp_connectAuth p) co_password) ?lim ?ip ?scope) w = (Inr r, w')"
        using core ok proxy cfg by (auto simp: refused_def split: if_splits)
      obtain w1 where pw: "authorizePasswordAuth e (ra_password ?auth) (Option.bind (cp_connectAuth p) co_password) ?lim ?ip ?scope w1 = (Inr r, w')"
        and lim: "?lim \<longrightarrow> (case fst (check e ?ip (Some ?scope) w) of Inr c \<Rightarrow> rr_allowed c | Inl _ \<Rightarrow> False)"
        using run' ok by (rule unless_limited_passes) blast
      then show ?thesis using secret_passes(2) [OF pw ok] lim proxy direct by (auto simp: evidence_def unblocked_def Let_def)
    qed
  next
    case none
    then show ?thesis using core by (auto simp: evidence_def passed_def)
  next
    case secret
    let ?by_secret = "if ra_mode ?auth = ''token'' then authorizeTokenAuth e (ra_token ?auth) (Option.bind (cp_connectAuth p) co_token) ?lim ?ip ?scope
      else if ra_mode ?auth = ''password'' then authorizePasswordAuth e (ra_password ?auth) (Option.bind (cp_connectAuth p) co_password) ?lim ?ip ?scope
      else seq_m (when_m ?lim (recordFailure e ?ip (Some ?scope))) (return_m (refused ''unauthorized''))"
    have by_secret: "evidence e p r" if "?by_secret w1 = (Inr r, w')" for w1
      using that ok secret_passes [of e _ _ ?lim ?ip ?scope w1 r w']
      by (auto simp: evidence_def Let_def seq_m_apply refused_def split: if_splits prod.splits sum.splits)
    obtain w1 where w1: "?lim \<longrightarrow> (case fst (check e ?ip (Some ?scope) w) of Inr c \<Rightarrow> rr_allowed c | Inl _ \<Rightarrow> False)"
      and rest: "(if shouldAllowTailscaleHeaderAuth (nullish (cp_authSurface p) SurfaceHttp) \<and> ra_allowTailscale ?auth
            \<and> \<not> isLocalDirectRequest (le_ip e) (cp_req p) \<and> \<not> hasExplicitSharedSecretAuth (cp_connectAuth p)
          then bind_m (resolveVerifiedTailscaleUser e (cp_req p)) (\<lambda>tailscaleCheck. case tailscaleCheck of
              Inr user \<Rightarrow> seq_m (when_m ?lim (reset e ?ip (Some ?scope))) (return_m (passed MethodTailscale (Some (tu_login user))))
            | Inl _ \<Rightarrow> ?by_secret) else ?by_secret) w1 = (Inr r, w')"
      using core [unfolded if_not_P [OF secret(1)] if_not_P [OF secret(2)]] ok by (rule unless_limited_passes) blast
    have "evidence e p r"
    proof (cases "\<exists>user w2. shouldAllowTailscaleHeaderAuth (nullish (cp_authSurface p) SurfaceHttp) \<and> ra_allowTailscale ?auth
            \<and> \<not> isLocalDirectRequest (le_ip e) (cp_req p) \<and> \<not> hasExplicitSharedSecretAuth (cp_connectAuth p)
            \<and> resolveVerifiedTailscaleUser e (cp_req p) w1 = (Inr (Inr user), w2)")
      case True
      then obtain user w2 where t: "shouldAllowTailscaleHeaderAuth (nullish (cp_authSurface p) SurfaceHttp)" "ra_allowTailscale ?auth"
        "\<not> isLocalDirectRequest (le_ip e) (cp_req p)" "\<not> hasExplicitSharedSecretAuth (cp_connectAuth p)"
        "resolveVerifiedTailscaleUser e (cp_req p) w1 = (Inr (Inr user), w2)" by blast
      then have "r = passed MethodTailscale (Some (tu_login user))"
        using rest by (auto simp: bind_m_apply seq_m_apply when_m_apply reset_def split: if_splits)
      moreover have "cp_authSurface p = Some SurfaceWsControlUi"
        using t(1) by (cases "cp_authSurface p") (auto simp: shouldAllowTailscaleHeaderAuth_def)
      ultimately show ?thesis using tailscale_evidence [OF t(5)] t(2) by (auto simp: evidence_def passed_def Let_def)
    next
      case False
      then have "?by_secret w1 = (Inr r, w') \<or> (\<exists>w2. ?by_secret w2 = (Inr r, w'))"
        using rest by (auto simp: bind_m_apply split: if_splits prod.splits sum.splits)
      then show ?thesis using by_secret by blast
    qed
    then show ?thesis using w1 by (simp add: unblocked_def)
  qed
qed

lemma check_ignores_pending: "fst (check e ip scope (w\<lparr>lw_pending := x\<rparr>)) = fst (check e ip scope w)"
  by (simp add: check_def limiter_now_def bind_m_apply seq_m_apply put_entry_def Let_def split: prod.split option.split)

lemma run_core:
  assumes "authorizeGatewayConnect e p w = (res, w')"
  obtains x w1 where "authorizeGatewayConnectCore e p (w\<lparr>lw_pending := x\<rparr>) = (res, w1)"
proof (cases "cp_rateLimiter p \<and> shouldAllowTailscaleHeaderAuth (nullish (cp_authSurface p) SurfaceHttp) \<and> ra_allowTailscale (cp_auth p)
    \<and> \<not> isLocalDirectRequest (le_ip e) (cp_req p)")
  case True
  then show thesis using assms that
    by (auto simp: authorizeGatewayConnect_def withSerializedRateLimitAttempt_def Let_def split: prod.splits)
next
  case False
  then have "authorizeGatewayConnect e p w = authorizeGatewayConnectCore e p w" by (simp only: authorizeGatewayConnect_def if_False)
  then show thesis using assms that [of "lw_pending w" w'] by simp
qed



section \<open>Behind an endpoint\<close>

text \<open>A request as an endpoint sees it, authorised as the gateway authorises requests over HTTP.\<close>

definition authorised_request :: "('ip, 'b) auth_env_scheme \<Rightarrow> http_auth_params \<Rightarrow> limiter_world \<Rightarrow> gateway_request \<Rightarrow> gateway_request" where
  "authorised_request e hp w req =
     req\<lparr>gq_auth := (case fst (checkGatewayHttpRequestAuth e hp w) of
        Inr (Inr _) \<Rightarrow> AuthPassed | Inr (Inl failure) \<Rightarrow> failure_seen failure | Inl _ \<Rightarrow> AuthFailed)\<rparr>"

lemma token_mode_http:
  assumes "ra_mode (ha_auth hp) = ''token''" "gq_auth (authorised_request e hp w req) = AuthPassed"
  shows "presented (ra_token (ha_auth hp)) (getBearerToken (ha_req hp))"
proof -
  let ?p = "http_connect_params hp\<lparr>cp_authSurface := Some SurfaceHttp\<rparr>"
  obtain r w' where run: "authorizeGatewayConnectCore e ?p w = (Inr r, w')" and ok: "ao_ok r"
    using assms(2)
    by (auto simp: authorised_request_def checkGatewayHttpRequestAuth_def authorizeHttpGatewayConnect_def authorizeGatewayConnect_def bind_m_apply
        failure_seen_def shouldAllowTailscaleHeaderAuth_def split: prod.splits sum.splits if_splits)
  have mode: "ra_mode (cp_auth ?p) = ''token''" using assms(1) by (simp add: http_connect_params_def)
  have "unless_limited e (cp_rateLimiter ?p) (attempt_ip e ?p) (attempt_scope ?p) (authorizeTokenAuth e (ra_token (cp_auth ?p))
      (Option.bind (cp_connectAuth ?p) co_token) (cp_rateLimiter ?p) (attempt_ip e ?p) (attempt_scope ?p)) w = (Inr r, w')"
    using run mode unfolding authorizeGatewayConnectCore_def Let_def by (simp add: shouldAllowTailscaleHeaderAuth_def)
  then obtain w1 where "authorizeTokenAuth e (ra_token (cp_auth ?p)) (Option.bind (cp_connectAuth ?p) co_token) (cp_rateLimiter ?p)
      (attempt_ip e ?p) (attempt_scope ?p) w1 = (Inr r, w')"
    using ok by (rule unless_limited_passes) blast
  from secret_passes(1) [OF this ok] show ?thesis
    by (cases "getBearerToken (ha_req hp)") (simp_all add: http_connect_params_def presented_def)
qed

text \<open>C12. In token mode nobody touches the capabilities without the gateway's token: whatever a request over HTTP
  asks of the capabilities endpoint, files, log and loaded modules stay as they are unless its bearer
  token is the token the gateway is configured with, which must not be empty. Neither forwarding
  headers nor a local address nor Tailscale's headers stand in for it.\<close>

theorem capability_changes_need_token:
  assumes "ra_mode (ha_auth hp) = ''token''"
    and "snd (handleCapabilitiesRequest opts (authorised_request e hp w req) s) \<noteq> s"
  shows "\<exists>token. token \<noteq> [] \<and> ra_token (ha_auth hp) = Some token \<and> getBearerToken (ha_req hp) = Some token"
  using token_mode_http [OF assms(1)] capability_changes_need_operator assms(2) by (metis presented_def)

definition sample_http :: http_auth_params where
  "sample_http = \<lparr>ha_req = \<lparr>hp_remoteAddress = Some ''10.0.0.9'', hp_headers = [(''authorization'', OneValue ''Bearer secret'')]\<rparr>,
     ha_auth = cp_auth (sample_attempt []), ha_trustedProxies = None, ha_allowRealIpFallback = None, ha_rateLimiter = True,
     ha_allowedOrigins = None, ha_hostHeaderOriginFallback = False\<rparr>"

theorem capability_changes_need_token_witness:
  "\<exists>token. token \<noteq> [] \<and> ra_token (ha_auth sample_http) = Some token \<and> getBearerToken (ha_req sample_http) = Some token"
proof -
  let ?req = "sample_post ''/v1/capabilities/c1/build'' AuthFailed" and ?s = "\<lparr>ca_world = sample_requests_world, ca_cache = []\<rparr>"
  have "gq_auth (authorised_request sample_gateway sample_http sample_limiter ?req) = AuthPassed" by code_simp
  then have req: "authorised_request sample_gateway sample_http sample_limiter ?req = sample_post ''/v1/capabilities/c1/build'' AuthPassed"
    by (simp add: authorised_request_def sample_post_def)
  have "w_ids (ca_world (snd (handleCapabilitiesRequest sample_caps_opts (sample_post ''/v1/capabilities/c1/build'' AuthPassed) ?s))) \<noteq> w_ids (ca_world ?s)"
    by code_simp
  then have "snd (handleCapabilitiesRequest sample_caps_opts (authorised_request sample_gateway sample_http sample_limiter ?req) ?s) \<noteq> ?s"
    unfolding req by metis
  from capability_changes_need_token [OF _ this] show ?thesis by (simp add: sample_http_def sample_attempt_def)
qed

end
