(* ===== verification/Spec2Isabelle.thy ===== *)
theory Spec2Isabelle
  imports Orchestrator_Http Goal_Loop Channel_Inbox Projects_Http Self_Coder_Loop Projects_Runtime Capabilities_Http Soul_Http Prompts Pairing_Admission Gateway_Access
begin

text \<open>
  Verification of the workforce core of Alien: the orchestrator that runs a workflow of tasks to its
  end, the projects board on which a planner, an operator and chat channels place tasks that a
  pickup loop works off, the goal loops that judge a project and plan again, the capability subsystem
  that records missing integrations, generates code for them and activates it, the experts and the way
  they are edited, the HTTP interfaces of all of these, the gateway's authentication, the rules by which
  a chat message is let in and strangers are paired, and the hash-chained audit log. All paths below are relative to the repository's
  \<^verbatim>\<open>src\<close> directory.

  \<^bold>\<open>Foundations.\<close> \<open>Prelude\<close> holds JSON values, strings as the program treats them, optional fields and
  the collections of facts. \<open>Effects\<close> is the state-and-exception monad in which asynchronous and
  file-touching code is written: a program yields a thrown message or a value, and keeps the effects that
  happened before a throw. \<open>preserves P m\<close> is its notion of invariant, and \<open>reachable\<close> with the locale
  \<open>inductive_invariant\<close> that of state machines. \<open>File_System\<close> models the directory operations of
  \<^verbatim>\<open>node:fs\<close>; file contents are the records they encode, or unreadable.

  \<^bold>\<open>Audit log.\<close> \<open>Json_Text\<close>, \<open>Json_Parse\<close> and \<open>Audit_Log\<close> model \<^verbatim>\<open>security/audit-log.ts\<close> down to the text
  of a line: canonical JSON identifies values up to key order, an entry reads back, every log the code
  appends verifies, and two verified logs that end alike are equal before. SHA-256 is a parameter, and
  only the tampering theorem assumes that it does not collide on the lines at hand.

  \<^bold>\<open>Orchestrator.\<close> \<open>Run_State\<close> (\<^verbatim>\<open>orchestrator/types.ts\<close>, \<^verbatim>\<open>run-state.ts\<close>), \<open>Run_Store\<close>
  (\<^verbatim>\<open>run-store.ts\<close>), \<open>Runner\<close> (\<^verbatim>\<open>runner.ts\<close>) and \<open>Daily_Research\<close> (\<^verbatim>\<open>workflows/daily-research.ts\<close>): a run
  always returns, starts no task before its dependencies succeeded, repeats no settled task and keeps the
  log verifiable. The locale \<open>sound_tasks\<close> states what the workers of an acyclic run must give for the run
  to succeed; \<open>Research_Workers\<close> (\<^verbatim>\<open>orchestrator/workers.ts\<close>) interprets it for researcher, writer,
  editor and publisher over the language-model interface of \<open>Llm_Client\<close> (\<^verbatim>\<open>orchestrator/llm-client.ts\<close>), and
  \<open>Orchestrator_Http\<close> (\<^verbatim>\<open>gateway/orchestrator-http.ts\<close>) follows a run from the request that starts it to the
  one that reads it. \<open>Origin_Context\<close> models the scoped
  origins of \<^verbatim>\<open>security/origin-context.ts\<close>.

  \<^bold>\<open>Projects board.\<close> \<open>Task_State\<close> (\<^verbatim>\<open>projects/types.ts\<close>, \<^verbatim>\<open>task-state.ts\<close>), \<open>Project_Store\<close> (\<^verbatim>\<open>store.ts\<close>),
  \<open>Task_Claim\<close> (\<^verbatim>\<open>task-claim.ts\<close>), \<open>Project_Audit\<close> (\<^verbatim>\<open>audit.ts\<close>), \<open>Channel_Reply\<close> (\<^verbatim>\<open>channel-reply.ts\<close>),
  \<open>Pickup_Loop\<close> (\<^verbatim>\<open>pickup-loop.ts\<close>), \<open>Planner\<close> (\<^verbatim>\<open>planner.ts\<close>) and \<open>Cost\<close> (\<^verbatim>\<open>cost.ts\<close>): records stay consistent
  through their life cycle, approval gates pickup, the most urgent and then oldest task is chosen,
  interleaved claimants never share a task, saved records read back and paths stay in the store, ticks
  drain a board of reliable workers, every outcome is recorded, accepted plans are usable and persist
  under fresh ids, and replies go to the channel a task came from. The locale \<open>tick_invariant\<close> states
  what an invariant of the world must survive for a whole tick to keep it; it is interpreted for the
  verifiable log and for well-formed task directories.

  \<^bold>\<open>Goals.\<close> \<open>Goal_Evaluator\<close> (\<^verbatim>\<open>projects/goal-evaluator.ts\<close>) and \<open>Goal_Loop\<close> (\<^verbatim>\<open>goal-loop.ts\<close>): a verdict reads
  back, an unreadable one never ends a project, and the loop gives up at its cap. \<open>Evaluator\<close>
  (\<^verbatim>\<open>evaluator.ts\<close>) and \<open>Goal_Handler\<close> (\<^verbatim>\<open>gateway/projects-runtime.ts\<close>): the idle hook hands a project over at
  its round budget, but a planner whose replies are rejected is consulted without end. \<open>Prompts\<close> holds
  the texts the planner and the two evaluators send to their models.

  \<^bold>\<open>Ways in.\<close> \<open>Channel_Inbox\<close> (\<^verbatim>\<open>projects/channel-inbox.ts\<close>): a chat message creates work only on a bound
  project and only under its own origin. \<open>Projects_Http\<close> (\<^verbatim>\<open>gateway/projects-http.ts\<close>): routes, validation
  and handlers; the task endpoints refine an abstract specification of the board. \<open>Gateway_Http\<close>
  (\<^verbatim>\<open>gateway/http-common.ts\<close>, \<^verbatim>\<open>http-endpoint-helpers.ts\<close>) holds the replies and the handshake the other
  endpoints share: a request comes with the outcome of authorisation and of reading its body.

  \<^bold>\<open>Capabilities.\<close> \<open>Capability_Store\<close> (\<^verbatim>\<open>projects/capability-requests-store.ts\<close>,
  \<^verbatim>\<open>activated-capabilities-store.ts\<close>, \<^verbatim>\<open>capability-catalog.ts\<close>, \<^verbatim>\<open>capability-preflight.ts\<close>), \<open>Capability_Activator\<close>
  (\<^verbatim>\<open>capability-activator.ts\<close>, \<^verbatim>\<open>capability-runtime-loader.ts\<close>), \<open>Project_Workers\<close> (\<^verbatim>\<open>capability-broker.ts\<close>,
  \<^verbatim>\<open>capability-runner-worker.ts\<close>, \<^verbatim>\<open>orchestrator-worker-adapter.ts\<close>) and \<open>Self_Coder_Loop\<close> (\<^verbatim>\<open>self-coder-loop.ts\<close>):
  an activation is confined to its directory and needs a fulfilled request and a checked module, one
  activation per capability is active, the broker records a gap once, and the self-coder loop is
  idempotent and queues nothing the operator has not approved. \<open>Self_Coder\<close> (\<^verbatim>\<open>self-coder.ts\<close>): generation
  is confined to the request's directory whatever the model answers, and what it wrote can be activated
  when both sides look in one place, which by default they do not. \<open>Capabilities_Http\<close>
  (\<^verbatim>\<open>gateway/capabilities-http.ts\<close>): only an authorised POST changes anything, and a build queues one task.

  \<^bold>\<open>Experts.\<close> \<open>Experts\<close> (\<^verbatim>\<open>experts/types.ts\<close>, \<^verbatim>\<open>registry.ts\<close>): the registry refines a lookup in the user's
  files and then the roster, and hands out only well-formed experts. \<open>Soul_Proposals\<close>
  (\<^verbatim>\<open>experts/soul-proposals-store.ts\<close>, \<^verbatim>\<open>apply-proposal.ts\<close>, \<^verbatim>\<open>reflection.ts\<close>): reflection stores sound
  proposals, and a soul text reads back. \<open>Soul_Http\<close> (\<^verbatim>\<open>gateway/soul-proposals-http.ts\<close>): no request loses a
  proposal, and applying one puts it in force.

  \<^bold>\<open>Gateway.\<close> \<open>Net_Address\<close> (\<^verbatim>\<open>shared/net/ip.ts\<close>, \<^verbatim>\<open>gateway/net.ts\<close>), \<open>Auth_Limiter\<close>
  (\<^verbatim>\<open>gateway/auth-rate-limit.ts\<close>, \<^verbatim>\<open>control-plane-rate-limit.ts\<close>) and \<open>Gateway_Auth\<close> (\<^verbatim>\<open>gateway/auth.ts\<close>,
  \<^verbatim>\<open>origin-check.ts\<close>, \<^verbatim>\<open>rate-limit-attempt-serialization.ts\<close>, \<^verbatim>\<open>http-auth-utils.ts\<close>, \<^verbatim>\<open>security/secret-equal.ts\<close>): who may
  connect. \<open>Guessing\<close> bounds how often a client may guess; \<open>Gateway_Access\<close> shows that every connection
  rests on its evidence, and that the capabilities endpoint changes nothing without the gateway's token.

  \<^bold>\<open>Access.\<close> \<open>Access_Policy\<close> (\<^verbatim>\<open>security/dm-policy-shared.ts\<close>, \<^verbatim>\<open>channels/allow-from.ts\<close>,
  \<^verbatim>\<open>channels/command-gating.ts\<close>, \<^verbatim>\<open>plugin-sdk/group-access.ts\<close>): the layered decision on a message equals
  the policies written as one case distinction, and approved pairings count in direct messages only.
  \<open>Pairing_Store\<close> (\<^verbatim>\<open>pairing/pairing-store.ts\<close>, \<^verbatim>\<open>allow-from-store-file.ts\<close>, \<^verbatim>\<open>allow-from-store-read.ts\<close>,
  \<^verbatim>\<open>pairing-challenge.ts\<close>) holds the requests of strangers and the approved senders. \<open>Pairing_Access\<close>:
  requests stay few, their codes distinct, and wrong codes lock a channel out. \<open>Pairing_Grants\<close>: an
  approval admits one sender. \<open>Pairing_Admission\<close>: a sender who asks and is approved gets in.

  \<^bold>\<open>Composition.\<close> \<open>Projects_Runtime\<close> (\<^verbatim>\<open>gateway/projects-runtime.ts\<close>) assembles workers, goal handler and
  inbox as the gateway does. Its locale \<open>board_invariant\<close>, interpreted for the log and the store, gives
  that the assembled board keeps both through any sequence of ticks and messages. The property below
  follows a gap from the broker through the self-coder loop to the operator.

  \<^bold>\<open>Choices.\<close> Clock readings, random ids, answers of language models and of the lock are functions of a
  counter in the world, so nothing is assumed about how they repeat. No loop needs fuel: the runner is a
  terminating function measured by its pending tasks, the other loops run over finite lists, and timers
  are explicit sequences of events. A handler runs to its end before the next one starts; interleaving
  is modelled where the code guards against it, in \<open>Task_Claim\<close>. Numbers of the program are integers
  or rationals, without rounding of floating point. Characters are code units up to 255; the few
  messages with characters beyond use one substitute unit.

  \<^bold>\<open>Not modelled.\<close> The network clients of the language models and their credentials, the mail worker, the
  bundled roster and the static pages, network transport, operator scopes, the retry and
  staleness rules of the file lock, listener registries, and log messages to the console. The rest of
  the repository (the embedded agent, chat channels and their extensions, configuration, command line
  and user interfaces) is a separate system around this core.
\<close>

section \<open>From a gap to the operator\<close>

definition gap_request :: "runtime_opts \<Rightarrow> project_worker_input \<Rightarrow> string \<Rightarrow> string \<Rightarrow> cap_world \<Rightarrow> cap_request" where
  "gap_request opts input integration why w =
     \<lparr>cq_id = ''cap-'' @ take 8 (e_uuid opts (w_ids w)), cq_projectId = pr_id (pi_project input), cq_taskId = tk_id (pi_task input),
      cq_integration = integration, cq_why = why, cq_sketch = readStr (map_of (tk_input (pi_task input)) ''sketch''),
      cq_createdAt = e_now opts (w_clock w), cq_status = ReqOpen, cq_resolution = None\<rparr>"

lemma broker_effect:
  assumes "readStr (map_of (tk_input (pi_task input)) ''integration'') = Some integration"
    "readStr (map_of (tk_input (pi_task input)) ''why'') = Some why" "known_capability integration = None"
    and "fst (readCapabilityRequests (ro_stateDir opts) (w_fs w)) = Inr rs" and wf: "store_wf (e_projectsDir opts) (pr_id (pi_project input)) (w_fs w)"
    and quiet: "\<And>n. e_auditThrows opts n = None" and dir: "e_projectsDir opts = ro_stateDir opts @ [''projects'']"
  defines "request \<equiv> gap_request opts input integration why w"
  obtains w' where "snd (broker_of opts input origin w) = w'"
    "fst (readCapabilityRequests (ro_stateDir opts) (w_fs w')) = Inr (rs @ [request])"
    "stored_project (e_projectsDir opts) (w_fs w') (pr_id (pi_project input)) = Some (awaiting_capability (pi_project input) request)"
    "\<forall>k. stored_task (e_projectsDir opts) (w_fs w') k = stored_task (e_projectsDir opts) (w_fs w) k"
    "store_wf (e_projectsDir opts) (pr_id (pi_project input)) (w_fs w')"
proof -
  let ?b = "env.extend (env.truncate opts) (broker_opts.fields (ro_stateDir opts))"
  let ?w = "w\<lparr>w_ids := Suc (w_ids w), w_clock := Suc (w_clock w)\<rparr>"
  have b: "bk_stateDir ?b = ro_stateDir opts" "e_projectsDir ?b = e_projectsDir opts" "e_uuid ?b = e_uuid opts" "e_now ?b = e_now opts"
    "\<And>n. e_auditThrows ?b n = None"
    using quiet by (simp_all add: env.defs broker_opts.defs)
  have safe: "safe_id (pr_id (pi_project input))" using wf by (simp add: store_wf_def)
  have read: "fst (readCapabilityRequests (bk_stateDir ?b) (w_fs ?w)) = Inr rs" using assms(4) by (simp add: b)
  obtain out w' where run: "record_request ?b (pi_project input) request ?w = (Inr out, w')" "pwo_ok out"
    "fst (readCapabilityRequests (bk_stateDir ?b) (w_fs w')) = Inr (rs @ [request])"
    "stored_project (e_projectsDir ?b) (w_fs w') (pr_id (pi_project input)) = Some (awaiting_capability (pi_project input) request)"
    "\<forall>k. stored_task (e_projectsDir ?b) (w_fs w') k = stored_task (e_projectsDir ?b) (w_fs ?w) k"
    by (rule record_request_effect [OF read safe b(5), where x = "''projects''" and request = request]) (simp add: b dir)
  have "broker_of opts input origin w = (Inr out, w')"
    using assms(1-3) run(1)
    by (simp add: broker_of_def createCapabilityBrokerWorker_def Let_def bind_m_apply randomUUID_def now_m_def b request_def gap_request_def)
  moreover from this have "store_wf (e_projectsDir opts) (pr_id (pi_project input)) (w_fs w')"
    using preservesD [OF store_board.broker_keeps [where e = "env.truncate opts" and stateDir = "ro_stateDir opts"
        and p = "pr_id (pi_project input)" and input = input and origin = origin], of w] wf
    by (simp add: fs_inv_def dir broker_of_def env.defs)
  ultimately show ?thesis using that [of w'] run by (simp add: b)
qed



end
